(* ===== verification/Prelude.thy ===== *)
theory Prelude
  imports Main "HOL-Library.Word" "HOL-Library.Finite_Map" "HOL-Library.Char_ord"
    "HOL-Library.List_Lexorder" "HOL-Library.Product_Lexorder"
begin

text \<open>
  Shared vocabulary of the development: the machine types of the Rust code, the error
  propagation operator, the comparison-based choice \<open>Iterator::max_by\<close> of the standard
  library, saturating arithmetic on machine words, and lemmas about lists and finite maps that
  several components use.

  Rust types are rendered as follows. \<open>u8\<close>, \<open>u32\<close> and \<open>u64\<close> are words of
  their width, \<open>usize\<close> is \<open>nat\<close> (lengths and indices, never close to the limit),
  \<open>String\<close> is the list of its UTF-8 bytes, so \<open>length\<close> is \<open>str::len\<close> and
  the order on strings is the byte order. \<open>Uuid\<close> is its 128-bit value (its derived order is
  the order of that value) and \<open>DateTime<Utc>\<close> is a signed count of nanoseconds.
  \<open>BTreeMap\<close> and \<open>HashMap\<close> are finite maps. Imports make strings and pairs
  linear orders, lexicographically, as the derived \<open>Ord\<close> of Rust does.
\<close>

section \<open>Machine types\<close>

type_synonym u8 = "8 word"
type_synonym u32 = "32 word"
type_synonym u64 = "64 word"
type_synonym uuid = "128 word"
type_synonym ts = int

named_theorems keeplin_simps "unfolding rules of the model's straight-line operations"
named_theorems keeplin_inv "preservation lemmas of the well-formedness invariants"

section \<open>Saturating arithmetic\<close>

text \<open>\<open>u32::saturating_add\<close> and \<open>u64::saturating_add\<close>.\<close>

definition saturating_add :: "'a::len word \<Rightarrow> 'a word \<Rightarrow> 'a word" where
  "saturating_add a b = (if unat a + unat b < 2 ^ LENGTH('a) then a + b else - 1)"

lemma unat_saturating_add:
  "unat (saturating_add a (b :: 'a::len word)) = min (unat a + unat b) (2 ^ LENGTH('a) - 1)"
proof (cases "unat a + unat b < 2 ^ LENGTH('a)")
  case True
  then have "unat (a + b) = unat a + unat b"
    by (simp add: unat_add_lem)
  with True show ?thesis
    by (simp add: saturating_add_def)
next
  case False
  then have "min (unat a + unat b) (2 ^ LENGTH('a) - 1) = 2 ^ LENGTH('a) - (1 :: nat)"
    by (simp only: min_def) (metis diff_le_self le_antisym not_less le_trans)
  with False show ?thesis
    by (simp add: saturating_add_def unsigned_minus_1_eq_mask mask_eq_exp_minus_1)
qed

lemma saturating_add_ge: "a \<le> saturating_add a (b :: 'a::len word)"
proof -
  have "unat a \<le> 2 ^ LENGTH('a) - 1"
    using unsigned_less [of a, where ?'a = nat] by linarith
  then show ?thesis
    by (simp add: word_le_nat_alt unat_saturating_add)
qed

section \<open>Error propagation\<close>

text \<open>
  A fallible operation on a store returns its result (\<open>Inl\<close> the error, \<open>Inr\<close> the
  value) together with the store it leaves, also when it fails. \<open>and_then\<close> is the
  \<open>?\<close> operator: an error returns at once with the store as it is.
\<close>

type_synonym ('e, 'a, 's) outcome = "('e + 'a) \<times> 's"

fun and_then :: "('e, 'a, 's) outcome \<Rightarrow> ('a \<Rightarrow> 's \<Rightarrow> ('e, 'b, 's) outcome) \<Rightarrow> ('e, 'b, 's) outcome" where
  "and_then (Inl e, s) k = (Inl e, s)"
| "and_then (Inr x, s) k = k x s"

lemma and_then_ok:
  "and_then m k = (Inr y, t) \<longleftrightarrow> (\<exists>x s. m = (Inr x, s) \<and> k x s = (Inr y, t))"
  by (cases "(m, k)" rule: and_then.cases) auto

lemma and_then_err:
  "and_then m k = (Inl e, t) \<longleftrightarrow>
     m = (Inl e, t) \<or> (\<exists>x s. m = (Inr x, s) \<and> k x s = (Inl e, t))"
  by (cases "(m, k)" rule: and_then.cases) auto

text \<open>The same for a pure fallible computation.\<close>

fun try_then :: "'e + 'a \<Rightarrow> ('a \<Rightarrow> 'e + 'b) \<Rightarrow> 'e + 'b" where
  "try_then (Inl e) k = Inl e"
| "try_then (Inr x) k = k x"

lemma try_then_err:
  "try_then m k = Inl e \<longleftrightarrow> m = Inl e \<or> (\<exists>x. m = Inr x \<and> k x = Inl e)"
  by (cases m) auto

lemma try_then_ok: "try_then m k = Inr y \<longleftrightarrow> (\<exists>x. m = Inr x \<and> k x = Inr y)"
  by (cases m) auto

section \<open>Choosing a maximum\<close>

text \<open>
  \<open>Iterator::max_by\<close> and \<open>max_by_key\<close> keep the later of two elements that compare
  equal, so the choice is the last element with the greatest key.
\<close>

fun max_by_key :: "('a \<Rightarrow> 'k::linorder) \<Rightarrow> 'a list \<Rightarrow> 'a option" where
  "max_by_key f [] = None"
| "max_by_key f (x # xs) = Some (fold (\<lambda>y acc. if f y < f acc then acc else y) xs x)"

lemma fold_max_split:
  "\<exists>as bs. x # xs = as @ fold (\<lambda>y acc. if f y < f acc then acc else y) xs x # bs \<and>
     (\<forall>a\<in>set as. f a \<le> (f (fold (\<lambda>y acc. if f y < f acc then acc else y) xs x) :: 'k::linorder)) \<and>
     (\<forall>b\<in>set bs. f b < f (fold (\<lambda>y acc. if f y < f acc then acc else y) xs x))"
proof (induction xs rule: rev_induct)
  case Nil
  show ?case by (intro exI [of _ "[]"]) simp
next
  case (snoc y xs)
  let ?m = "fold (\<lambda>y acc. if f y < f acc then acc else y) xs x"
  from snoc.IH obtain as bs where split: "x # xs = as @ ?m # bs"
    and as: "\<forall>a\<in>set as. f a \<le> f ?m" and bs: "\<forall>b\<in>set bs. f b < f ?m" by blast
  show ?case
  proof (cases "f y < f ?m")
    case True
    with split as bs show ?thesis
      by (intro exI [of _ as] exI [of _ "bs @ [y]"]) (auto simp flip: append_Cons)
  next
    case False
    have "\<forall>a\<in>set (x # xs). f a \<le> f y"
      using as bs False unfolding split by fastforce
    with False show ?thesis
      by (intro exI [of _ "x # xs"] exI [of _ "[]"]) auto
  qed
qed

lemma max_by_key_split:
  assumes "max_by_key f xs = Some m"
  obtains as bs where "xs = as @ m # bs" "\<forall>a\<in>set as. f a \<le> f m" "\<forall>b\<in>set bs. f b < f m"
proof (cases xs)
  case Nil
  with assms show ?thesis by simp
next
  case (Cons y ys)
  with assms fold_max_split [of y ys f] that show ?thesis by auto
qed

lemma max_by_key_None [simp]: "max_by_key f xs = None \<longleftrightarrow> xs = []"
  by (cases xs) auto

lemma max_by_key_in: "max_by_key f xs = Some m \<Longrightarrow> m \<in> set xs"
  by (metis in_set_conv_decomp max_by_key_split)

lemma max_by_key_ge: "max_by_key f xs = Some m \<Longrightarrow> y \<in> set xs \<Longrightarrow> f y \<le> f m"
  by (elim max_by_key_split) fastforce

lemma max_by_key_eqI:
  assumes "xs = as @ m # bs" and "\<forall>a\<in>set as. f a \<le> f m" and "\<forall>b\<in>set bs. f b < (f m :: 'k::linorder)"
  shows "max_by_key f xs = Some m"
proof -
  obtain m' where m': "max_by_key f xs = Some m'"
    using assms(1) by (cases "max_by_key f xs") auto
  then obtain as' bs' where d: "xs = as' @ m' # bs'" "\<forall>a\<in>set as'. f a \<le> f m'" "\<forall>b\<in>set bs'. f b < f m'"
    by (rule max_by_key_split)
  have eq: "f m = f m'"
  proof (rule antisym)
    show "f m \<le> f m'"
      using max_by_key_ge [OF m', of m] assms(1) by simp
    have "m' \<in> set as \<union> {m} \<union> set bs"
      using max_by_key_in [OF m'] assms(1) by simp
    with assms(2,3) show "f m' \<le> f m" by auto
  qed
  from assms(1) d(1) consider us where "as' = as @ us" "us @ m' # bs' = m # bs"
    | us where "as = as' @ us" "us @ m # bs = m' # bs'"
    by (auto simp: append_eq_append_conv2)
  then have "m = m'"
  proof cases
    case 1
    have "m' \<notin> set bs" using assms(3) eq by auto
    with 1(2) show ?thesis by (cases us) auto
  next
    case 2
    have "m \<notin> set bs'" using d(3) eq by auto
    with 2(2) show ?thesis by (cases us) auto
  qed
  with m' show ?thesis by simp
qed

text \<open>With distinct keys the choice depends on the set of elements only.\<close>

lemma max_by_key_set:
  assumes "set xs = set ys" and "inj_on f (set xs)"
  shows "max_by_key f xs = max_by_key f (ys :: 'a list)"
proof (cases "max_by_key f xs")
  case None
  with assms show ?thesis by simp
next
  case (Some m)
  then obtain m' where m': "max_by_key f ys = Some m'"
    using assms(1) by (cases "max_by_key f ys") auto
  have "f m = f m'"
    using max_by_key_ge [OF Some, of m'] max_by_key_ge [OF m', of m]
      max_by_key_in [OF Some] max_by_key_in [OF m'] assms(1) by simp
  with assms max_by_key_in [OF Some] max_by_key_in [OF m'] have "m = m'"
    by (simp add: inj_on_def)
  with Some m' show ?thesis by simp
qed

lemma max_by_key_map: "max_by_key f (map g xs) = map_option g (max_by_key (f \<circ> g) xs)"
proof (cases "max_by_key (f \<circ> g) xs")
  case None
  then show ?thesis by simp
next
  case (Some m)
  then obtain as bs where "xs = as @ m # bs"
    "\<forall>a\<in>set as. (f \<circ> g) a \<le> (f \<circ> g) m" "\<forall>b\<in>set bs. (f \<circ> g) b < (f \<circ> g) m"
    by (rule max_by_key_split)
  then have "max_by_key f (map g xs) = Some (g m)"
    by (intro max_by_key_eqI [where as = "map g as" and bs = "map g bs"]) auto
  with Some show ?thesis by simp
qed

text \<open>A segment may be replaced by its maximum.\<close>

lemma max_by_key_segment:
  assumes "max_by_key f zs = Some m"
  shows "max_by_key f (as @ zs @ bs) = max_by_key f (as @ m # bs)"
proof -
  from assms obtain zs1 zs2 where zs: "zs = zs1 @ m # zs2"
    "\<forall>a\<in>set zs1. f a \<le> f m" "\<forall>b\<in>set zs2. f b < f m" by (rule max_by_key_split)
  obtain w where w: "max_by_key f (as @ m # bs) = Some w"
    by (cases "max_by_key f (as @ m # bs)") auto
  then obtain us vs where uv: "as @ m # bs = us @ w # vs"
    "\<forall>a\<in>set us. f a \<le> f w" "\<forall>b\<in>set vs. f b < f w" by (rule max_by_key_split)
  have mw: "f m \<le> f w" using max_by_key_ge [OF w, of m] by simp
  from uv(1) consider
      ps where "us = as @ m # ps" "bs = ps @ w # vs"
    | "us = as" "w = m" "vs = bs"
    | ps where "as = us @ w # ps" "vs = ps @ m # bs"
    by (auto simp: append_eq_append_conv2 append_eq_Cons_conv Cons_eq_append_conv)
  then have "max_by_key f (as @ zs @ bs) = Some w"
  proof cases
    case 1
    with uv zs mw show ?thesis
      by (intro max_by_key_eqI [where as = "as @ zs @ ps" and bs = vs]) force+
  next
    case 2
    with uv zs show ?thesis
      by (intro max_by_key_eqI [where as = "as @ zs1" and bs = "zs2 @ bs"]) auto
  next
    case 3
    with uv zs show ?thesis
      by (intro max_by_key_eqI [where as = us and bs = "ps @ zs @ bs"]) force+
  qed
  with w show ?thesis by simp
qed

lemma max_by_key_cong:
  assumes "\<And>x y. x \<in> set xs \<Longrightarrow> y \<in> set xs \<Longrightarrow> f x < f y \<longleftrightarrow> g x < g y"
  shows "max_by_key f xs = max_by_key g (xs :: 'a list)"
proof (cases "max_by_key f xs")
  case None
  then show ?thesis by simp
next
  case (Some m)
  from Some max_by_key_in have m: "m \<in> set xs" by metis
  from Some obtain as bs where s: "xs = as @ m # bs" "\<forall>a\<in>set as. f a \<le> f m" "\<forall>b\<in>set bs. f b < f m"
    by (rule max_by_key_split)
  have "max_by_key g xs = Some m"
    by (rule max_by_key_eqI [OF s(1)]) (use s assms [of m] assms [of _ m] m in \<open>auto simp: not_less [symmetric]\<close>)
  with Some show ?thesis by simp
qed

section \<open>Filtering maps\<close>

lemma map_filter_append [simp]: "List.map_filter f (xs @ ys) = List.map_filter f xs @ List.map_filter f ys"
  by (simp add: List.map_filter_def)

lemma map_filter_Cons [simp]:
  "List.map_filter f (x # xs) = (case f x of None \<Rightarrow> List.map_filter f xs | Some y \<Rightarrow> y # List.map_filter f xs)"
  by (simp add: List.map_filter_def split: option.splits)

lemma map_filter_Nil [simp]: "List.map_filter f [] = []"
  by (simp add: List.map_filter_def)

lemma map_filter_cong: "(\<And>x. x \<in> set xs \<Longrightarrow> f x = g x) \<Longrightarrow> List.map_filter f xs = List.map_filter g xs"
  by (induction xs) (auto split: option.splits)

lemma map_filter_restrict:
  "(\<And>x. x \<in> set xs \<Longrightarrow> \<not> P x \<Longrightarrow> f x = None) \<Longrightarrow> List.map_filter f (filter P xs) = List.map_filter f xs"
  by (induction xs) (auto split: option.splits)

lemma map_filter_total: "(\<And>x. x \<in> set xs \<Longrightarrow> f x = Some (g x)) \<Longrightarrow> List.map_filter f xs = map g xs"
  by (induction xs) auto

lemma set_map_filter: "set (List.map_filter f xs) = {y. \<exists>x\<in>set xs. f x = Some y}"
  by (induction xs) (auto split: option.splits)

end
