(* ===== verification/Models.thy ===== *)
theory Models
  imports Prelude
begin

text \<open>
  The domain model, \<open>keeplin-core/src/models.rs\<close>, with the bookmark and link records of
  \<open>links.rs\<close>, the error type of \<open>error.rs\<close> and the version vectors that every record
  carries (\<open>storage/note_log.rs\<close>). Field names keep the source's names behind a letter for
  the entity (\<open>n_\<close> note, \<open>nb_\<close> notebook, \<open>t_\<close> tag, \<open>r_\<close> resource).
  A fresh identifier (\<open>new_id\<close>) and the clock (\<open>now\<close>) are inputs of the constructors.
\<close>

section \<open>Errors\<close>

text \<open>
  \<open>StorageError\<close>. The variants are the source's; the human-readable text each carries is
  left out, as no code path reads it back. \<open>Panic\<close> is not a variant of the source: it stands
  for a Rust panic (\<open>expect\<close> on \<open>None\<close>, an index out of range) that unwinds out of
  an operation.
\<close>

datatype StorageError =
    Io | Serialization | Database | WebSocket | NotFound | Conflict
  | InvalidState | InvalidInput | CorruptedData | TooLarge | Panic

type_synonym 'a res = "StorageError + 'a"
type_synonym ('a, 's) op = "(StorageError, 'a, 's) outcome"

section \<open>Version vectors\<close>

type_synonym vv = "(string, u64) fmap"

section \<open>Bookmarks and links\<close>

datatype LinkSource = Content | Manual

record Bookmark =
  bm_number :: u32
  bm_text :: string
  bm_alias :: string

record NoteLink =
  l_source :: LinkSource
  l_raw :: string
  l_target_note_id :: "uuid option"

section \<open>Notes\<close>

record Note =
  n_id :: uuid
  n_title :: string
  n_body :: string
  n_notebook_id :: uuid
  n_is_todo :: bool
  n_todo_due :: "ts option"
  n_todo_completed :: "ts option"
  n_created_at :: ts
  n_updated_at :: ts
  n_deleted_at :: "ts option"
  n_alias :: "string option"
  n_bookmarks :: "Bookmark list"
  n_links :: "NoteLink list"
  n_vv :: vv
  n_last_writer :: string
  n_is_pinned :: bool
  n_is_starred :: bool
  n_sort_key :: u32

text \<open>\<open>Uuid::nil\<close>.\<close>

definition uuid_nil :: uuid where
  "uuid_nil = 0"

text \<open>\<open>Note::DEFAULT_SORT_KEY\<close>, \<open>Note::new\<close> and \<open>Note::effective_sort_key\<close>.\<close>

definition DEFAULT_SORT_KEY :: u32 where
  "DEFAULT_SORT_KEY = 1000"

definition new_note :: "uuid \<Rightarrow> ts \<Rightarrow> string \<Rightarrow> string \<Rightarrow> Note" where
  "new_note fresh now title body =
     \<lparr>n_id = fresh, n_title = title, n_body = body, n_notebook_id = uuid_nil,
      n_is_todo = False, n_todo_due = None, n_todo_completed = None,
      n_created_at = now, n_updated_at = now, n_deleted_at = None,
      n_alias = None, n_bookmarks = [], n_links = [],
      n_vv = fmempty, n_last_writer = [],
      n_is_pinned = False, n_is_starred = False, n_sort_key = 0\<rparr>"

definition effective_sort_key :: "Note \<Rightarrow> u32" where
  "effective_sort_key n = (if n_sort_key n = 0 then DEFAULT_SORT_KEY else n_sort_key n)"

lemma effective_sort_key_pos: "0 < effective_sort_key n"
  by (simp add: effective_sort_key_def DEFAULT_SORT_KEY_def word_neq_0_conv)

section \<open>Notebooks, tags, resources\<close>

record Notebook =
  nb_id :: uuid
  nb_title :: string
  nb_created_at :: ts
  nb_updated_at :: ts
  nb_deleted_at :: "ts option"
  nb_alias :: "string option"
  nb_vv :: vv
  nb_last_writer :: string

definition new_notebook :: "uuid \<Rightarrow> ts \<Rightarrow> string \<Rightarrow> Notebook" where
  "new_notebook fresh now title =
     \<lparr>nb_id = fresh, nb_title = title, nb_created_at = now, nb_updated_at = now,
      nb_deleted_at = None, nb_alias = None, nb_vv = fmempty, nb_last_writer = []\<rparr>"

record Tag =
  t_id :: uuid
  t_title :: string
  t_created_at :: ts
  t_updated_at :: ts
  t_deleted_at :: "ts option"
  t_vv :: vv
  t_last_writer :: string
  t_system :: bool

definition new_tag :: "uuid \<Rightarrow> ts \<Rightarrow> string \<Rightarrow> Tag" where
  "new_tag fresh now title =
     \<lparr>t_id = fresh, t_title = title, t_created_at = now, t_updated_at = now,
      t_deleted_at = None, t_vv = fmempty, t_last_writer = [], t_system = False\<rparr>"

record NoteTag =
  nt_note_id :: uuid
  nt_tag_id :: uuid

definition SYSTEM_RESOURCE_NOTE_ID :: uuid where
  "SYSTEM_RESOURCE_NOTE_ID = 1"

record Resource =
  r_id :: uuid
  r_note_id :: uuid
  r_title :: string
  r_mime_type :: string
  r_file_name :: string
  r_size :: u64
  r_duration_ms :: "u64 option"
  r_dimensions :: "(u32 \<times> u32) option"
  r_created_at :: ts
  r_deleted_at :: "ts option"
  r_vv :: vv
  r_last_writer :: string

definition new_resource :: "uuid \<Rightarrow> ts \<Rightarrow> uuid \<Rightarrow> string \<Rightarrow> string \<Rightarrow> string \<Rightarrow> u64 \<Rightarrow> Resource" where
  "new_resource fresh now note_id title mime file sz =
     \<lparr>r_id = fresh, r_note_id = note_id, r_title = title, r_mime_type = mime,
      r_file_name = file, r_size = sz, r_duration_ms = None, r_dimensions = None,
      r_created_at = now, r_deleted_at = None, r_vv = fmempty, r_last_writer = []\<rparr>"

section \<open>Changes\<close>

text \<open>
  \<open>enum Change\<close>, the unit of synchronisation. The arguments of each variant are its fields
  in the source's order: a deletion carries the id, \<open>deleted_at\<close>, the version vector and the
  last writer; a note-tag change the two ids, \<open>updated_at\<close>, the vector and the writer.
\<close>

datatype Change =
    NoteCreate Note
  | NoteUpdate Note
  | NoteDelete uuid ts vv string
  | NotebookCreate Notebook
  | NotebookUpdate Notebook
  | NotebookDelete uuid ts vv string
  | TagCreate Tag
  | TagUpdate Tag
  | TagDelete uuid ts vv string
  | NoteTagAdd uuid uuid ts vv string
  | NoteTagRemove uuid uuid ts vv string
  | ResourceCreate Resource "u8 list option"
  | ResourceDelete uuid ts vv string

end
