(* ===== verification/Version_Vectors.thy ===== *)
theory Version_Vectors
  imports Models "HOL-Library.Multiset"
begin

text \<open>
  The version vectors of \<open>keeplin-core/src/storage/note_log.rs\<close> and their order theory: dominance
  is a preorder, the join is its least upper bound and a commutative idempotent monoid, and on
  vectors without explicit zeros dominance is antisymmetric.
\<close>

section \<open>Version vectors\<close>

text \<open>
  \<open>vv_get\<close> is \<open>get(k).copied().unwrap_or(0)\<close>. \<open>increment\<close> adds on 64-bit words (the
  release build wraps); \<open>dominates\<close> and \<open>join\<close> run over the entries of \<open>b\<close> in key
  order, as \<open>BTreeMap\<close> iterates.
\<close>

definition vv_get :: "vv \<Rightarrow> string \<Rightarrow> u64" where
  "vv_get v k = (case fmlookup v k of None \<Rightarrow> 0 | Some c \<Rightarrow> c)"

definition increment :: "vv \<Rightarrow> string \<Rightarrow> vv" where
  "increment v device = fmupd device (vv_get v device + 1) v"

definition dominates :: "vv \<Rightarrow> vv \<Rightarrow> bool" where
  "dominates a b = list_all (\<lambda>(k, bv). bv \<le> vv_get a k) (sorted_list_of_fmap b)"

definition join :: "vv \<Rightarrow> vv \<Rightarrow> vv" where
  "join a b = fold (\<lambda>(k, bv) out. fmupd k (max (vv_get out k) bv) out) (sorted_list_of_fmap b) a"

lemma vv_get_upd [simp]: "vv_get (fmupd k c v) k' = (if k = k' then c else vv_get v k')"
  by (simp add: vv_get_def)

lemma vv_get_empty [simp]: "vv_get fmempty k = 0"
  by (simp add: vv_get_def)

lemma vv_get_increment [simp]:
  "vv_get (increment v d) k = (if k = d then vv_get v d + 1 else vv_get v k)"
  by (simp add: increment_def)

lemma sorted_list_of_fmap_mem:
  "(k, c) \<in> set (sorted_list_of_fmap m) \<longleftrightarrow> fmlookup m k = Some c"
  by (auto simp: sorted_list_of_fmap_def fmdom'_notI fmlookup_dom'_iff image_iff
      fmdom'_alt_def [symmetric] intro!: fmdomI)

lemma dominates_iff: "dominates a b \<longleftrightarrow> (\<forall>k. vv_get b k \<le> vv_get a k)"
proof -
  have "dominates a b \<longleftrightarrow> (\<forall>k c. fmlookup b k = Some c \<longrightarrow> c \<le> vv_get a k)"
    by (auto simp: dominates_def list_all_iff sorted_list_of_fmap_mem)
  then show ?thesis
    by (auto simp: vv_get_def [of b] split: option.splits)
qed

lemma dominates_refl [simp]: "dominates a a"
  by (simp add: dominates_iff)

lemma dominates_trans: "dominates a b \<Longrightarrow> dominates b c \<Longrightarrow> dominates a c"
  unfolding dominates_iff by (meson order_trans)

lemma dominates_antisym_get: "dominates a b \<Longrightarrow> dominates b a \<Longrightarrow> vv_get a = vv_get b"
  unfolding dominates_iff by (intro ext antisym) simp_all

lemma dominates_incrementI:
  assumes "vv_get v d \<noteq> - 1"
  shows "dominates (increment v d) v" and "\<not> dominates v (increment v d)"
proof -
  have "vv_get v d < vv_get v d + 1"
    using inc_less_eq_self_iff_eq [of "vv_get v d"] assms by (simp only: not_le [symmetric]) simp
  then show "dominates (increment v d) v" and "\<not> dominates v (increment v d)"
    by (auto simp: dominates_iff)
qed

lemma join_fold_lookup:
  "distinct (map fst xs) \<Longrightarrow>
   fmlookup (fold (\<lambda>(k, bv) out. fmupd k (max (vv_get out k) bv) out) xs a) k =
     (case map_of xs k of None \<Rightarrow> fmlookup a k | Some c \<Rightarrow> Some (max (vv_get a k) c))"
proof (induction xs arbitrary: a)
  case Nil
  show ?case by simp
next
  case (Cons p xs)
  obtain k' c' where p: "p = (k', c')" by (cases p)
  from Cons.prems p have "map_of xs k' = None"
    by (simp add: map_of_eq_None_iff)
  with Cons p show ?case
    by (auto split: option.splits)
qed

lemma fmlookup_join:
  "fmlookup (join a b) k =
     (case fmlookup b k of None \<Rightarrow> fmlookup a k | Some c \<Rightarrow> Some (max (vv_get a k) c))"
proof -
  have "distinct (map fst (sorted_list_of_fmap b))"
    by (simp add: sorted_list_of_fmap_def comp_def sorted_list_of_fset.rep_eq)
  then show ?thesis
    by (simp add: join_def join_fold_lookup)
qed

lemma vv_get_join [simp]: "vv_get (join a b) k = max (vv_get a k) (vv_get b k)"
  unfolding vv_get_def [of "join a b"] vv_get_def [of b] fmlookup_join
  by (cases "fmlookup b k"; cases "fmlookup a k") (simp_all add: vv_get_def)

lemma join_commute: "join a b = join b a"
  by (rule fmap_ext) (auto simp: fmlookup_join vv_get_def max.commute split: option.splits)

lemma join_assoc: "join (join a b) c = join a (join b c)"
  by (rule fmap_ext) (auto simp: fmlookup_join vv_get_def max.assoc split: option.splits)

lemma join_idem [simp]: "join a a = a"
  by (rule fmap_ext) (auto simp: fmlookup_join vv_get_def split: option.splits)

lemma join_empty [simp]: "join a fmempty = a" "join fmempty a = a"
  by (rule fmap_ext; auto simp: fmlookup_join vv_get_def split: option.splits)+

lemma join_upper: "dominates (join a b) a" "dominates (join a b) b"
  by (simp_all add: dominates_iff)

lemma join_least: "dominates c a \<Longrightarrow> dominates c b \<Longrightarrow> dominates c (join a b)"
  by (simp add: dominates_iff)

text \<open>
  A vector is normal when it stores no explicit zero. The vectors the program builds are normal
  (it starts from the empty vector, increments and joins); on normal vectors dominance is
  antisymmetric.
\<close>

definition vv_normal :: "vv \<Rightarrow> bool" where
  "vv_normal v = fmpred (\<lambda>_ c. c \<noteq> 0) v"

lemma vv_normalD: "vv_normal v \<Longrightarrow> fmlookup v k \<noteq> Some 0"
  by (auto simp: vv_normal_def fmpred_iff)

lemma vv_normal_empty [simp, keeplin_inv]: "vv_normal fmempty"
  by (simp add: vv_normal_def)

lemma vv_normal_join [keeplin_inv]: "vv_normal a \<Longrightarrow> vv_normal b \<Longrightarrow> vv_normal (join a b)"
  by (auto simp: vv_normal_def fmpred_iff fmlookup_join max_def split: option.splits if_splits)

lemma vv_normal_increment [keeplin_inv]:
  "vv_normal v \<Longrightarrow> vv_get v d \<noteq> - 1 \<Longrightarrow> vv_normal (increment v d)"
  by (auto simp: vv_normal_def fmpred_iff increment_def eq_neg_iff_add_eq_0 split: if_splits)

lemma vv_normal_eqI:
  assumes "vv_normal a" and "vv_normal b" and "vv_get a = vv_get b"
  shows "a = b"
proof (rule fmap_ext)
  fix k
  have "vv_get a k = vv_get b k" by (simp only: assms(3))
  then show "fmlookup a k = fmlookup b k"
    using vv_normalD [OF assms(1), of k] vv_normalD [OF assms(2), of k]
    by (cases "fmlookup a k"; cases "fmlookup b k") (simp_all add: vv_get_def)
qed

lemma dominates_antisym:
  "vv_normal a \<Longrightarrow> vv_normal b \<Longrightarrow> dominates a b \<Longrightarrow> dominates b a \<Longrightarrow> a = b"
  by (rule vv_normal_eqI) (auto intro: dominates_antisym_get)

text \<open>Among finitely many normal vectors one is not strictly dominated.\<close>

lemma undominated_exists:
  assumes "xs \<noteq> []" and "\<forall>v\<in>set xs. vv_normal v"
  shows "\<exists>m\<in>set xs. \<forall>g\<in>set xs. dominates g m \<longrightarrow> g = m"
  using assms
proof (induction xs rule: list_nonempty_induct)
  case (single x)
  then show ?case by simp
next
  case (cons x xs)
  then obtain m where m: "m \<in> set xs" "\<forall>g\<in>set xs. dominates g m \<longrightarrow> g = m" by auto
  show ?case
  proof (cases "dominates x m \<and> x \<noteq> m")
    case True
    then have "g = x" if "g \<in> set xs" "dominates g x" for g
      using m cons.prems that dominates_trans [of g x m] dominates_antisym [of x m] by auto
    then show ?thesis by auto
  next
    case False
    with m show ?thesis by auto
  qed
qed

lemma join_fold_dominates:
  "dominates c (fold (\<lambda>h acc. join acc (f h)) hs a) \<longleftrightarrow>
     dominates c a \<and> (\<forall>h\<in>set hs. dominates c (f h))"
  by (induction hs arbitrary: a) (auto simp: dominates_iff)

lemma vv_get_join_fold:
  "vv_get (fold (\<lambda>h acc. join acc (f h)) hs a) k = fold (\<lambda>h m. max m (vv_get (f h) k)) hs (vv_get a k)"
  by (induction hs arbitrary: a) simp_all

lemma join_fold_normal [keeplin_inv]:
  "vv_normal a \<Longrightarrow> \<forall>h\<in>set hs. vv_normal (f h) \<Longrightarrow>
   vv_normal (fold (\<lambda>h acc. join acc (f h)) hs a)"
  by (induction hs arbitrary: a) (auto intro: vv_normal_join)

lemma join_fold_mset:
  "mset hs = mset hs' \<Longrightarrow>
   fold (\<lambda>h acc. join acc (f h)) hs a = fold (\<lambda>h acc. join acc (f h)) hs' a"
  by (rule fold_permuted_eq [where P = "\<lambda>_. True"])
    (auto simp: join_assoc join_commute [of "f _" "f _"])

end
