(* ===== verification/Note_Log.thy ===== *)
theory Note_Log
  imports Version_Vectors
begin

text \<open>
  \<open>keeplin-core/src/storage/note_log.rs\<close>: the merge of the per-device logs of a note, the
  compaction of a device's own log, and the pairwise resolution that every other record goes
  through. A log is the list of its entries, oldest first; \<open>merge\<close> receives one log per device.
\<close>

section \<open>Entries\<close>

datatype NoteOp = Upsert Note | Tombstone ts

record NoteLogEntry =
  e_vv :: vv
  e_timestamp :: ts
  e_device_id :: string
  e_op :: NoteOp

record Merged =
  m_note :: "Note option"
  m_vv :: vv
  m_winner_vv :: vv
  m_winner_device :: string
  m_conflict :: bool

text \<open>The comparison of two entries by timestamp and then by device.\<close>

definition entry_key :: "NoteLogEntry \<Rightarrow> ts \<times> string" where
  "entry_key e = (e_timestamp e, e_device_id e)"

section \<open>Merge\<close>

definition heads_of :: "NoteLogEntry list list \<Rightarrow> NoteLogEntry list" where
  "heads_of logs = List.map_filter (\<lambda>l. if l = [] then None else Some (last l)) logs"

text \<open>The identity test \<open>ptr::eq\<close> on heads is the equality of their positions.\<close>

definition frontier_of :: "NoteLogEntry list \<Rightarrow> NoteLogEntry list" where
  "frontier_of heads =
     map snd (filter (\<lambda>(i, h). \<not> list_ex (\<lambda>(j, g). j \<noteq> i \<and> dominates (e_vv g) (e_vv h) \<and> e_vv g \<noteq> e_vv h)
       (enumerate 0 heads)) (enumerate 0 heads))"

definition latest_upsert :: "NoteLogEntry list list \<Rightarrow> Note option" where
  "latest_upsert logs = map_option snd (max_by_key fst
     (List.map_filter (\<lambda>e. case e_op e of Upsert n \<Rightarrow> Some (e_timestamp e, n) | Tombstone _ \<Rightarrow> None)
       (concat logs)))"

definition merge :: "NoteLogEntry list list \<Rightarrow> Merged res" where
  "merge logs =
    (let heads = heads_of logs in
     if heads = [] then
       Inr \<lparr>m_note = None, m_vv = fmempty, m_winner_vv = fmempty, m_winner_device = [],
            m_conflict = False\<rparr>
     else
       let merged_vv = fold (\<lambda>h acc. join acc (e_vv h)) heads fmempty;
           frontier = frontier_of heads;
           conflict = 1 < length frontier
       in case max_by_key entry_key frontier of
            None \<Rightarrow> Inl Panic
          | Some winner \<Rightarrow>
              let note = (case e_op winner of
                    Upsert note \<Rightarrow> Some note
                  | Tombstone deleted_at \<Rightarrow>
                      map_option (\<lambda>n. n\<lparr>n_deleted_at := Some deleted_at, n_updated_at := deleted_at\<rparr>)
                        (latest_upsert logs))
              in Inr \<lparr>m_note = note, m_vv = merged_vv, m_winner_vv = e_vv winner,
                      m_winner_device = e_device_id winner, m_conflict = conflict\<rparr>)"

section \<open>Compaction and pairwise resolution\<close>

definition is_upsert :: "NoteLogEntry \<Rightarrow> bool" where
  "is_upsert e = (case e_op e of Upsert _ \<Rightarrow> True | Tombstone _ \<Rightarrow> False)"

text \<open>
  The newest upsert is the head itself (the same element, not an equal one) exactly when it sits
  in the last position.
\<close>

definition compact_own_log :: "NoteLogEntry list \<Rightarrow> NoteLogEntry list" where
  "compact_own_log log =
    (if length log \<le> 1 then log
     else case max_by_key (\<lambda>(i, e). entry_key e) (filter (\<lambda>(i, e). is_upsert e) (enumerate 0 log)) of
            None \<Rightarrow> [last log]
          | Some (i, u) \<Rightarrow> if i = length log - 1 then [last log] else [u, last log])"

datatype Winner = Local | Incoming

definition resolve :: "vv \<Rightarrow> ts \<Rightarrow> string \<Rightarrow> vv \<Rightarrow> ts \<Rightarrow> string \<Rightarrow> Winner" where
  "resolve local_vv local_ts local_device incoming_vv incoming_ts incoming_device =
    (case (dominates incoming_vv local_vv, dominates local_vv incoming_vv) of
       (True, False) \<Rightarrow> Incoming
     | (_, True) \<Rightarrow> Local
     | (False, False) \<Rightarrow>
         if (local_ts, local_device) < (incoming_ts, incoming_device) then Incoming else Local)"

section \<open>Heads and frontier\<close>

lemma heads_of_simps [simp]:
  "heads_of [] = []"
  "heads_of (l # ls) = (if l = [] then heads_of ls else last l # heads_of ls)"
  "heads_of (ls @ ls') = heads_of ls @ heads_of ls'"
  by (simp_all add: heads_of_def List.map_filter_def)

lemma heads_of_empty: "heads_of logs = [] \<longleftrightarrow> (\<forall>l\<in>set logs. l = [])"
  by (induction logs) auto

lemma set_heads_of: "set (heads_of logs) = last ` {l \<in> set logs. l \<noteq> []}"
  by (induction logs) auto

lemma heads_of_mset:
  "mset ls = mset ls' \<Longrightarrow> mset (heads_of ls) = mset (heads_of ls')"
proof -
  have "mset (heads_of xs) = image_mset last (filter_mset (\<lambda>l. l \<noteq> []) (mset xs))" for xs
    by (induction xs) simp_all
  then show "mset ls = mset ls' \<Longrightarrow> mset (heads_of ls) = mset (heads_of ls')" by simp
qed

lemma map_snd_filter_enumerate:
  "map snd (filter (\<lambda>(i, x). P x) (enumerate n xs)) = filter P xs"
  by (induction xs arbitrary: n) simp_all

text \<open>Being at another position is implied by the inequality of the vectors.\<close>

definition undominated_in :: "NoteLogEntry list \<Rightarrow> NoteLogEntry \<Rightarrow> bool" where
  "undominated_in hs h = (\<forall>g\<in>set hs. dominates (e_vv g) (e_vv h) \<longrightarrow> e_vv g = e_vv h)"

lemma frontier_of_eq: "frontier_of hs = filter (undominated_in hs) hs"
proof -
  have nth: "(i, x) \<in> set (enumerate 0 hs) \<longleftrightarrow> i < length hs \<and> x = hs ! i" for i x
    by (auto simp: in_set_enumerate_eq)
  have "list_ex (\<lambda>(j, g). j \<noteq> i \<and> dominates (e_vv g) (e_vv h) \<and> e_vv g \<noteq> e_vv h) (enumerate 0 hs)
      \<longleftrightarrow> \<not> undominated_in hs h" if "(i, h) \<in> set (enumerate 0 hs)" for i h
  proof -
    have "list_ex (\<lambda>(j, g). j \<noteq> i \<and> dominates (e_vv g) (e_vv h) \<and> e_vv g \<noteq> e_vv h) (enumerate 0 hs)
        \<longleftrightarrow> list_ex (\<lambda>p. dominates (e_vv (snd p)) (e_vv h) \<and> e_vv (snd p) \<noteq> e_vv h) (enumerate 0 hs)"
      using that by (intro list_ex_cong) (auto simp: nth)
    also have "\<dots> \<longleftrightarrow> list_ex (\<lambda>g. dominates (e_vv g) (e_vv h) \<and> e_vv g \<noteq> e_vv h) (map snd (enumerate 0 hs))"
      by (simp only: list_ex_iff set_map) blast
    also have "\<dots> \<longleftrightarrow> \<not> undominated_in hs h"
      by (auto simp: list_ex_iff undominated_in_def)
    finally show ?thesis .
  qed
  then have "filter (\<lambda>(i, h). \<not> list_ex (\<lambda>(j, g). j \<noteq> i \<and> dominates (e_vv g) (e_vv h) \<and> e_vv g \<noteq> e_vv h)
       (enumerate 0 hs)) (enumerate 0 hs) = filter (\<lambda>(i, h). undominated_in hs h) (enumerate 0 hs)"
    by (intro filter_cong) auto
  then show ?thesis
    by (simp only: frontier_of_def map_snd_filter_enumerate)
qed

lemma frontier_nonempty:
  assumes "hs \<noteq> []" and "\<forall>h\<in>set hs. vv_normal (e_vv h)"
  shows "frontier_of hs \<noteq> []"
proof -
  have "\<exists>m\<in>set (map e_vv hs). \<forall>g\<in>set (map e_vv hs). dominates g m \<longrightarrow> g = m"
    by (rule undominated_exists) (use assms in auto)
  then have "\<exists>h\<in>set hs. undominated_in hs h"
    by (auto simp: undominated_in_def)
  then show ?thesis
    by (auto simp: frontier_of_eq filter_empty_conv)
qed

lemma frontier_of_mset: "mset hs = mset hs' \<Longrightarrow> mset (frontier_of hs) = mset (frontier_of hs')"
proof -
  assume eq: "mset hs = mset hs'"
  then have "undominated_in hs = undominated_in hs'"
    by (auto simp: undominated_in_def fun_eq_iff dest: mset_eq_setD)
  with eq show ?thesis by (simp add: frontier_of_eq)
qed

section \<open>What merge computes\<close>

text \<open>
  The contract of a merge, independent of the algorithm: the vector is the least upper bound of
  the heads, the winner is the latest (by timestamp, then device) among the heads no other head
  strictly dominates, and there is a conflict when several heads are undominated.
\<close>

definition wins :: "NoteLogEntry list \<Rightarrow> NoteLogEntry \<Rightarrow> bool" where
  "wins hs w \<longleftrightarrow> w \<in> set hs \<and> undominated_in hs w \<and>
     (\<forall>h\<in>set hs. undominated_in hs h \<longrightarrow> entry_key h \<le> entry_key w)"

lemma merge_empty [simp]:
  "heads_of logs = [] \<Longrightarrow> merge logs =
     Inr \<lparr>m_note = None, m_vv = fmempty, m_winner_vv = fmempty, m_winner_device = [], m_conflict = False\<rparr>"
  by (simp add: merge_def)

definition note_of_winner :: "NoteLogEntry list list \<Rightarrow> NoteLogEntry \<Rightarrow> Note option" where
  "note_of_winner logs w = (case e_op w of
      Upsert note \<Rightarrow> Some note
    | Tombstone deleted_at \<Rightarrow>
        map_option (\<lambda>n. n\<lparr>n_deleted_at := Some deleted_at, n_updated_at := deleted_at\<rparr>) (latest_upsert logs))"

definition merged_by :: "NoteLogEntry list list \<Rightarrow> NoteLogEntry \<Rightarrow> Merged" where
  "merged_by logs w =
     \<lparr>m_note = note_of_winner logs w,
      m_vv = fold (\<lambda>h acc. join acc (e_vv h)) (heads_of logs) fmempty,
      m_winner_vv = e_vv w, m_winner_device = e_device_id w,
      m_conflict = (1 < length (frontier_of (heads_of logs)))\<rparr>"

lemma merge_nonempty:
  "heads_of logs \<noteq> [] \<Longrightarrow> merge logs =
     (case max_by_key entry_key (frontier_of (heads_of logs)) of
        None \<Rightarrow> Inl Panic | Some w \<Rightarrow> Inr (merged_by logs w))"
  by (simp add: merge_def merged_by_def note_of_winner_def Let_def split: option.splits NoteOp.splits)

lemma max_frontier_wins:
  "max_by_key entry_key (frontier_of hs) = Some w \<Longrightarrow> wins hs w"
  using max_by_key_in [of entry_key "frontier_of hs" w] max_by_key_ge [of entry_key "frontier_of hs" w]
  by (auto simp: wins_def frontier_of_eq)

lemma merge_okE:
  assumes "\<forall>h\<in>set (heads_of logs). vv_normal (e_vv h)" and "heads_of logs \<noteq> []"
  obtains w where "merge logs = Inr (merged_by logs w)"
    "max_by_key entry_key (frontier_of (heads_of logs)) = Some w" "wins (heads_of logs) w"
proof -
  have "max_by_key entry_key (frontier_of (heads_of logs)) \<noteq> None"
    using frontier_nonempty [OF assms(2,1)] by simp
  then obtain w where "max_by_key entry_key (frontier_of (heads_of logs)) = Some w" by blast
  with assms(2) max_frontier_wins that show thesis by (simp add: merge_nonempty)
qed

lemma merge_total:
  assumes "\<forall>h\<in>set (heads_of logs). vv_normal (e_vv h)"
  shows "\<exists>m. merge logs = Inr m"
  using assms by (cases "heads_of logs = []") (auto elim: merge_okE)

lemma wins_unique:
  assumes "wins hs w" and "wins hs w'" and "inj_on entry_key (set hs)"
  shows "w = w'"
proof -
  have "entry_key w = entry_key w'"
    using assms(1,2) unfolding wins_def by (metis order_antisym)
  with assms show ?thesis by (simp add: wins_def inj_on_def)
qed

lemma latest_upsert_mset:
  assumes "mset logs = mset logs'"
    and "inj_on fst {(e_timestamp e, n) | e n. e \<in> set (concat logs) \<and> e_op e = Upsert n}"
  shows "latest_upsert logs = latest_upsert logs'"
proof -
  let ?f = "\<lambda>e. case e_op e of Upsert n \<Rightarrow> Some (e_timestamp e, n) | Tombstone _ \<Rightarrow> None"
  have mf: "set (List.map_filter ?f xs) = {(e_timestamp e, n) | e n. e \<in> set xs \<and> e_op e = Upsert n}" for xs
    by (induction xs) (auto simp: List.map_filter_simps split: NoteOp.splits)
  have "set (concat logs) = set (concat logs')"
    using mset_eq_setD [OF assms(1)] by simp
  with assms(2) have "max_by_key fst (List.map_filter ?f (concat logs)) = max_by_key fst (List.map_filter ?f (concat logs'))"
    by (intro max_by_key_set) (simp_all only: mf)
  then show ?thesis by (simp add: latest_upsert_def)
qed

lemma wins_in_frontier: "wins hs w \<Longrightarrow> w \<in> set (frontier_of hs)"
  by (simp add: wins_def frontier_of_eq)

text \<open>When the winner exists, the other heads on the frontier cause the conflict flag.\<close>

lemma conflict_iff:
  assumes "distinct (map e_device_id hs)" and "\<forall>h\<in>set hs. vv_normal (e_vv h)"
  shows "1 < length (frontier_of hs) \<longleftrightarrow>
    (\<exists>a\<in>set hs. \<exists>b\<in>set hs. e_device_id a \<noteq> e_device_id b \<and> undominated_in hs a \<and> undominated_in hs b)"
proof -
  have d: "distinct (map e_device_id (frontier_of hs))"
    unfolding frontier_of_eq by (rule distinct_map_filter) (rule assms(1))
  have "1 < length xs \<longleftrightarrow> (\<exists>a\<in>set xs. \<exists>b\<in>set xs. e_device_id a \<noteq> e_device_id b)"
    if "distinct (map e_device_id xs)" for xs
  proof (cases xs)
    case Nil
    then show ?thesis by simp
  next
    case (Cons x ys)
    then show ?thesis
      using that by (cases ys) auto
  qed
  from this [OF d] show ?thesis by (auto simp: frontier_of_eq)
qed

section \<open>What compaction keeps\<close>

definition upserts_of :: "NoteLogEntry list \<Rightarrow> (ts \<times> Note) list" where
  "upserts_of = List.map_filter (\<lambda>e. case e_op e of Upsert n \<Rightarrow> Some (e_timestamp e, n) | Tombstone _ \<Rightarrow> None)"

definition the_upsert :: "NoteLogEntry \<Rightarrow> Note" where
  "the_upsert e = (case e_op e of Upsert n \<Rightarrow> n | Tombstone _ \<Rightarrow> undefined)"

lemma upserts_of_eq: "upserts_of l = map (\<lambda>e. (e_timestamp e, the_upsert e)) (filter is_upsert l)"
  by (induction l) (auto simp: upserts_of_def List.map_filter_def is_upsert_def the_upsert_def
      split: NoteOp.splits)

lemma upserts_of_append: "upserts_of (a @ b) = upserts_of a @ upserts_of b"
  by (simp add: upserts_of_eq)

lemma latest_upsert_eq: "latest_upsert logs = map_option snd (max_by_key fst (upserts_of (concat logs)))"
  by (simp add: latest_upsert_def upserts_of_def)

lemma max_upserts_of:
  "max_by_key fst (upserts_of l) =
     map_option (\<lambda>e. (e_timestamp e, the_upsert e)) (max_by_key e_timestamp (filter is_upsert l))"
  by (simp add: upserts_of_eq max_by_key_map comp_def)

lemma newest_upsert_snd:
  "map_option snd (max_by_key (\<lambda>(i, e). entry_key e) (filter (\<lambda>(i, e). is_upsert e) (enumerate 0 l)))
     = max_by_key entry_key (filter is_upsert l)"
proof -
  have "max_by_key entry_key (filter is_upsert l) =
      max_by_key entry_key (map snd (filter (\<lambda>(i, e). is_upsert e) (enumerate 0 l)))"
    by (simp only: map_snd_filter_enumerate)
  then show ?thesis
    by (simp only: max_by_key_map comp_def case_prod_beta')
qed

lemma last_compact [simp]: "l \<noteq> [] \<Longrightarrow> last (compact_own_log l) = last l"
  by (auto simp: compact_own_log_def split: option.splits)

lemma compact_nil [simp]: "compact_own_log l = [] \<longleftrightarrow> l = []"
  by (auto simp: compact_own_log_def split: option.splits)

lemma compact_subset: "set (compact_own_log l) \<subseteq> set l"
proof -
  have "u \<in> set l"
    if "max_by_key (\<lambda>(i, e). entry_key e) (filter (\<lambda>(i, e). is_upsert e) (enumerate 0 l)) = Some (i, u)" for i u
    using max_by_key_in [OF that] by (auto simp: in_set_enumerate_eq)
  moreover have "last l \<in> set l" if "\<not> length l \<le> 1"
    by (rule last_in_set) (use that in auto)
  ultimately show ?thesis
    by (auto simp: compact_own_log_def split: option.splits if_splits)
qed

lemma compact_length: "length (compact_own_log l) \<le> 2"
  by (auto simp: compact_own_log_def split: option.splits)

text \<open>The cases of a compaction of a log of several entries.\<close>

lemma compact_cases:
  assumes "1 < length l"
  obtains "filter is_upsert l = []" "compact_own_log l = [last l]"
  | "max_by_key entry_key (filter is_upsert l) = Some (last l)" "is_upsert (last l)"
    "compact_own_log l = [last l]"
  | u where "max_by_key entry_key (filter is_upsert l) = Some u" "is_upsert u" "u \<in> set l"
    "compact_own_log l = [u, last l]" "is_upsert (last l) \<Longrightarrow> entry_key (last l) < entry_key u"
proof -
  let ?P = "filter (\<lambda>(i, e). is_upsert e) (enumerate 0 l)"
  let ?k = "\<lambda>(i :: nat, e). entry_key e"
  have ne: "l \<noteq> []" using assms by auto
  show thesis
  proof (cases "max_by_key ?k ?P")
    case None
    with newest_upsert_snd [of l] have "filter is_upsert l = []"
      by (metis max_by_key_None option.map(1))
    moreover have "compact_own_log l = [last l]" using assms None by (simp add: compact_own_log_def)
    ultimately show thesis by (rule that(1))
  next
    case (Some p)
    obtain i u where p: "p = (i, u)" by (cases p)
    from Some p newest_upsert_snd [of l] have mx: "max_by_key entry_key (filter is_upsert l) = Some u" by simp
    from max_by_key_in [OF Some] p have u: "i < length l" "u = l ! i" "is_upsert u"
      by (auto simp: in_set_enumerate_eq)
    show thesis
    proof (cases "i = length l - 1")
      case True
      with u ne have "u = last l" by (simp add: last_conv_nth)
      moreover have "compact_own_log l = [last l]" using assms Some p True by (simp add: compact_own_log_def)
      ultimately show thesis using that(2) mx u by simp
    next
      case False
      have "entry_key (last l) < entry_key u" if up: "is_upsert (last l)"
      proof (rule ccontr)
        assume "\<not> ?thesis"
        then have le: "entry_key u \<le> entry_key (last l)" by simp
        have "?P = filter (\<lambda>(i, e). is_upsert e) (enumerate 0 (butlast l @ [last l]))"
          using ne by simp
        then have "?P = filter (\<lambda>(i, e). is_upsert e) (enumerate 0 (butlast l)) @ [(length l - 1, last l)]"
          using up by (simp only: enumerate_append_eq) simp
        moreover have "\<forall>a\<in>set ?P. ?k a \<le> entry_key u"
          using max_by_key_ge [OF Some] p by simp
        ultimately have "max_by_key ?k ?P = Some (length l - 1, last l)"
          using le by (intro max_by_key_eqI [where bs = "[]"]) fastforce+
        with Some p False show False by simp
      qed
      moreover have "compact_own_log l = [u, last l]" using assms Some p False by (simp add: compact_own_log_def)
      ultimately show thesis using that(3) mx u by (metis nth_mem)
    qed
  qed
qed

lemma max_entry_key_single_device:
  "\<forall>e\<in>set l. e_device_id e = d \<Longrightarrow>
   max_by_key entry_key (filter P l) = max_by_key e_timestamp (filter P l)"
  by (rule max_by_key_cong) (auto simp: entry_key_def)

lemma compact_max_upsert:
  assumes "\<forall>e\<in>set l. e_device_id e = d"
  shows "max_by_key fst (upserts_of (compact_own_log l)) = max_by_key fst (upserts_of l)"
proof (cases "1 < length l")
  case False
  then show ?thesis by (simp add: compact_own_log_def)
next
  case True
  note dev = max_entry_key_single_device [OF assms, of is_upsert]
  have ts: "entry_key a < entry_key b \<longleftrightarrow> e_timestamp a < e_timestamp b" if "a \<in> set l" "b \<in> set l" for a b
    using that assms by (auto simp: entry_key_def)
  from True have lastin: "last l \<in> set l" by (intro last_in_set) auto
  from True show ?thesis
  proof (cases rule: compact_cases)
    case 1
    then have "\<not> is_upsert (last l)" using lastin by (auto simp: filter_empty_conv)
    with 1 show ?thesis by (simp add: max_upserts_of)
  next
    case 2
    with dev show ?thesis by (simp add: max_upserts_of)
  next
    case (3 u)
    from 3(1) dev have "max_by_key e_timestamp (filter is_upsert l) = Some u" by simp
    with 3 ts [OF lastin, of u] show ?thesis by (simp add: max_upserts_of)
  qed
qed

lemma latest_upsert_segment:
  assumes "max_by_key fst (upserts_of l) = max_by_key fst (upserts_of l')"
  shows "latest_upsert (as @ l # bs) = latest_upsert (as @ l' # bs)"
proof (cases "max_by_key fst (upserts_of l)")
  case None
  with assms have "upserts_of l = []" "upserts_of l' = []" by (metis max_by_key_None)+
  then show ?thesis by (simp add: latest_upsert_eq upserts_of_append)
next
  case (Some m)
  with assms have "max_by_key fst (upserts_of l') = Some m" by simp
  with Some show ?thesis
    by (simp add: latest_upsert_eq upserts_of_append max_by_key_segment)
qed

lemma latest_upsert_compact:
  "\<forall>e\<in>set l. e_device_id e = d \<Longrightarrow>
   latest_upsert (as @ compact_own_log l # bs) = latest_upsert (as @ l # bs)"
  by (rule latest_upsert_segment) (rule compact_max_upsert)

lemma heads_of_compact: "heads_of (as @ compact_own_log l # bs) = heads_of (as @ l # bs)"
  by simp

lemma merged_by_cong:
  "heads_of logs = heads_of logs' \<Longrightarrow> latest_upsert logs = latest_upsert logs' \<Longrightarrow> merge logs = merge logs'"
  by (simp only: merge_def)

section \<open>Properties\<close>

text \<open>
  C1. The merge of per-device logs meets its contract: on logs whose heads carry normal
  vectors it does not panic; the merged vector is the least upper bound of the heads; the winner
  is a head that no head strictly dominates, and the latest such head by (timestamp, device); and
  the merged note is the winner's note, or, for a tombstone, the latest note in any log marked
  deleted at the tombstone's time.
\<close>

theorem merge_correct:
  assumes "heads_of logs \<noteq> []" and "\<forall>h\<in>set (heads_of logs). vv_normal (e_vv h)"
  shows "\<exists>w m. merge logs = Inr m \<and> wins (heads_of logs) w \<and>
    m_winner_vv m = e_vv w \<and> m_winner_device m = e_device_id w \<and>
    m_note m = note_of_winner logs w \<and>
    (\<forall>c. dominates c (m_vv m) \<longleftrightarrow> (\<forall>h\<in>set (heads_of logs). dominates c (e_vv h)))"
proof -
  obtain w where "merge logs = Inr (merged_by logs w)" "wins (heads_of logs) w"
    by (rule merge_okE [OF assms(2,1)])
  then show ?thesis
    by (intro exI [of _ w] exI [of _ "merged_by logs w"])
      (simp add: merged_by_def join_fold_dominates, simp add: dominates_iff)
qed

definition sample_note :: Note where
  "sample_note = new_note 7 100 ''t'' ''b''"

definition entry_a :: NoteLogEntry where
  "entry_a = \<lparr>e_vv = fmap_of_list [(''A'', 1)], e_timestamp = 10, e_device_id = ''A'', e_op = Upsert sample_note\<rparr>"

definition entry_b :: NoteLogEntry where
  "entry_b = \<lparr>e_vv = fmap_of_list [(''B'', 1)], e_timestamp = 20, e_device_id = ''B'', e_op = Tombstone 20\<rparr>"

lemma sample_heads: "heads_of [[entry_a], [entry_b]] = [entry_a, entry_b]"
  by simp

lemma sample_normal: "\<forall>h\<in>set [entry_a, entry_b]. vv_normal (e_vv h)"
  by (simp add: entry_a_def entry_b_def vv_normal_def fmap_of_list.rep_eq fmpred_iff)

theorem merge_correct_witness:
  "\<exists>w m. merge [[entry_a], [entry_b]] = Inr m \<and> wins [entry_a, entry_b] w \<and>
    m_note m = note_of_winner [[entry_a], [entry_b]] w"
  using merge_correct [of "[[entry_a], [entry_b]]"] sample_normal by auto



text \<open>
  The merge reports a conflict exactly when two devices' heads are concurrent maximal states:
  with one log per device, the flag is set iff two heads of different devices are both not
  strictly dominated.
\<close>

theorem merge_conflict_iff:
  assumes "merge logs = Inr m" and "distinct (map e_device_id (heads_of logs))"
    and "\<forall>h\<in>set (heads_of logs). vv_normal (e_vv h)"
  shows "m_conflict m \<longleftrightarrow>
    (\<exists>a\<in>set (heads_of logs). \<exists>b\<in>set (heads_of logs). e_device_id a \<noteq> e_device_id b \<and>
       undominated_in (heads_of logs) a \<and> undominated_in (heads_of logs) b)"
proof (cases "heads_of logs = []")
  case True
  with assms(1) show ?thesis by auto
next
  case False
  with assms(1) have "m_conflict m = (1 < length (frontier_of (heads_of logs)))"
    by (auto simp: merge_nonempty merged_by_def split: option.splits)
  with conflict_iff [OF assms(2,3)] show ?thesis by simp
qed

lemma merge_sample_conflict:
  "merge [[entry_a], [entry_b]] =
     Inr \<lparr>m_note = Some (sample_note\<lparr>n_deleted_at := Some 20, n_updated_at := 20\<rparr>),
          m_vv = fmap_of_list [(''A'', 1), (''B'', 1)], m_winner_vv = fmap_of_list [(''B'', 1)],
          m_winner_device = ''B'', m_conflict = True\<rparr>"
  by code_simp

theorem merge_conflict_iff_witness:
  "\<exists>a\<in>set [entry_a, entry_b]. \<exists>b\<in>set [entry_a, entry_b]. e_device_id a \<noteq> e_device_id b \<and>
     undominated_in [entry_a, entry_b] a \<and> undominated_in [entry_a, entry_b] b"
  using merge_conflict_iff [OF merge_sample_conflict] sample_normal
  by (simp add: entry_a_def entry_b_def)

text \<open>
  C3. Compacting a device's own log is invisible to the merge: replacing a log by its compaction
  anywhere among the logs leaves the merge result the same, note content recovered for a tombstone
  included. All entries of an own log carry that device's id.
\<close>

theorem compact_preserves_merge:
  assumes "\<forall>e\<in>set l. e_device_id e = d"
  shows "merge (as @ compact_own_log l # bs) = merge (as @ l # bs)"
  by (rule merged_by_cong [OF heads_of_compact latest_upsert_compact [OF assms]])

theorem compact_preserves_merge_witness:
  "merge ([[entry_b]] @ compact_own_log [entry_a, entry_a\<lparr>e_timestamp := 15\<rparr>, entry_a\<lparr>e_op := Tombstone 30\<rparr>] # []) =
   merge ([[entry_b]] @ [entry_a, entry_a\<lparr>e_timestamp := 15\<rparr>, entry_a\<lparr>e_op := Tombstone 30\<rparr>] # [])"
  by (rule compact_preserves_merge [where d = "''A''"]) (simp add: entry_a_def)

text \<open>
  C4. Compaction bounds a log: the result has at most two entries, all of them from the log, ends
  in the same head, and is a fixed point of compaction.
\<close>

theorem compact_bounded:
  "length (compact_own_log l) \<le> 2 \<and> set (compact_own_log l) \<subseteq> set l \<and>
   (compact_own_log l = [] \<longleftrightarrow> l = []) \<and> (l = [] \<or> last (compact_own_log l) = last l) \<and>
   compact_own_log (compact_own_log l) = compact_own_log l"
proof -
  have "compact_own_log (compact_own_log l) = compact_own_log l"
  proof (cases "1 < length l")
    case False
    then show ?thesis by (simp add: compact_own_log_def)
  next
    case True
    then show ?thesis
    proof (cases rule: compact_cases)
      case (3 u)
      have "max_by_key (\<lambda>(i, e). entry_key e) (filter (\<lambda>(i, e). is_upsert e) (enumerate 0 [u, last l])) = Some (0, u)"
        using 3(2,5) by auto
      with 3(4) show ?thesis by (simp add: compact_own_log_def)
    qed (simp_all add: compact_own_log_def)
  qed
  then show ?thesis
    using compact_length [of l] compact_subset [of l] by (cases "l = []") simp_all
qed

text \<open>
  A merge can panic: two heads whose vectors differ only by an explicit zero dominate each other
  and are unequal, so the frontier is empty.
\<close>

lemma merge_panics_on_explicit_zero:
  "merge [[entry_a\<lparr>e_vv := fmap_of_list [(''A'', 0)]\<rparr>], [entry_b\<lparr>e_vv := fmempty\<rparr>]] = Inl Panic"
  by code_simp

text \<open>
  With two upserts of the same timestamp the content recovered for a tombstone is the one of the
  log listed last.
\<close>

lemma merge_listing_order_matters:
  "map_option n_title (m_note (projr (merge
      [[entry_a\<lparr>e_op := Upsert (sample_note\<lparr>n_title := ''x''\<rparr>)\<rparr>],
       [entry_a\<lparr>e_device_id := ''C''\<rparr>, entry_b\<lparr>e_device_id := ''C''\<rparr>]]))) = Some ''t''"
  "map_option n_title (m_note (projr (merge
      [[entry_a\<lparr>e_device_id := ''C''\<rparr>, entry_b\<lparr>e_device_id := ''C''\<rparr>],
       [entry_a\<lparr>e_op := Upsert (sample_note\<lparr>n_title := ''x''\<rparr>)\<rparr>]]))) = Some ''x''"
  by code_simp+

end
