(* ===== verification/Register.thy ===== *)
theory Register
  imports Note_Log
begin

text \<open>
  Last-writer-wins registers. Notebooks, tags, tag associations, resources and, in the database
  backend, notes are each one record per identifier, replaced when \<open>resolve\<close> says the incoming
  record wins. This theory proves what that rule gives for any store that follows it: the locale
  \<open>lww_store\<close> is the contract, and the backends interpret it on their own tables.
\<close>

type_synonym stamp = "vv \<times> ts \<times> string"

fun takes :: "stamp \<Rightarrow> stamp \<Rightarrow> bool" where
  "takes (lv, lt, ld) (iv, it, idev) = (resolve lv lt ld iv it idev = Incoming)"

fun stamp_key :: "stamp \<Rightarrow> ts \<times> string" where
  "stamp_key (v, t, d) = (t, d)"

fun stamp_vv :: "stamp \<Rightarrow> vv" where
  "stamp_vv (v, t, d) = v"

section \<open>The rule\<close>

lemma takes_iff:
  "takes a b \<longleftrightarrow> \<not> dominates (stamp_vv a) (stamp_vv b) \<and>
     (dominates (stamp_vv b) (stamp_vv a) \<or> stamp_key a < stamp_key b)"
  by (cases a; cases b) (auto simp: resolve_def split: bool.splits)

lemma takes_irrefl [simp]: "\<not> takes a a"
  by (simp add: takes_iff)

lemma takes_asym: "takes a b \<Longrightarrow> \<not> takes b a"
  by (auto simp: takes_iff)

lemma takes_total:
  "vv_normal (stamp_vv a) \<Longrightarrow> vv_normal (stamp_vv b) \<Longrightarrow> takes a b \<or> takes b a \<or>
     stamp_vv a = stamp_vv b \<or> stamp_key a = stamp_key b"
  by (auto simp: takes_iff intro: dominates_antisym)

text \<open>
  A set of stamps is causal when a strictly dominating vector has a strictly later key and no two
  stamps share a vector or a key. Replicas whose clocks respect causality produce such sets.
\<close>

definition causal :: "stamp set \<Rightarrow> bool" where
  "causal S \<longleftrightarrow> (\<forall>a\<in>S. vv_normal (stamp_vv a)) \<and> inj_on stamp_vv S \<and> inj_on stamp_key S \<and>
     (\<forall>a\<in>S. \<forall>b\<in>S. a \<noteq> b \<longrightarrow> dominates (stamp_vv a) (stamp_vv b) \<longrightarrow> stamp_key b < stamp_key a)"

lemma causal_subset: "causal S \<Longrightarrow> T \<subseteq> S \<Longrightarrow> causal T"
  unfolding causal_def by (meson inj_on_subset subset_eq)

lemma causalD:
  assumes "causal S" "a \<in> S" "b \<in> S" "a \<noteq> b"
  shows "stamp_key a \<noteq> stamp_key b"
    and "dominates (stamp_vv a) (stamp_vv b) \<Longrightarrow> stamp_key b < stamp_key a"
  using assms by (auto simp: causal_def dest: inj_onD)

lemma takes_causal:
  assumes "causal S" "a \<in> S" "b \<in> S"
  shows "takes a b \<longleftrightarrow> stamp_key a < stamp_key b"
proof (cases "a = b")
  case False
  with causalD [OF assms] causalD [OF assms(1,3,2)] show ?thesis
    unfolding takes_iff by (metis less_asym)
qed simp

section \<open>Stores of stamps\<close>

text \<open>
  The weaker contract: what a store keeps of each object is at least the stamp of its current
  version, and a delivered change replaces it exactly when it wins. A change that does not concern a
  resolved object has no target.
\<close>

locale stamp_store =
  fixes mark :: "'s \<Rightarrow> 'k \<Rightarrow> stamp option"
    and deliver :: "'c \<Rightarrow> 's \<Rightarrow> 's"
    and target :: "'c \<Rightarrow> 'k option"
    and stamp :: "'c \<Rightarrow> stamp"
  assumes mark_deliver:
    "mark (deliver c s) k =
      (if target c = Some k then
         Some (case mark s k of None \<Rightarrow> stamp c | Some l \<Rightarrow> if takes l (stamp c) then stamp c else l)
       else mark s k)"
begin

lemma deliver_idem: "mark (deliver c (deliver c s)) = mark (deliver c s)"
  by (auto simp: mark_deliver fun_eq_iff split: option.splits)

lemma deliver_known:
  "target c = Some k \<Longrightarrow> mark s k = Some l \<Longrightarrow> \<not> takes l (stamp c) \<Longrightarrow> mark (deliver c s) = mark s"
  by (auto simp: mark_deliver fun_eq_iff)

lemma deliver_commute:
  "target a \<noteq> target b \<Longrightarrow> mark (deliver a (deliver b s)) = mark (deliver b (deliver a s))"
  by (auto simp: mark_deliver fun_eq_iff)

lemma mark_fold_filter:
  "mark (fold deliver cs s) k = mark (fold deliver (filter (\<lambda>c. target c = Some k) cs) s) k"
proof (induction cs rule: rev_induct)
  case Nil
  show ?case by simp
next
  case (snoc c cs)
  then show ?case by (cases "target c = Some k") (simp_all add: mark_deliver)
qed

lemma fold_deliver_max:
  assumes "causal (stamp ` set cs)" "\<forall>c\<in>set cs. target c = Some k" "mark s k = None"
  shows "mark (fold deliver cs s) k = max_by_key stamp_key (map stamp cs)"
  using assms(1,2)
proof (induction cs rule: rev_induct)
  case Nil
  with assms(3) show ?case by simp
next
  case (snoc c cs)
  have IH: "mark (fold deliver cs s) k = max_by_key stamp_key (map stamp cs)"
    by (rule snoc.IH [OF causal_subset [OF snoc.prems(1)]]) (use snoc.prems(2) in auto)
  show ?case
  proof (cases "max_by_key stamp_key (map stamp cs)")
    case None
    with IH snoc.prems show ?thesis by (simp add: mark_deliver)
  next
    case (Some m)
    have mx: "max_by_key stamp_key (map stamp (cs @ [c])) =
        Some (if stamp_key (stamp c) < stamp_key m then m else stamp c)"
      using max_by_key_segment [OF Some, of "[]" "[stamp c]"] by simp
    have in1: "m \<in> stamp ` set (cs @ [c])" and in2: "stamp c \<in> stamp ` set (cs @ [c])"
      using max_by_key_in [OF Some] by auto
    note key = takes_causal [OF snoc.prems(1) in1 in2] causalD(1) [OF snoc.prems(1) in1 in2]
    have "(if takes m (stamp c) then stamp c else m) = (if stamp_key (stamp c) < stamp_key m then m else stamp c)"
    proof (cases "m = stamp c")
      case False
      with key show ?thesis by (metis less_asym linorder_neqE)
    qed simp
    with IH Some snoc.prems(2) show ?thesis unfolding mx by (simp add: mark_deliver)
  qed
qed

text \<open>
  Strong convergence: on stores that know none of the objects, two sequences with the same changes,
  in any order and with any repetition, leave the same stamps.
\<close>

lemma deliver_converge:
  assumes "\<forall>k. causal (stamp ` {c \<in> set cs. target c = Some k})"
    and "set cs = set ds" and "\<forall>k. mark s k = None"
  shows "mark (fold deliver cs s) = mark (fold deliver ds s)"
proof
  fix k
  let ?F = "filter (\<lambda>c. target c = Some k)"
  have mx: "mark (fold deliver es s) k = max_by_key stamp_key (map stamp (?F es))" if "set es = set cs" for es
    unfolding mark_fold_filter [of es s k]
    by (rule fold_deliver_max) (use assms(1,3) that in auto)
  have "inj_on stamp_key (set (map stamp (?F cs)))"
    using assms(1) by (auto simp: causal_def)
  then have "max_by_key stamp_key (map stamp (?F cs)) = max_by_key stamp_key (map stamp (?F ds))"
    by (intro max_by_key_set) (use assms(2) in auto)
  then show "mark (fold deliver cs s) k = mark (fold deliver ds s) k"
    using mx [of cs] mx [of ds] assms(2) by simp
qed

end

section \<open>Stores of records\<close>

text \<open>
  The stronger contract of a store that keeps the winning record itself.
\<close>

locale lww_store =
  fixes slot :: "'s \<Rightarrow> 'id \<Rightarrow> 'r option"
    and receive :: "'r \<Rightarrow> 's \<Rightarrow> 's"
    and rid :: "'r \<Rightarrow> 'id"
    and rstamp :: "'r \<Rightarrow> stamp"
  assumes slot_receive:
    "slot (receive x s) i =
      (if i = rid x then
         Some (case slot s i of None \<Rightarrow> x | Some l \<Rightarrow> if takes (rstamp l) (rstamp x) then x else l)
       else slot s i)"
begin

lemma receive_idem: "slot (receive x (receive x s)) = slot (receive x s)"
  by (auto simp: slot_receive fun_eq_iff split: option.splits)

lemma receive_pair_agree:
  assumes "rid x = rid y" "takes (rstamp x) (rstamp y) \<or> takes (rstamp y) (rstamp x)"
    "slot s (rid x) = None"
  shows "slot (receive x (receive y s)) = slot (receive y (receive x s))"
  using assms takes_asym by (auto simp: slot_receive fun_eq_iff)

lemma slot_from:
  assumes "slot s i = None" "slot (fold receive xs s) i = Some r"
  shows "r \<in> set xs \<and> rid r = i"
  using assms(2)
proof (induction xs arbitrary: r rule: rev_induct)
  case Nil
  with assms(1) show ?case by simp
next
  case (snoc x xs)
  then show ?case by (auto simp: slot_receive split: if_splits option.splits)
qed

end

sublocale lww_store \<subseteq> stamp_store "\<lambda>s i. map_option rstamp (slot s i)" receive "\<lambda>x. Some (rid x)" rstamp
  by unfold_locales (auto simp: slot_receive split: option.splits)

context lww_store begin

text \<open>
  When stamps identify records, the convergence of stamps is the convergence of records.
\<close>

lemma receive_converge:
  assumes "\<forall>i. causal (rstamp ` {x \<in> set xs. rid x = i})" "inj_on rstamp (set xs)"
    and "set xs = set ys" and "\<forall>i. slot s i = None"
  shows "slot (fold receive xs s) = slot (fold receive ys s)"
proof
  fix i
  have "map_option rstamp (slot (fold receive xs s) i) = map_option rstamp (slot (fold receive ys s) i)"
    using deliver_converge [of xs ys s] assms by (auto dest: fun_cong [of _ _ i])
  moreover have "r \<in> set xs" if "slot (fold receive xs s) i = Some r \<or> slot (fold receive ys s) i = Some r" for r
    using that slot_from assms(3,4) by blast
  ultimately show "slot (fold receive xs s) i = slot (fold receive ys s) i"
    using assms(2) by (cases "slot (fold receive xs s) i"; cases "slot (fold receive ys s) i") (auto dest: inj_onD)
qed

end

section \<open>The reference store\<close>

text \<open>
  The rule itself on a finite map of stamped records, the abstract specification the backends'
  tables refine.
\<close>

definition spec_receive :: "'id \<times> stamp \<times> 'c \<Rightarrow> ('id, 'id \<times> stamp \<times> 'c) fmap \<Rightarrow> ('id, 'id \<times> stamp \<times> 'c) fmap" where
  "spec_receive x s = (case fmlookup s (fst x) of
      None \<Rightarrow> fmupd (fst x) x s
    | Some l \<Rightarrow> if takes (fst (snd l)) (fst (snd x)) then fmupd (fst x) x s else s)"

interpretation spec: lww_store fmlookup spec_receive fst "fst \<circ> snd"
  by unfold_locales (auto simp: spec_receive_def split: option.splits)

section \<open>Properties of the rule\<close>

text \<open>
  Two replicas that exchange their records of one object agree: of two different versions with
  normal vectors, whose vectors and (timestamp, writer) keys differ, exactly one replica replaces
  its own, so both end with the same version.
\<close>

theorem resolve_symmetric:
  assumes "vv_normal va" "vv_normal vb" "va \<noteq> vb" "(ta, da) \<noteq> (tb, db)"
  shows "(resolve va ta da vb tb db = Incoming) \<noteq> (resolve vb tb db va ta da = Incoming)"
  using takes_total [of "(va, ta, da)" "(vb, tb, db)"] takes_asym [of "(va, ta, da)" "(vb, tb, db)"]
    takes_asym [of "(vb, tb, db)" "(va, ta, da)"] assms by auto

theorem resolve_symmetric_witness:
  "(resolve fmempty 1 ''A'' (increment fmempty ''B'') 2 ''B'' = Incoming) \<noteq>
   (resolve (increment fmempty ''B'') 2 ''B'' fmempty 1 ''A'' = Incoming)"
  by (rule resolve_symmetric) (auto simp: increment_def vv_normal_def fmpred_iff split: if_splits)

text \<open>
  A version never loses to one it has seen: the incoming version wins whenever its vector
  strictly dominates the stored one, and never wins when the stored vector dominates it, whatever
  the clocks say.
\<close>

theorem resolve_respects_causality:
  "(dominates vb va \<and> \<not> dominates va vb \<longleftrightarrow> resolve va ta da vb tb db = Incoming \<and> dominates vb va) \<and>
   (resolve va ta da vb tb db = Incoming \<or> dominates va vb \<or> (tb, db) \<le> (ta, da))"
  by (auto simp: resolve_def split: bool.splits)


end
