(* ===== verification/Format.thy ===== *)
theory Format
  imports Models Text_Util
begin

text \<open>
  \<open>keeplin-core/src/format.rs\<close>: the limits of the note format (bytes per line, lines per note,
  notes per notebook) and the checks that enforce them. The byte length of a line is its length.
\<close>

definition MAX_LINE_BYTES :: nat where
  "MAX_LINE_BYTES = push_bit 12 1"

definition MAX_LINES_PER_NOTE :: nat where
  "MAX_LINES_PER_NOTE = push_bit 16 1"

definition MAX_NOTES_PER_NOTEBOOK :: nat where
  "MAX_NOTES_PER_NOTEBOOK = push_bit 24 1"

definition CODE_LINE_TOO_LONG :: string where
  "CODE_LINE_TOO_LONG = ''too_long''"

definition CODE_TOO_MANY_LINES :: string where
  "CODE_TOO_MANY_LINES = ''too_many_lines''"

definition CODE_NOTEBOOK_FULL :: string where
  "CODE_NOTEBOOK_FULL = ''notebook_full''"

datatype LimitViolation = LineTooLong nat | TooManyLines nat | NotebookFull nat

fun code :: "LimitViolation \<Rightarrow> string" where
  "code (LineTooLong _) = CODE_LINE_TOO_LONG"
| "code (TooManyLines _) = CODE_TOO_MANY_LINES"
| "code (NotebookFull _) = CODE_NOTEBOOK_FULL"

text \<open>\<open>From<LimitViolation> for StorageError\<close>.\<close>

definition storage_error_of :: "LimitViolation \<Rightarrow> StorageError" where
  "storage_error_of v = TooLarge"

definition is_limit_code :: "string \<Rightarrow> bool" where
  "is_limit_code c = (c = CODE_LINE_TOO_LONG \<or> c = CODE_TOO_MANY_LINES \<or> c = CODE_NOTEBOOK_FULL)"

definition check_line :: "string \<Rightarrow> LimitViolation + unit" where
  "check_line content =
    (if MAX_LINE_BYTES < length content then Inl (LineTooLong (length content)) else Inr ())"

definition check_line_count :: "nat \<Rightarrow> LimitViolation + unit" where
  "check_line_count n = (if MAX_LINES_PER_NOTE < n then Inl (TooManyLines n) else Inr ())"

definition newline :: char where
  "newline = CHR 0x0A"

definition line_count :: "string \<Rightarrow> nat" where
  "line_count body = (if body = [] then 0 else length (split_on newline body))"

text \<open>The loop of \<open>check_body\<close>: count the lines, leave at the first line that is too long.\<close>

fun check_lines :: "string list \<Rightarrow> nat \<Rightarrow> LimitViolation + nat" where
  "check_lines [] n = Inr n"
| "check_lines (l # ls) n = try_then (check_line l) (\<lambda>_. check_lines ls (n + 1))"

definition check_body :: "string \<Rightarrow> LimitViolation + unit" where
  "check_body body =
    (if body = [] then Inr ()
     else try_then (check_lines (split_on newline body) 0) check_line_count)"

definition check_notebook_capacity :: "nat \<Rightarrow> LimitViolation + unit" where
  "check_notebook_capacity live =
    (if MAX_NOTES_PER_NOTEBOOK \<le> live then Inl (NotebookFull live) else Inr ())"

lemmas format_limits = MAX_LINE_BYTES_def MAX_LINES_PER_NOTE_def MAX_NOTES_PER_NOTEBOOK_def

lemma check_line_iff: "check_line l = Inr () \<longleftrightarrow> length l \<le> MAX_LINE_BYTES"
  by (simp add: check_line_def not_less)

lemma check_lines_ok:
  "check_lines ls n = Inr m \<longleftrightarrow> (\<forall>l\<in>set ls. length l \<le> MAX_LINE_BYTES) \<and> m = n + length ls"
  by (induction ls arbitrary: n) (auto simp: try_then_ok check_line_iff)

lemma check_lines_err:
  "check_lines ls n = Inl v \<longleftrightarrow>
     (\<exists>l. find (\<lambda>l. MAX_LINE_BYTES < length l) ls = Some l \<and> v = LineTooLong (length l))"
  by (induction ls arbitrary: n) (auto simp: check_line_def)

section \<open>Properties\<close>

text \<open>
  A body passes the format check exactly when each of its lines has at most 4096 bytes and it
  has at most 65536 lines, the empty body having none.
\<close>

theorem check_body_iff:
  "check_body body = Inr () \<longleftrightarrow>
     list_all (\<lambda>l. length l \<le> 4096) (split_on newline body) \<and> line_count body \<le> 65536"
proof (cases "body = []")
  case True
  then show ?thesis by (simp add: check_body_def line_count_def)
next
  case False
  then show ?thesis
    by (auto simp: check_body_def line_count_def try_then_ok check_lines_ok check_line_count_def
        list_all_iff format_limits push_bit_eq_mult)
qed

text \<open>
  A rejected body is rejected for the first line that is too long, with that line's size, and
  only if every line fits for the number of lines; every violation has a code that
  \<open>is_limit_code\<close> recognises.
\<close>

theorem check_body_error:
  "check_body body = Inl v \<longleftrightarrow> body \<noteq> [] \<and>
    (case find (\<lambda>l. 4096 < length l) (split_on newline body) of
       Some l \<Rightarrow> v = LineTooLong (length l)
     | None \<Rightarrow> v = TooManyLines (line_count body) \<and> 65536 < line_count body)"
proof (cases "find (\<lambda>l. 4096 < length l) (split_on newline body)")
  case (Some l)
  then have "body \<noteq> []" by auto
  moreover have "check_lines (split_on newline body) 0 = Inl (LineTooLong (length l))"
    using Some by (simp add: check_lines_err format_limits push_bit_eq_mult)
  ultimately show ?thesis
    using Some by (auto simp: check_body_def)
next
  case None
  then have "\<forall>l\<in>set (split_on newline body). length l \<le> MAX_LINE_BYTES"
    by (auto simp: find_None_iff format_limits push_bit_eq_mult)
  then have "check_lines (split_on newline body) 0 = Inr (length (split_on newline body))"
    by (simp add: check_lines_ok)
  with None show ?thesis
    by (auto simp: check_body_def check_line_count_def line_count_def format_limits push_bit_eq_mult)
qed

lemma is_limit_code_code: "is_limit_code (code v)"
  by (cases v) (simp_all add: is_limit_code_def)

end
