(* ===== verification/Collab_State.thy ===== *)
theory Collab_State
  imports Version_Vectors Format
begin

text \<open>
  The line model of collaborative editing: \<open>keeplin-core/src/collab/protocol.rs\<close> (snapshots and
  line operations) and \<open>collab/state.rs\<close> (the local copy of a note's lines, the application of an
  operation, and the translation of an edited body into operations). The clock reading and the fresh
  identifiers of \<open>diff_body\<close> are inputs; the \<open>i\<close>-th inserted line takes \<open>fresh i\<close>.
\<close>

section \<open>State and operations\<close>

record LineSnapshot =
  ln_id :: uuid
  ln_content :: string
  ln_created_at :: ts
  ln_updated_at :: ts
  ln_deleted_at :: "ts option"
  ln_vv :: vv
  ln_last_writer :: string

record NoteLinesSnapshot =
  sn_note_id :: uuid
  sn_order :: "uuid list"
  sn_updated_at :: ts
  sn_vv :: vv
  sn_last_writer :: string
  sn_lines :: "LineSnapshot list"

text \<open>
  The arguments are the fields in the source's order: \<open>Insert\<close> after, line, content, vector,
  writer, time; \<open>Update\<close> line, content, vector, writer, time; \<open>Delete\<close> line, deletion time,
  vector, writer, time; \<open>Move\<close> lines, after, vector, writer, time.
\<close>

datatype LineOp =
    Insert "uuid option" uuid string vv string ts
  | Update uuid string vv string ts
  | Delete uuid ts vv string ts
  | Move "uuid list" "uuid option" vv string ts

record NoteLines =
  nl_order :: "uuid list"
  nl_lines :: "(uuid, LineSnapshot) fmap"
  nl_vv :: vv

definition from_snapshot :: "NoteLinesSnapshot \<Rightarrow> NoteLines" where
  "from_snapshot sn =
     \<lparr>nl_order = sn_order sn,
      nl_lines = fold (\<lambda>l m. fmupd (ln_id l) l m) (sn_lines sn) fmempty,
      nl_vv = sn_vv sn\<rparr>"

definition materialize :: "NoteLines \<Rightarrow> string" where
  "materialize nl = join_with newline
     (map ln_content (filter (\<lambda>l. ln_deleted_at l = None)
       (List.map_filter (fmlookup (nl_lines nl)) (nl_order nl))))"

definition live :: "NoteLines \<Rightarrow> uuid list" where
  "live nl = filter (\<lambda>id. case fmlookup (nl_lines nl) id of
      None \<Rightarrow> False | Some l \<Rightarrow> ln_deleted_at l = None) (nl_order nl)"

definition merge_into :: "vv \<Rightarrow> vv \<Rightarrow> vv" where
  "merge_into target other =
     fold (\<lambda>(k, v) t. fmupd k (if vv_get t k < v then v else vv_get t k) t) (sorted_list_of_fmap other) target"

definition bump :: "vv \<Rightarrow> string \<Rightarrow> vv" where
  "bump v device = fmupd device (vv_get v device + 1) v"

text \<open>The index at which an operation that names its predecessor inserts.\<close>

definition anchor_pos :: "uuid list \<Rightarrow> uuid option \<Rightarrow> nat" where
  "anchor_pos order after_id = (case after_id of
      None \<Rightarrow> 0
    | Some a \<Rightarrow> (case position (\<lambda>id. id = a) order of None \<Rightarrow> length order | Some i \<Rightarrow> i + 1))"

fun apply_line_op :: "LineOp \<Rightarrow> NoteLines \<Rightarrow> NoteLines" where
  "apply_line_op (Insert after_id line_id content v writer updated_at) nl =
     nl\<lparr>nl_order := insert_at (anchor_pos (nl_order nl) after_id) line_id (nl_order nl),
        nl_lines := fmupd line_id
          \<lparr>ln_id = line_id, ln_content = content, ln_created_at = updated_at,
           ln_updated_at = updated_at, ln_deleted_at = None, ln_vv = v, ln_last_writer = writer\<rparr>
          (nl_lines nl),
        nl_vv := merge_into (nl_vv nl) v\<rparr>"
| "apply_line_op (Update line_id content v writer updated_at) nl =
     (case fmlookup (nl_lines nl) line_id of
        None \<Rightarrow> nl
      | Some l \<Rightarrow> nl\<lparr>nl_lines := fmupd line_id
          (l\<lparr>ln_content := content, ln_updated_at := updated_at, ln_deleted_at := None,
             ln_vv := merge_into (ln_vv l) v, ln_last_writer := writer\<rparr>) (nl_lines nl)\<rparr>)"
| "apply_line_op (Delete line_id deleted_at v writer updated_at) nl =
     (case fmlookup (nl_lines nl) line_id of
        None \<Rightarrow> nl
      | Some l \<Rightarrow> nl\<lparr>nl_lines := fmupd line_id
          (l\<lparr>ln_deleted_at := Some deleted_at, ln_updated_at := updated_at,
             ln_vv := merge_into (ln_vv l) v, ln_last_writer := writer\<rparr>) (nl_lines nl)\<rparr>)"
| "apply_line_op (Move line_ids after_id v writer updated_at) nl =
     (let order = filter (\<lambda>id. id \<notin> set line_ids) (nl_order nl);
          pos = anchor_pos order after_id
      in nl\<lparr>nl_order := take pos order @ line_ids @ drop pos order,
            nl_vv := merge_into (nl_vv nl) v\<rparr>)"

section \<open>From a body to operations\<close>

text \<open>The two scanning loops, with their counters.\<close>

function prefix_loop :: "string list \<Rightarrow> string list \<Rightarrow> nat \<Rightarrow> nat" where
  "prefix_loop old new p =
     (if p < length old \<and> p < length new \<and> old ! p = new ! p then prefix_loop old new (p + 1) else p)"
  by pat_completeness auto
termination by (relation "measure (\<lambda>(old, new, p). length old - p)") auto

function suffix_loop :: "string list \<Rightarrow> string list \<Rightarrow> nat \<Rightarrow> nat \<Rightarrow> nat" where
  "suffix_loop old new prefix s =
     (if s < length old - prefix \<and> s < length new - prefix \<and>
         old ! (length old - 1 - s) = new ! (length new - 1 - s)
      then suffix_loop old new prefix (s + 1) else s)"
  by pat_completeness auto
termination by (relation "measure (\<lambda>(old, new, prefix, s). length old - s)") auto

declare prefix_loop.simps [simp del] suffix_loop.simps [simp del]

text \<open>Indexing the line map panics on a missing key; \<open>diff_body\<close> indexes live identifiers only.\<close>

definition line_at :: "NoteLines \<Rightarrow> uuid \<Rightarrow> LineSnapshot" where
  "line_at nl i = the (fmlookup (nl_lines nl) i)"

fun insert_ops :: "string list \<Rightarrow> uuid option \<Rightarrow> vv \<Rightarrow> string \<Rightarrow> ts \<Rightarrow> (nat \<Rightarrow> uuid) \<Rightarrow> nat \<Rightarrow> LineOp list" where
  "insert_ops [] anchor order_vv device now fresh i = []"
| "insert_ops (content # rest) anchor order_vv device now fresh i =
    (let order_vv = bump order_vv device; line_id = fresh i
     in Insert anchor line_id content order_vv device now #
        insert_ops rest (Some line_id) order_vv device now fresh (i + 1))"

definition body_lines :: "string \<Rightarrow> string list" where
  "body_lines body = (if body = [] then [] else split_on newline body)"

definition diff_ops :: "NoteLines \<Rightarrow> string list \<Rightarrow> string \<Rightarrow> ts \<Rightarrow> (nat \<Rightarrow> uuid) \<Rightarrow> LineOp list" where
  "diff_ops nl new_lines device now fresh =
    (let old_ids = live nl;
         old_contents = map (\<lambda>id. ln_content (line_at nl id)) old_ids;
         prefix = prefix_loop old_contents new_lines 0;
         suffix = suffix_loop old_contents new_lines prefix 0;
         old_mid = drop prefix (take (length old_ids - suffix) old_ids);
         new_mid = drop prefix (take (length new_lines - suffix) new_lines);
         paired = min (length old_mid) (length new_mid);
         updates = concat (map (\<lambda>i.
           let u = old_mid ! i in
           if ln_content (line_at nl u) \<noteq> new_mid ! i
           then [Update u (new_mid ! i) (bump (ln_vv (line_at nl u)) device) device now]
           else []) [0..<paired]);
         deletes = map (\<lambda>id. Delete id now (bump (ln_vv (line_at nl id)) device) device now)
           (drop paired old_mid);
         anchor = (if 0 < paired then Some (old_mid ! (paired - 1))
                   else if 0 < prefix then Some (old_ids ! (prefix - 1)) else None);
         inserts = insert_ops (drop paired new_mid) anchor (nl_vv nl) device now fresh 0
     in updates @ deletes @ inserts)"

definition diff_body :: "string \<Rightarrow> string \<Rightarrow> ts \<Rightarrow> (nat \<Rightarrow> uuid) \<Rightarrow> NoteLines \<Rightarrow> (LimitViolation + LineOp list) \<times> NoteLines" where
  "diff_body body device now fresh nl = (case check_body body of
      Inl v \<Rightarrow> (Inl v, nl)
    | Inr _ \<Rightarrow>
        let ops = diff_ops nl (body_lines body) device now fresh
        in (Inr ops, fold apply_line_op ops nl))"

lemma merge_into_join: "merge_into a b = join a b"
proof -
  have "(\<lambda>(k, v) t. fmupd k (if vv_get t k < v then v else vv_get t k) t) =
      (\<lambda>(k, bv) out. fmupd k (max (vv_get out k) bv) out)"
    by (auto simp: fun_eq_iff max_def)
  then show ?thesis by (simp add: merge_into_def join_def)
qed

section \<open>Visible content\<close>

definition visible :: "NoteLines \<Rightarrow> uuid \<Rightarrow> string option" where
  "visible nl i = (case fmlookup (nl_lines nl) i of
      None \<Rightarrow> None | Some l \<Rightarrow> if ln_deleted_at l = None then Some (ln_content l) else None)"

abbreviation visible_lines :: "NoteLines \<Rightarrow> string list" where
  "visible_lines nl \<equiv> List.map_filter (visible nl) (nl_order nl)"

lemma materialize_visible: "materialize nl = join_with newline (visible_lines nl)"
proof -
  have "map ln_content (filter (\<lambda>l. ln_deleted_at l = None) (List.map_filter (fmlookup (nl_lines nl)) xs)) =
      List.map_filter (visible nl) xs" for xs
    by (induction xs) (auto simp: visible_def split: option.splits)
  then show ?thesis by (simp add: materialize_def)
qed

lemma live_visible: "live nl = filter (\<lambda>i. visible nl i \<noteq> None) (nl_order nl)"
  by (auto simp: live_def visible_def intro!: filter_cong split: option.splits)

lemma visible_line_at: "visible nl i \<noteq> None \<Longrightarrow> visible nl i = Some (ln_content (line_at nl i))"
  by (auto simp: visible_def line_at_def split: option.splits if_splits)

lemma visible_insert: "visible (apply_line_op (Insert a u c v w t) nl) = (visible nl)(u := Some c)"
  by (auto simp: visible_def)

lemma visible_update:
  "visible nl u \<noteq> None \<Longrightarrow> visible (apply_line_op (Update u c v w t) nl) = (visible nl)(u := Some c)"
  by (auto simp: visible_def fun_eq_iff split: option.splits if_splits)

lemma visible_delete: "visible (apply_line_op (Delete u dt v w t) nl) = (visible nl)(u := None)"
  by (auto simp: visible_def fun_eq_iff split: option.splits)

lemma order_update [simp]: "nl_order (apply_line_op (Update u c v w t) nl) = nl_order nl"
  by (simp split: option.splits)

lemma order_delete [simp]: "nl_order (apply_line_op (Delete u dt v w t) nl) = nl_order nl"
  by (simp split: option.splits)

lemma fold_updates:
  assumes "distinct (map fst ps)" and "\<forall>(u, c)\<in>set ps. visible m u \<noteq> None"
    and "\<forall>(u, c)\<in>set ps. \<not> P u c \<longrightarrow> visible m u = Some c"
  shows "nl_order (fold apply_line_op (concat (map (\<lambda>(u, c). if P u c then [Update u c (V u) d t] else []) ps)) m) = nl_order m \<and>
    visible (fold apply_line_op (concat (map (\<lambda>(u, c). if P u c then [Update u c (V u) d t] else []) ps)) m) =
      (\<lambda>i. case map_of ps i of Some c \<Rightarrow> Some c | None \<Rightarrow> visible m i)"
  using assms
proof (induction ps arbitrary: m)
  case (Cons p ps)
  obtain u c where p: "p = (u, c)" by (cases p)
  let ?m = "if P u c then apply_line_op (Update u c (V u) d t) m else m"
  have vis: "visible ?m = (visible m)(u := Some c)"
    using Cons.prems(2,3) p visible_update [of m u] by (auto simp del: apply_line_op.simps)
  have notin: "u' \<noteq> u" if "(u', c') \<in> set ps" for u' c'
    using Cons.prems(1) p that by (auto simp: image_iff)
  let ?ops = "\<lambda>ps. concat (map (\<lambda>(u, c). if P u c then [Update u c (V u) d t] else []) ps)"
  have IH: "nl_order (fold apply_line_op (?ops ps) ?m) = nl_order ?m \<and>
      visible (fold apply_line_op (?ops ps) ?m) = (\<lambda>i. case map_of ps i of Some c \<Rightarrow> Some c | None \<Rightarrow> visible ?m i)"
    by (rule Cons.IH) (use Cons.prems notin p in \<open>auto simp: vis\<close>)
  have step: "fold apply_line_op (?ops (p # ps)) m = fold apply_line_op (?ops ps) ?m"
    using p by (simp del: apply_line_op.simps)
  have order: "nl_order ?m = nl_order m" by (simp del: apply_line_op.simps)
  have none: "map_of ps u = None" using Cons.prems(1) p by (simp add: map_of_eq_None_iff)
  show ?case
    unfolding step IH [THEN conjunct1] IH [THEN conjunct2] order vis
    using p none by (auto simp: fun_eq_iff split: option.splits)
qed simp

lemma fold_deletes:
  "nl_order (fold apply_line_op (map (\<lambda>u. Delete u t (V u) d t) us) m) = nl_order m \<and>
   visible (fold apply_line_op (map (\<lambda>u. Delete u t (V u) d t) us) m) =
     (\<lambda>i. if i \<in> set us then None else visible m i)"
  by (induction us arbitrary: m) (auto simp: visible_delete fun_eq_iff simp del: apply_line_op.simps)

lemma anchor_pos_last:
  "distinct (as @ bs) \<Longrightarrow> anchor_pos (as @ bs) (if as = [] then None else Some (last as)) = length as"
proof (cases as rule: rev_cases)
  case (snoc xs x)
  assume "distinct (as @ bs)"
  with snoc have "position (\<lambda>i. i = x) (xs @ x # bs) = Some (length xs)"
    by (intro position_append) auto
  with snoc show ?thesis by (simp add: anchor_pos_def)
qed (simp add: anchor_pos_def)

lemma fold_inserts:
  assumes "nl_order m = as @ bs" and "distinct (as @ bs)" and "a = (if as = [] then None else Some (last as))"
    and "\<forall>j\<in>{i..<i + length cs}. fresh j \<notin> set (as @ bs)" and "inj_on fresh {i..<i + length cs}"
  shows "visible_lines (fold apply_line_op (insert_ops cs a v d t fresh i) m) =
    List.map_filter (visible m) as @ cs @ List.map_filter (visible m) bs"
  using assms
proof (induction cs arbitrary: m as a v i)
  case (Cons c cs)
  let ?x = "fresh i"
  let ?m = "apply_line_op (Insert a ?x c (bump v d) d t) m"
  have x: "?x \<notin> set as" "?x \<notin> set bs" using Cons.prems(4) by auto
  have order: "nl_order ?m = (as @ [?x]) @ bs"
    using Cons.prems(1-3) anchor_pos_last [of as bs] by (simp add: insert_at_def)
  have vis: "visible ?m = (visible m)(?x := Some c)" by (rule visible_insert)
  have fr: "\<forall>j\<in>{i + 1..<i + 1 + length cs}. fresh j \<notin> set ((as @ [?x]) @ bs)"
    using Cons.prems(4,5) by (auto dest: inj_onD)
  have "visible_lines (fold apply_line_op (insert_ops cs (Some ?x) (bump v d) d t fresh (i + 1)) ?m) =
      List.map_filter (visible ?m) (as @ [?x]) @ cs @ List.map_filter (visible ?m) bs"
    by (rule Cons.IH [OF order _ _ fr]) (use Cons.prems(2,5) x in \<open>auto intro: inj_on_subset\<close>)
  also have "List.map_filter (visible ?m) (as @ [?x]) = List.map_filter (visible m) as @ [c]"
    using x by (auto simp: vis simp del: apply_line_op.simps intro: map_filter_cong)
  also have "List.map_filter (visible ?m) bs = List.map_filter (visible m) bs"
    using x by (intro map_filter_cong) (auto simp: vis simp del: apply_line_op.simps)
  finally show ?case by (simp add: Let_def)
qed simp

section \<open>The scanning loops\<close>

lemma prefix_loop_spec:
  assumes "p \<le> length old" "p \<le> length new" "take p old = take p new"
  shows "prefix_loop old new p \<le> length old \<and> prefix_loop old new p \<le> length new \<and>
    take (prefix_loop old new p) old = take (prefix_loop old new p) new"
  using assms
proof (induction old new p rule: prefix_loop.induct)
  case (1 old new p)
  show ?case
  proof (cases "p < length old \<and> p < length new \<and> old ! p = new ! p")
    case True
    with 1 have "take (p + 1) old = take (p + 1) new" by (simp add: take_Suc_conv_app_nth)
    moreover from True have "prefix_loop old new p = prefix_loop old new (p + 1)"
      by (subst prefix_loop.simps) simp
    ultimately show ?thesis using 1 True by simp
  next
    case False
    then have "prefix_loop old new p = p" by (subst prefix_loop.simps) (simp only: if_False)
    with 1 show ?thesis by simp
  qed
qed

lemma drop_from_end:
  assumes "s < length xs"
  shows "drop (length xs - Suc s) xs = xs ! (length xs - Suc s) # drop (length xs - s) xs"
proof -
  have "length xs - Suc s < length xs" using assms by simp
  from Cons_nth_drop_Suc [OF this] show ?thesis using assms by (simp add: Suc_diff_Suc)
qed

lemma suffix_loop_spec:
  assumes "s \<le> length old - p" "s \<le> length new - p"
    "drop (length old - s) old = drop (length new - s) new"
  shows "suffix_loop old new p s \<le> length old - p \<and> suffix_loop old new p s \<le> length new - p \<and>
    drop (length old - suffix_loop old new p s) old = drop (length new - suffix_loop old new p s) new"
  using assms
proof (induction old new p s rule: suffix_loop.induct)
  case (1 old new p s)
  show ?case
  proof (cases "s < length old - p \<and> s < length new - p \<and>
      old ! (length old - 1 - s) = new ! (length new - 1 - s)")
    case True
    then have "s < length old" "s < length new" by linarith+
    with True have "drop (length old - (s + 1)) old = old ! (length old - 1 - s) # drop (length old - s) old"
      "drop (length new - (s + 1)) new = new ! (length new - 1 - s) # drop (length new - s) new"
      by (simp_all add: drop_from_end)
    with True 1 have "drop (length old - (s + 1)) old = drop (length new - (s + 1)) new" by simp
    moreover from True have "suffix_loop old new p s = suffix_loop old new p (s + 1)"
      by (subst suffix_loop.simps) simp
    ultimately show ?thesis using 1 True by simp
  next
    case False
    then have "suffix_loop old new p s = s" by (subst suffix_loop.simps) (simp only: if_False)
    with 1 show ?thesis by simp
  qed
qed

lemma filter_append_split:
  "filter P xs = ys @ zs \<Longrightarrow> \<exists>as bs. xs = as @ bs \<and> filter P as = ys \<and> filter P bs = zs"
proof (induction ys arbitrary: xs)
  case Nil
  then show ?case by (intro exI [of _ "[]"] exI [of _ xs]) simp
next
  case (Cons y ys)
  then obtain us vs where "xs = us @ y # vs" "\<forall>u\<in>set us. \<not> P u" "P y" "filter P vs = ys @ zs"
    by (auto dest: filter_eq_ConsD)
  moreover from Cons.IH [OF this(4)] obtain as bs where "vs = as @ bs" "filter P as = ys" "filter P bs = zs"
    by blast
  ultimately show ?case
    by (intro exI [of _ "us @ y # as"] exI [of _ bs]) simp
qed

lemma filter_split_at:
  assumes "k \<le> length (filter P xs)"
  shows "\<exists>as bs. xs = as @ bs \<and> filter P as = take k (filter P xs) \<and>
     filter P bs = drop k (filter P xs) \<and> (as = [] \<longleftrightarrow> k = 0) \<and>
     (0 < k \<longrightarrow> last as = filter P xs ! (k - 1))"
proof (cases k)
  case 0
  then show ?thesis by (intro exI [of _ "[]"] exI [of _ xs]) simp
next
  case (Suc k')
  define F where F: "F = filter P xs"
  have "F = take k' F @ F ! k' # drop k F"
    unfolding Suc by (rule id_take_nth_drop) (use assms Suc F in simp)
  with F have "filter P xs = take k' F @ F ! k' # drop k F" by simp
  from filter_append_split [OF this] obtain as0 rest where r: "xs = as0 @ rest" "filter P as0 = take k' F" "filter P rest = F ! k' # drop k F"
    by blast
  from filter_eq_ConsD [OF r(3)] obtain us vs where
    u: "rest = us @ F ! k' # vs" "\<forall>u\<in>set us. \<not> P u" "P (F ! k')" "drop k F = filter P vs" by blast
  have "filter P (as0 @ us @ [F ! k']) = take k F"
    using r(2) u(2,3) assms Suc F [symmetric] by (simp add: take_Suc_conv_app_nth)
  then show ?thesis
    unfolding F [symmetric] using r(1) u(1,4) Suc
    by (intro exI [of _ "as0 @ us @ [F ! k']"] exI [of _ vs]) simp
qed

text \<open>The operations of a difference, from the two counters the loops find.\<close>

lemma visible_contents_nth:
  assumes "j < length (live nl)"
  shows "visible nl (live nl ! j) = Some (ln_content (line_at nl (live nl ! j)))"
proof -
  have "live nl ! j \<in> set (live nl)" using assms by simp
  then show ?thesis by (intro visible_line_at) (simp add: live_visible)
qed

lemma take_drop_split:
  assumes "a + b \<le> length xs"
  shows "xs = take a xs @ drop a (take (length xs - b) xs) @ drop (length xs - b) xs"
proof -
  have "drop a xs = take (length xs - b - a) (drop a xs) @ drop (length xs - b - a) (drop a xs)"
    by (rule append_take_drop_id [symmetric])
  also have "take (length xs - b - a) (drop a xs) = drop a (take (length xs - b) xs)"
    by (simp add: drop_take)
  also have "drop (length xs - b - a) (drop a xs) = drop (length xs - b) xs" using assms by simp
  finally show ?thesis by (metis append_take_drop_id)
qed

text \<open>
  A difference leaves the common prefix and suffix of the live lines alone and rewrites the middle:
  the three phases of its operations, for any split of the live lines.
\<close>

definition content_at :: "NoteLines \<Rightarrow> uuid \<Rightarrow> string" where
  "content_at nl u = ln_content (line_at nl u)"

definition update_ops :: "NoteLines \<Rightarrow> uuid list \<Rightarrow> string list \<Rightarrow> nat \<Rightarrow> string \<Rightarrow> ts \<Rightarrow> LineOp list" where
  "update_ops nl om nm k device now = concat (map (\<lambda>(u, c).
     if content_at nl u \<noteq> c then [Update u c (bump (ln_vv (line_at nl u)) device) device now] else [])
     (map (\<lambda>i. (om ! i, nm ! i)) [0..<k]))"

lemma visible_live: "u \<in> set (live nl) \<Longrightarrow> visible nl u = Some (content_at nl u)"
  unfolding content_at_def by (rule visible_line_at) (simp add: live_visible)

lemma visible_not_live: "u \<in> set (nl_order nl) \<Longrightarrow> u \<notin> set (live nl) \<Longrightarrow> visible nl u = None"
  by (simp add: live_visible)

lemma update_phase:
  assumes "live nl = pre @ om @ suf" "distinct (live nl)" "k \<le> length om" "k \<le> length nm"
    and m1_def: "m1 = fold apply_line_op (update_ops nl om nm k device now) nl"
  shows "nl_order m1 = nl_order nl"
    and "List.map_filter (visible m1) pre = map (content_at nl) pre"
    and "List.map_filter (visible m1) suf = map (content_at nl) suf"
    and "List.map_filter (visible m1) (take k om) = take k nm"
    and "u \<in> set (nl_order nl) \<Longrightarrow> u \<notin> set (live nl) \<Longrightarrow> visible m1 u = None"
proof -
  define ps where "ps = map (\<lambda>i. (om ! i, nm ! i)) [0..<k]"
  have dom_: "distinct om" using assms(1,2) by simp
  have dps: "distinct (map fst ps)"
    using dom_ assms(3) by (auto simp: ps_def comp_def distinct_map inj_on_def nth_eq_iff_index_eq)
  have mem: "u \<in> set om" if "(u, c) \<in> set ps" for u c
    using that assms(3) by (auto simp: ps_def)
  have v: "visible nl u = Some (content_at nl u)" if "(u, c) \<in> set ps" for u c
    using mem [OF that] assms(1) by (intro visible_live) simp
  have m1: "nl_order m1 = nl_order nl \<and>
      visible m1 = (\<lambda>i. case map_of ps i of Some c \<Rightarrow> Some c | None \<Rightarrow> visible nl i)"
    unfolding m1_def update_ops_def ps_def [symmetric]
    by (rule fold_updates [OF dps]) (use v in auto)
  then show "nl_order m1 = nl_order nl" by simp
  have other: "visible m1 u = visible nl u" if "u \<notin> set om" for u
  proof -
    have "map_of ps u = None" using that mem by (fastforce simp: map_of_eq_None_iff)
    then show ?thesis by (simp add: m1)
  qed
  have keep: "visible m1 u = Some (content_at nl u)" if "u \<in> set pre \<or> u \<in> set suf" for u
  proof -
    have "u \<notin> set om" using assms(1,2) that by auto
    moreover have "u \<in> set (live nl)" using assms(1) that by auto
    ultimately show ?thesis by (simp add: other visible_live)
  qed
  show "List.map_filter (visible m1) pre = map (content_at nl) pre"
    "List.map_filter (visible m1) suf = map (content_at nl) suf"
    using keep by (simp_all add: map_filter_total)
  have vis_ps: "visible m1 (om ! j) = Some (nm ! j)" if "j < k" for j
  proof -
    have "map_of ps (om ! j) = Some (nm ! j)"
      using dps that by (intro map_of_is_SomeI) (auto simp: ps_def)
    then show ?thesis by (simp add: m1)
  qed
  have "List.map_filter (visible m1) (map ((!) om) [0..<k]) = map ((!) nm) [0..<k]"
    using vis_ps by (simp add: List.map_filter_def filter_map comp_def)
  moreover have "map ((!) om) [0..<k] = take k om" "map ((!) nm) [0..<k] = take k nm"
    using assms(3,4) by (auto intro!: nth_equalityI)
  ultimately show "List.map_filter (visible m1) (take k om) = take k nm" by simp
  show "visible m1 u = None" if "u \<in> set (nl_order nl)" "u \<notin> set (live nl)"
    using that other [of u] visible_not_live [of u nl] assms(1) by simp
qed

lemma map_filter_live:
  assumes "\<And>u. u \<in> set (nl_order nl) \<Longrightarrow> u \<notin> set (live nl) \<Longrightarrow> f u = None"
  shows "List.map_filter f (nl_order nl) = List.map_filter f (live nl)"
  unfolding live_visible by (rule map_filter_restrict [symmetric]) (use assms in \<open>simp add: live_visible\<close>)

lemma insert_phase:
  assumes "distinct (nl_order nl)" "length om = k" "live nl = pre @ om @ suf"
    and "nl_order m = nl_order nl"
    and "\<And>u. u \<in> set (nl_order nl) \<Longrightarrow> u \<notin> set (live nl) \<Longrightarrow> visible m u = None"
    and "\<forall>j<length cs. fresh j \<notin> set (nl_order nl)" "inj_on fresh {..<length cs}"
    and "a = (if 0 < k then Some (om ! (k - 1)) else if 0 < length pre then Some (live nl ! (length pre - 1)) else None)"
  shows "visible_lines (fold apply_line_op (insert_ops cs a v d t fresh 0) m) =
    List.map_filter (visible m) pre @ List.map_filter (visible m) om @ cs @ List.map_filter (visible m) suf"
proof -
  let ?P = "\<lambda>i. visible nl i \<noteq> None"
  have len: "length pre + k \<le> length (filter ?P (nl_order nl))"
    using assms(2,3) by (simp add: live_visible)
  from filter_split_at [OF len] obtain as bs where ab: "nl_order nl = as @ bs"
    "filter ?P as = pre @ om" "filter ?P bs = suf" "as = [] \<longleftrightarrow> length pre + k = 0"
    "0 < length pre + k \<longrightarrow> last as = live nl ! (length pre + k - 1)"
    using assms(2,3) unfolding live_visible [symmetric] by auto
  have "a = (if as = [] then None else Some (last as))"
  proof (cases k)
    case 0
    with ab(4,5) assms(8) show ?thesis by auto
  next
    case (Suc k')
    then have "live nl ! (length pre + k - 1) = om ! (k - 1)"
      unfolding assms(3) using assms(2) by (simp add: nth_append)
    with Suc ab(4,5) assms(8) show ?thesis by simp
  qed
  then have "visible_lines (fold apply_line_op (insert_ops cs a v d t fresh 0) m) =
      List.map_filter (visible m) as @ cs @ List.map_filter (visible m) bs"
    using assms(1,4,6,7) ab(1) by (intro fold_inserts) (auto simp: atLeast0LessThan)
  moreover have "List.map_filter (visible m) xs = List.map_filter (visible m) (filter ?P xs)"
    if "set xs \<subseteq> set (nl_order nl)" for xs
    using assms(5) that by (intro map_filter_restrict [symmetric]) (auto simp: live_visible)
  ultimately show ?thesis using ab(1-3) by (metis Un_iff append_assoc map_filter_append set_append subsetI)
qed

lemma delete_phase:
  assumes "live nl = pre @ om @ suf" "distinct (live nl)" "nl_order m = nl_order nl"
    and "\<And>u. u \<in> set (nl_order nl) \<Longrightarrow> u \<notin> set (live nl) \<Longrightarrow> visible m u = None"
  shows "visible_lines (fold apply_line_op (map (\<lambda>u. Delete u t (V u) d t) (drop k om)) m) =
    List.map_filter (visible m) pre @ List.map_filter (visible m) (take k om) @ List.map_filter (visible m) suf"
proof -
  let ?v = "\<lambda>i. if i \<in> set (drop k om) then None else visible m i"
  have "List.map_filter ?v (nl_order nl) = List.map_filter ?v (live nl)"
    by (rule map_filter_live) (use assms(4) in simp)
  also have "live nl = pre @ take k om @ drop k om @ suf" using assms(1) by simp
  finally have eq: "List.map_filter ?v (nl_order nl) = List.map_filter ?v pre @
      List.map_filter ?v (take k om) @ List.map_filter ?v (drop k om) @ List.map_filter ?v suf" by simp
  have d: "distinct (pre @ take k om @ drop k om @ suf)"
    using assms(1,2) by (metis append_assoc append_take_drop_id)
  have same: "List.map_filter ?v xs = List.map_filter (visible m) xs" if "set xs \<inter> set (drop k om) = {}" for xs
    using that by (intro map_filter_cong) auto
  have none: "List.map_filter ?v xs = []" if "set xs \<subseteq> set (drop k om)" for xs
    using that by (induction xs) auto
  have "List.map_filter ?v (nl_order nl) = List.map_filter (visible m) pre @
      List.map_filter (visible m) (take k om) @ List.map_filter (visible m) suf"
    unfolding eq using d by (subst (1 2 4) same; simp add: none) blast+
  then show ?thesis by (simp only: fold_deletes assms(3))
qed

lemma diff_visible:
  assumes dist: "distinct (nl_order nl)"
    and fresh: "\<forall>j<length new. fresh j \<notin> set (nl_order nl)" "inj_on fresh {..<length new}"
  shows "visible_lines (fold apply_line_op (diff_ops nl new device now fresh) nl) = new"
proof -
  define ids where "ids = live nl"
  define oc where "oc = map (content_at nl) ids"
  define p where "p = prefix_loop oc new 0"
  define s where "s = suffix_loop oc new p 0"
  define om where "om = drop p (take (length ids - s) ids)"
  define nm where "nm = drop p (take (length new - s) new)"
  define k where "k = min (length om) (length nm)"
  define suf where "suf = drop (length ids - s) ids"
  define anchor where "anchor = (if 0 < k then Some (om ! (k - 1)) else if 0 < p then Some (ids ! (p - 1)) else None)"
  let ?dels = "map (\<lambda>u. Delete u now (bump (ln_vv (line_at nl u)) device) device now) (drop k om)"
  let ?ins = "insert_ops (drop k nm) anchor (nl_vv nl) device now fresh 0"
  have ops: "diff_ops nl new device now fresh = update_ops nl om nm k device now @ ?dels @ ?ins"
    unfolding anchor_def k_def nm_def om_def s_def p_def oc_def ids_def update_ops_def content_at_def
    by (simp only: diff_ops_def Let_def map_map comp_def prod.case)
  have loc: "length oc = length ids" by (simp add: oc_def)
  have pre: "p \<le> length ids" "p \<le> length new" "take p oc = take p new"
    using prefix_loop_spec [of 0 oc new] loc by (simp_all add: p_def)
  have suf: "s \<le> length ids - p" "s \<le> length new - p" "drop (length ids - s) oc = drop (length new - s) new"
    using suffix_loop_spec [of 0 oc p new] loc by (simp_all add: s_def)
  have split_ids: "live nl = take p ids @ om @ suf"
    unfolding om_def suf_def ids_def [symmetric] by (rule take_drop_split) (use pre suf in linarith)
  have split_new: "new = take p new @ nm @ drop (length new - s) new"
    unfolding nm_def by (rule take_drop_split) (use pre suf in linarith)
  have dlive: "distinct (live nl)" using dist by (simp add: live_visible)
  define m1 where "m1 = fold apply_line_op (update_ops nl om nm k device now) nl"
  have kle: "k \<le> length om" "k \<le> length nm" by (simp_all add: k_def)
  note m1 = update_phase [OF split_ids dlive kle m1_def]
  have ends: "List.map_filter (visible m1) (take p ids) = take p new"
    "List.map_filter (visible m1) suf = drop (length new - s) new"
    unfolding m1(2,3) using pre(3) suf(3) by (simp_all add: oc_def suf_def take_map drop_map)
  have "visible_lines (fold apply_line_op (?dels @ ?ins) m1) =
      take p new @ take k nm @ drop k nm @ drop (length new - s) new"
  proof (cases "length nm \<le> length om")
    case True
    then have t: "take k nm = nm" "drop k nm = []" by (simp_all add: k_def)
    have "visible_lines (fold apply_line_op ?dels m1) = take p new @ take k nm @ drop (length new - s) new"
      by (subst delete_phase [OF split_ids dlive m1(1)], rule m1(5), assumption+) (simp only: ends m1(4))
    with t show ?thesis by simp
  next
    case False
    then have k: "length om = k" "drop k om = []" by (simp_all add: k_def)
    have "length (drop k nm) \<le> length new" using arg_cong [OF split_new, of length] by simp
    then have fr: "\<forall>j<length (drop k nm). fresh j \<notin> set (nl_order nl)" "inj_on fresh {..<length (drop k nm)}"
      using fresh by (auto elim: inj_on_subset)
    have "anchor = (if 0 < k then Some (om ! (k - 1)) else if 0 < length (take p ids)
        then Some (live nl ! (length (take p ids) - 1)) else None)"
      using pre(1) by (simp add: anchor_def ids_def)
    from insert_phase [OF dist k(1) split_ids m1(1,5) fr this] m1(4) k show ?thesis
      by (simp add: ends)
  qed
  moreover have "take p new @ take k nm @ drop k nm @ drop (length new - s) new = new"
    unfolding append_assoc [symmetric] append_take_drop_id [of k nm] by (simp add: split_new [symmetric])
  ultimately show ?thesis by (simp add: ops m1_def [symmetric])
qed

lemma prefix_loop_same: "p \<le> length xs \<Longrightarrow> prefix_loop xs xs p = length xs"
proof (induction "length xs - p" arbitrary: p)
  case 0
  then show ?case by (subst prefix_loop.simps) simp
next
  case (Suc n)
  then show ?case by (subst prefix_loop.simps) simp
qed

lemma diff_ops_same:
  assumes "visible_lines nl = new"
  shows "diff_ops nl new device now fresh = []"
proof -
  have "visible_lines nl = List.map_filter (visible nl) (live nl)"
    by (rule map_filter_live) (rule visible_not_live)
  also have "\<dots> = map (\<lambda>i. ln_content (line_at nl i)) (live nl)"
    unfolding content_at_def [symmetric] by (rule map_filter_total) (rule visible_live)
  finally have new: "map (\<lambda>i. ln_content (line_at nl i)) (live nl) = new" using assms by simp
  moreover have len: "length (live nl) = length new" using arg_cong [OF new, of length] by simp
  moreover have "prefix_loop new new 0 = length new" by (rule prefix_loop_same) simp
  moreover have "suffix_loop new new (length new) 0 = 0" by (subst suffix_loop.simps) simp
  ultimately show ?thesis by (simp add: diff_ops_def Let_def)
qed

section \<open>Properties\<close>

text \<open>
  C6. An accepted edit is reproduced exactly: after \<open>diff_body\<close> the local lines materialise to
  the edited body, for any previous state whose order lists each line once and for fresh line
  identifiers.
\<close>

theorem diff_body_materialize:
  assumes "diff_body body device now fresh nl = (Inr ops, nl')"
    and "distinct (nl_order nl)"
    and "\<forall>j<line_count body. fresh j \<notin> set (nl_order nl)"
    and "inj_on fresh {..<line_count body}"
  shows "materialize nl' = body \<and> nl' = fold apply_line_op ops nl"
proof -
  have len: "length (body_lines body) = line_count body"
    by (simp add: body_lines_def line_count_def)
  have "visible_lines (fold apply_line_op (diff_ops nl (body_lines body) device now fresh) nl) = body_lines body"
    by (rule diff_visible) (use assms(2-4) len in auto)
  moreover have "nl' = fold apply_line_op ops nl" "ops = diff_ops nl (body_lines body) device now fresh"
    using assms(1) by (auto simp: diff_body_def Let_def split: sum.splits)
  ultimately show ?thesis
    by (auto simp: materialize_visible body_lines_def)
qed

definition sample_lines :: NoteLines where
  "sample_lines = \<lparr>nl_order = [1, 2, 3],
     nl_lines = fmap_of_list (map (\<lambda>(i, c). (i, \<lparr>ln_id = i, ln_content = c, ln_created_at = 0,
        ln_updated_at = 0, ln_deleted_at = (if i = 2 then Some 5 else None), ln_vv = fmempty, ln_last_writer = ''A''\<rparr>))
       [(1, ''one''), (2, ''two''), (3, ''three'')]),
     nl_vv = fmempty\<rparr>"

definition sample_body :: string where
  "sample_body = ''one'' @ newline # ''1.5'' @ newline # ''three''"

lemma sample_body_ok: "check_body sample_body = Inr ()" "line_count sample_body = 3"
  by (simp_all add: sample_body_def newline_def check_body_def check_line_def check_line_count_def
      line_count_def format_limits push_bit_eq_mult)

theorem diff_body_materialize_witness:
  "\<exists>ops. diff_body sample_body ''B'' 9 (\<lambda>i. 10 + of_nat i) sample_lines =
      (Inr ops, fold apply_line_op ops sample_lines) \<and>
    materialize (fold apply_line_op ops sample_lines) = sample_body"
proof -
  have f: "\<forall>j<3. (10 + of_nat j :: uuid) \<notin> set (nl_order sample_lines)"
  proof (intro allI impI)
    fix j :: nat
    assume "j < 3"
    then consider "j = 0" | "j = 1" | "j = 2" by linarith
    then show "(10 + of_nat j :: uuid) \<notin> set (nl_order sample_lines)"
      by cases (simp_all add: sample_lines_def)
  qed
  have "{..<3 :: nat} = {0, 1, 2}" by auto
  then have i: "inj_on (\<lambda>i. 10 + of_nat i :: uuid) {..<3}" by simp
  obtain ops nl' where d: "diff_body sample_body ''B'' 9 (\<lambda>i. 10 + of_nat i) sample_lines = (Inr ops, nl')"
    by (simp add: diff_body_def sample_body_ok Let_def)
  have "distinct (nl_order sample_lines)" by (simp add: sample_lines_def)
  from diff_body_materialize [OF d this] f i show ?thesis
    unfolding sample_body_ok d by blast
qed

text \<open>
  Saving an unchanged body does nothing: once an edit has been accepted, computing the
  difference to the same body again, on any device, at any time, yields no operation and leaves
  the lines as they are.
\<close>

theorem diff_body_settled:
  assumes "diff_body body device now fresh nl = (Inr ops, nl')"
    and "distinct (nl_order nl)"
    and "\<forall>j<line_count body. fresh j \<notin> set (nl_order nl)"
    and "inj_on fresh {..<line_count body}"
  shows "diff_body body device' now' fresh' nl' = (Inr [], nl')"
proof -
  have len: "length (body_lines body) = line_count body"
    by (simp add: body_lines_def line_count_def)
  have "visible_lines (fold apply_line_op (diff_ops nl (body_lines body) device now fresh) nl) = body_lines body"
    by (rule diff_visible) (use assms(2-4) len in auto)
  moreover have "nl' = fold apply_line_op (diff_ops nl (body_lines body) device now fresh) nl" "check_body body = Inr ()"
    using assms(1) by (auto simp: diff_body_def Let_def split: sum.splits)
  ultimately show ?thesis
    by (simp add: diff_body_def diff_ops_same)
qed

theorem diff_body_settled_witness:
  "\<exists>ops nl'. diff_body ''x'' ''B'' 9 (\<lambda>i. 10) sample_lines = (Inr ops, nl') \<and>
    diff_body ''x'' ''C'' 12 (\<lambda>i. 11) nl' = (Inr [], nl')"
proof -
  have x: "check_body ''x'' = Inr ()" "line_count ''x'' = 1"
    by (simp_all add: newline_def check_body_def check_line_def check_line_count_def
        line_count_def format_limits push_bit_eq_mult)
  obtain ops nl' where d: "diff_body ''x'' ''B'' 9 (\<lambda>i. 10) sample_lines = (Inr ops, nl')"
    by (simp add: diff_body_def x Let_def)
  have "distinct (nl_order sample_lines)" "(10 :: uuid) \<notin> set (nl_order sample_lines)"
    by (simp_all add: sample_lines_def)
  then show ?thesis
    using diff_body_settled [OF d, of "''C''" 12 "\<lambda>i. 11"] d by (simp add: x inj_on_def)
qed

text \<open>A rejected edit changes nothing.\<close>

lemma diff_body_reject:
  "diff_body body device now fresh nl = (Inl v, nl') \<longleftrightarrow> check_body body = Inl v \<and> nl' = nl"
  by (auto simp: diff_body_def Let_def split: sum.splits)

text \<open>
  A move neither loses nor duplicates a line: it permutes the order when it names distinct
  lines of the note, keeps the moved lines contiguous in the given order, and leaves every line's
  content alone.
\<close>

theorem move_permutes:
  assumes "distinct (nl_order nl)" and "distinct ls" and "set ls \<subseteq> set (nl_order nl)"
  shows "mset (nl_order (apply_line_op (Move ls after v w t) nl)) = mset (nl_order nl) \<and>
    (\<exists>xs ys. nl_order (apply_line_op (Move ls after v w t) nl) = xs @ ls @ ys) \<and>
    nl_lines (apply_line_op (Move ls after v w t) nl) = nl_lines nl"
proof -
  have "mset (nl_order nl) = mset (filter (\<lambda>i. i \<notin> set ls) (nl_order nl)) + mset (filter (\<lambda>i. i \<in> set ls) (nl_order nl))"
    by (metis add.commute mset_filter multiset_partition)
  also have "mset (filter (\<lambda>i. i \<in> set ls) (nl_order nl)) = mset ls"
    using assms by (subst set_eq_iff_mset_eq_distinct [symmetric]) auto
  finally have m: "mset (nl_order nl) = mset (filter (\<lambda>i. i \<notin> set ls) (nl_order nl)) + mset ls" .
  have "mset (take n xs @ ls @ drop n xs) = mset xs + mset ls" for n and xs :: "uuid list"
    by (metis add.assoc add.commute append_take_drop_id mset_append)
  then have "mset (nl_order (apply_line_op (Move ls after v w t) nl)) = mset (nl_order nl)"
    unfolding m by (simp add: Let_def)
  moreover have "\<exists>xs ys. nl_order (apply_line_op (Move ls after v w t) nl) = xs @ ls @ ys"
    unfolding apply_line_op.simps Let_def by (intro exI) simp
  ultimately show ?thesis by (simp add: Let_def)
qed

theorem move_permutes_witness:
  "mset (nl_order (apply_line_op (Move [3, 1] (Some 2) fmempty ''B'' 9) sample_lines)) = mset [1, 2, 3]"
  using move_permutes [of sample_lines "[3, 1]"] by (simp add: sample_lines_def)

end
