(* ===== verification/Pagination.thy ===== *)
theory Pagination
  imports Text_Util "HOL-Library.Multiset"
begin

text \<open>
  Pages of a sorted listing: \<open>effective_page_size\<close> (\<open>storage/mod.rs\<close>), the bounded heap
  \<open>PageCollector\<close> and \<open>paginate\<close> (\<open>storage/fs/pagination.rs\<close>). A page token is the text
  \<open>key|id\<close> of the last item of the page. The rendering and parsing of identifiers belong to the
  \<open>uuid\<close> crate and are parameters; what the code relies on is \<open>uuid_text_ok\<close>.

  The locale \<open>pager\<close> is the contract of a paged listing as its clients use it (walk the pages
  from no token until no token comes back), and both implementations are shown to provide it.
\<close>

section \<open>Page sizes\<close>

definition DEFAULT_PAGE_SIZE :: u32 where
  "DEFAULT_PAGE_SIZE = 100"

definition MAX_PAGE_SIZE :: u32 where
  "MAX_PAGE_SIZE = 1000"

definition effective_page_size :: "u32 \<Rightarrow> u32" where
  "effective_page_size page_size = (if page_size = 0 then DEFAULT_PAGE_SIZE else min page_size MAX_PAGE_SIZE)"

lemma effective_page_size_bounds: "1 \<le> unat (effective_page_size n)" "unat (effective_page_size n) \<le> 1000"
proof -
  have "0 < effective_page_size n \<and> effective_page_size n \<le> 1000"
    by (auto simp: effective_page_size_def DEFAULT_PAGE_SIZE_def MAX_PAGE_SIZE_def min_def word_neq_0_conv)
  then have "0 < unat (effective_page_size n)" "unat (effective_page_size n) \<le> unat (1000 :: u32)"
    by (simp_all add: word_less_nat_alt word_le_nat_alt)
  then show "1 \<le> unat (effective_page_size n)" "unat (effective_page_size n) \<le> 1000" by simp_all
qed

section \<open>Identifier texts and tokens\<close>

record uuid_text =
  show_uuid :: "uuid \<Rightarrow> string"
  parse_uuid :: "string \<Rightarrow> uuid option"

text \<open>The documented behaviour of the crate: parsing inverts rendering.\<close>

definition uuid_text_ok :: "uuid_text \<Rightarrow> bool" where
  "uuid_text_ok ut = (\<forall>u. parse_uuid ut (show_uuid ut u) = Some u)"

type_synonym page_key = "string \<times> uuid"

definition bar :: char where
  "bar = CHR ''|''"

definition make_token :: "uuid_text \<Rightarrow> page_key \<Rightarrow> string" where
  "make_token ut k = fst k @ bar # show_uuid ut (snd k)"

definition parse_token :: "uuid_text \<Rightarrow> string option \<Rightarrow> page_key option" where
  "parse_token ut token = (case token of
      None \<Rightarrow> None
    | Some t \<Rightarrow> if t = [] then None else
        (case split_once bar t of
           None \<Rightarrow> None
         | Some (ts, i) \<Rightarrow> map_option (\<lambda>u. (ts, u)) (parse_uuid ut i)))"

lemma parse_make_token:
  "uuid_text_ok ut \<Longrightarrow> bar \<notin> set (fst k) \<Longrightarrow> parse_token ut (Some (make_token ut k)) = Some k"
  by (auto simp: parse_token_def make_token_def split_once_append uuid_text_ok_def)

lemma parse_token_none [simp]: "parse_token ut None = None"
  by (simp add: parse_token_def)

section \<open>PageCollector\<close>

text \<open>
  \<open>BinaryHeap\<close> is a standard library container; its content is kept here in ascending key
  order, so \<open>peek\<close> and \<open>pop\<close> concern the last element and \<open>into_sorted_vec\<close> is the list itself.
\<close>

type_synonym 'a keyed = "page_key \<times> 'a"

record 'a PageCollector =
  pc_limit :: nat
  pc_cursor :: "page_key option"
  pc_heap :: "'a keyed list"

definition pc_new :: "uuid_text \<Rightarrow> nat \<Rightarrow> string option \<Rightarrow> 'a PageCollector" where
  "pc_new ut limit token = \<lparr>pc_limit = limit, pc_cursor = parse_token ut token, pc_heap = []\<rparr>"

definition at_or_before :: "page_key \<Rightarrow> page_key option \<Rightarrow> bool" where
  "at_or_before k cursor = (case cursor of None \<Rightarrow> False | Some c \<Rightarrow> k \<le> c)"

definition pc_push :: "'a keyed \<Rightarrow> 'a PageCollector \<Rightarrow> 'a PageCollector" where
  "pc_push x pc =
    (if at_or_before (fst x) (pc_cursor pc) then pc
     else if length (pc_heap pc) \<le> pc_limit pc then pc\<lparr>pc_heap := insort_key fst x (pc_heap pc)\<rparr>
     else if pc_heap pc \<noteq> [] \<and> fst x < fst (last (pc_heap pc))
       then pc\<lparr>pc_heap := insort_key fst x (butlast (pc_heap pc))\<rparr>
     else pc)"

definition pc_into_page :: "uuid_text \<Rightarrow> 'a PageCollector \<Rightarrow> 'a list \<times> string option" where
  "pc_into_page ut pc =
    (let items = pc_heap pc;
         has_more = pc_limit pc < length items;
         items = take (pc_limit pc) items;
         next_token = (if has_more \<and> items \<noteq> [] then Some (make_token ut (fst (last items))) else None)
     in (map snd items, next_token))"

text \<open>A listing pushes every candidate and takes the page.\<close>

definition collect_page :: "uuid_text \<Rightarrow> nat \<Rightarrow> string option \<Rightarrow> 'a keyed list \<Rightarrow> 'a list \<times> string option" where
  "collect_page ut limit token xs = pc_into_page ut (fold pc_push xs (pc_new ut limit token))"

section \<open>Slicing a sorted list\<close>

text \<open>
  \<open>partition_point\<close> on a list whose satisfying elements come first is the length of that prefix.
\<close>

definition partition_point :: "('a \<Rightarrow> bool) \<Rightarrow> 'a list \<Rightarrow> nat" where
  "partition_point P xs = length (takeWhile P xs)"

definition paginate :: "uuid_text \<Rightarrow> 'a list \<Rightarrow> nat \<Rightarrow> string option \<Rightarrow> ('a \<Rightarrow> page_key) \<Rightarrow> 'a list \<times> string option" where
  "paginate ut items limit token key_fn =
    (let start = (case parse_token ut token of
            None \<Rightarrow> 0
          | Some (ts, cursor_id) \<Rightarrow> partition_point
              (\<lambda>item. let (item_ts, item_id) = key_fn item
                      in item_ts < ts \<or> item_ts = ts \<and> item_id \<le> cursor_id) items);
         remaining = drop start items;
         has_more = limit < length remaining;
         page = take limit remaining;
         next_token = (if has_more \<and> page \<noteq> [] then Some (make_token ut (key_fn (last page))) else None)
     in (page, next_token))"

section \<open>The contract of a paged listing\<close>

text \<open>
  Walking the pages: fetch with the token of the previous page until no token comes back. The walk
  is given fuel; \<open>None\<close> means the fuel did not suffice.
\<close>

fun walk_pages :: "nat \<Rightarrow> (string option \<Rightarrow> 'a list \<times> string option) \<Rightarrow> string option \<Rightarrow> 'a list option" where
  "walk_pages 0 fetch token = None"
| "walk_pages (Suc fuel) fetch token =
    (case fetch token of
       (page, None) \<Rightarrow> Some page
     | (page, Some t) \<Rightarrow> map_option (\<lambda>rest. page @ rest) (walk_pages fuel fetch (Some t)))"

locale pager =
  fixes fetch :: "'s \<Rightarrow> string option \<Rightarrow> 'a list \<times> string option"
    and listing :: "'s \<Rightarrow> 'a list"
    and limit :: "'s \<Rightarrow> nat"
    and token_at :: "'s \<Rightarrow> nat \<Rightarrow> string"
    and ok :: "'s \<Rightarrow> bool"
  assumes limit_pos: "ok s \<Longrightarrow> 0 < limit s"
    and fetch_first: "ok s \<Longrightarrow> fetch s None =
      (take (limit s) (listing s),
       if limit s < length (listing s) then Some (token_at s (limit s)) else None)"
    and fetch_next: "ok s \<Longrightarrow> 0 < p \<Longrightarrow> p < length (listing s) \<Longrightarrow> fetch s (Some (token_at s p)) =
      (take (limit s) (drop p (listing s)),
       if p + limit s < length (listing s) then Some (token_at s (p + limit s)) else None)"
begin

lemma walk_from:
  assumes "ok s" "0 < p" "p < length (listing s)" "length (listing s) \<le> p + fuel * limit s"
  shows "walk_pages fuel (fetch s) (Some (token_at s p)) = Some (drop p (listing s))"
  using assms(2-4)
proof (induction fuel arbitrary: p)
  case (Suc fuel)
  note f = fetch_next [OF assms(1) Suc.prems(1,2)]
  show ?case
  proof (cases "p + limit s < length (listing s)")
    case True
    then have "walk_pages fuel (fetch s) (Some (token_at s (p + limit s))) = Some (drop (p + limit s) (listing s))"
      using Suc.prems by (intro Suc.IH) (simp_all add: algebra_simps)
    with True f show ?thesis
      by (simp add: add.commute [of p]) (metis append_take_drop_id drop_drop)
  next
    case False
    with f show ?thesis by simp
  qed
qed simp

text \<open>The pages of a walk are the listing, each item once and in order; so many fetches suffice.\<close>

lemma walk_complete:
  assumes "ok s" "length (listing s) \<le> Suc fuel * limit s"
  shows "walk_pages (Suc fuel) (fetch s) None = Some (listing s)"
proof (cases "limit s < length (listing s)")
  case True
  then have "walk_pages fuel (fetch s) (Some (token_at s (limit s))) = Some (drop (limit s) (listing s))"
    using assms limit_pos by (intro walk_from) simp_all
  with True assms(1) show ?thesis by (simp add: fetch_first)
next
  case False
  with assms(1) show ?thesis by (simp add: fetch_first)
qed

lemma page_bound: "ok s \<Longrightarrow> length (fst (fetch s None)) \<le> limit s"
  by (simp add: fetch_first)

end

section \<open>PageCollector provides the contract\<close>

lemma strict_sorted_split:
  assumes "sorted (map f ys)" "distinct (map f ys)" "0 < p" "p \<le> length ys"
  shows "\<forall>y\<in>set (take p ys). f y \<le> (f (ys ! (p - 1)) :: 'k::linorder)"
    and "\<forall>y\<in>set (drop p ys). f (ys ! (p - 1)) < f y"
proof -
  have le: "f (ys ! i) \<le> f (ys ! j)" if "i \<le> j" "j < length ys" for i j
    using assms(1) that by (simp add: sorted_iff_nth_mono)
  show "\<forall>y\<in>set (take p ys). f y \<le> f (ys ! (p - 1))"
    using assms(3,4) by (force simp: in_set_conv_nth intro: le)
  show "\<forall>y\<in>set (drop p ys). f (ys ! (p - 1)) < f y"
  proof
    fix y
    assume "y \<in> set (drop p ys)"
    then obtain j where j: "y = ys ! (p + j)" "p + j < length ys"
      by (auto simp: in_set_conv_nth)
    have "f (ys ! (p - 1)) \<noteq> f (ys ! (p + j))"
      using nth_eq_iff_index_eq [OF assms(2), of "p - 1" "p + j"] j(2) assms(3) by simp
    with le [of "p - 1" "p + j"] j show "f (ys ! (p - 1)) < f y" by (simp add: order_less_le)
  qed
qed

lemma filter_after:
  assumes "sorted (map f ys)" "distinct (map f ys)" "0 < p" "p \<le> length ys"
  shows "filter (\<lambda>y. \<not> f y \<le> (f (ys ! (p - 1)) :: 'k::linorder)) ys = drop p ys"
proof -
  let ?P = "\<lambda>y. \<not> f y \<le> f (ys ! (p - 1))"
  have "filter ?P (take p ys) = []" "filter ?P (drop p ys) = drop p ys"
    using strict_sorted_split [OF assms] by (auto simp: filter_empty_conv not_le intro!: filter_True)
  then show ?thesis by (metis append_Nil append_take_drop_id filter_append)
qed

lemma takeWhile_until:
  assumes "sorted (map f ys)" "distinct (map f ys)" "0 < p" "p \<le> length ys"
  shows "takeWhile (\<lambda>y. f y \<le> (f (ys ! (p - 1)) :: 'k::linorder)) ys = take p ys"
proof -
  let ?P = "\<lambda>y. f y \<le> f (ys ! (p - 1))"
  have "takeWhile ?P (take p ys @ drop p ys) = take p ys @ takeWhile ?P (drop p ys)"
    using strict_sorted_split(1) [OF assms] by (intro takeWhile_append2) auto
  also have "takeWhile ?P (drop p ys) = []"
    using strict_sorted_split(2) [OF assms] by (cases "drop p ys") auto
  finally show ?thesis by simp
qed

lemma take_insort:
  "take n (insort_key f x (take n ys)) = take n (insort_key f x ys)"
proof (induction ys arbitrary: n)
  case (Cons y ys)
  then show ?case by (cases n) (auto simp: take_Cons')
qed simp

lemma insort_butlast:
  assumes "ys \<noteq> []" "f x < f (last ys)"
  shows "insort_key f x (butlast ys) = take (length ys) (insort_key f x ys)"
proof -
  have "insort_key f x (zs @ [z]) = insort_key f x zs @ [z]" if "f x < f z" for zs z
    using that by (induction zs) auto
  from this [of "last ys" "butlast ys"] assms show ?thesis
    by simp
qed

lemma insort_last:
  assumes "sorted (map f ys)" "ys \<noteq> []" "f (last ys) < (f x :: 'k::linorder)"
  shows "insort_key f x ys = ys @ [x]"
proof -
  have "f y \<le> f (last ys)" if "y \<in> set ys" for y
  proof -
    have "sorted (map f (butlast ys @ [last ys]))" using assms(1,2) by simp
    moreover have "y \<in> set (butlast ys) \<or> y = last ys"
      using that append_butlast_last_id [OF assms(2)] by (metis Un_iff set_append empty_iff insert_iff list.set)
    ultimately show ?thesis by (auto simp: sorted_append)
  qed
  with assms(3) have "\<forall>y\<in>set ys. f y < f x" by fastforce
  then show ?thesis by (induction ys) auto
qed

lemma pc_push_bounded:
  assumes "pc_heap pc = take (Suc (pc_limit pc)) ys" "sorted (map fst ys)" "fst x \<notin> fst ` set ys"
    and "\<not> at_or_before (fst x) (pc_cursor pc)"
  shows "pc_heap (pc_push x pc) = take (Suc (pc_limit pc)) (insort_key fst x ys)"
proof -
  let ?L = "Suc (pc_limit pc)" and ?h = "pc_heap pc"
  have "take ?L (insort_key fst x ?h) = take ?L (insort_key fst x ys)"
    unfolding assms(1) by (rule take_insort)
  moreover have "pc_heap (pc_push x pc) = take ?L (insort_key fst x ?h)"
  proof (cases "length ?h \<le> pc_limit pc")
    case True
    with assms(4) show ?thesis by (simp add: pc_push_def)
  next
    case False
    then have len: "length ?h = ?L" "?h \<noteq> []" using assms(1) by auto
    have "fst (last ?h) \<noteq> fst x"
      using assms(1,3) len(2) by (metis image_eqI in_set_takeD last_in_set)
    then consider "fst x < fst (last ?h)" | "fst (last ?h) < fst x" by fastforce
    then show ?thesis
    proof cases
      case 1
      with False len assms(4) show ?thesis by (simp add: pc_push_def insort_butlast)
    next
      case 2
      have "sorted (map fst ?h)" using assms(1,2) by (simp add: sorted_wrt_take take_map [symmetric])
      with 2 len(2) have "insort_key fst x ?h = ?h @ [x]" by (simp add: insort_last)
      with 2 False len(1) assms(4) show ?thesis using 2 by (auto simp: pc_push_def dest: order.asym)
    qed
  qed
  ultimately show ?thesis by simp
qed

lemma pc_push_skip: "at_or_before (fst x) (pc_cursor pc) \<Longrightarrow> pc_push x pc = pc"
  by (simp add: pc_push_def)

lemma pc_push_fields [simp]:
  "pc_limit (pc_push x pc) = pc_limit pc" "pc_cursor (pc_push x pc) = pc_cursor pc"
  by (simp_all add: pc_push_def)

lemma pc_fold_fields [simp]:
  "pc_limit (fold pc_push xs pc) = pc_limit pc" "pc_cursor (fold pc_push xs pc) = pc_cursor pc"
  by (induction xs arbitrary: pc) simp_all

lemma sort_key_snoc:
  assumes "distinct (map f (xs @ [x]))"
  shows "sort_key f (xs @ [x]) = insort_key (f :: _ \<Rightarrow> 'k::linorder) x (sort_key f xs)"
proof (rule sort_key_inj_key_eq)
  show "mset (xs @ [x]) = mset (insort_key f x (sort_key f xs))" by simp
  show "inj_on f (set (xs @ [x]))" using assms by (simp only: distinct_map)
  show "sorted (map f (insort_key f x (sort_key f xs)))" by (simp add: sorted_insort_key)
qed

text \<open>The heap holds the first \<open>limit + 1\<close> candidates after the cursor, whatever the push order.\<close>

lemma fold_push_heap:
  assumes "distinct (map fst xs)" "pc_heap pc = []"
  shows "pc_heap (fold pc_push xs pc) = take (Suc (pc_limit pc))
    (sort_key fst (filter (\<lambda>x. \<not> at_or_before (fst x) (pc_cursor pc)) xs))"
  using assms(1)
proof (induction xs rule: rev_induct)
  case Nil
  with assms(2) show ?case by simp
next
  case (snoc x xs)
  let ?F = "\<lambda>xs. filter (\<lambda>x. \<not> at_or_before (fst x) (pc_cursor pc)) xs"
  have IH: "pc_heap (fold pc_push xs pc) = take (Suc (pc_limit pc)) (sort_key fst (?F xs))"
    using snoc by simp
  show ?case
  proof (cases "at_or_before (fst x) (pc_cursor pc)")
    case True
    with IH show ?thesis by (simp add: pc_push_skip)
  next
    case False
    have "distinct (map fst (?F xs @ [x]))"
      using snoc.prems by (auto simp: distinct_map_filter)
    from sort_key_snoc [OF this]
    have "sort_key fst (?F (xs @ [x])) = insort_key fst x (sort_key fst (?F xs))" using False by simp
    moreover have "pc_heap (pc_push x (fold pc_push xs pc)) =
        take (Suc (pc_limit (fold pc_push xs pc))) (insort_key fst x (sort_key fst (?F xs)))"
      using IH False snoc.prems by (intro pc_push_bounded) auto
    ultimately show ?thesis by simp
  qed
qed

lemma take_Suc_last:
  "0 < n \<Longrightarrow> n < length ys \<Longrightarrow> last (take n ys) = ys ! (n - 1)"
  by (cases n) (simp_all add: take_Suc_conv_app_nth)

lemma collect_page_eq:
  assumes "distinct (map fst xs)"
    and S_def: "S = sort_key fst (filter (\<lambda>x. \<not> at_or_before (fst x) (parse_token ut token)) xs)"
  shows "collect_page ut n token xs = (map snd (take n S),
    if n < length S \<and> 0 < n then Some (make_token ut (fst (S ! (n - 1)))) else None)"
proof -
  have "pc_heap (fold pc_push xs (pc_new ut n token)) = take (Suc n) S"
    using fold_push_heap [OF assms(1), of "pc_new ut n token"] by (simp add: pc_new_def S_def)
  moreover have "take n S \<noteq> [] \<longleftrightarrow> 0 < n" if "n < length S" using that by auto
  ultimately show ?thesis
    unfolding collect_page_def pc_into_page_def Let_def
    by (auto simp: pc_new_def take_Suc_last min_def)
qed

text \<open>What the token of a page needs: invertible identifier texts and keys without the separator.\<close>

definition keys_ok :: "uuid_text \<Rightarrow> page_key list \<Rightarrow> bool" where
  "keys_ok ut ks = (uuid_text_ok ut \<and> distinct ks \<and> list_all (\<lambda>k. bar \<notin> set (fst k)) ks)"

definition collector_ok :: "uuid_text \<times> nat \<times> 'a keyed list \<Rightarrow> bool" where
  "collector_ok = (\<lambda>(ut, n, xs). 0 < n \<and> keys_ok ut (map fst xs))"

lemma collect_next:
  assumes "keys_ok ut (map fst xs)" "0 < n" "0 < p" "p < length xs"
  defines "S \<equiv> sort_key fst xs"
  shows "collect_page ut n (Some (make_token ut (fst (S ! (p - 1))))) xs = (map snd (take n (drop p S)),
    if p + n < length S then Some (make_token ut (fst (S ! (p + n - 1)))) else None)"
proof -
  have d: "distinct (map fst xs)" using assms(1) by (simp add: keys_ok_def)
  have dS: "distinct (map fst S)" "sorted (map fst S)" "length S = length xs"
    using d by (simp_all add: S_def distinct_map inj_on_def)
  have "S ! (p - 1) \<in> set xs"
    using assms(3,4) nth_mem [of "p - 1" S] by (simp add: S_def)
  then have "parse_token ut (Some (make_token ut (fst (S ! (p - 1))))) = Some (fst (S ! (p - 1)))"
    using assms(1) by (intro parse_make_token) (auto simp: keys_ok_def list_all_iff)
  moreover have "sort_key fst (filter (\<lambda>x. \<not> fst x \<le> fst (S ! (p - 1))) xs) = drop p S"
    unfolding S_def filter_sort [symmetric]
    using filter_after [OF dS(2,1), of p] assms(3,4) dS(3) by (simp add: S_def)
  ultimately show ?thesis
    using collect_page_eq [OF d refl, of ut n "Some (make_token ut (fst (S ! (p - 1))))"] assms(2,3) dS(3)
    by (auto simp: at_or_before_def algebra_simps)
qed

interpretation collector: pager "\<lambda>(ut, n, xs) token. collect_page ut n token xs"
  "\<lambda>(ut, n, xs). map snd (sort_key fst xs)" "\<lambda>(ut, n, xs). n"
  "\<lambda>(ut, n, xs) p. make_token ut (fst (sort_key fst xs ! (p - 1)))" collector_ok
proof (unfold_locales, goal_cases)
  case (2 s)
  obtain ut n xs where s: "s = (ut, n, xs)" by (cases s)
  with 2 have ok: "keys_ok ut (map fst xs)" "0 < n" by (simp_all add: collector_ok_def)
  then have "distinct (map fst xs)" by (simp add: keys_ok_def)
  from collect_page_eq [OF this refl, of ut n None] ok s show ?case
    by (simp add: at_or_before_def take_map)
next
  case (3 s p)
  obtain ut n xs where s: "s = (ut, n, xs)" by (cases s)
  with 3 have ok: "keys_ok ut (map fst xs)" "0 < n" by (simp_all add: collector_ok_def)
  with 3 s collect_next [OF ok, of p] show ?case by (simp add: take_map drop_map)
qed (auto simp: collector_ok_def)

section \<open>Slicing provides the contract\<close>

definition slice_ok :: "uuid_text \<times> nat \<times> 'a list \<times> ('a \<Rightarrow> page_key) \<Rightarrow> bool" where
  "slice_ok = (\<lambda>(ut, n, items, key_fn). 0 < n \<and> keys_ok ut (map key_fn items) \<and> sorted (map key_fn items))"

lemma slice_start_key:
  "(\<lambda>item. let (item_ts, item_id) = key_fn item
      in item_ts < fst c \<or> item_ts = fst c \<and> item_id \<le> snd c) = (\<lambda>item. key_fn item \<le> (c :: page_key))"
  by (auto simp: fun_eq_iff less_eq_prod_def split: prod.splits)

lemma paginate_at:
  assumes "n < length xs - p \<longrightarrow> 0 < n"
    and "parse_token ut token = None \<and> p = 0 \<or>
      (\<exists>c. parse_token ut token = Some c \<and> takeWhile (\<lambda>item. key_fn item \<le> c) xs = take p xs \<and> p \<le> length xs)"
  shows "paginate ut xs n token key_fn = (take n (drop p xs),
    if n < length xs - p then Some (make_token ut (key_fn (drop p xs ! (n - 1)))) else None)"
proof -
  define start where "start = (case parse_token ut token of
            None \<Rightarrow> 0
          | Some (ts, cursor_id) \<Rightarrow> partition_point
              (\<lambda>item. let (item_ts, item_id) = key_fn item
                      in item_ts < ts \<or> item_ts = ts \<and> item_id \<le> cursor_id) xs)"
  have "start = p"
  proof (cases "parse_token ut token")
    case None
    with assms(2) show ?thesis by (simp add: start_def)
  next
    case (Some c)
    with assms(2) have t: "takeWhile (\<lambda>item. key_fn item \<le> c) xs = take p xs" "p \<le> length xs" by auto
    from Some have "start = partition_point (\<lambda>item. key_fn item \<le> c) xs"
      unfolding start_def slice_start_key [of key_fn c, symmetric] by (cases c) simp
    with t show ?thesis by (simp add: partition_point_def)
  qed
  then show ?thesis
    unfolding paginate_def start_def [symmetric] using assms(1)
    unfolding Let_def [of start] by (auto simp: Let_def take_Suc_last)
qed

interpretation slice: pager "\<lambda>(ut, n, items, key_fn) token. paginate ut items n token key_fn"
  "\<lambda>(ut, n, items, key_fn). items" "\<lambda>(ut, n, items, key_fn). n"
  "\<lambda>(ut, n, items, key_fn) p. make_token ut (key_fn (items ! (p - 1)))" slice_ok
proof (unfold_locales, goal_cases)
  case (2 s)
  obtain ut n xs f where s: "s = (ut, n, xs, f)" by (cases s)
  with 2 have "0 < n" by (simp add: slice_ok_def)
  with s paginate_at [of n xs 0 ut None f] show ?case by simp
next
  case (3 s p)
  obtain ut n xs f where s: "s = (ut, n, xs, f)" by (cases s)
  with 3 have ok: "0 < n" "keys_ok ut (map f xs)" "sorted (map f xs)" "p < length xs"
    by (simp_all add: slice_ok_def)
  have "xs ! (p - 1) \<in> set xs" using ok(4) by simp
  then have "parse_token ut (Some (make_token ut (f (xs ! (p - 1))))) = Some (f (xs ! (p - 1)))"
    using ok(2) by (intro parse_make_token) (auto simp: keys_ok_def list_all_iff)
  moreover have "takeWhile (\<lambda>y. f y \<le> f (xs ! (p - 1))) xs = take p xs"
    using takeWhile_until [OF ok(3) _ 3(2)] ok(2,4) by (simp add: keys_ok_def)
  ultimately have "paginate ut xs n (Some (make_token ut (f (xs ! (p - 1))))) f = (take n (drop p xs),
      if n < length xs - p then Some (make_token ut (f (drop p xs ! (n - 1)))) else None)"
    using ok(1,4) by (intro paginate_at) auto
  moreover have "n < length xs - p \<longleftrightarrow> p + n < length xs" by auto
  moreover have "drop p xs ! (n - 1) = xs ! (p + n - 1)" using ok(1,4) by simp
  ultimately show ?case by (simp add: s)
qed (auto simp: slice_ok_def)

section \<open>Properties\<close>

text \<open>
  C7. Walking the pages of a collected listing returns every item exactly once, in key order,
  and ends after at most \<open>length / limit + 1\<close> fetches, whatever order the candidates are pushed in.
\<close>

theorem collector_walk_complete:
  assumes "uuid_text_ok ut" and "distinct (map fst xs)" and "list_all (\<lambda>x. bar \<notin> set (fst (fst x))) xs"
    and "0 < n" and "length xs \<le> Suc fuel * n"
  shows "walk_pages (Suc fuel) (\<lambda>token. collect_page ut n token xs) None = Some (map snd (sort_key fst xs))"
  using collector.walk_complete [of "(ut, n, xs)" fuel] assms
  by (simp add: collector_ok_def keys_ok_def list_all_iff)

text \<open>
  An instance of the identifier text: a count in unary. It stands for the crate's rendering in the
  witnesses only.
\<close>

definition unary_text :: uuid_text where
  "unary_text = \<lparr>show_uuid = (\<lambda>u. replicate (unat u) CHR ''1''),
     parse_uuid = (\<lambda>s. Some (of_nat (length s)))\<rparr>"

lemma unary_text_ok: "uuid_text_ok unary_text"
  by (simp add: uuid_text_ok_def unary_text_def)

theorem collector_walk_complete_witness:
  "walk_pages (Suc 1) (\<lambda>token. collect_page unary_text 2 token
      [((''b'', 2), ''x''), ((''a'', 9), ''y''), ((''ab'', 1), ''z'')]) None = Some [''y'', ''z'', ''x'']"
  using collector_walk_complete [of unary_text "[((''b'', 2), ''x''), ((''a'', 9), ''y''), ((''ab'', 1), ''z'')]" 2 1]
  by (simp add: unary_text_ok bar_def)

text \<open>
  Walking the slices of a list sorted by distinct keys returns the list itself.
\<close>

theorem slice_walk_complete:
  assumes "uuid_text_ok ut" and "distinct (map key_fn items)" and "sorted (map key_fn items)"
    and "list_all (\<lambda>x. bar \<notin> set (fst (key_fn x))) items"
    and "0 < n" and "length items \<le> Suc fuel * n"
  shows "walk_pages (Suc fuel) (\<lambda>token. paginate ut items n token key_fn) None = Some items"
  using slice.walk_complete [of "(ut, n, items, key_fn)" fuel] assms
  by (simp add: slice_ok_def keys_ok_def list_all_iff)

theorem slice_walk_complete_witness:
  "walk_pages (Suc 1) (\<lambda>token. paginate unary_text [(''a'', 9), (''ab'', 1), (''b'', 2)] 2 token (\<lambda>x. x)) None =
     Some [(''a'', 9), (''ab'', 1), (''b'', 2)]"
  using slice_walk_complete [of unary_text "\<lambda>x. x" "[(''a'', 9), (''ab'', 1), (''b'', 2)]" 2 1]
  by (simp add: unary_text_ok bar_def)

end
