(* ===== verification/Storage.thy ===== *)
theory Storage
  imports Pagination Format
begin

text \<open>
  The storage interface, \<open>keeplin-core/src/storage/backend.rs\<close>: the repository traits as one
  record of operations over a store type, the sort profile of a notebook, and the provided methods
  of the traits. An operation takes the store and returns its result with the store it leaves.
\<close>

type_synonym ('a, 's) act = "'s \<Rightarrow> ('a, 's) op"
type_synonym ('a, 's) pages = "u32 \<Rightarrow> string option \<Rightarrow> ('a list \<times> string option, 's) act"

text \<open>
  The text forms the backends rely on: identifiers (the \<open>uuid\<close> crate) and timestamps rendered by
  \<open>to_sortable_rfc3339\<close> (the \<open>chrono\<close> crate). On the timestamps of a listing the rendering is
  strictly monotone, not empty and free of the token separator.
\<close>

record text_codec = uuid_text +
  show_ts :: "ts \<Rightarrow> string"

definition ts_text_ok :: "('a text_codec_scheme) \<Rightarrow> ts set \<Rightarrow> bool" where
  "ts_text_ok tc T \<longleftrightarrow> strict_mono_on T (show_ts tc) \<and> (\<forall>t\<in>T. show_ts tc t \<noteq> [] \<and> bar \<notin> set (show_ts tc t))"

text \<open>
  An operation with loops over pages takes fuel; \<open>None\<close> says that it has not ended. \<open>fuel_then\<close> is the
  \<open>?\<close> operator of such operations.
\<close>

fun fuel_then :: "('a, 's) op option \<Rightarrow> ('a \<Rightarrow> 's \<Rightarrow> ('b, 's) op option) \<Rightarrow> ('b, 's) op option" where
  "fuel_then None k = None"
| "fuel_then (Some (Inl e, s)) k = Some (Inl e, s)"
| "fuel_then (Some (Inr x, s)) k = k x s"

section \<open>The repository traits\<close>

record NotebookSortProfile =
  sp_pinned_keys :: "u32 list"
  sp_min_key :: "u32 option"
  sp_max_normal_key :: "u32 option"
  sp_live_notes :: nat

record 'e EntityVersion =
  ev_timestamp :: ts
  ev_device_id :: string
  ev_entity :: "'e option"

record 's backend =
  create_note :: "Note \<Rightarrow> (Note, 's) act"
  read_note :: "uuid \<Rightarrow> (Note, 's) act"
  update_note :: "Note \<Rightarrow> (Note, 's) act"
  delete_note :: "uuid \<Rightarrow> (unit, 's) act"
  list_notes :: "(Note, 's) pages"
  list_notes_in_notebook :: "uuid \<Rightarrow> (Note, 's) pages"
  list_starred_notes :: "(Note, 's) pages"
  notebook_sort_profile :: "uuid \<Rightarrow> (NotebookSortProfile, 's) act"
  note_backlinks :: "uuid \<Rightarrow> (Note, 's) pages"
  create_notebook :: "Notebook \<Rightarrow> (Notebook, 's) act"
  read_notebook :: "uuid \<Rightarrow> (Notebook, 's) act"
  update_notebook :: "Notebook \<Rightarrow> (Notebook, 's) act"
  delete_notebook :: "uuid \<Rightarrow> (unit, 's) act"
  list_notebooks :: "(Notebook, 's) pages"
  create_tag :: "Tag \<Rightarrow> (Tag, 's) act"
  read_tag :: "uuid \<Rightarrow> (Tag, 's) act"
  update_tag :: "Tag \<Rightarrow> (Tag, 's) act"
  delete_tag :: "uuid \<Rightarrow> (unit, 's) act"
  list_tags :: "(Tag, 's) pages"
  add_note_tag :: "NoteTag \<Rightarrow> (unit, 's) act"
  remove_note_tag :: "uuid \<Rightarrow> uuid \<Rightarrow> (unit, 's) act"
  list_note_tags :: "uuid \<Rightarrow> (Tag, 's) pages"
  create_resource :: "Resource \<Rightarrow> u8 list \<Rightarrow> (Resource, 's) act"
  read_resource :: "uuid \<Rightarrow> (Resource \<times> u8 list, 's) act"
  delete_resource :: "uuid \<Rightarrow> (unit, 's) act"
  list_resources :: "(Resource, 's) pages"
  list_resources_for_note :: "uuid \<Rightarrow> (Resource, 's) pages"
  purge_deleted_resources :: "ts \<Rightarrow> (nat, 's) act"
  get_changes_since :: "ts \<Rightarrow> (Change list, 's) act"
  apply_change :: "Change \<Rightarrow> (unit, 's) act"
  get_last_sync_time :: "(ts, 's) act"
  update_sync_time :: "ts \<Rightarrow> (unit, 's) act"
  send_changes :: "Change list \<Rightarrow> (unit, 's) act"
  receive_changes :: "(Change list, 's) act"
  prune_change_journal :: "ts \<Rightarrow> (nat, 's) act"
  get_device_id :: "(string, 's) act"
  note_history :: "uuid \<Rightarrow> u32 \<Rightarrow> (Note EntityVersion list, 's) act"
  notebook_history :: "uuid \<Rightarrow> u32 \<Rightarrow> (Notebook EntityVersion list, 's) act"

definition DEFAULT_HISTORY_LIMIT :: u32 where
  "DEFAULT_HISTORY_LIMIT = 100"

section \<open>The sort profile of a notebook\<close>

definition empty_profile :: NotebookSortProfile where
  "empty_profile = \<lparr>sp_pinned_keys = [], sp_min_key = None, sp_max_normal_key = None, sp_live_notes = 0\<rparr>"

definition profile_step :: "u32 \<Rightarrow> NotebookSortProfile \<Rightarrow> NotebookSortProfile" where
  "profile_step key profile =
    (let profile = profile\<lparr>sp_live_notes := sp_live_notes profile + 1,
           sp_min_key := Some (case sp_min_key profile of None \<Rightarrow> key | Some m \<Rightarrow> min m key)\<rparr>
     in if 1 \<le> key \<and> key < 1000
        then profile\<lparr>sp_pinned_keys := sp_pinned_keys profile @ [key]\<rparr>
        else profile\<lparr>sp_max_normal_key :=
               Some (case sp_max_normal_key profile of None \<Rightarrow> key | Some m \<Rightarrow> max m key)\<rparr>)"

definition from_effective_keys :: "u32 list \<Rightarrow> NotebookSortProfile" where
  "from_effective_keys keys =
    (let profile = fold profile_step keys empty_profile
     in profile\<lparr>sp_pinned_keys := sort (sp_pinned_keys profile)\<rparr>)"

definition pinned_band :: "u32 \<Rightarrow> bool" where
  "pinned_band key = (1 \<le> key \<and> key < 1000)"

lemma profile_step_simps [simp]:
  "sp_pinned_keys (profile_step k p) = sp_pinned_keys p @ (if pinned_band k then [k] else [])"
  "sp_live_notes (profile_step k p) = Suc (sp_live_notes p)"
  "sp_min_key (profile_step k p) = Some (case sp_min_key p of None \<Rightarrow> k | Some m \<Rightarrow> min m k)"
  "sp_max_normal_key (profile_step k p) = (if pinned_band k then sp_max_normal_key p
     else Some (case sp_max_normal_key p of None \<Rightarrow> k | Some m \<Rightarrow> max m k))"
  by (simp_all add: profile_step_def pinned_band_def Let_def)

lemma fold_profile_step:
  "sp_pinned_keys (fold profile_step keys p) = sp_pinned_keys p @ filter pinned_band keys"
  "sp_live_notes (fold profile_step keys p) = sp_live_notes p + length keys"
  by (induction keys arbitrary: p) auto

lemma Min_min: "finite S \<Longrightarrow> Min (insert (min m k) S) = Min (insert m (insert k (S :: 'k::linorder set)))"
  by (cases "S = {}") (simp_all add: min.assoc)

lemma Max_max: "finite S \<Longrightarrow> Max (insert (max m k) S) = Max (insert m (insert k (S :: 'k::linorder set)))"
  by (cases "S = {}") (simp_all add: max.assoc)

lemma fold_min_key:
  "sp_min_key (fold profile_step keys p) = (case sp_min_key p of
     None \<Rightarrow> if keys = [] then None else Some (Min (set keys))
   | Some m \<Rightarrow> Some (Min (insert m (set keys))))"
proof (induction keys arbitrary: p)
  case (Cons k ks)
  show ?case unfolding fold_simps Cons.IH
    by (cases "sp_min_key p") (simp_all add: Min_min del: Min_insert)
qed (simp split: option.splits)

lemma fold_max_key:
  "sp_max_normal_key (fold profile_step keys p) =
     (case sp_max_normal_key p of
        None \<Rightarrow> if filter (\<lambda>k. \<not> pinned_band k) keys = [] then None
                else Some (Max (set (filter (\<lambda>k. \<not> pinned_band k) keys)))
      | Some m \<Rightarrow> Some (Max (insert m (set (filter (\<lambda>k. \<not> pinned_band k) keys)))))"
proof (induction keys arbitrary: p)
  case (Cons k ks)
  show ?case unfolding fold_simps Cons.IH
    by (cases "sp_max_normal_key p") (simp_all add: Max_max del: set_filter Max_insert)
qed (simp split: option.splits)

text \<open>What a profile says of the keys it was built from.\<close>

lemma from_effective_keys_spec:
  "sp_pinned_keys (from_effective_keys keys) = sort (filter pinned_band keys)"
  "sp_live_notes (from_effective_keys keys) = length keys"
  "sp_min_key (from_effective_keys keys) = (if keys = [] then None else Some (Min (set keys)))"
  "sp_max_normal_key (from_effective_keys keys) =
     (let normal = filter (\<lambda>k. \<not> pinned_band k) keys in if normal = [] then None else Some (Max (set normal)))"
  by (simp_all add: from_effective_keys_def Let_def fold_profile_step fold_min_key fold_max_key empty_profile_def del: set_filter)

text \<open>The profile does not depend on the order of the keys.\<close>

lemma from_effective_keys_mset: "mset keys = mset keys' \<Longrightarrow> from_effective_keys keys = from_effective_keys keys'"
proof -
  assume eq: "mset keys = mset keys'"
  then have s: "set keys = set keys'" "length keys = length keys'"
    by (auto dest: mset_eq_setD mset_eq_length)
  have "sort (filter pinned_band keys) = sort (filter pinned_band keys')"
    using eq by (intro properties_for_sort) simp_all
  moreover have "set (filter P keys) = set (filter P keys')" for P using s by auto
  moreover have "filter P keys = [] \<longleftrightarrow> filter P keys' = []" for P
    using s by (auto simp: filter_empty_conv)
  ultimately show ?thesis
    using s by (intro NotebookSortProfile.equality) (auto simp: from_effective_keys_spec Let_def)
qed

section \<open>Provided methods\<close>

text \<open>
  \<open>paginate_notes\<close> and \<open>paginate_resources\<close> are the same slicing on \<open>created_at\<close> and
  \<open>id\<close>. A token whose identifier does not parse still skips the items before its timestamp.
\<close>

definition paginate_by :: "'c text_codec_scheme \<Rightarrow> ('a \<Rightarrow> ts) \<Rightarrow> ('a \<Rightarrow> uuid) \<Rightarrow> 'a list \<Rightarrow> u32 \<Rightarrow> string option \<Rightarrow> 'a list \<times> string option" where
  "paginate_by tc created ident items page_size token =
    (let limit = unat (effective_page_size page_size);
         start = (case token of
            None \<Rightarrow> 0
          | Some t \<Rightarrow> if t = [] then 0 else
             (case split_once bar t of
                None \<Rightarrow> 0
              | Some (ts, id_str) \<Rightarrow>
                  let cursor_id = parse_uuid tc id_str in
                  partition_point (\<lambda>n.
                    let item_ts = show_ts tc (created n) in
                    item_ts < ts \<or> item_ts = ts \<and> (case cursor_id of None \<Rightarrow> False | Some c \<Rightarrow> ident n \<le> c)) items));
         remaining = drop start items;
         has_more = limit < length remaining;
         page = take limit remaining;
         next_token = (if has_more \<and> page \<noteq> []
           then Some (show_ts tc (created (last page)) @ bar # show_uuid tc (ident (last page))) else None)
     in (page, next_token))"

definition paginate_notes :: "'c text_codec_scheme \<Rightarrow> Note list \<Rightarrow> u32 \<Rightarrow> string option \<Rightarrow> Note list \<times> string option" where
  "paginate_notes tc = paginate_by tc n_created_at n_id"

definition paginate_resources :: "'c text_codec_scheme \<Rightarrow> Resource list \<Rightarrow> u32 \<Rightarrow> string option \<Rightarrow> Resource list \<times> string option" where
  "paginate_resources tc = paginate_by tc r_created_at r_id"

text \<open>
  The loop of the provided methods: walk all pages and keep what matches. It is given fuel and is
  \<open>None\<close> when the fuel does not suffice.
\<close>

fun collect_pages :: "nat \<Rightarrow> ('a, 's) pages \<Rightarrow> ('a \<Rightarrow> bool) \<Rightarrow> string option \<Rightarrow> 'a list \<Rightarrow> 's \<Rightarrow> ('a list, 's) op option" where
  "collect_pages 0 fetch P token acc s = None"
| "collect_pages (Suc fuel) fetch P token acc s =
    (case fetch 0 token s of
       (Inl e, s) \<Rightarrow> Some (Inl e, s)
     | (Inr (page, next_token), s) \<Rightarrow>
         (let acc = acc @ filter P page in
          case next_token of
            None \<Rightarrow> Some (Inr acc, s)
          | Some t \<Rightarrow> collect_pages fuel fetch P (Some t) acc s))"

definition default_note_backlinks :: "'c text_codec_scheme \<Rightarrow> nat \<Rightarrow> 's backend \<Rightarrow> uuid \<Rightarrow> u32 \<Rightarrow> string option \<Rightarrow> 's \<Rightarrow> (Note list \<times> string option, 's) op option" where
  "default_note_backlinks tc fuel be target_id page_size token s =
    map_option (\<lambda>r. and_then r (\<lambda>matches s. (Inr (paginate_notes tc matches page_size token), s)))
      (collect_pages fuel (list_notes be) (\<lambda>n. list_ex (\<lambda>l. l_target_note_id l = Some target_id) (n_links n)) None [] s)"

definition default_list_resources_for_note :: "'c text_codec_scheme \<Rightarrow> nat \<Rightarrow> 's backend \<Rightarrow> uuid \<Rightarrow> u32 \<Rightarrow> string option \<Rightarrow> 's \<Rightarrow> (Resource list \<times> string option, 's) op option" where
  "default_list_resources_for_note tc fuel be note_id page_size token s =
    map_option (\<lambda>r. and_then r (\<lambda>matches s. (Inr (paginate_resources tc matches page_size token), s)))
      (collect_pages fuel (list_resources be) (\<lambda>r. r_note_id r = note_id) None [] s)"

text \<open>
  A read-only listing whose pages are those of a walk collects the matching items of the walk.
\<close>

lemma collect_pages_walk:
  assumes "\<And>t. fetch 0 t s = (Inr (pg t), s)" and "walk_pages fuel pg token = Some items"
  shows "collect_pages fuel fetch P token acc s = Some (Inr (acc @ filter P items), s)"
  using assms(2)
proof (induction fuel arbitrary: token acc items)
  case (Suc fuel)
  then show ?case
    by (cases "pg token"; cases "snd (pg token)") (auto simp: assms(1) Let_def)
qed simp

end
