(* ===== verification/Ordering.thy ===== *)
theory Ordering
  imports Storage
begin

text \<open>
  \<open>keeplin-core/src/ordering.rs\<close>: manual ordering, pinning and starring of notes, over any
  storage backend. The locale \<open>note_repo\<close> is what these operations rely on in a backend; the
  properties of the band of a pinned or reordered note are proved in it.
\<close>

section \<open>Constants\<close>

definition INBOX_ID :: uuid where
  "INBOX_ID = uuid_nil"

definition INBOX_TITLE :: string where
  "INBOX_TITLE = ''Inbox''"

definition PIN_MAX :: u32 where
  "PIN_MAX = 999"

definition MAX_PINNED :: nat where
  "MAX_PINNED = unat PIN_MAX"

definition NORMAL_START :: u32 where
  "NORMAL_START = DEFAULT_SORT_KEY"

definition RESEQUENCE_STEP :: u32 where
  "RESEQUENCE_STEP = 1000"

definition is_inbox :: "uuid \<Rightarrow> bool" where
  "is_inbox i = (i = INBOX_ID)"

lemmas ordering_consts = PIN_MAX_def NORMAL_START_def DEFAULT_SORT_KEY_def

section \<open>Keys\<close>

fun lowest_free_loop :: "u32 list \<Rightarrow> u32 \<Rightarrow> u32" where
  "lowest_free_loop [] candidate = candidate"
| "lowest_free_loop (key # rest) candidate =
    (if candidate < key then candidate
     else if key = candidate then lowest_free_loop rest (candidate + 1)
     else lowest_free_loop rest candidate)"

definition lowest_free_pinned_key :: "u32 list \<Rightarrow> u32 option" where
  "lowest_free_pinned_key used =
    (let candidate = lowest_free_loop used 1 in if candidate \<le> PIN_MAX then Some candidate else None)"

definition next_normal_key :: "NotebookSortProfile \<Rightarrow> u32" where
  "next_normal_key profile = (case sp_max_normal_key profile of
      None \<Rightarrow> NORMAL_START | Some m \<Rightarrow> saturating_add m 1)"

section \<open>Operations\<close>

text \<open>\<open>Notebook::new\<close> reads the clock; its fresh identifier is overwritten.\<close>

definition ensure_inbox :: "'s backend \<Rightarrow> ts \<Rightarrow> (unit, 's) act" where
  "ensure_inbox be now s = (case read_notebook be INBOX_ID s of
      (Inr _, s) \<Rightarrow> (Inr (), s)
    | (Inl NotFound, s) \<Rightarrow> and_then (create_notebook be (new_notebook INBOX_ID now INBOX_TITLE) s) (\<lambda>_ s. (Inr (), s))
    | (Inl e, s) \<Rightarrow> (Inl e, s))"

definition read_live_note :: "'s backend \<Rightarrow> uuid \<Rightarrow> (Note, 's) act" where
  "read_live_note be i s = and_then (read_note be i s) (\<lambda>note s.
     if n_deleted_at note \<noteq> None then (Inl NotFound, s) else (Inr note, s))"

text \<open>
  Resequencing walks the pages of the Inbox with the loop counter \<open>next\<close>. The walk has fuel, one
  unit per page; \<open>None\<close> means that it has not ended.
\<close>

fun resequence_page :: "'s backend \<Rightarrow> Note list \<Rightarrow> u32 \<Rightarrow> (u32, 's) act" where
  "resequence_page be [] next_key s = (Inr next_key, s)"
| "resequence_page be (note # rest) next_key s =
    and_then
      (if effective_sort_key note \<noteq> next_key
       then and_then (update_note be (note\<lparr>n_sort_key := next_key\<rparr>) s) (\<lambda>_ s. (Inr (), s))
       else (Inr (), s))
      (\<lambda>_ s. resequence_page be rest (saturating_add next_key RESEQUENCE_STEP) s)"

fun resequence_loop :: "nat \<Rightarrow> 's backend \<Rightarrow> string option \<Rightarrow> u32 \<Rightarrow> 's \<Rightarrow> (u32, 's) op option" where
  "resequence_loop 0 be token next_key s = None"
| "resequence_loop (Suc fuel) be token next_key s =
    (case list_notes_in_notebook be INBOX_ID 0 token s of
       (Inl e, s) \<Rightarrow> Some (Inl e, s)
     | (Inr (page, more_token), s) \<Rightarrow>
         (case resequence_page be page next_key s of
            (Inl e, s) \<Rightarrow> Some (Inl e, s)
          | (Inr next_key, s) \<Rightarrow>
              (case more_token of
                 None \<Rightarrow> Some (Inr RESEQUENCE_STEP, s)
               | Some t \<Rightarrow> resequence_loop fuel be (Some t) next_key s)))"

definition resequence_inbox :: "nat \<Rightarrow> 's backend \<Rightarrow> 's \<Rightarrow> (u32, 's) op option" where
  "resequence_inbox fuel be s = resequence_loop fuel be None RESEQUENCE_STEP s"

definition place_new_note :: "nat \<Rightarrow> 's backend \<Rightarrow> Note \<Rightarrow> 's \<Rightarrow> (Note, 's) op option" where
  "place_new_note fuel be note s =
    (if n_sort_key note \<noteq> 0 then Some (Inr note, s)
     else case notebook_sort_profile be (n_notebook_id note) s of
       (Inl e, s) \<Rightarrow> Some (Inl e, s)
     | (Inr profile, s) \<Rightarrow>
         (case check_notebook_capacity (sp_live_notes profile) of
            Inl v \<Rightarrow> Some (Inl (storage_error_of v), s)
          | Inr _ \<Rightarrow>
              if is_inbox (n_notebook_id note) then
                (case sp_min_key profile of
                   Some m \<Rightarrow>
                     if m \<le> 1 then
                       map_option (\<lambda>r. and_then r (\<lambda>k s. (Inr (note\<lparr>n_sort_key := k - 1\<rparr>), s)))
                         (resequence_inbox fuel be s)
                     else Some (Inr (note\<lparr>n_sort_key := m - 1\<rparr>), s)
                 | None \<Rightarrow> Some (Inr (note\<lparr>n_sort_key := NORMAL_START\<rparr>), s))
              else Some (Inr (note\<lparr>n_sort_key := next_normal_key profile\<rparr>), s)))"

definition pin_note :: "'s backend \<Rightarrow> uuid \<Rightarrow> (Note, 's) act" where
  "pin_note be i s = and_then (read_live_note be i s) (\<lambda>note s.
     if is_inbox (n_notebook_id note) then (Inl InvalidInput, s)
     else if n_is_pinned note then (Inr note, s)
     else and_then (notebook_sort_profile be (n_notebook_id note) s) (\<lambda>profile s.
       case lowest_free_pinned_key (sp_pinned_keys profile) of
         None \<Rightarrow> (Inl Conflict, s)
       | Some key \<Rightarrow> update_note be (note\<lparr>n_is_pinned := True, n_sort_key := key\<rparr>) s))"

definition unpin_note :: "'s backend \<Rightarrow> uuid \<Rightarrow> (Note, 's) act" where
  "unpin_note be i s = and_then (read_live_note be i s) (\<lambda>note s.
     if \<not> n_is_pinned note then (Inr note, s)
     else and_then (notebook_sort_profile be (n_notebook_id note) s) (\<lambda>profile s.
       update_note be (note\<lparr>n_is_pinned := False, n_sort_key := next_normal_key profile\<rparr>) s))"

definition reconcile_notebook_move :: "nat \<Rightarrow> 's backend \<Rightarrow> uuid \<Rightarrow> Note \<Rightarrow> 's \<Rightarrow> (Note, 's) op option" where
  "reconcile_notebook_move fuel be current_notebook_id note s =
    (if n_notebook_id note = current_notebook_id then Some (Inr note, s)
     else place_new_note fuel be (note\<lparr>n_is_pinned := False, n_sort_key := 0\<rparr>) s)"

definition set_starred :: "'s backend \<Rightarrow> uuid \<Rightarrow> bool \<Rightarrow> (Note, 's) act" where
  "set_starred be i starred s = and_then (read_live_note be i s) (\<lambda>note s.
     if n_is_starred note = starred then (Inr note, s)
     else update_note be (note\<lparr>n_is_starred := starred\<rparr>) s)"

definition star_note :: "'s backend \<Rightarrow> uuid \<Rightarrow> (Note, 's) act" where
  "star_note be i = set_starred be i True"

definition unstar_note :: "'s backend \<Rightarrow> uuid \<Rightarrow> (Note, 's) act" where
  "unstar_note be i = set_starred be i False"

definition in_band :: "Note \<Rightarrow> u32 \<Rightarrow> bool" where
  "in_band note key =
    (if is_inbox (n_notebook_id note) then 1 \<le> key
     else if n_is_pinned note then 1 \<le> key \<and> key \<le> PIN_MAX
     else NORMAL_START \<le> key)"

definition reorder_note :: "'s backend \<Rightarrow> uuid \<Rightarrow> u32 \<Rightarrow> (Note, 's) act" where
  "reorder_note be i new_sort_key s = and_then (read_live_note be i s) (\<lambda>note s.
     if \<not> in_band note new_sort_key then (Inl InvalidInput, s)
     else if n_sort_key note = new_sort_key then (Inr note, s)
     else update_note be (note\<lparr>n_sort_key := new_sort_key\<rparr>) s)"

section \<open>The lowest free key\<close>

lemma unat_plus1: "(a :: u32) \<le> 1000 \<Longrightarrow> unat (a + 1) = unat a + 1"
  by (simp add: unat_word_ariths word_le_nat_alt)

lemma lowest_free_loop_spec:
  assumes "sorted used" "\<forall>k\<in>set used. k < 1000" "c \<le> 1000"
  shows "c \<le> lowest_free_loop used c \<and> lowest_free_loop used c \<le> 1000 \<and>
    lowest_free_loop used c \<notin> set used \<and>
    (\<forall>j. c \<le> j \<longrightarrow> j < lowest_free_loop used c \<longrightarrow> j \<in> set used)"
  using assms
proof (induction used arbitrary: c)
  case (Cons k ks)
  then have k: "k < 1000" and ks: "sorted ks" "\<forall>k\<in>set ks. k < 1000" "\<forall>x\<in>set ks. k \<le> x" by auto
  consider "c < k" | "k = c" | "k < c" by fastforce
  then show ?case
  proof cases
    case 1
    with ks(3) Cons.prems(3) show ?thesis by auto
  next
    case 2
    have c1: "c + 1 \<le> 1000" and step: "j = c \<or> c + 1 \<le> j" if "c \<le> j" for j
      using k 2 that unat_plus1 [of c] by (auto simp: word_le_nat_alt word_less_nat_alt word_unat_eq_iff)
    have "c < c + 1" using k 2 unat_plus1 [of c] by (simp add: word_less_nat_alt word_le_nat_alt)
    with Cons.IH [OF ks(1,2) c1 [OF order_refl]] step 2 show ?thesis by auto
  next
    case 3
    with Cons.IH [OF ks(1,2) Cons.prems(3)] show ?thesis by auto
  qed
qed (simp add: not_less)

lemma lowest_free_some:
  assumes "sorted used" "\<forall>k\<in>set used. pinned_band k" "lowest_free_pinned_key used = Some key"
  shows "pinned_band key" "key \<notin> set used" "\<forall>j. 1 \<le> j \<longrightarrow> j < key \<longrightarrow> j \<in> set used"
proof -
  have "\<forall>k\<in>set used. k < 1000" using assms(2) by (simp add: pinned_band_def)
  from lowest_free_loop_spec [OF assms(1) this, of 1] assms(3)
  show "pinned_band key" "key \<notin> set used" "\<forall>j. 1 \<le> j \<longrightarrow> j < key \<longrightarrow> j \<in> set used"
    by (auto simp: lowest_free_pinned_key_def Let_def PIN_MAX_def pinned_band_def word_le_nat_alt
        word_less_nat_alt split: if_splits)
qed

lemma lowest_free_none:
  assumes "sorted used" "\<forall>k\<in>set used. pinned_band k" "lowest_free_pinned_key used = None"
  shows "pinned_band j \<Longrightarrow> j \<in> set used"
proof -
  have "\<forall>k\<in>set used. k < 1000" using assms(2) by (simp add: pinned_band_def)
  note spec = lowest_free_loop_spec [OF assms(1) this, of 1]
  have "999 < lowest_free_loop used 1"
    using assms(3) by (simp add: lowest_free_pinned_key_def Let_def PIN_MAX_def not_le split: if_splits)
  then show "pinned_band j \<Longrightarrow> j \<in> set used"
    using spec by (auto simp: pinned_band_def word_le_nat_alt word_less_nat_alt)
qed

lemma next_normal_key_spec:
  "next_normal_key (from_effective_keys keys) =
     (if filter (\<lambda>k. \<not> pinned_band k) keys = [] then 1000
      else saturating_add (Max (set (filter (\<lambda>k. \<not> pinned_band k) keys))) 1)"
  by (simp add: next_normal_key_def from_effective_keys_spec Let_def ordering_consts del: set_filter)

lemma next_normal_key_ge:
  assumes "k \<in> set keys" "\<not> pinned_band k"
  shows "k \<le> next_normal_key (from_effective_keys keys)"
proof -
  have "k \<in> set (filter (\<lambda>k. \<not> pinned_band k) keys)" using assms by simp
  then have "k \<le> Max (set (filter (\<lambda>k. \<not> pinned_band k) keys))" by (intro Max_ge finite_set)
  also have "\<dots> \<le> saturating_add (Max (set (filter (\<lambda>k. \<not> pinned_band k) keys))) 1" by (rule saturating_add_ge)
  finally show ?thesis using assms by (auto simp: next_normal_key_spec filter_empty_conv)
qed

lemma next_normal_key_band:
  assumes "0 \<notin> set keys"
  shows "NORMAL_START \<le> next_normal_key (from_effective_keys keys)"
proof (cases "filter (\<lambda>k. \<not> pinned_band k) keys")
  case Nil
  then show ?thesis by (simp add: next_normal_key_spec ordering_consts)
next
  case (Cons k ks)
  then have "k \<in> set (filter (\<lambda>k. \<not> pinned_band k) keys)" by (simp only: list.set_intros)
  then have k: "k \<in> set keys" "\<not> pinned_band k" by simp_all
  with assms have "k \<noteq> 0" by auto
  with k(2) have "1000 \<le> k"
    by (auto simp: pinned_band_def word_le_nat_alt word_less_nat_alt word_unat_eq_iff)
  with next_normal_key_ge [OF k] show ?thesis by (simp add: ordering_consts)
qed

section \<open>What the operations rely on\<close>

text \<open>
  The laws of a backend's note repository: what is read back, what an update keeps of the note
  (everything but the version vector and the writer, which the backend assigns, and the creation
  time), that it concerns this note only, and that the profile is the one of the live notes.
\<close>

definition same_but_version :: "Note \<Rightarrow> Note \<Rightarrow> bool" where
  "same_but_version a b = (a\<lparr>n_vv := n_vv b, n_last_writer := n_last_writer b, n_created_at := n_created_at b\<rparr> = b)"

lemma same_but_versionD:
  "same_but_version a b \<Longrightarrow> n_is_pinned b = n_is_pinned a \<and> n_sort_key b = n_sort_key a \<and>
     n_is_starred b = n_is_starred a \<and> n_title b = n_title a \<and> n_body b = n_body a \<and>
     n_deleted_at b = n_deleted_at a \<and> n_notebook_id b = n_notebook_id a \<and> n_id b = n_id a"
  by (cases a; cases b) (simp add: same_but_version_def)

definition live_in :: "(uuid, Note) fmap \<Rightarrow> uuid \<Rightarrow> uuid set" where
  "live_in m nb = {i. \<exists>n. fmlookup m i = Some n \<and> n_deleted_at n = None \<and> n_notebook_id n = nb}"

definition key_at :: "(uuid, Note) fmap \<Rightarrow> uuid \<Rightarrow> u32" where
  "key_at m i = (case fmlookup m i of None \<Rightarrow> 0 | Some n \<Rightarrow> effective_sort_key n)"

locale note_repo =
  fixes be :: "'s backend"
    and stored_notes :: "'s \<Rightarrow> (uuid, Note) fmap"
    and inv :: "'s \<Rightarrow> bool"
  assumes keyed: "inv s \<Longrightarrow> fmlookup (stored_notes s) i = Some n \<Longrightarrow> n_id n = i"
    and read_law: "inv s \<Longrightarrow> read_note be i s =
      (case fmlookup (stored_notes s) i of None \<Rightarrow> (Inl NotFound, s) | Some n \<Rightarrow> (Inr n, s))"
    and update_law: "inv s \<Longrightarrow> fmlookup (stored_notes s) (n_id n) = Some old \<Longrightarrow>
      \<exists>n' s' stored. update_note be n s = (Inr n', s') \<and> inv s' \<and> same_but_version n n' \<and>
        same_but_version n stored \<and> stored_notes s' = fmupd (n_id n) stored (stored_notes s)"
    and profile_law: "inv s \<Longrightarrow> \<exists>keys. notebook_sort_profile be nb s = (Inr (from_effective_keys keys), s) \<and>
      mset keys = image_mset (key_at (stored_notes s)) (mset_set (live_in (stored_notes s) nb))"
begin

lemma finite_live_in: "finite (live_in (stored_notes s) nb)"
proof -
  have "live_in (stored_notes s) nb \<subseteq> fset (fmdom (stored_notes s))" by (auto simp: live_in_def fmlookup_dom_iff)
  then show ?thesis by (rule finite_subset) simp
qed

lemma profile_keys:
  assumes "inv s"
  obtains keys where "notebook_sort_profile be nb s = (Inr (from_effective_keys keys), s)"
    "set keys = key_at (stored_notes s) ` live_in (stored_notes s) nb" "length keys = card (live_in (stored_notes s) nb)"
proof -
  from profile_law [OF assms, of nb] obtain keys
    where k: "notebook_sort_profile be nb s = (Inr (from_effective_keys keys), s)"
      "mset keys = image_mset (key_at (stored_notes s)) (mset_set (live_in (stored_notes s) nb))" by blast
  have "set keys = key_at (stored_notes s) ` live_in (stored_notes s) nb" "length keys = card (live_in (stored_notes s) nb)"
    using arg_cong [OF k(2), of set_mset] arg_cong [OF k(2), of size] finite_live_in by simp_all
  with k(1) that show thesis by blast
qed

lemma read_live_some:
  "inv s \<Longrightarrow> fmlookup (stored_notes s) i = Some n \<Longrightarrow> n_deleted_at n = None \<Longrightarrow> read_live_note be i s = (Inr n, s)"
  by (simp add: read_live_note_def read_law)

lemma read_live_cases:
  assumes "inv s"
  shows "read_live_note be i s = (case fmlookup (stored_notes s) i of
    None \<Rightarrow> (Inl NotFound, s) | Some n \<Rightarrow> if n_deleted_at n = None then (Inr n, s) else (Inl NotFound, s))"
  using assms by (auto simp: read_live_note_def read_law split: option.splits)

text \<open>
  Pinning a live, unpinned note of an ordinary notebook either gives it the lowest pinned key no
  live note of the notebook uses, changing no other note, or reports a conflict when all 999 are used.
\<close>

lemma pin_note_result:
  assumes "inv s" "fmlookup (stored_notes s) i = Some n" "n_deleted_at n = None"
    and "\<not> is_inbox (n_notebook_id n)" "\<not> n_is_pinned n"
  defines "used \<equiv> key_at (stored_notes s) ` live_in (stored_notes s) (n_notebook_id n)"
  shows "(\<exists>n' s' stored key. pin_note be i s = (Inr n', s') \<and> inv s' \<and>
      pinned_band key \<and> key \<notin> used \<and> (\<forall>j. 1 \<le> j \<longrightarrow> j < key \<longrightarrow> j \<in> used) \<and>
      stored_notes s' = fmupd i stored (stored_notes s) \<and>
      same_but_version (n\<lparr>n_is_pinned := True, n_sort_key := key\<rparr>) stored \<and>
      same_but_version (n\<lparr>n_is_pinned := True, n_sort_key := key\<rparr>) n') \<or>
    (pin_note be i s = (Inl Conflict, s) \<and> (\<forall>k. pinned_band k \<longrightarrow> k \<in> used))"
proof -
  obtain keys where k1: "notebook_sort_profile be (n_notebook_id n) s = (Inr (from_effective_keys keys), s)"
    "set keys = key_at (stored_notes s) ` live_in (stored_notes s) (n_notebook_id n)"
    by (rule profile_keys [OF assms(1)])
  note k = k1(1) k1(2) [folded used_def]
  let ?p = "sort (filter pinned_band keys)"
  have p: "sorted ?p" "\<forall>k\<in>set ?p. pinned_band k" by auto
  have pin: "pin_note be i s = (case lowest_free_pinned_key ?p of None \<Rightarrow> (Inl Conflict, s)
      | Some key \<Rightarrow> update_note be (n\<lparr>n_is_pinned := True, n_sort_key := key\<rparr>) s)"
    using assms(4,5) k(1) by (simp add: pin_note_def read_live_some [OF assms(1-3)] from_effective_keys_spec)
  show ?thesis
  proof (cases "lowest_free_pinned_key ?p")
    case None
    with pin lowest_free_none [OF p None] k(2) show ?thesis by simp
  next
    case (Some key)
    have "n_id n = i" by (rule keyed [OF assms(1,2)])
    then have "fmlookup (stored_notes s) (n_id (n\<lparr>n_is_pinned := True, n_sort_key := key\<rparr>)) = Some n"
      using assms(2) by simp
    from update_law [OF assms(1) this] obtain n' s' stored where
      u: "update_note be (n\<lparr>n_is_pinned := True, n_sort_key := key\<rparr>) s = (Inr n', s')" "inv s'"
      "same_but_version (n\<lparr>n_is_pinned := True, n_sort_key := key\<rparr>) n'"
      "same_but_version (n\<lparr>n_is_pinned := True, n_sort_key := key\<rparr>) stored"
      "stored_notes s' = fmupd (n_id (n\<lparr>n_is_pinned := True, n_sort_key := key\<rparr>)) stored (stored_notes s)" by blast
    have "key \<notin> used" "\<forall>j. 1 \<le> j \<longrightarrow> j < key \<longrightarrow> j \<in> used" "pinned_band key"
      using lowest_free_some [OF p Some] k(2) by auto
    then show ?thesis
      using pin Some u \<open>n_id n = i\<close>
      by (intro disjI1 exI [of _ n'] exI [of _ s'] exI [of _ stored] exI [of _ key]) simp
  qed
qed

text \<open>Unpinning moves the note behind every ordinary live note of its notebook.\<close>

lemma unpin_note_result:
  assumes "inv s" "fmlookup (stored_notes s) i = Some n" "n_deleted_at n = None" "n_is_pinned n"
  defines "used \<equiv> key_at (stored_notes s) ` live_in (stored_notes s) (n_notebook_id n)"
  shows "\<exists>n' s' stored key. unpin_note be i s = (Inr n', s') \<and> inv s' \<and>
      (\<forall>k\<in>used. k \<le> key \<or> pinned_band k) \<and> NORMAL_START \<le> key \<and>
      stored_notes s' = fmupd i stored (stored_notes s) \<and>
      same_but_version (n\<lparr>n_is_pinned := False, n_sort_key := key\<rparr>) stored"
proof -
  obtain keys where k1: "notebook_sort_profile be (n_notebook_id n) s = (Inr (from_effective_keys keys), s)"
    "set keys = key_at (stored_notes s) ` live_in (stored_notes s) (n_notebook_id n)"
    by (rule profile_keys [OF assms(1)])
  note k = k1(1) k1(2) [folded used_def]
  let ?key = "next_normal_key (from_effective_keys keys)"
  have "0 \<notin> used"
    using effective_sort_key_pos by (auto simp: used_def key_at_def live_in_def split: option.splits) (metis less_irrefl)
  then have band: "NORMAL_START \<le> ?key" using k(2) by (intro next_normal_key_band) simp
  have "n_id n = i" by (rule keyed [OF assms(1,2)])
  then have "fmlookup (stored_notes s) (n_id (n\<lparr>n_is_pinned := False, n_sort_key := ?key\<rparr>)) = Some n"
    using assms(2) by simp
  from update_law [OF assms(1) this] obtain n' s' stored where
    u: "update_note be (n\<lparr>n_is_pinned := False, n_sort_key := ?key\<rparr>) s = (Inr n', s')" "inv s'"
    "same_but_version (n\<lparr>n_is_pinned := False, n_sort_key := ?key\<rparr>) stored"
    "stored_notes s' = fmupd (n_id (n\<lparr>n_is_pinned := False, n_sort_key := ?key\<rparr>)) stored (stored_notes s)" by blast
  have "unpin_note be i s = (Inr n', s')"
    using assms(4) k(1) u(1) by (simp add: unpin_note_def read_live_some [OF assms(1-3)])
  moreover have "\<forall>k\<in>used. k \<le> ?key \<or> pinned_band k" using next_normal_key_ge k(2) by auto
  ultimately show ?thesis
    using u \<open>n_id n = i\<close> band
    by (intro exI [of _ n'] exI [of _ s'] exI [of _ stored] exI [of _ ?key]) simp
qed

text \<open>Reordering sets the key only inside the note's band, and never touches another note.\<close>

lemma reorder_note_result:
  assumes "inv s" "fmlookup (stored_notes s) i = Some n" "n_deleted_at n = None"
  shows "if in_band n key then
      \<exists>n' s' stored. reorder_note be i key s = (Inr n', s') \<and> inv s' \<and>
        stored_notes s' = fmupd i stored (stored_notes s) \<and> same_but_version (n\<lparr>n_sort_key := key\<rparr>) stored
    else reorder_note be i key s = (Inl InvalidInput, s)"
proof (cases "in_band n key \<and> n_sort_key n \<noteq> key")
  case True
  have "n_id n = i" by (rule keyed [OF assms(1,2)])
  then have "fmlookup (stored_notes s) (n_id (n\<lparr>n_sort_key := key\<rparr>)) = Some n" using assms(2) by simp
  from update_law [OF assms(1) this] obtain n' s' stored where
    "update_note be (n\<lparr>n_sort_key := key\<rparr>) s = (Inr n', s')" "inv s'"
    "same_but_version (n\<lparr>n_sort_key := key\<rparr>) stored"
    "stored_notes s' = fmupd (n_id (n\<lparr>n_sort_key := key\<rparr>)) stored (stored_notes s)" by blast
  moreover from this(1) True have "reorder_note be i key s = (Inr n', s')"
    by (simp add: reorder_note_def read_live_some [OF assms])
  ultimately show ?thesis using True \<open>n_id n = i\<close> by auto
next
  case False
  have "stored_notes s = fmupd i n (stored_notes s)" using assms(2) by (intro fmap_ext) auto
  then have "\<exists>stored. stored_notes s = fmupd i stored (stored_notes s) \<and> same_but_version (n\<lparr>n_sort_key := n_sort_key n\<rparr>) stored"
    by (intro exI [of _ n]) (simp add: same_but_version_def)
  with False assms(1) show ?thesis
    by (auto simp: reorder_note_def read_live_some [OF assms])
qed

end

end
