(* ===== verification/Db_Store.thy ===== *)
theory Db_Store
  imports Register Ordering
begin

text \<open>
  The SQL backend, \<open>keeplin-core/src/storage/db\<close>: its tables as finite maps from the primary
  key, the row operations of \<open>conflict.rs\<close>, \<open>convert.rs\<close> and \<open>mod.rs\<close>, and the repository
  operations of \<open>notes.rs\<close>, \<open>notebooks.rs\<close>, \<open>tags.rs\<close>, \<open>resources.rs\<close>. A column is kept as the
  value it encodes (the JSON and text encodings of a row round-trip), a query is the selection and
  order its text states, and a failed operation rolls the tables back. The engine itself is taken
  not to fail; the errors are those of the code: a missing row, a duplicate key, a missing payload.
  The clock is part of the state: \<open>db_clock k\<close> is the \<open>k\<close>-th reading. So is the connection to the
  sync server: whether it is open, the number of calls made on it, what its stream will yield, and
  the batches it has taken.
\<close>

section \<open>Tables\<close>

record AssocRow =
  as_updated_at :: "ts option"
  as_deleted_at :: "ts option"
  as_vv :: vv
  as_last_writer :: string

record ResRow =
  rr_resource :: Resource
  rr_data :: "u8 list option"

text \<open>The \<open>data\<close> column of the change journal.\<close>

datatype JData =
    JNote Note | JNotebook Notebook | JTag Tag
  | JTombstone ts vv string
  | JAssoc uuid ts vv string
  | JResource Resource "u8 list"

record ChangeRow =
  cr_entity_type :: string
  cr_entity_id :: uuid
  cr_operation :: string
  cr_changed_at :: ts
  cr_data :: JData

text \<open>
  What the WebSocket stream yields: text frames, decoded (not JSON, of another type, or a batch of
  changes, which may itself fail to decode), the end of the connection, a pause as long as the
  drain timeout, and other messages.
\<close>

datatype ws_frame = WsMalformed | WsOtherType | WsChanges "Change list option"

datatype ws_event = WsText ws_frame | WsClose | WsFailed | WsEnded | WsTimeout | WsOther

record Db =
  db_device_id :: string
  db_notes :: "(uuid, Note) fmap"
  db_notebooks :: "(uuid, Notebook) fmap"
  db_tags :: "(uuid, Tag) fmap"
  db_note_tags :: "(uuid \<times> uuid, AssocRow) fmap"
  db_note_links :: "(uuid \<times> uuid) fset"
  db_resources :: "(uuid, ResRow) fmap"
  db_entity_changes :: "ChangeRow list"
  db_last_sync :: "ts option"
  db_clock :: "nat \<Rightarrow> ts"
  db_ticks :: nat
  db_server_url :: string
  db_ws :: bool
  db_ws_tries :: nat
  db_ws_events :: "ws_event list"
  db_ws_sent :: "Change list list"

type_synonym 'a db_act = "('a, Db) act"

definition db_now :: "Db \<Rightarrow> ts \<times> Db" where
  "db_now s = (db_clock s (db_ticks s), s\<lparr>db_ticks := db_ticks s + 1\<rparr>)"

text \<open>\<open>BEGIN ... COMMIT\<close>, with a \<open>ROLLBACK\<close> to the tables at the start on an error.\<close>

definition transaction :: "'a db_act \<Rightarrow> 'a db_act" where
  "transaction body s = (case body s of
      (Inr x, s') \<Rightarrow> (Inr x, s')
    | (Inl e, s') \<Rightarrow> (Inl e, s\<lparr>db_ticks := db_ticks s'\<rparr>))"

section \<open>Conflict resolution and bookkeeping\<close>

type_synonym meta = "(vv \<times> ts \<times> string) option"

definition note_meta :: "Db \<Rightarrow> uuid \<Rightarrow> meta" where
  "note_meta s i = map_option (\<lambda>n. (n_vv n, n_updated_at n, n_last_writer n)) (fmlookup (db_notes s) i)"

definition notebook_meta :: "Db \<Rightarrow> uuid \<Rightarrow> meta" where
  "notebook_meta s i = map_option (\<lambda>n. (nb_vv n, nb_updated_at n, nb_last_writer n)) (fmlookup (db_notebooks s) i)"

definition tag_meta :: "Db \<Rightarrow> uuid \<Rightarrow> meta" where
  "tag_meta s i = map_option (\<lambda>t. (t_vv t, t_updated_at t, t_last_writer t)) (fmlookup (db_tags s) i)"

definition assoc_meta :: "Db \<Rightarrow> uuid \<Rightarrow> uuid \<Rightarrow> meta" where
  "assoc_meta s n t = map_option
     (\<lambda>a. (as_vv a, case as_updated_at a of None \<Rightarrow> 0 | Some u \<Rightarrow> u, as_last_writer a))
     (fmlookup (db_note_tags s) (n, t))"

definition resource_meta :: "Db \<Rightarrow> uuid \<Rightarrow> meta" where
  "resource_meta s i = map_option
     (\<lambda>r. (r_vv r, case r_deleted_at r of None \<Rightarrow> r_created_at r | Some d \<Rightarrow> d, r_last_writer r))
     (map_option rr_resource (fmlookup (db_resources s) i))"

definition incoming_wins :: "meta \<Rightarrow> vv \<Rightarrow> ts \<Rightarrow> string \<Rightarrow> bool" where
  "incoming_wins m v updated writer = (case m of
      None \<Rightarrow> True
    | Some (local_vv, local_updated, local_writer) \<Rightarrow>
        resolve local_vv local_updated local_writer v updated writer = Incoming)"

definition next_local_vv :: "meta \<Rightarrow> string \<Rightarrow> vv" where
  "next_local_vv m device = increment (case m of None \<Rightarrow> fmempty | Some (v, _, _) \<Rightarrow> v) device"

definition note_is_live :: "Db \<Rightarrow> uuid \<Rightarrow> bool" where
  "note_is_live s i = (case fmlookup (db_notes s) i of None \<Rightarrow> False | Some n \<Rightarrow> n_deleted_at n = None)"

definition tag_is_live :: "Db \<Rightarrow> uuid \<Rightarrow> bool" where
  "tag_is_live s i = (case fmlookup (db_tags s) i of None \<Rightarrow> False | Some t \<Rightarrow> t_deleted_at t = None)"

definition upsert_assoc :: "uuid \<Rightarrow> uuid \<Rightarrow> ts \<Rightarrow> ts option \<Rightarrow> vv \<Rightarrow> string \<Rightarrow> Db \<Rightarrow> Db" where
  "upsert_assoc n t updated deleted v writer s =
     s\<lparr>db_note_tags := fmupd (n, t)
        \<lparr>as_updated_at = Some updated, as_deleted_at = deleted, as_vv = v, as_last_writer = writer\<rparr>
        (db_note_tags s)\<rparr>"

definition record_change :: "string \<Rightarrow> uuid \<Rightarrow> string \<Rightarrow> JData \<Rightarrow> Db \<Rightarrow> Db" where
  "record_change entity_type entity_id operation data s =
    (let (t, s) = db_now s in
     s\<lparr>db_entity_changes := db_entity_changes s @
        [\<lparr>cr_entity_type = entity_type, cr_entity_id = entity_id, cr_operation = operation,
          cr_changed_at = t, cr_data = data\<rparr>]\<rparr>)"

definition refresh_note_links :: "Note \<Rightarrow> Db \<Rightarrow> Db" where
  "refresh_note_links note s =
     s\<lparr>db_note_links := fold (\<lambda>l links. case l_target_note_id l of
            None \<Rightarrow> links | Some target \<Rightarrow> finsert (n_id note, target) links)
          (n_links note) (ffilter (\<lambda>p. fst p \<noteq> n_id note) (db_note_links s))\<rparr>"

text \<open>The two cascades from a note to its resources.\<close>

definition undelete_resources :: "uuid \<Rightarrow> ts \<Rightarrow> Db \<Rightarrow> Db" where
  "undelete_resources note_id old_ts s =
     s\<lparr>db_resources := fmmap (\<lambda>row.
        if r_note_id (rr_resource row) = note_id \<and> r_deleted_at (rr_resource row) = Some old_ts
        then row\<lparr>rr_resource := (rr_resource row)\<lparr>r_deleted_at := None\<rparr>\<rparr> else row) (db_resources s)\<rparr>"

definition delete_resources_of :: "uuid \<Rightarrow> ts \<Rightarrow> Db \<Rightarrow> Db" where
  "delete_resources_of note_id t s =
     s\<lparr>db_resources := fmmap (\<lambda>row.
        if r_note_id (rr_resource row) = note_id \<and> r_deleted_at (rr_resource row) = None
        then row\<lparr>rr_resource := (rr_resource row)\<lparr>r_deleted_at := Some t\<rparr>\<rparr> else row) (db_resources s)\<rparr>"

definition restore_after_undelete :: "Note \<Rightarrow> ts option \<Rightarrow> Db \<Rightarrow> Db" where
  "restore_after_undelete note prior_deleted s =
    (if n_deleted_at note = None
     then (case prior_deleted of None \<Rightarrow> s | Some old_ts \<Rightarrow> undelete_resources (n_id note) old_ts s)
     else s)"

definition prior_deleted :: "Db \<Rightarrow> uuid \<Rightarrow> ts option" where
  "prior_deleted s i = (case fmlookup (db_notes s) i of None \<Rightarrow> None | Some n \<Rightarrow> n_deleted_at n)"

section \<open>Cursors and pages\<close>

definition parse_cursor :: "string option \<Rightarrow> string \<times> string" where
  "parse_cursor token = (case token of
      None \<Rightarrow> ([], [])
    | Some t \<Rightarrow> if t = [] then ([], []) else
        (case split_once bar t of None \<Rightarrow> ([], []) | Some (k, i) \<Rightarrow> (k, i)))"

definition build_page :: "'a list \<Rightarrow> nat \<Rightarrow> ('a \<Rightarrow> string) \<Rightarrow> 'a list \<times> string option" where
  "build_page rows limit token_fn =
    (let has_more = limit < length rows;
         rows = (if has_more then take limit rows else rows);
         next_token = (if has_more \<and> rows \<noteq> [] then Some (token_fn (last rows)) else None)
     in (rows, next_token))"

text \<open>
  The listing queries: rows after the cursor (all of them for an empty cursor), in key order, at
  most \<open>limit + 1\<close>. The key of a row is its sort column and its identifier, both as text.
\<close>

definition after_cursor :: "string \<times> string \<Rightarrow> string \<times> string \<Rightarrow> bool" where
  "after_cursor c k = (fst c = [] \<or> fst c < fst k \<or> fst k = fst c \<and> snd c < snd k)"

definition sql_page :: "u32 \<Rightarrow> string option \<Rightarrow> ('a \<Rightarrow> string \<times> string) \<Rightarrow> 'a list \<Rightarrow> 'a list \<times> string option" where
  "sql_page page_size token key rows =
    (let limit = unat (effective_page_size page_size);
         cursor = parse_cursor token;
         found = take (limit + 1) (sort_key key (filter (\<lambda>r. after_cursor cursor (key r)) rows))
     in build_page found limit (\<lambda>r. fst (key r) @ bar # snd (key r)))"

definition rows_of :: "('k::linorder, 'v) fmap \<Rightarrow> 'v list" where
  "rows_of m = map snd (sorted_list_of_fmap m)"

section \<open>Notes\<close>

definition db_create_note :: "Note \<Rightarrow> Note db_act" where
  "db_create_note note = transaction (\<lambda>s.
     let note = note\<lparr>n_vv := next_local_vv (note_meta s (n_id note)) (db_device_id s),
                     n_last_writer := db_device_id s\<rparr>
     in if n_id note |\<in>| fmdom (db_notes s) then (Inl Database, s)
        else let s = s\<lparr>db_notes := fmupd (n_id note) note (db_notes s)\<rparr>;
                 s = refresh_note_links note s;
                 s = record_change ''note'' (n_id note) ''create'' (JNote note) s
             in (Inr note, s))"

definition db_read_note :: "uuid \<Rightarrow> Note db_act" where
  "db_read_note i s = (case fmlookup (db_notes s) i of None \<Rightarrow> (Inl NotFound, s) | Some n \<Rightarrow> (Inr n, s))"

text \<open>The \<open>UPDATE\<close> statement does not set \<open>created_at\<close>: the row keeps its own.\<close>

definition db_update_note :: "Note \<Rightarrow> Note db_act" where
  "db_update_note note = transaction (\<lambda>s.
     let note = note\<lparr>n_vv := next_local_vv (note_meta s (n_id note)) (db_device_id s),
                     n_last_writer := db_device_id s\<rparr>;
         prior = prior_deleted s (n_id note)
     in case fmlookup (db_notes s) (n_id note) of
          None \<Rightarrow> (Inl NotFound, s)
        | Some row \<Rightarrow>
            let s = s\<lparr>db_notes := fmupd (n_id note) (note\<lparr>n_created_at := n_created_at row\<rparr>) (db_notes s)\<rparr>;
                s = restore_after_undelete note prior s;
                s = refresh_note_links note s;
                s = record_change ''note'' (n_id note) ''update'' (JNote note) s
            in (Inr note, s))"

definition note_tombstone :: "Note \<Rightarrow> ts \<Rightarrow> vv \<Rightarrow> string \<Rightarrow> Note" where
  "note_tombstone row t v writer =
     row\<lparr>n_deleted_at := Some t, n_updated_at := t, n_vv := v, n_last_writer := writer\<rparr>"

definition db_delete_note :: "uuid \<Rightarrow> unit db_act" where
  "db_delete_note i = transaction (\<lambda>s.
     let v = next_local_vv (note_meta s i) (db_device_id s);
         writer = db_device_id s;
         (t, s) = db_now s
     in case fmlookup (db_notes s) i of
          None \<Rightarrow> (Inl NotFound, s)
        | Some row \<Rightarrow>
            let s = s\<lparr>db_notes := fmupd i (note_tombstone row t v writer) (db_notes s)\<rparr>;
                s = delete_resources_of i t s;
                s = record_change ''note'' i ''delete'' (JTombstone t v writer) s
            in (Inr (), s))"

definition created_key :: "'c text_codec_scheme \<Rightarrow> ts \<Rightarrow> uuid \<Rightarrow> string \<times> string" where
  "created_key tc t i = (show_ts tc t, show_uuid tc i)"

definition db_list_notes :: "'c text_codec_scheme \<Rightarrow> (Note, Db) pages" where
  "db_list_notes tc page_size token s =
     (Inr (sql_page page_size token (\<lambda>n. created_key tc (n_created_at n) (n_id n))
        (filter (\<lambda>n. n_deleted_at n = None) (rows_of (db_notes s)))), s)"

definition db_list_starred_notes :: "'c text_codec_scheme \<Rightarrow> (Note, Db) pages" where
  "db_list_starred_notes tc page_size token s =
     (Inr (sql_page page_size token (\<lambda>n. created_key tc (n_created_at n) (n_id n))
        (filter (\<lambda>n. n_is_starred n \<and> n_deleted_at n = None) (rows_of (db_notes s)))), s)"

definition db_note_backlinks :: "'c text_codec_scheme \<Rightarrow> uuid \<Rightarrow> (Note, Db) pages" where
  "db_note_backlinks tc target_id page_size token s =
     (Inr (sql_page page_size token (\<lambda>n. created_key tc (n_created_at n) (n_id n))
        (filter (\<lambda>n. (n_id n, target_id) |\<in>| db_note_links s \<and> n_deleted_at n = None)
          (rows_of (db_notes s)))), s)"

text \<open>
  The pages of a notebook are ordered by the numeric sort key and the identifier's text. The cursor
  key is \<open>CAST\<close> to an integer: the value of its leading digits.
\<close>

definition cast_integer :: "string \<Rightarrow> nat" where
  "cast_integer t = digits_value (takeWhile is_digit t)"

definition sort_pos :: "'c text_codec_scheme \<Rightarrow> Note \<Rightarrow> nat \<times> string" where
  "sort_pos tc n = (unat (effective_sort_key n), show_uuid tc (n_id n))"

definition db_list_notes_in_notebook :: "'c text_codec_scheme \<Rightarrow> uuid \<Rightarrow> (Note, Db) pages" where
  "db_list_notes_in_notebook tc notebook_id page_size token s =
    (let limit = unat (effective_page_size page_size);
         (cursor_key, cursor_id) = parse_cursor token;
         found = take (limit + 1) (sort_key (sort_pos tc) (filter (\<lambda>n.
           n_notebook_id n = notebook_id \<and> n_deleted_at n = None \<and>
           (cursor_key = [] \<or> cast_integer cursor_key < unat (effective_sort_key n) \<or>
            unat (effective_sort_key n) = cast_integer cursor_key \<and> cursor_id < show_uuid tc (n_id n)))
           (rows_of (db_notes s))))
     in (Inr (build_page found limit
           (\<lambda>n. show_nat (unat (effective_sort_key n)) @ bar # show_uuid tc (n_id n))), s))"

definition db_notebook_sort_profile :: "uuid \<Rightarrow> NotebookSortProfile db_act" where
  "db_notebook_sort_profile notebook_id s =
     (Inr (from_effective_keys (map (\<lambda>n. if n_sort_key n = 0 then DEFAULT_SORT_KEY else n_sort_key n)
        (filter (\<lambda>n. n_notebook_id n = notebook_id \<and> n_deleted_at n = None) (rows_of (db_notes s))))), s)"

section \<open>Notebooks\<close>

definition db_create_notebook :: "Notebook \<Rightarrow> Notebook db_act" where
  "db_create_notebook notebook = transaction (\<lambda>s.
     let notebook = notebook\<lparr>nb_vv := next_local_vv (notebook_meta s (nb_id notebook)) (db_device_id s),
                             nb_last_writer := db_device_id s\<rparr>
     in if nb_id notebook |\<in>| fmdom (db_notebooks s) then (Inl Database, s)
        else let s = s\<lparr>db_notebooks := fmupd (nb_id notebook) notebook (db_notebooks s)\<rparr>;
                 s = record_change ''notebook'' (nb_id notebook) ''create'' (JNotebook notebook) s
             in (Inr notebook, s))"

definition db_read_notebook :: "uuid \<Rightarrow> Notebook db_act" where
  "db_read_notebook i s = (case fmlookup (db_notebooks s) i of None \<Rightarrow> (Inl NotFound, s) | Some n \<Rightarrow> (Inr n, s))"

definition db_update_notebook :: "Notebook \<Rightarrow> Notebook db_act" where
  "db_update_notebook notebook = transaction (\<lambda>s.
     let notebook = notebook\<lparr>nb_vv := next_local_vv (notebook_meta s (nb_id notebook)) (db_device_id s),
                             nb_last_writer := db_device_id s\<rparr>
     in case fmlookup (db_notebooks s) (nb_id notebook) of
          None \<Rightarrow> (Inl NotFound, s)
        | Some row \<Rightarrow>
            let s = s\<lparr>db_notebooks := fmupd (nb_id notebook)
                  (notebook\<lparr>nb_created_at := nb_created_at row\<rparr>) (db_notebooks s)\<rparr>;
                s = record_change ''notebook'' (nb_id notebook) ''update'' (JNotebook notebook) s
            in (Inr notebook, s))"

definition notebook_tombstone :: "Notebook \<Rightarrow> ts \<Rightarrow> vv \<Rightarrow> string \<Rightarrow> Notebook" where
  "notebook_tombstone row t v writer =
     row\<lparr>nb_deleted_at := Some t, nb_updated_at := t, nb_vv := v, nb_last_writer := writer\<rparr>"

definition db_delete_notebook :: "uuid \<Rightarrow> unit db_act" where
  "db_delete_notebook i = transaction (\<lambda>s.
     let v = next_local_vv (notebook_meta s i) (db_device_id s);
         writer = db_device_id s;
         (t, s) = db_now s
     in case fmlookup (db_notebooks s) i of
          None \<Rightarrow> (Inl NotFound, s)
        | Some row \<Rightarrow>
            let s = s\<lparr>db_notebooks := fmupd i (notebook_tombstone row t v writer) (db_notebooks s)\<rparr>;
                s = record_change ''notebook'' i ''delete'' (JTombstone t v writer) s
            in (Inr (), s))"

definition db_list_notebooks :: "'c text_codec_scheme \<Rightarrow> (Notebook, Db) pages" where
  "db_list_notebooks tc page_size token s =
     (Inr (sql_page page_size token (\<lambda>n. created_key tc (nb_created_at n) (nb_id n))
        (filter (\<lambda>n. nb_deleted_at n = None) (rows_of (db_notebooks s)))), s)"

section \<open>Tags and associations\<close>

definition db_create_tag :: "Tag \<Rightarrow> Tag db_act" where
  "db_create_tag tag = transaction (\<lambda>s.
     let tag = tag\<lparr>t_vv := next_local_vv (tag_meta s (t_id tag)) (db_device_id s),
                   t_last_writer := db_device_id s\<rparr>
     in if t_id tag |\<in>| fmdom (db_tags s) then (Inl Database, s)
        else let s = s\<lparr>db_tags := fmupd (t_id tag) tag (db_tags s)\<rparr>;
                 s = record_change ''tag'' (t_id tag) ''create'' (JTag tag) s
             in (Inr tag, s))"

definition db_read_tag :: "uuid \<Rightarrow> Tag db_act" where
  "db_read_tag i s = (case fmlookup (db_tags s) i of None \<Rightarrow> (Inl NotFound, s) | Some t \<Rightarrow> (Inr t, s))"

definition db_update_tag :: "Tag \<Rightarrow> Tag db_act" where
  "db_update_tag tag = transaction (\<lambda>s.
     let tag = tag\<lparr>t_vv := next_local_vv (tag_meta s (t_id tag)) (db_device_id s),
                   t_last_writer := db_device_id s\<rparr>
     in case fmlookup (db_tags s) (t_id tag) of
          None \<Rightarrow> (Inl NotFound, s)
        | Some row \<Rightarrow>
            let s = s\<lparr>db_tags := fmupd (t_id tag) (tag\<lparr>t_created_at := t_created_at row\<rparr>) (db_tags s)\<rparr>;
                s = record_change ''tag'' (t_id tag) ''update'' (JTag tag) s
            in (Inr tag, s))"

definition tag_tombstone :: "Tag \<Rightarrow> ts \<Rightarrow> vv \<Rightarrow> string \<Rightarrow> Tag" where
  "tag_tombstone row t v writer =
     row\<lparr>t_deleted_at := Some t, t_updated_at := t, t_vv := v, t_last_writer := writer\<rparr>"

definition db_delete_tag :: "uuid \<Rightarrow> unit db_act" where
  "db_delete_tag i = transaction (\<lambda>s.
     let v = next_local_vv (tag_meta s i) (db_device_id s);
         writer = db_device_id s;
         (t, s) = db_now s
     in case fmlookup (db_tags s) i of
          None \<Rightarrow> (Inl NotFound, s)
        | Some row \<Rightarrow>
            let s = s\<lparr>db_tags := fmupd i (tag_tombstone row t v writer) (db_tags s)\<rparr>;
                s = record_change ''tag'' i ''delete'' (JTombstone t v writer) s
            in (Inr (), s))"

definition db_list_tags :: "'c text_codec_scheme \<Rightarrow> (Tag, Db) pages" where
  "db_list_tags tc page_size token s =
     (Inr (sql_page page_size token (\<lambda>t. created_key tc (t_created_at t) (t_id t))
        (filter (\<lambda>t. t_deleted_at t = None) (rows_of (db_tags s)))), s)"

definition db_add_note_tag :: "NoteTag \<Rightarrow> unit db_act" where
  "db_add_note_tag note_tag = transaction (\<lambda>s.
     let v = next_local_vv (assoc_meta s (nt_note_id note_tag) (nt_tag_id note_tag)) (db_device_id s);
         writer = db_device_id s;
         (t, s) = db_now s
     in if \<not> note_is_live s (nt_note_id note_tag) then (Inl NotFound, s)
        else if \<not> tag_is_live s (nt_tag_id note_tag) then (Inl NotFound, s)
        else let s = upsert_assoc (nt_note_id note_tag) (nt_tag_id note_tag) t None v writer s;
                 s = record_change ''note_tag'' (nt_note_id note_tag) ''add'' (JAssoc (nt_tag_id note_tag) t v writer) s
             in (Inr (), s))"

definition db_remove_note_tag :: "uuid \<Rightarrow> uuid \<Rightarrow> unit db_act" where
  "db_remove_note_tag note_id tag_id = transaction (\<lambda>s.
     let v = next_local_vv (assoc_meta s note_id tag_id) (db_device_id s);
         writer = db_device_id s;
         (t, s) = db_now s;
         s = upsert_assoc note_id tag_id t (Some t) v writer s;
         s = record_change ''note_tag'' note_id ''remove'' (JAssoc tag_id t v writer) s
     in (Inr (), s))"

definition db_list_note_tags :: "'c text_codec_scheme \<Rightarrow> uuid \<Rightarrow> (Tag, Db) pages" where
  "db_list_note_tags tc note_id page_size token s =
     (Inr (sql_page page_size token (\<lambda>t. created_key tc (t_created_at t) (t_id t))
        (filter (\<lambda>t. t_deleted_at t = None \<and>
             (case fmlookup (db_note_tags s) (note_id, t_id t) of
                None \<Rightarrow> False | Some a \<Rightarrow> as_deleted_at a = None))
          (rows_of (db_tags s)))), s)"

section \<open>Resources\<close>

definition db_create_resource :: "Resource \<Rightarrow> u8 list \<Rightarrow> Resource db_act" where
  "db_create_resource resource data = transaction (\<lambda>s.
     let resource = resource\<lparr>r_vv := next_local_vv (resource_meta s (r_id resource)) (db_device_id s),
                             r_last_writer := db_device_id s\<rparr>
     in if r_id resource |\<in>| fmdom (db_resources s) then (Inl Database, s)
        else let s = s\<lparr>db_resources := fmupd (r_id resource)
                   \<lparr>rr_resource = resource, rr_data = Some data\<rparr> (db_resources s)\<rparr>;
                 s = record_change ''resource'' (r_id resource) ''create'' (JResource resource data) s
             in (Inr resource, s))"

text \<open>Reading a \<open>NULL\<close> payload as bytes is an error of the engine's row conversion.\<close>

definition db_read_resource :: "uuid \<Rightarrow> (Resource \<times> u8 list) db_act" where
  "db_read_resource i s = (case fmlookup (db_resources s) i of
      None \<Rightarrow> (Inl NotFound, s)
    | Some row \<Rightarrow>
        if r_deleted_at (rr_resource row) \<noteq> None then (Inl NotFound, s)
        else (case rr_data row of None \<Rightarrow> (Inl Database, s) | Some blob \<Rightarrow> (Inr (rr_resource row, blob), s)))"

definition resource_tombstone :: "ResRow \<Rightarrow> ts \<Rightarrow> vv \<Rightarrow> string \<Rightarrow> ResRow" where
  "resource_tombstone row t v writer =
     row\<lparr>rr_resource := (rr_resource row)\<lparr>r_deleted_at := Some t, r_vv := v, r_last_writer := writer\<rparr>\<rparr>"

definition db_delete_resource :: "uuid \<Rightarrow> unit db_act" where
  "db_delete_resource i = transaction (\<lambda>s.
     let v = next_local_vv (resource_meta s i) (db_device_id s);
         writer = db_device_id s;
         (t, s) = db_now s
     in case fmlookup (db_resources s) i of
          None \<Rightarrow> (Inl NotFound, s)
        | Some row \<Rightarrow>
            let s = s\<lparr>db_resources := fmupd i (resource_tombstone row t v writer) (db_resources s)\<rparr>;
                s = record_change ''resource'' i ''delete'' (JTombstone t v writer) s
            in (Inr (), s))"

definition db_list_resources :: "'c text_codec_scheme \<Rightarrow> (Resource, Db) pages" where
  "db_list_resources tc page_size token s =
     (Inr (sql_page page_size token (\<lambda>r. created_key tc (r_created_at r) (r_id r))
        (filter (\<lambda>r. r_deleted_at r = None) (map rr_resource (rows_of (db_resources s))))), s)"

definition db_list_resources_for_note :: "'c text_codec_scheme \<Rightarrow> uuid \<Rightarrow> (Resource, Db) pages" where
  "db_list_resources_for_note tc note_id page_size token s =
     (Inr (sql_page page_size token (\<lambda>r. created_key tc (r_created_at r) (r_id r))
        (filter (\<lambda>r. r_note_id r = note_id \<and> r_deleted_at r = None)
          (map rr_resource (rows_of (db_resources s))))), s)"

definition purgeable :: "ts \<Rightarrow> ResRow \<Rightarrow> bool" where
  "purgeable older_than row = (rr_data row \<noteq> None \<and>
     (case r_deleted_at (rr_resource row) of None \<Rightarrow> False | Some d \<Rightarrow> d < older_than))"

definition db_purge_deleted_resources :: "ts \<Rightarrow> nat db_act" where
  "db_purge_deleted_resources older_than s =
     (Inr (length (filter (purgeable older_than) (rows_of (db_resources s)))),
      s\<lparr>db_resources := fmmap (\<lambda>row. if purgeable older_than row then row\<lparr>rr_data := None\<rparr> else row)
          (db_resources s)\<rparr>)"

end
