(* ===== verification/Db_Sync.thy ===== *)
theory Db_Sync
  imports Db_Store
begin

text \<open>
  Synchronisation of the SQL backend, \<open>keeplin-core/src/storage/db/sync.rs\<close> and the journal
  decoding of \<open>rows.rs\<close> and \<open>convert.rs\<close>: applying an incoming change, reading the changes since
  a time, and pruning the journal. The transport (\<open>send_changes\<close>, \<open>receive_changes\<close>) is
  in \<open>Db_Remote\<close>. The theory proves that the backend is a store of stamps (\<open>Register\<close>), so that
  replicas converge under the condition stated there, and that it provides the note repository of
  \<open>Ordering\<close>.
\<close>

section \<open>Applying a change\<close>

definition db_apply_note_upsert :: "Note \<Rightarrow> Db \<Rightarrow> Db" where
  "db_apply_note_upsert note s =
    (if \<not> incoming_wins (note_meta s (n_id note)) (n_vv note) (n_updated_at note) (n_last_writer note) then s
     else let prior = prior_deleted s (n_id note);
              s = refresh_note_links note s;
              s = s\<lparr>db_notes := fmupd (n_id note) note (db_notes s)\<rparr>
          in restore_after_undelete note prior s)"

definition note_stub :: "uuid \<Rightarrow> ts \<Rightarrow> vv \<Rightarrow> string \<Rightarrow> Note" where
  "note_stub i t v writer =
     \<lparr>n_id = i, n_title = [], n_body = [], n_notebook_id = uuid_nil,
      n_is_todo = False, n_todo_due = None, n_todo_completed = None,
      n_created_at = t, n_updated_at = t, n_deleted_at = Some t,
      n_alias = None, n_bookmarks = [], n_links = [], n_vv = v, n_last_writer = writer,
      n_is_pinned = False, n_is_starred = False, n_sort_key = 0\<rparr>"

definition db_apply_note_delete :: "uuid \<Rightarrow> ts \<Rightarrow> vv \<Rightarrow> string \<Rightarrow> Db \<Rightarrow> Db" where
  "db_apply_note_delete i deleted_at v writer s =
    (if \<not> incoming_wins (note_meta s i) v deleted_at writer then s
     else let row = (case fmlookup (db_notes s) i of
                None \<Rightarrow> note_stub i deleted_at v writer
              | Some row \<Rightarrow> note_tombstone row deleted_at v writer)
          in delete_resources_of i deleted_at (s\<lparr>db_notes := fmupd i row (db_notes s)\<rparr>))"

definition db_apply_notebook_upsert :: "Notebook \<Rightarrow> Db \<Rightarrow> Db" where
  "db_apply_notebook_upsert nb s =
    (if \<not> incoming_wins (notebook_meta s (nb_id nb)) (nb_vv nb) (nb_updated_at nb) (nb_last_writer nb) then s
     else s\<lparr>db_notebooks := fmupd (nb_id nb) nb (db_notebooks s)\<rparr>)"

definition notebook_stub :: "uuid \<Rightarrow> ts \<Rightarrow> vv \<Rightarrow> string \<Rightarrow> Notebook" where
  "notebook_stub i t v writer =
     \<lparr>nb_id = i, nb_title = [], nb_created_at = t, nb_updated_at = t, nb_deleted_at = Some t,
      nb_alias = None, nb_vv = v, nb_last_writer = writer\<rparr>"

definition db_apply_notebook_delete :: "uuid \<Rightarrow> ts \<Rightarrow> vv \<Rightarrow> string \<Rightarrow> Db \<Rightarrow> Db" where
  "db_apply_notebook_delete i deleted_at v writer s =
    (if \<not> incoming_wins (notebook_meta s i) v deleted_at writer then s
     else let row = (case fmlookup (db_notebooks s) i of
                None \<Rightarrow> notebook_stub i deleted_at v writer
              | Some row \<Rightarrow> notebook_tombstone row deleted_at v writer)
          in s\<lparr>db_notebooks := fmupd i row (db_notebooks s)\<rparr>)"

text \<open>
  The \<open>INSERT OR REPLACE\<close> of a tag names every column but \<open>system\<close>, which takes its default.
\<close>

definition db_apply_tag_upsert :: "Tag \<Rightarrow> Db \<Rightarrow> Db" where
  "db_apply_tag_upsert tag s =
    (if \<not> incoming_wins (tag_meta s (t_id tag)) (t_vv tag) (t_updated_at tag) (t_last_writer tag) then s
     else s\<lparr>db_tags := fmupd (t_id tag) (tag\<lparr>t_system := False\<rparr>) (db_tags s)\<rparr>)"

definition tag_stub :: "uuid \<Rightarrow> ts \<Rightarrow> vv \<Rightarrow> string \<Rightarrow> Tag" where
  "tag_stub i t v writer =
     \<lparr>t_id = i, t_title = [], t_created_at = t, t_updated_at = t, t_deleted_at = Some t,
      t_vv = v, t_last_writer = writer, t_system = False\<rparr>"

definition db_apply_tag_delete :: "uuid \<Rightarrow> ts \<Rightarrow> vv \<Rightarrow> string \<Rightarrow> Db \<Rightarrow> Db" where
  "db_apply_tag_delete i deleted_at v writer s =
    (if \<not> incoming_wins (tag_meta s i) v deleted_at writer then s
     else let row = (case fmlookup (db_tags s) i of
                None \<Rightarrow> tag_stub i deleted_at v writer
              | Some row \<Rightarrow> tag_tombstone row deleted_at v writer)
          in s\<lparr>db_tags := fmupd i row (db_tags s)\<rparr>)"

definition db_apply_assoc :: "uuid \<Rightarrow> uuid \<Rightarrow> ts \<Rightarrow> ts option \<Rightarrow> vv \<Rightarrow> string \<Rightarrow> Db \<Rightarrow> Db" where
  "db_apply_assoc note_id tag_id updated_at deleted v writer s =
    (if incoming_wins (assoc_meta s note_id tag_id) v updated_at writer
     then upsert_assoc note_id tag_id updated_at deleted v writer s else s)"

definition db_apply_resource_create :: "Resource \<Rightarrow> u8 list option \<Rightarrow> Db \<Rightarrow> Db" where
  "db_apply_resource_create resource data s =
    (let t = (case r_deleted_at resource of None \<Rightarrow> r_created_at resource | Some d \<Rightarrow> d) in
     if incoming_wins (resource_meta s (r_id resource)) (r_vv resource) t (r_last_writer resource)
     then s\<lparr>db_resources := fmupd (r_id resource)
            \<lparr>rr_resource = resource, rr_data = Some (case data of None \<Rightarrow> [] | Some d \<Rightarrow> d)\<rparr> (db_resources s)\<rparr>
     else s)"

definition resource_stub :: "uuid \<Rightarrow> ts \<Rightarrow> vv \<Rightarrow> string \<Rightarrow> ResRow" where
  "resource_stub i t v writer =
     \<lparr>rr_resource = \<lparr>r_id = i, r_note_id = SYSTEM_RESOURCE_NOTE_ID, r_title = [], r_mime_type = [],
        r_file_name = [], r_size = 0, r_duration_ms = None, r_dimensions = None,
        r_created_at = t, r_deleted_at = Some t, r_vv = v, r_last_writer = writer\<rparr>,
      rr_data = None\<rparr>"

definition db_apply_resource_delete :: "uuid \<Rightarrow> ts \<Rightarrow> vv \<Rightarrow> string \<Rightarrow> Db \<Rightarrow> Db" where
  "db_apply_resource_delete i deleted_at v writer s =
    (if incoming_wins (resource_meta s i) v deleted_at writer
     then let row = (case fmlookup (db_resources s) i of
                None \<Rightarrow> resource_stub i deleted_at v writer
              | Some row \<Rightarrow> resource_tombstone row deleted_at v writer)
          in s\<lparr>db_resources := fmupd i row (db_resources s)\<rparr>
     else s)"

fun db_apply :: "Change \<Rightarrow> Db \<Rightarrow> Db" where
  "db_apply (NoteCreate note) s = db_apply_note_upsert note s"
| "db_apply (NoteUpdate note) s = db_apply_note_upsert note s"
| "db_apply (NoteDelete i t v w) s = db_apply_note_delete i t v w s"
| "db_apply (NotebookCreate nb) s = db_apply_notebook_upsert nb s"
| "db_apply (NotebookUpdate nb) s = db_apply_notebook_upsert nb s"
| "db_apply (NotebookDelete i t v w) s = db_apply_notebook_delete i t v w s"
| "db_apply (TagCreate tag) s = db_apply_tag_upsert tag s"
| "db_apply (TagUpdate tag) s = db_apply_tag_upsert tag s"
| "db_apply (TagDelete i t v w) s = db_apply_tag_delete i t v w s"
| "db_apply (NoteTagAdd n g t v w) s = db_apply_assoc n g t None v w s"
| "db_apply (NoteTagRemove n g t v w) s = db_apply_assoc n g t (Some t) v w s"
| "db_apply (ResourceCreate r d) s = db_apply_resource_create r d s"
| "db_apply (ResourceDelete i t v w) s = db_apply_resource_delete i t v w s"

definition db_apply_change :: "Change \<Rightarrow> unit db_act" where
  "db_apply_change c s = (Inr (), db_apply c s)"

section \<open>The change journal\<close>

fun tombstone_from_data :: "JData \<Rightarrow> ts \<Rightarrow> ts \<times> vv \<times> string" where
  "tombstone_from_data (JTombstone t v w) changed_at = (t, v, w)"
| "tombstone_from_data _ changed_at = (changed_at, fmempty, [])"

fun assoc_from_data :: "JData \<Rightarrow> ts \<Rightarrow> ts \<times> vv \<times> string" where
  "assoc_from_data (JAssoc _ t v w) changed_at = (t, v, w)"
| "assoc_from_data _ changed_at = (changed_at, fmempty, [])"

text \<open>
  The journal only holds data of the shape its entity type and operation announce; another shape is
  skipped as an unknown entry.
\<close>

definition row_to_change :: "ChangeRow \<Rightarrow> Change option" where
  "row_to_change row =
    (let ty = cr_entity_type row; opn = cr_operation row; i = cr_entity_id row; data = cr_data row;
         (t, v, w) = tombstone_from_data data (cr_changed_at row);
         (at, av, aw) = assoc_from_data data (cr_changed_at row)
     in if (ty, opn) = (''note'', ''create'') then (case data of JNote n \<Rightarrow> Some (NoteCreate n) | _ \<Rightarrow> None)
        else if (ty, opn) = (''note'', ''update'') then (case data of JNote n \<Rightarrow> Some (NoteUpdate n) | _ \<Rightarrow> None)
        else if (ty, opn) = (''note'', ''delete'') then Some (NoteDelete i t v w)
        else if (ty, opn) = (''notebook'', ''create'') then (case data of JNotebook n \<Rightarrow> Some (NotebookCreate n) | _ \<Rightarrow> None)
        else if (ty, opn) = (''notebook'', ''update'') then (case data of JNotebook n \<Rightarrow> Some (NotebookUpdate n) | _ \<Rightarrow> None)
        else if (ty, opn) = (''notebook'', ''delete'') then Some (NotebookDelete i t v w)
        else if (ty, opn) = (''tag'', ''create'') then (case data of JTag g \<Rightarrow> Some (TagCreate g) | _ \<Rightarrow> None)
        else if (ty, opn) = (''tag'', ''update'') then (case data of JTag g \<Rightarrow> Some (TagUpdate g) | _ \<Rightarrow> None)
        else if (ty, opn) = (''tag'', ''delete'') then Some (TagDelete i t v w)
        else if (ty, opn) = (''note_tag'', ''add'') then (case data of JAssoc g _ _ _ \<Rightarrow> Some (NoteTagAdd i g at av aw) | _ \<Rightarrow> None)
        else if (ty, opn) = (''note_tag'', ''remove'') then (case data of JAssoc g _ _ _ \<Rightarrow> Some (NoteTagRemove i g at av aw) | _ \<Rightarrow> None)
        else if (ty, opn) = (''resource'', ''create'') then (case data of JResource r d \<Rightarrow> Some (ResourceCreate r (Some d)) | _ \<Rightarrow> None)
        else if (ty, opn) = (''resource'', ''delete'') then Some (ResourceDelete i t v w)
        else None)"

definition db_get_changes_since :: "ts \<Rightarrow> Change list db_act" where
  "db_get_changes_since since s =
     (Inr (List.map_filter row_to_change (filter (\<lambda>row. since < cr_changed_at row) (db_entity_changes s))), s)"

definition db_prune_change_journal :: "ts \<Rightarrow> nat db_act" where
  "db_prune_change_journal older_than s =
     (Inr (length (filter (\<lambda>row. cr_changed_at row < older_than) (db_entity_changes s))),
      s\<lparr>db_entity_changes := filter (\<lambda>row. \<not> cr_changed_at row < older_than) (db_entity_changes s)\<rparr>)"

definition db_get_last_sync_time :: "ts db_act" where
  "db_get_last_sync_time s = (Inr (case db_last_sync s of None \<Rightarrow> 0 | Some t \<Rightarrow> t), s)"

definition db_update_sync_time :: "ts \<Rightarrow> unit db_act" where
  "db_update_sync_time t s = (Inr (), s\<lparr>db_last_sync := Some t\<rparr>)"

section \<open>The backend as a store of stamps\<close>

text \<open>
  The objects whose versions the backend resolves by stamp. Resources are not among them: deleting a
  note changes the time of its resources' stamps.
\<close>

datatype object_key = ONote uuid | ONotebook uuid | OTag uuid | OAssoc uuid uuid

fun db_mark :: "Db \<Rightarrow> object_key \<Rightarrow> stamp option" where
  "db_mark s (ONote i) = note_meta s i"
| "db_mark s (ONotebook i) = notebook_meta s i"
| "db_mark s (OTag i) = tag_meta s i"
| "db_mark s (OAssoc n t) = assoc_meta s n t"

fun change_target :: "Change \<Rightarrow> object_key option" where
  "change_target (NoteCreate n) = Some (ONote (n_id n))"
| "change_target (NoteUpdate n) = Some (ONote (n_id n))"
| "change_target (NoteDelete i t v w) = Some (ONote i)"
| "change_target (NotebookCreate n) = Some (ONotebook (nb_id n))"
| "change_target (NotebookUpdate n) = Some (ONotebook (nb_id n))"
| "change_target (NotebookDelete i t v w) = Some (ONotebook i)"
| "change_target (TagCreate g) = Some (OTag (t_id g))"
| "change_target (TagUpdate g) = Some (OTag (t_id g))"
| "change_target (TagDelete i t v w) = Some (OTag i)"
| "change_target (NoteTagAdd n g t v w) = Some (OAssoc n g)"
| "change_target (NoteTagRemove n g t v w) = Some (OAssoc n g)"
| "change_target (ResourceCreate r d) = None"
| "change_target (ResourceDelete i t v w) = None"

fun change_stamp :: "Change \<Rightarrow> stamp" where
  "change_stamp (NoteCreate n) = (n_vv n, n_updated_at n, n_last_writer n)"
| "change_stamp (NoteUpdate n) = (n_vv n, n_updated_at n, n_last_writer n)"
| "change_stamp (NoteDelete i t v w) = (v, t, w)"
| "change_stamp (NotebookCreate n) = (nb_vv n, nb_updated_at n, nb_last_writer n)"
| "change_stamp (NotebookUpdate n) = (nb_vv n, nb_updated_at n, nb_last_writer n)"
| "change_stamp (NotebookDelete i t v w) = (v, t, w)"
| "change_stamp (TagCreate g) = (t_vv g, t_updated_at g, t_last_writer g)"
| "change_stamp (TagUpdate g) = (t_vv g, t_updated_at g, t_last_writer g)"
| "change_stamp (TagDelete i t v w) = (v, t, w)"
| "change_stamp (NoteTagAdd n g t v w) = (v, t, w)"
| "change_stamp (NoteTagRemove n g t v w) = (v, t, w)"
| "change_stamp (ResourceCreate r d) = (r_vv r, (case r_deleted_at r of None \<Rightarrow> r_created_at r | Some t \<Rightarrow> t), r_last_writer r)"
| "change_stamp (ResourceDelete i t v w) = (v, t, w)"

lemma incoming_wins_takes:
  "incoming_wins m v t w \<longleftrightarrow> (case m of None \<Rightarrow> True | Some l \<Rightarrow> takes l (v, t, w))"
  by (auto simp: incoming_wins_def split: option.splits)

lemma refresh_links_tables [simp]:
  "db_notes (refresh_note_links n s) = db_notes s" "db_notebooks (refresh_note_links n s) = db_notebooks s"
  "db_tags (refresh_note_links n s) = db_tags s" "db_note_tags (refresh_note_links n s) = db_note_tags s"
  "db_resources (refresh_note_links n s) = db_resources s"
  "db_entity_changes (refresh_note_links n s) = db_entity_changes s"
  "db_device_id (refresh_note_links n s) = db_device_id s" "db_ticks (refresh_note_links n s) = db_ticks s"
  "db_clock (refresh_note_links n s) = db_clock s" "db_last_sync (refresh_note_links n s) = db_last_sync s"
  by (simp_all add: refresh_note_links_def)

lemma restore_tables [simp]:
  "db_notes (restore_after_undelete n p s) = db_notes s" "db_notebooks (restore_after_undelete n p s) = db_notebooks s"
  "db_tags (restore_after_undelete n p s) = db_tags s" "db_note_tags (restore_after_undelete n p s) = db_note_tags s"
  "db_note_links (restore_after_undelete n p s) = db_note_links s"
  "db_entity_changes (restore_after_undelete n p s) = db_entity_changes s"
  "db_device_id (restore_after_undelete n p s) = db_device_id s" "db_ticks (restore_after_undelete n p s) = db_ticks s"
  "db_clock (restore_after_undelete n p s) = db_clock s" "db_last_sync (restore_after_undelete n p s) = db_last_sync s"
  by (simp_all add: restore_after_undelete_def undelete_resources_def split: option.splits)

lemma delete_resources_tables [simp]:
  "db_notes (delete_resources_of i t s) = db_notes s" "db_notebooks (delete_resources_of i t s) = db_notebooks s"
  "db_tags (delete_resources_of i t s) = db_tags s" "db_note_tags (delete_resources_of i t s) = db_note_tags s"
  "db_note_links (delete_resources_of i t s) = db_note_links s"
  "db_entity_changes (delete_resources_of i t s) = db_entity_changes s"
  "db_device_id (delete_resources_of i t s) = db_device_id s" "db_ticks (delete_resources_of i t s) = db_ticks s"
  "db_clock (delete_resources_of i t s) = db_clock s" "db_last_sync (delete_resources_of i t s) = db_last_sync s"
  by (simp_all add: delete_resources_of_def)

lemmas db_apply_defs = db_apply_note_upsert_def db_apply_note_delete_def db_apply_notebook_upsert_def
  db_apply_notebook_delete_def db_apply_tag_upsert_def db_apply_tag_delete_def db_apply_assoc_def
  db_apply_resource_create_def db_apply_resource_delete_def upsert_assoc_def Let_def

lemmas db_meta_defs = note_meta_def notebook_meta_def tag_meta_def assoc_meta_def

lemma db_mark_apply:
  "db_mark (db_apply c s) k =
    (if change_target c = Some k then
       Some (case db_mark s k of None \<Rightarrow> change_stamp c
         | Some l \<Rightarrow> if takes l (change_stamp c) then change_stamp c else l)
     else db_mark s k)"
  by (cases c; cases k)
    (auto simp: db_apply_defs incoming_wins_takes db_meta_defs note_tombstone_def notebook_tombstone_def
      tag_tombstone_def note_stub_def notebook_stub_def tag_stub_def split: option.splits)

interpretation db: stamp_store db_mark db_apply change_target change_stamp
  by unfold_locales (rule db_mark_apply)

interpretation db_notebook: lww_store "\<lambda>s i. fmlookup (db_notebooks s) i" "\<lambda>nb. db_apply (NotebookUpdate nb)"
  nb_id "\<lambda>nb. (nb_vv nb, nb_updated_at nb, nb_last_writer nb)"
  by unfold_locales (auto simp: db_apply_defs incoming_wins_takes notebook_meta_def split: option.splits)

interpretation db_note: lww_store "\<lambda>s i. fmlookup (db_notes s) i" "\<lambda>n. db_apply (NoteUpdate n)"
  n_id "\<lambda>n. (n_vv n, n_updated_at n, n_last_writer n)"
  by unfold_locales (auto simp: db_apply_defs incoming_wins_takes note_meta_def split: option.splits)

section \<open>Local operations and their changes\<close>

lemma record_change_tables [simp]:
  "db_notes (record_change a b c d s) = db_notes s" "db_notebooks (record_change a b c d s) = db_notebooks s"
  "db_tags (record_change a b c d s) = db_tags s" "db_note_tags (record_change a b c d s) = db_note_tags s"
  "db_resources (record_change a b c d s) = db_resources s"
  "db_note_links (record_change a b c d s) = db_note_links s"
  "db_device_id (record_change a b c d s) = db_device_id s"
  by (simp_all add: record_change_def db_now_def)

lemma record_change_last:
  "last (db_entity_changes (record_change a b c d s)) =
     \<lparr>cr_entity_type = a, cr_entity_id = b, cr_operation = c, cr_changed_at = db_clock s (db_ticks s), cr_data = d\<rparr>"
  by (simp add: record_change_def db_now_def)

lemma db_now_tables [simp]:
  "db_now s = (t, s') \<Longrightarrow> s' = s\<lparr>db_ticks := db_ticks s + 1\<rparr>"
  by (simp add: db_now_def)

lemma transaction_ok: "transaction body s = (Inr x, s') \<longleftrightarrow> body s = (Inr x, s')"
  by (auto simp: transaction_def split: prod.splits sum.splits)

lemma transaction_err: "transaction body s = (Inl e, s') \<Longrightarrow> \<exists>k. s' = s\<lparr>db_ticks := k\<rparr>"
  by (auto simp: transaction_def split: prod.splits sum.splits)

lemma transaction_rollback:
  assumes "fst (transaction body s) = Inl e"
  shows "snd (transaction body s) = s\<lparr>db_ticks := db_ticks (snd (transaction body s))\<rparr>"
proof -
  have "transaction body s = (Inl e, snd (transaction body s))" using assms by (metis prod.collapse)
  from transaction_err [OF this] obtain k where "snd (transaction body s) = s\<lparr>db_ticks := k\<rparr>" ..
  then show ?thesis by simp
qed

text \<open>A version written locally wins over the version it replaces, on any replica that has it.\<close>

definition fresh_counter :: "meta \<Rightarrow> string \<Rightarrow> bool" where
  "fresh_counter m d = (case m of None \<Rightarrow> True | Some (v, _, _) \<Rightarrow> vv_get v d \<noteq> - 1)"

lemma next_local_wins:
  "fresh_counter m d \<Longrightarrow> incoming_wins m (next_local_vv m d) t w"
  using dominates_incrementI
  by (auto simp: incoming_wins_def next_local_vv_def fresh_counter_def resolve_def split: option.splits)

definition tables_agree :: "Db \<Rightarrow> Db \<Rightarrow> bool" where
  "tables_agree a b \<longleftrightarrow> db_notes a = db_notes b \<and> db_notebooks a = db_notebooks b \<and> db_tags a = db_tags b \<and>
     db_note_tags a = db_note_tags b \<and> db_note_links a = db_note_links b \<and> db_resources a = db_resources b"

lemma tables_agreeD:
  "tables_agree a b \<Longrightarrow> note_meta a = note_meta b" "tables_agree a b \<Longrightarrow> notebook_meta a = notebook_meta b"
  "tables_agree a b \<Longrightarrow> tag_meta a = tag_meta b" "tables_agree a b \<Longrightarrow> assoc_meta a = assoc_meta b"
  "tables_agree a b \<Longrightarrow> resource_meta a = resource_meta b" "tables_agree a b \<Longrightarrow> prior_deleted a = prior_deleted b"
  by (simp_all add: tables_agree_def db_meta_defs resource_meta_def prior_deleted_def fun_eq_iff)

lemma refresh_links_agree:
  "db_note_links a = db_note_links b \<Longrightarrow> db_note_links (refresh_note_links n a) = db_note_links (refresh_note_links n b)"
  by (simp add: refresh_note_links_def)

lemma restore_agree:
  "db_resources a = db_resources b \<Longrightarrow> db_resources (restore_after_undelete n p a) = db_resources (restore_after_undelete n p b)"
  by (simp add: restore_after_undelete_def undelete_resources_def split: option.splits)

lemma delete_resources_agree:
  "db_resources a = db_resources b \<Longrightarrow> db_resources (delete_resources_of i t a) = db_resources (delete_resources_of i t b)"
  by (simp add: delete_resources_of_def)

lemma refresh_restore_links:
  "db_note_links (refresh_note_links n (restore_after_undelete m p s)) = db_note_links (refresh_note_links n s)"
  by (simp add: refresh_note_links_def)

lemma restore_refresh_resources:
  "db_resources (restore_after_undelete m p (refresh_note_links n s)) = db_resources (restore_after_undelete m p s)"
  by (simp add: restore_after_undelete_def undelete_resources_def split: option.splits)

lemma update_note_replicates:
  assumes "db_update_note note a = (Inr note', a')" "tables_agree a b"
    and "fresh_counter (note_meta a (n_id note)) (db_device_id a)"
    and "fmlookup (db_notes a) (n_id note) = Some old" "n_created_at note = n_created_at old"
  shows "row_to_change (last (db_entity_changes a')) = Some (NoteUpdate note') \<and>
    tables_agree a' (db_apply (NoteUpdate note') b)"
proof -
  let ?v = "next_local_vv (note_meta a (n_id note)) (db_device_id a)"
  have n': "note' = note\<lparr>n_vv := ?v, n_last_writer := db_device_id a\<rparr>"
    using assms(1,4) by (auto simp: db_update_note_def transaction_ok Let_def)
  have row: "note'\<lparr>n_created_at := n_created_at old\<rparr> = note'"
    unfolding n' using assms(5) by simp
  have win: "incoming_wins (note_meta b (n_id note')) (n_vv note') (n_updated_at note') (n_last_writer note')"
    using next_local_wins [OF assms(3)] by (simp add: n' tables_agreeD(1) [OF assms(2), symmetric])
  have a': "a' = record_change ''note'' (n_id note') ''update'' (JNote note')
      (refresh_note_links note' (restore_after_undelete note' (prior_deleted a (n_id note'))
        (a\<lparr>db_notes := fmupd (n_id note') note' (db_notes a)\<rparr>)))"
    using assms(1,4) row by (simp add: db_update_note_def transaction_ok Let_def n' [symmetric])
  have agree: "tables_agree a' (db_apply (NoteUpdate note') b)"
    using assms(2) win tables_agreeD(6) [OF assms(2)] unfolding a' tables_agree_def
    by (simp add: db_apply_note_upsert_def Let_def refresh_restore_links restore_refresh_resources)
      (simp add: refresh_note_links_def restore_after_undelete_def undelete_resources_def split: option.splits)
  show ?thesis
    using agree by (simp add: a' record_change_last row_to_change_def Let_def split: prod.splits)
qed

lemma delete_note_replicates:
  assumes "db_delete_note i a = (Inr (), a')" "tables_agree a b"
    and "fresh_counter (note_meta a i) (db_device_id a)"
  shows "\<exists>t v w. row_to_change (last (db_entity_changes a')) = Some (NoteDelete i t v w) \<and>
    tables_agree a' (db_apply (NoteDelete i t v w) b)"
proof -
  let ?v = "next_local_vv (note_meta a i) (db_device_id a)" and ?t = "db_clock a (db_ticks a)"
  obtain row where row: "fmlookup (db_notes a) i = Some row"
    using assms(1) by (auto simp: db_delete_note_def transaction_ok Let_def db_now_def split: option.splits)
  have a': "a' = record_change ''note'' i ''delete'' (JTombstone ?t ?v (db_device_id a))
      (delete_resources_of i ?t (a\<lparr>db_ticks := db_ticks a + 1,
        db_notes := fmupd i (note_tombstone row ?t ?v (db_device_id a)) (db_notes a)\<rparr>))"
    using assms(1) row by (simp add: db_delete_note_def transaction_ok Let_def db_now_def)
  have "incoming_wins (note_meta b i) ?v ?t (db_device_id a)"
    using next_local_wins [OF assms(3)] by (simp add: tables_agreeD(1) [OF assms(2), symmetric])
  then have "tables_agree a' (db_apply (NoteDelete i ?t ?v (db_device_id a)) b)"
    using assms(2) row unfolding a' tables_agree_def
    by (simp add: db_apply_note_delete_def Let_def delete_resources_of_def)
  then show ?thesis
    by (intro exI [of _ ?t] exI [of _ ?v] exI [of _ "db_device_id a"])
      (simp add: a' record_change_last row_to_change_def)
qed

section \<open>Properties\<close>

lemma resolve_same [simp]: "resolve v t w v t w = Local"
  by (simp add: resolve_def)

text \<open>
  Applying a change twice is applying it once: the second application leaves the whole state
  unchanged, for every kind of change.
\<close>

theorem db_apply_idempotent: "db_apply c (db_apply c s) = db_apply c s"
  by (cases c)
    (auto simp: db_apply_defs incoming_wins_takes db_meta_defs resource_meta_def note_tombstone_def
      notebook_tombstone_def tag_tombstone_def resource_tombstone_def note_stub_def notebook_stub_def
      tag_stub_def resource_stub_def split: option.splits)

text \<open>
  C8. Replicas converge: from stores that know none of the objects, two sequences of the same
  changes, in any order and with repetitions, leave every note, notebook, tag and association at the
  same version, provided that for each object the versions' clocks respect causality.
\<close>

theorem db_replicas_converge:
  assumes "\<forall>k. causal (change_stamp ` {c \<in> set cs. change_target c = Some k})"
    and "set cs = set ds" and "\<forall>k. db_mark s k = None"
  shows "db_mark (fold db_apply cs s) = db_mark (fold db_apply ds s)"
  by (rule db.deliver_converge [OF assms])

definition empty_db :: "string \<Rightarrow> Db" where
  "empty_db device =
     \<lparr>db_device_id = device, db_notes = fmempty, db_notebooks = fmempty, db_tags = fmempty,
      db_note_tags = fmempty, db_note_links = fempty, db_resources = fmempty,
      db_entity_changes = [], db_last_sync = None, db_clock = int, db_ticks = 0,
      db_server_url = [], db_ws = False, db_ws_tries = 0, db_ws_events = [], db_ws_sent = []\<rparr>"

lemma empty_db_mark: "db_mark (empty_db d) k = None"
  by (cases k) (simp_all add: empty_db_def db_meta_defs)

definition change_a :: Change where
  "change_a = NotebookUpdate (new_notebook 7 5 ''a''\<lparr>nb_vv := fmap_of_list [(''A'', 1)], nb_last_writer := ''A''\<rparr>)"

definition change_b :: Change where
  "change_b = NotebookDelete 7 6 (fmap_of_list [(''B'', 1)]) ''B''"

lemma change_ab:
  "change_target change_a = Some (ONotebook 7)" "change_target change_b = Some (ONotebook 7)"
  "change_stamp change_a = (fmap_of_list [(''A'', 1)], 5, ''A'')" "change_stamp change_b = (fmap_of_list [(''B'', 1)], 6, ''B'')"
  by (simp_all add: change_a_def change_b_def new_notebook_def)

lemma causal_ab: "causal {(fmap_of_list [(''A'', 1)], 5, ''A''), (fmap_of_list [(''B'', 1)], 6, ''B'')}"
proof -
  have "fmap_of_list [(''A'', 1 :: u64)] \<noteq> fmap_of_list [(''B'', 1)]" by code_simp
  moreover have "\<not> dominates (fmap_of_list [(''A'', 1)]) (fmap_of_list [(''B'', 1)])" by code_simp
  moreover have "vv_normal (fmap_of_list [(''A'', 1)])" "vv_normal (fmap_of_list [(''B'', 1)])" by code_simp+
  ultimately show ?thesis by (simp add: causal_def)
qed

theorem db_replicas_converge_witness:
  "db_mark (fold db_apply [change_a, change_b] (empty_db ''C'')) =
   db_mark (fold db_apply [change_b, change_a, change_b] (empty_db ''C''))"
proof (rule db_replicas_converge)
  have empty: "causal {}" by (simp add: causal_def)
  show "\<forall>k. causal (change_stamp ` {c \<in> set [change_a, change_b]. change_target c = Some k})"
  proof
    fix k
    have "{c \<in> set [change_a, change_b]. change_target c = Some k} = (if k = ONotebook 7 then {change_a, change_b} else {})"
      by (auto simp: change_ab)
    then show "causal (change_stamp ` {c \<in> set [change_a, change_b]. change_target c = Some k})"
      using causal_ab empty by (simp add: change_ab)
  qed
qed (auto simp: empty_db_mark)


definition db_one :: "string \<Rightarrow> Db" where
  "db_one device = (empty_db device)\<lparr>db_notes := fmap_of_list [(7, sample_note)]\<rparr>"


text \<open>
  C10. A local deletion replicates: the change a note's deletion records, applied by an agreeing
  replica, gives the tables after it, the cascade to the note's resources included.
\<close>

theorem db_delete_note_replicates:
  assumes "db_delete_note i a = (Inr (), a')" "tables_agree a b"
    and "fresh_counter (note_meta a i) (db_device_id a)"
  shows "\<exists>t v w. row_to_change (last (db_entity_changes a')) = Some (NoteDelete i t v w) \<and>
    tables_agree a' (db_apply (NoteDelete i t v w) b)"
  by (rule delete_note_replicates [OF assms])

theorem db_delete_note_replicates_witness:
  "\<exists>a' t v w. db_delete_note 7 (db_one ''A'') = (Inr (), a') \<and>
    tables_agree a' (db_apply (NoteDelete 7 t v w) (db_one ''B''))"
proof -
  have look: "fmlookup (db_notes (db_one d)) 7 = Some sample_note" for d
    by (simp add: db_one_def)
  obtain a' where d: "db_delete_note 7 (db_one ''A'') = (Inr (), a')"
    by (simp add: db_delete_note_def transaction_def Let_def db_now_def look)
  have "tables_agree (db_one ''A'') (db_one ''B'')" by (simp add: tables_agree_def db_one_def empty_db_def)
  moreover have "fresh_counter (note_meta (db_one ''A'') 7) (db_device_id (db_one ''A''))"
    by (simp add: fresh_counter_def note_meta_def sample_note_def new_note_def db_one_def)
  ultimately show ?thesis
    using db_delete_note_replicates [OF d, where b = "db_one ''B''"] d by blast
qed

text \<open>
  C11. Deleting a note and undeleting it brings its resources back exactly as they were: those the
  deletion took with it live again, those deleted before stay deleted, and other notes' resources are
  untouched. No resource of the note may already carry the deletion's timestamp.
\<close>

theorem db_undelete_restores_resources:
  assumes "db_delete_note i s = (Inr (), s1)"
    and "db_update_note note s1 = (Inr note', s2)" and "n_id note = i" and "n_deleted_at note = None"
    and "\<forall>k row. fmlookup (db_resources s) k = Some row \<longrightarrow> r_note_id (rr_resource row) = i \<longrightarrow>
      r_deleted_at (rr_resource row) \<noteq> Some (db_clock s (db_ticks s))"
  shows "db_resources s2 = db_resources s"
proof -
  let ?t = "db_clock s (db_ticks s)"
  obtain row where row: "fmlookup (db_notes s) i = Some row"
    using assms(1) by (auto simp: db_delete_note_def transaction_ok Let_def db_now_def split: option.splits)
  have s1: "db_resources s1 = db_resources (delete_resources_of i ?t s)" "prior_deleted s1 i = Some ?t"
    using assms(1) row by (auto simp: db_delete_note_def transaction_ok Let_def db_now_def
        delete_resources_of_def prior_deleted_def note_tombstone_def)
  obtain row1 where row1: "fmlookup (db_notes s1) i = Some row1"
    using assms(2,3) by (auto simp: db_update_note_def transaction_ok Let_def split: option.splits)
  have "db_resources s2 = db_resources (undelete_resources i ?t s1)"
    using assms(2-4) row1 s1(2)
    by (auto simp: db_update_note_def transaction_ok Let_def restore_after_undelete_def undelete_resources_def)
  also have "\<dots> = db_resources s"
  proof (rule fmap_ext)
    fix k
    show "fmlookup (db_resources (undelete_resources i ?t s1)) k = fmlookup (db_resources s) k"
      using assms(5) by (cases "fmlookup (db_resources s) k")
        (auto simp: undelete_resources_def delete_resources_of_def s1(1))
  qed
  finally show ?thesis .
qed

definition db_res :: Db where
  "db_res = (db_one ''A'')\<lparr>db_resources := fmap_of_list
     [(8, \<lparr>rr_resource = new_resource 8 3 7 ''r'' ''m'' ''f'' 1, rr_data = Some [1]\<rparr>)]\<rparr>"

theorem db_undelete_restores_resources_witness:
  "\<exists>s1 note' s2. db_delete_note 7 db_res = (Inr (), s1) \<and> db_update_note sample_note s1 = (Inr note', s2) \<and>
     db_resources s2 = db_resources db_res"
proof -
  have look: "fmlookup (db_notes db_res) 7 = Some sample_note"
    by (simp add: db_res_def db_one_def)
  obtain s1 where d: "db_delete_note 7 db_res = (Inr (), s1)"
    by (simp add: db_delete_note_def transaction_def Let_def db_now_def look)
  then have "fmlookup (db_notes s1) 7 \<noteq> None"
    using look by (auto simp: db_delete_note_def transaction_ok Let_def db_now_def)
  then obtain note' s2 where u: "db_update_note sample_note s1 = (Inr note', s2)"
    by (auto simp: db_update_note_def transaction_def Let_def sample_note_def new_note_def)
  have "n_id sample_note = 7" "n_deleted_at sample_note = None" by (simp_all add: sample_note_def new_note_def)
  moreover have "\<forall>k row. fmlookup (db_resources db_res) k = Some row \<longrightarrow> r_note_id (rr_resource row) = 7 \<longrightarrow>
      r_deleted_at (rr_resource row) \<noteq> Some (db_clock db_res (db_ticks db_res))"
    by (auto simp: db_res_def new_resource_def split: if_splits)
  ultimately have "db_resources s2 = db_resources db_res"
    using db_undelete_restores_resources [OF d u] by blast
  with d u show ?thesis by blast
qed



text \<open>
  Receiving a tag through synchronisation clears its system flag: whenever an incoming version of
  a tag wins, the stored row is that version with \<open>system\<close> false, although the change carries the
  flag.
\<close>

theorem db_tag_sync_drops_system:
  "fmlookup (db_tags (db_apply (TagUpdate tag) s)) (t_id tag) =
     (if incoming_wins (tag_meta s (t_id tag)) (t_vv tag) (t_updated_at tag) (t_last_writer tag)
      then Some (tag\<lparr>t_system := False\<rparr>) else fmlookup (db_tags s) (t_id tag))"
  by (simp add: db_apply_tag_upsert_def)

text \<open>
  Purging a deleted note's payloads and undeleting the note afterwards leaves live resources whose
  payload cannot be read.
\<close>

lemma db_purge_then_undelete_unreadable:
  "let s1 = snd (db_delete_note 7 db_res);
       s2 = snd (db_purge_deleted_resources 100 s1);
       s3 = snd (db_update_note sample_note s2)
   in fst (db_read_resource 8 db_res) = Inr (new_resource 8 3 7 ''r'' ''m'' ''f'' 1, [1]) \<and>
      fst (db_read_resource 8 s3) = Inl Database"
  by code_simp

end
