(* ===== verification/Db_Remote.thy ===== *)
theory Db_Remote
  imports Db_Sync
begin

text \<open>
  The SQL backend and its sync server: sending and receiving batches of changes over the WebSocket
  (\<open>storage/db/mod.rs\<close>, \<open>storage/db/sync.rs\<close>) and the history queries
  (\<open>storage/db/server.rs\<close>). The server is a parameter: the outcome of the \<open>n\<close>-th call on the
  network and its answers to history queries (\<open>None\<close> where it has none to give).
\<close>

record remote =
  rm_call_ok :: "nat \<Rightarrow> bool"
  rm_note_history :: "uuid \<Rightarrow> u32 \<Rightarrow> Note EntityVersion list option"
  rm_notebook_history :: "uuid \<Rightarrow> u32 \<Rightarrow> Notebook EntityVersion list option"

definition offline :: remote where
  "offline = \<lparr>rm_call_ok = (\<lambda>_. False), rm_note_history = (\<lambda>_ _. None), rm_notebook_history = (\<lambda>_ _. None)\<rparr>"

section \<open>Sending\<close>

definition ensure_ws :: "remote \<Rightarrow> Db \<Rightarrow> Db" where
  "ensure_ws rm s =
    (if \<not> db_ws s \<and> db_server_url s \<noteq> []
     then s\<lparr>db_ws := rm_call_ok rm (db_ws_tries s), db_ws_tries := db_ws_tries s + 1\<rparr>
     else s)"

text \<open>The attempts of a send, counted down; the waits between them are not modelled.\<close>

fun send_loop :: "remote \<Rightarrow> Change list \<Rightarrow> nat \<Rightarrow> unit db_act" where
  "send_loop rm changes 0 s = (Inr (), s)"
| "send_loop rm changes (Suc left) s =
    (let s = ensure_ws rm s
     in if \<not> db_ws s then (Inl WebSocket, s)
        else if rm_call_ok rm (db_ws_tries s)
        then (Inr (), s\<lparr>db_ws_tries := db_ws_tries s + 1, db_ws_sent := db_ws_sent s @ [changes]\<rparr>)
        else let s = s\<lparr>db_ws_tries := db_ws_tries s + 1, db_ws := False\<rparr>
             in if left = 0 then (Inl WebSocket, s) else send_loop rm changes left s)"

definition db_send_changes :: "remote \<Rightarrow> Change list \<Rightarrow> unit db_act" where
  "db_send_changes rm changes s =
    (if changes = [] then (Inr (), s)
     else if db_server_url s = [] then (Inr (), s)
     else send_loop rm changes 4 s)"

section \<open>Receiving\<close>

definition MAX_WS_MESSAGES :: nat where "MAX_WS_MESSAGES = 1000"

fun frame_changes :: "ws_frame \<Rightarrow> Change list" where
  "frame_changes (WsChanges (Some batch)) = batch"
| "frame_changes _ = []"

text \<open>
  The receive loop: the changes read, whether the connection closed, and what the stream still holds.
  A stream with nothing more to yield times out.
\<close>

fun ws_drain :: "ws_event list \<Rightarrow> nat \<Rightarrow> Change list \<Rightarrow> Change list \<times> bool \<times> ws_event list" where
  "ws_drain [] msg_count changes = (changes, False, [])"
| "ws_drain (ev # evs) msg_count changes =
    (if MAX_WS_MESSAGES \<le> msg_count then (changes, False, ev # evs)
     else case ev of
       WsText frame \<Rightarrow> ws_drain evs (msg_count + 1) (changes @ frame_changes frame)
     | WsOther \<Rightarrow> ws_drain evs msg_count changes
     | WsTimeout \<Rightarrow> (changes, False, evs)
     | _ \<Rightarrow> (changes, True, evs))"

definition db_receive_changes :: "remote \<Rightarrow> Change list db_act" where
  "db_receive_changes rm s =
    (let s = ensure_ws rm s
     in if \<not> db_ws s then (Inr [], s)
        else let (changes, closed, rest) = ws_drain (db_ws_events s) 0 []
             in (Inr changes, s\<lparr>db_ws := \<not> closed, db_ws_events := rest\<rparr>))"

definition db_get_device_id :: "string db_act" where
  "db_get_device_id s = (Inr (db_device_id s), s)"

section \<open>History\<close>

text \<open>
  The server's answer, else the journal: the newest \<open>cap\<close> rows of the entity, without those whose
  data is of another shape.
\<close>

definition history_rows :: "string \<Rightarrow> uuid \<Rightarrow> u32 \<Rightarrow> Db \<Rightarrow> ChangeRow list" where
  "history_rows entity_type i cap s =
     take (unat cap) (rev (filter (\<lambda>row. cr_entity_type row = entity_type \<and> cr_entity_id row = i) (db_entity_changes s)))"

definition row_version :: "string \<Rightarrow> (JData \<Rightarrow> 'e option) \<Rightarrow> ChangeRow \<Rightarrow> 'e EntityVersion option" where
  "row_version device decode row =
    (if cr_operation row = ''create'' \<or> cr_operation row = ''update''
     then map_option (\<lambda>e. \<lparr>ev_timestamp = cr_changed_at row, ev_device_id = device, ev_entity = Some e\<rparr>)
            (decode (cr_data row))
     else if cr_operation row = ''delete''
     then Some \<lparr>ev_timestamp = cr_changed_at row, ev_device_id = device, ev_entity = None\<rparr>
     else None)"

definition entity_history :: "(uuid \<Rightarrow> u32 \<Rightarrow> 'e EntityVersion list option) \<Rightarrow> (JData \<Rightarrow> 'e option) \<Rightarrow> string \<Rightarrow> uuid \<Rightarrow> u32 \<Rightarrow> 'e EntityVersion list db_act" where
  "entity_history server decode entity_type i limit s =
    (let cap = (if limit = 0 then DEFAULT_HISTORY_LIMIT else limit)
     in case server i cap of
          Some versions \<Rightarrow> (Inr versions, s)
        | None \<Rightarrow> (Inr (List.map_filter (row_version (db_device_id s) decode) (history_rows entity_type i cap s)), s))"

fun as_note :: "JData \<Rightarrow> Note option" where
  "as_note (JNote n) = Some n"
| "as_note _ = None"

fun as_notebook :: "JData \<Rightarrow> Notebook option" where
  "as_notebook (JNotebook nb) = Some nb"
| "as_notebook _ = None"

definition db_note_history :: "remote \<Rightarrow> uuid \<Rightarrow> u32 \<Rightarrow> Note EntityVersion list db_act" where
  "db_note_history rm = entity_history (rm_note_history rm) as_note ''note''"

definition db_notebook_history :: "remote \<Rightarrow> uuid \<Rightarrow> u32 \<Rightarrow> Notebook EntityVersion list db_act" where
  "db_notebook_history rm = entity_history (rm_notebook_history rm) as_notebook ''notebook''"

end
