(* ===== verification/Db_Backend.thy ===== *)
theory Db_Backend
  imports Db_Remote
begin

text \<open>
  The SQL backend as a whole: the record of its operations behind the storage interface, its
  listings as paged listings, and the ordering operations of \<open>Ordering\<close> on it.
\<close>

definition db_backend :: "'c text_codec_scheme \<Rightarrow> remote \<Rightarrow> Db backend" where
  "db_backend tc rm =
     \<lparr>create_note = db_create_note, read_note = db_read_note, update_note = db_update_note,
      delete_note = db_delete_note, list_notes = db_list_notes tc,
      list_notes_in_notebook = db_list_notes_in_notebook tc, list_starred_notes = db_list_starred_notes tc,
      notebook_sort_profile = db_notebook_sort_profile, note_backlinks = db_note_backlinks tc,
      create_notebook = db_create_notebook, read_notebook = db_read_notebook,
      update_notebook = db_update_notebook, delete_notebook = db_delete_notebook,
      list_notebooks = db_list_notebooks tc,
      create_tag = db_create_tag, read_tag = db_read_tag, update_tag = db_update_tag,
      delete_tag = db_delete_tag, list_tags = db_list_tags tc, add_note_tag = db_add_note_tag,
      remove_note_tag = db_remove_note_tag, list_note_tags = db_list_note_tags tc,
      create_resource = db_create_resource, read_resource = db_read_resource,
      delete_resource = db_delete_resource, list_resources = db_list_resources tc,
      list_resources_for_note = db_list_resources_for_note tc,
      purge_deleted_resources = db_purge_deleted_resources,
      get_changes_since = db_get_changes_since, apply_change = db_apply_change,
      get_last_sync_time = db_get_last_sync_time, update_sync_time = db_update_sync_time,
      send_changes = db_send_changes rm, receive_changes = db_receive_changes rm,
      prune_change_journal = db_prune_change_journal, get_device_id = db_get_device_id,
      note_history = db_note_history rm, notebook_history = db_notebook_history rm\<rparr>"

section \<open>Rows\<close>

lemma rows_of_eq: "rows_of m = map (\<lambda>k. the (fmlookup m k)) (sorted_list_of_fset (fmdom m))"
  by (simp add: rows_of_def sorted_list_of_fmap_def comp_def)

lemma mset_rows_filter:
  "mset (filter P (rows_of m)) =
     image_mset (\<lambda>i. the (fmlookup m i)) (mset_set {i. \<exists>n. fmlookup m i = Some n \<and> P n})"
proof -
  let ?g = "\<lambda>i. the (fmlookup m i)"
  have "mset (filter P (rows_of m)) = image_mset ?g (filter_mset (\<lambda>i. P (?g i)) (mset_set (fset (fmdom m))))"
    by (simp add: rows_of_eq filter_map comp_def sorted_list_of_fset.rep_eq flip: sorted_list_of_mset_set)
  also have "filter_mset (\<lambda>i. P (?g i)) (mset_set (fset (fmdom m))) = mset_set {i \<in> fset (fmdom m). P (?g i)}"
    by simp
  also have "{i \<in> fset (fmdom m). P (?g i)} = {i. \<exists>n. fmlookup m i = Some n \<and> P n}"
    by (auto simp: fmlookup_dom_iff)
  finally show ?thesis .
qed

lemma rows_of_mem: "n \<in> set (rows_of m) \<longleftrightarrow> (\<exists>i. fmlookup m i = Some n)"
proof -
  have "n \<in> set (rows_of m) \<longleftrightarrow> (\<exists>i. i |\<in>| fmdom m \<and> n = the (fmlookup m i))"
    by (auto simp: rows_of_eq sorted_list_of_fset.rep_eq)
  then show ?thesis by (auto simp: fmlookup_dom_iff)
qed

lemma rows_of_distinct: "(\<And>i n. fmlookup m i = Some n \<Longrightarrow> ident n = i) \<Longrightarrow> distinct (map ident (rows_of m))"
  by (auto simp: rows_of_eq distinct_map inj_on_def fmlookup_dom_iff sorted_list_of_fset.rep_eq)

lemma rows_of_fmmap: "rows_of (fmmap f m) = map f (rows_of m)"
  by (auto simp: rows_of_eq sorted_list_of_fset.rep_eq fmlookup_dom_iff)

lemma rows_of_fmempty: "rows_of fmempty = []"
  by (simp add: rows_of_eq sorted_list_of_fset.rep_eq)

lemma ts_text_ok_subset: "ts_text_ok tc T \<Longrightarrow> U \<subseteq> T \<Longrightarrow> ts_text_ok tc U"
  unfolding ts_text_ok_def by (meson monotone_on_subset subsetD)

section \<open>The note repository of the ordering operations\<close>

definition notes_keyed :: "Db \<Rightarrow> bool" where
  "notes_keyed s \<longleftrightarrow> fmpred (\<lambda>i n. n_id n = i) (db_notes s)"

lemma notes_keyedD: "notes_keyed s \<Longrightarrow> fmlookup (db_notes s) i = Some n \<Longrightarrow> n_id n = i"
  by (auto simp: notes_keyed_def fmpred_iff)

lemma effective_key_row: "(if n_sort_key n = 0 then DEFAULT_SORT_KEY else n_sort_key n) = effective_sort_key n"
  by (simp add: effective_sort_key_def)

lemma db_update_note_law:
  assumes "notes_keyed s" "fmlookup (db_notes s) (n_id n) = Some old"
  shows "\<exists>n' s' stored. db_update_note n s = (Inr n', s') \<and> notes_keyed s' \<and> same_but_version n n' \<and>
    same_but_version n stored \<and> db_notes s' = fmupd (n_id n) stored (db_notes s)"
proof -
  let ?n' = "n\<lparr>n_vv := next_local_vv (note_meta s (n_id n)) (db_device_id s), n_last_writer := db_device_id s\<rparr>"
  obtain s' where u: "db_update_note n s = (Inr ?n', s')"
    and s': "db_notes s' = fmupd (n_id n) (?n'\<lparr>n_created_at := n_created_at old\<rparr>) (db_notes s)"
    using assms(2) by (simp add: db_update_note_def transaction_def Let_def)
  have "notes_keyed s'"
    using assms(1) by (auto simp: notes_keyed_def s' fmpred_iff split: if_splits)
  then show ?thesis
    using u s' by (intro exI [of _ ?n'] exI [of _ s'] exI [of _ "?n'\<lparr>n_created_at := n_created_at old\<rparr>"])
      (simp add: same_but_version_def)
qed

lemma db_profile_law:
  "\<exists>keys. db_notebook_sort_profile nb s = (Inr (from_effective_keys keys), s) \<and>
     mset keys = image_mset (key_at (db_notes s)) (mset_set (live_in (db_notes s) nb))"
proof -
  let ?P = "\<lambda>n. n_notebook_id n = nb \<and> n_deleted_at n = None"
  let ?keys = "map effective_sort_key (filter ?P (rows_of (db_notes s)))"
  have live: "{i. \<exists>n. fmlookup (db_notes s) i = Some n \<and> ?P n} = live_in (db_notes s) nb"
    by (auto simp: live_in_def)
  have "mset ?keys = image_mset (\<lambda>i. effective_sort_key (the (fmlookup (db_notes s) i))) (mset_set (live_in (db_notes s) nb))"
    by (simp only: mset_map mset_rows_filter live image_mset.compositionality comp_def)
  also have "\<dots> = image_mset (key_at (db_notes s)) (mset_set (live_in (db_notes s) nb))"
  proof (rule image_mset_cong)
    fix i
    assume "i \<in># mset_set (live_in (db_notes s) nb)"
    then have "i \<in> live_in (db_notes s) nb" by (cases "finite (live_in (db_notes s) nb)") auto
    then show "effective_sort_key (the (fmlookup (db_notes s) i)) = key_at (db_notes s) i"
      by (auto simp: live_in_def key_at_def)
  qed
  finally show ?thesis
    by (intro exI [of _ ?keys]) (simp add: db_notebook_sort_profile_def effective_key_row)
qed

interpretation db_ordering: note_repo "db_backend tc rm" db_notes notes_keyed for tc rm
proof (unfold_locales, goal_cases)
  case (1 s i n)
  then show ?case by (rule notes_keyedD)
next
  case (2 s i)
  show ?case by (simp add: db_backend_def db_read_note_def)
next
  case (3 s n old)
  then show ?case using db_update_note_law by (simp add: db_backend_def)
next
  case (4 s nb)
  show ?case using db_profile_law by (simp add: db_backend_def)
qed

section \<open>The listings as paged listings\<close>

definition text_token :: "string \<times> string \<Rightarrow> string" where
  "text_token k = fst k @ bar # snd k"

definition text_keys_ok :: "(string \<times> string) list \<Rightarrow> bool" where
  "text_keys_ok ks = (distinct ks \<and> list_all (\<lambda>k. fst k \<noteq> [] \<and> bar \<notin> set (fst k)) ks)"

lemma parse_text_token: "fst k \<noteq> [] \<Longrightarrow> bar \<notin> set (fst k) \<Longrightarrow> parse_cursor (Some (text_token k)) = k"
  by (simp add: parse_cursor_def text_token_def split_once_append)

lemma after_cursor_less: "fst c \<noteq> [] \<Longrightarrow> after_cursor c k \<longleftrightarrow> \<not> k \<le> c"
  by (auto simp: after_cursor_def less_eq_prod_def)

lemma build_page_eq:
  assumes "0 < n"
  shows "build_page (take (n + 1) S) n f = (take n S, if n < length S then Some (f (S ! (n - 1))) else None)"
proof (cases "n < length S")
  case True
  then have "last (take n S) = S ! (n - 1)" "take n S \<noteq> []" using assms by (auto simp: take_Suc_last)
  with True show ?thesis by (simp add: build_page_def Let_def min_def)
next
  case False
  then show ?thesis by (simp add: build_page_def)
qed

lemma sql_page_eq:
  "sql_page n token key rows =
    (let S = sort_key key (filter (\<lambda>r. after_cursor (parse_cursor token) (key r)) rows);
         l = unat (effective_page_size n)
     in (take l S, if l < length S then Some (text_token (key (S ! (l - 1)))) else None))"
  using effective_page_size_bounds(1) [of n]
  by (simp add: sql_page_def Let_def build_page_eq text_token_def del: One_nat_def)

interpretation sql: pager "\<lambda>(n, key, rows) token. sql_page n token key rows"
  "\<lambda>(n, key, rows). sort_key key rows" "\<lambda>(n, key, rows). unat (effective_page_size n)"
  "\<lambda>(n, key, rows) p. text_token (key (sort_key key rows ! (p - 1)))"
  "\<lambda>(n, key, rows). text_keys_ok (map key rows)"
proof (unfold_locales, goal_cases)
  case (1 s)
  show ?case using effective_page_size_bounds(1) by (cases s) (simp add: Suc_le_eq)
next
  case (2 s)
  show ?case by (cases s) (simp add: sql_page_eq parse_cursor_def after_cursor_def Let_def)
next
  case (3 s p)
  obtain n key rows where s: "s = (n, key, rows)" by (cases s)
  let ?S = "sort_key key rows" and ?l = "unat (effective_page_size n)"
  let ?k = "key (?S ! (p - 1))"
  have ok: "distinct (map key rows)" "list_all (\<lambda>r. fst (key r) \<noteq> [] \<and> bar \<notin> set (fst (key r))) rows"
    using 3(1) s by (simp_all add: text_keys_ok_def list_all_iff)
  have p: "0 < p" "p < length ?S" using 3 s by simp_all
  have "?S ! (p - 1) \<in> set rows" using p nth_mem [of "p - 1" ?S] by simp
  then have k: "fst ?k \<noteq> []" "bar \<notin> set (fst ?k)" using ok(2) by (auto simp: list_all_iff)
  have dS: "sorted (map key ?S)" "distinct (map key ?S)"
    using ok(1) by (simp_all add: distinct_map inj_on_def)
  have "sort_key key (filter (\<lambda>r. \<not> key r \<le> ?k) rows) = drop p ?S"
    unfolding filter_sort [symmetric] using filter_after [OF dS p(1)] p(2) by simp
  moreover from arg_cong [OF this, of length]
  have "length (filter (\<lambda>r. \<not> key r \<le> ?k) rows) = length rows - p" by simp
  ultimately show ?case
    using p effective_page_size_bounds(1) [of n]
    by (auto simp: s sql_page_eq parse_text_token [OF k] after_cursor_less [OF k(1)] Let_def algebra_simps
        simp del: One_nat_def)
qed

lemma created_key_ok:
  assumes "ts_text_ok tc T" "uuid_text_ok (uuid_text.truncate tc)"
  shows "t \<in> T \<Longrightarrow> t' \<in> T \<Longrightarrow> created_key tc t i = created_key tc t' i' \<longleftrightarrow> t = t' \<and> i = i'"
    and "t \<in> T \<Longrightarrow> t' \<in> T \<Longrightarrow> fst (created_key tc t i) \<le> fst (created_key tc t' i') \<longleftrightarrow> t \<le> t'"
proof -
  have inj: "show_uuid tc i = show_uuid tc i' \<longleftrightarrow> i = i'" for i i'
    using assms(2) by (auto simp: uuid_text_ok_def uuid_text.truncate_def) (metis option.inject)
  have mono: "show_ts tc t < show_ts tc t'" if "t < t'" "t \<in> T" "t' \<in> T" for t t'
    using assms(1) that by (auto simp: ts_text_ok_def strict_mono_on_def)
  show "created_key tc t i = created_key tc t' i' \<longleftrightarrow> t = t' \<and> i = i'" if "t \<in> T" "t' \<in> T"
    using mono [of t t'] mono [of t' t] inj that by (cases t t' rule: linorder_cases) (auto simp: created_key_def)
  show "fst (created_key tc t i) \<le> fst (created_key tc t' i') \<longleftrightarrow> t \<le> t'" if "t \<in> T" "t' \<in> T"
    using mono [of t t'] mono [of t' t] that by (cases t t' rule: linorder_cases) (auto simp: created_key_def)
qed

text \<open>A listing ordered by creation time, of rows with distinct identifiers.\<close>

lemma created_walk:
  assumes "ts_text_ok tc (created ` set rows)" and "uuid_text_ok (uuid_text.truncate tc)"
    and "distinct (map ident rows)" and "length rows \<le> Suc fuel * unat (effective_page_size n)"
  defines "key \<equiv> \<lambda>r. created_key tc (created r) (ident r)"
  shows "walk_pages (Suc fuel) (\<lambda>t. sql_page n t key rows) None = Some (sort_key key rows)"
    and "sorted (map created (sort_key key rows))"
proof -
  note ck = created_key_ok [OF assms(1,2)]
  have "distinct (map key rows)"
    using ck(1) assms(3) by (auto simp: distinct_map inj_on_def key_def)
  then have ok: "text_keys_ok (map key rows)"
    using assms(1) by (auto simp: text_keys_ok_def list_all_iff ts_text_ok_def created_key_def key_def)
  then show "walk_pages (Suc fuel) (\<lambda>t. sql_page n t key rows) None = Some (sort_key key rows)"
    using sql.walk_complete [of "(n, key, rows)" fuel] assms(4) by (simp del: walk_pages.simps)
  have "sorted (map key (sort_key key rows))" by simp
  then have "sorted_wrt (\<lambda>a b. key a \<le> key b) (sort_key key rows)" by (simp only: sorted_map)
  then have "sorted_wrt (\<lambda>a b. created a \<le> created b) (sort_key key rows)"
  proof (rule sorted_wrt_mono_rel [rotated])
    fix a b
    assume "a \<in> set (sort_key key rows)" "b \<in> set (sort_key key rows)" "key a \<le> key b"
    then have "fst (key a) \<le> fst (key b)" "created a \<in> created ` set rows" "created b \<in> created ` set rows"
      by (auto simp: less_eq_prod_def)
    then show "created a \<le> created b" using ck(2) by (auto simp: key_def)
  qed
  then show "sorted (map created (sort_key key rows))" by (simp only: sorted_map)
qed

section \<open>Properties\<close>

text \<open>
  C12. Pinning a live, unpinned note of an ordinary notebook of the SQL backend gives it the lowest
  key of the pinned band that no live note of the notebook uses and changes no other note; when all
  999 keys are used it reports a conflict and changes nothing.
\<close>

theorem db_pin_note:
  assumes "notes_keyed s" "fmlookup (db_notes s) i = Some n" "n_deleted_at n = None"
    and "\<not> is_inbox (n_notebook_id n)" "\<not> n_is_pinned n"
    and "used = key_at (db_notes s) ` live_in (db_notes s) (n_notebook_id n)"
  shows "(\<exists>n' s' stored key. pin_note (db_backend tc rm) i s = (Inr n', s') \<and> notes_keyed s' \<and>
      pinned_band key \<and> key \<notin> used \<and> (\<forall>j. 1 \<le> j \<longrightarrow> j < key \<longrightarrow> j \<in> used) \<and>
      db_notes s' = fmupd i stored (db_notes s) \<and>
      same_but_version (n\<lparr>n_is_pinned := True, n_sort_key := key\<rparr>) stored \<and>
      same_but_version (n\<lparr>n_is_pinned := True, n_sort_key := key\<rparr>) n') \<or>
    (pin_note (db_backend tc rm) i s = (Inl Conflict, s) \<and> (\<forall>k. pinned_band k \<longrightarrow> k \<in> used))"
  unfolding assms(6) by (rule db_ordering.pin_note_result [OF assms(1-5)])

text \<open>
  An instance of the text forms: identifiers in unary, and the timestamps from 1 on in unary with
  another letter. It stands for the crates' renderings in the witnesses only.
\<close>

definition unary_codec :: text_codec where
  "unary_codec = uuid_text.extend unary_text \<lparr>show_ts = (\<lambda>t. replicate (nat t) CHR ''a'')\<rparr>"

lemma unary_codec_ok: "uuid_text_ok (uuid_text.truncate unary_codec)"
  by (simp add: unary_codec_def uuid_text.truncate_def uuid_text.extend_def uuid_text_ok_def unary_text_def)

definition nb_note :: Note where
  "nb_note = sample_note\<lparr>n_notebook_id := 5\<rparr>"

definition db_nb :: Db where
  "db_nb = (empty_db ''A'')\<lparr>db_notes := fmap_of_list [(7, nb_note)]\<rparr>"

lemma db_nb_facts:
  "notes_keyed db_nb" "fmlookup (db_notes db_nb) 7 = Some nb_note" "n_deleted_at nb_note = None"
  "\<not> is_inbox (n_notebook_id nb_note)" "\<not> n_is_pinned nb_note"
  by (auto simp: notes_keyed_def db_nb_def nb_note_def sample_note_def new_note_def fmpred_iff
      is_inbox_def INBOX_ID_def uuid_nil_def split: if_splits)

theorem db_pin_note_witness:
  "\<exists>n' s' key. pin_note (db_backend unary_codec offline) 7 db_nb = (Inr n', s') \<and> pinned_band key \<and>
     n_is_pinned n' \<and> n_sort_key n' = key"
proof -
  have "key_at (db_notes db_nb) ` live_in (db_notes db_nb) (n_notebook_id nb_note) \<subseteq> {1000}"
    by (auto simp: live_in_def key_at_def db_nb_def nb_note_def sample_note_def new_note_def
        effective_sort_key_def DEFAULT_SORT_KEY_def split: if_splits)
  moreover have "pinned_band 1" by (simp add: pinned_band_def)
  ultimately have free: "1 \<notin> key_at (db_notes db_nb) ` live_in (db_notes db_nb) (n_notebook_id nb_note)"
      "pinned_band 1" by auto
  from db_pin_note [OF db_nb_facts refl, of unary_codec offline] free show ?thesis
    by (elim disjE exE conjE) (auto dest: same_but_versionD)
qed

text \<open>
  Unpinning moves a note of the SQL backend into the normal band, not before any live note of its
  notebook outside the pinned band, and changes no other note.
\<close>

theorem db_unpin_note:
  assumes "notes_keyed s" "fmlookup (db_notes s) i = Some n" "n_deleted_at n = None" "n_is_pinned n"
    and "used = key_at (db_notes s) ` live_in (db_notes s) (n_notebook_id n)"
  shows "\<exists>n' s' stored key. unpin_note (db_backend tc rm) i s = (Inr n', s') \<and> notes_keyed s' \<and>
      (\<forall>k\<in>used. k \<le> key \<or> pinned_band k) \<and> NORMAL_START \<le> key \<and>
      db_notes s' = fmupd i stored (db_notes s) \<and>
      same_but_version (n\<lparr>n_is_pinned := False, n_sort_key := key\<rparr>) stored"
  unfolding assms(5) by (rule db_ordering.unpin_note_result [OF assms(1-4)])

theorem db_unpin_note_witness:
  "\<exists>n' s'. unpin_note (db_backend unary_codec offline) 7 (db_nb\<lparr>db_notes := fmap_of_list [(7, nb_note\<lparr>n_is_pinned := True, n_sort_key := 3\<rparr>)]\<rparr>) = (Inr n', s')"
proof -
  let ?n = "nb_note\<lparr>n_is_pinned := True, n_sort_key := 3\<rparr>"
  let ?s = "db_nb\<lparr>db_notes := fmap_of_list [(7, ?n)]\<rparr>"
  have "notes_keyed ?s" "fmlookup (db_notes ?s) 7 = Some ?n" "n_deleted_at ?n = None" "n_is_pinned ?n"
    by (auto simp: notes_keyed_def fmpred_iff nb_note_def sample_note_def new_note_def split: if_splits)
  from db_unpin_note [OF this refl, of unary_codec offline] show ?thesis by blast
qed

text \<open>
  Reordering a note of the SQL backend succeeds exactly for keys in the note's band (at least 1
  in the Inbox, 1 to 999 for a pinned note, at least 1000 otherwise), sets that key, and otherwise
  changes nothing.
\<close>

theorem db_reorder_note:
  assumes "notes_keyed s" "fmlookup (db_notes s) i = Some n" "n_deleted_at n = None"
  shows "if in_band n key then
      \<exists>n' s' stored. reorder_note (db_backend tc rm) i key s = (Inr n', s') \<and> notes_keyed s' \<and>
        db_notes s' = fmupd i stored (db_notes s) \<and> same_but_version (n\<lparr>n_sort_key := key\<rparr>) stored
    else reorder_note (db_backend tc rm) i key s = (Inl InvalidInput, s)"
  by (rule db_ordering.reorder_note_result [OF assms])

theorem db_reorder_note_witness:
  "reorder_note (db_backend unary_codec offline) 7 5 db_nb = (Inl InvalidInput, db_nb)"
  using db_reorder_note [OF db_nb_facts(1-3), of 5] db_nb_facts(4,5)
  by (simp add: in_band_def NORMAL_START_def DEFAULT_SORT_KEY_def)

text \<open>
  Paging through the notes of the SQL backend lists every live note exactly once, ordered by
  creation time, for any page size, given a timestamp text that is monotone on the creation times.
\<close>

theorem db_list_notes_complete:
  assumes "ts_text_ok tc (n_created_at ` set (rows_of (db_notes s)))" and "uuid_text_ok (uuid_text.truncate tc)"
    and "notes_keyed s"
    and "length (rows_of (db_notes s)) \<le> Suc fuel * unat (effective_page_size n)"
  shows "\<exists>items. walk_pages (Suc fuel) (\<lambda>t. projr (fst (list_notes (db_backend tc rm) n t s))) None = Some items \<and>
    mset items = filter_mset (\<lambda>n. n_deleted_at n = None) (mset (rows_of (db_notes s))) \<and>
    sorted (map n_created_at items)"
proof -
  let ?key = "\<lambda>n. created_key tc (n_created_at n) (n_id n)"
  let ?rows = "filter (\<lambda>n. n_deleted_at n = None) (rows_of (db_notes s))"
  have "distinct (map n_id (rows_of (db_notes s)))"
    using rows_of_distinct [of "db_notes s" n_id] notes_keyedD [OF assms(3)] by blast
  then have dist: "distinct (map n_id ?rows)" by (rule distinct_map_filter)
  have ok: "ts_text_ok tc (n_created_at ` set ?rows)"
    by (rule ts_text_ok_subset [OF assms(1)]) auto
  note walk = created_walk [OF ok assms(2) dist le_trans [OF length_filter_le assms(4)]]
  have "mset (sort_key ?key ?rows) = filter_mset (\<lambda>n. n_deleted_at n = None) (mset (rows_of (db_notes s)))" by simp
  with walk show ?thesis
    by (intro exI [of _ "sort_key ?key ?rows"]) (simp add: db_backend_def db_list_notes_def del: walk_pages.simps)
qed

theorem db_list_notes_complete_witness:
  "\<exists>items. walk_pages (Suc 0) (\<lambda>t. projr (fst (list_notes (db_backend unary_codec offline) 0 t db_nb))) None = Some items \<and>
    mset items = filter_mset (\<lambda>n. n_deleted_at n = None) (mset (rows_of (db_notes db_nb))) \<and>
    sorted (map n_created_at items)"
proof (rule db_list_notes_complete)
  have rows: "rows_of (db_notes db_nb) = [nb_note]"
    by (simp add: rows_of_eq db_nb_def sorted_list_of_fset.rep_eq)
  show "ts_text_ok unary_codec (n_created_at ` set (rows_of (db_notes db_nb)))"
    by (simp add: rows ts_text_ok_def strict_mono_on_def unary_codec_def uuid_text.extend_def nb_note_def
        sample_note_def new_note_def bar_def)
  show "length (rows_of (db_notes db_nb)) \<le> Suc 0 * unat (effective_page_size 0)"
    by (simp add: rows effective_page_size_def DEFAULT_PAGE_SIZE_def)
qed (rule unary_codec_ok, rule db_nb_facts)

end
