(* ===== verification/Db_Resequence.thy ===== *)
theory Db_Resequence
  imports Db_Backend
begin

text \<open>
  Resequencing the Inbox on the SQL backend. The walk of \<open>resequence_inbox\<close> pages by sort key
  while it rewrites the sort keys of the notes it has visited, to larger ones. With more notes than
  one page the notes it has renumbered come back on later pages, so the walk does not end while the
  counter can still grow.
\<close>

definition inbox :: "Db \<Rightarrow> uuid set" where
  "inbox s = live_in (db_notes s) INBOX_ID"

definition note_at :: "Db \<Rightarrow> uuid \<Rightarrow> Note" where
  "note_at s i = the (fmlookup (db_notes s) i)"

lemma inbox_note: "i \<in> inbox s \<Longrightarrow> fmlookup (db_notes s) i = Some (note_at s i)"
  by (auto simp: inbox_def live_in_def note_at_def)

lemma finite_inbox [simp]: "finite (inbox s)"
  unfolding inbox_def by (rule db_ordering.finite_live_in)

lemma cast_integer_show [simp]: "cast_integer (show_nat n) = n"
proof -
  have "takeWhile is_digit (show_nat n) = show_nat n"
    using show_nat_digits [of n] by (simp add: takeWhile_eq_all_conv list_all_iff)
  then show ?thesis by (simp add: cast_integer_def del: takeWhile_eq_all_conv)
qed

lemma bar_not_in_show: "bar \<notin> set (show_nat n)"
  by (rule show_nat_not_in) (simp add: is_digit_def bar_def)

definition pos_token :: "'c text_codec_scheme \<Rightarrow> Note \<Rightarrow> string" where
  "pos_token tc n = show_nat (unat (effective_sort_key n)) @ bar # show_uuid tc (n_id n)"

text \<open>The page after a token, as the page after a position.\<close>

definition beyond :: "(nat \<times> string) option \<Rightarrow> nat \<times> string \<Rightarrow> bool" where
  "beyond c p = (case c of None \<Rightarrow> True | Some q \<Rightarrow> \<not> p \<le> q)"

definition inbox_after :: "'c text_codec_scheme \<Rightarrow> (nat \<times> string) option \<Rightarrow> Db \<Rightarrow> Note list" where
  "inbox_after tc c s = sort_key (sort_pos tc) (filter (\<lambda>n. n_notebook_id n = INBOX_ID \<and>
     n_deleted_at n = None \<and> beyond c (sort_pos tc n)) (rows_of (db_notes s)))"

lemma list_inbox:
  assumes "token = map_option (pos_token tc) c"
  shows "db_list_notes_in_notebook tc INBOX_ID 0 token s =
    (let S = inbox_after tc (map_option (sort_pos tc) c) s
     in (Inr (take 100 S, if 100 < length S then Some (pos_token tc (S ! 99)) else None), s))"
proof -
  have cur: "parse_cursor token = (case c of None \<Rightarrow> ([], []) | Some n \<Rightarrow>
      (show_nat (unat (effective_sort_key n)), show_uuid tc (n_id n)))"
    unfolding assms by (cases c) (auto simp: parse_cursor_def pos_token_def split_once_append bar_not_in_show)
  have lim: "unat (effective_page_size 0) = 100" by (simp add: effective_page_size_def DEFAULT_PAGE_SIZE_def)
  have b: "(fst (parse_cursor token) = [] \<or> cast_integer (fst (parse_cursor token)) < unat (effective_sort_key n) \<or>
      unat (effective_sort_key n) = cast_integer (fst (parse_cursor token)) \<and>
        snd (parse_cursor token) < show_uuid tc (n_id n)) \<longleftrightarrow> beyond (map_option (sort_pos tc) c) (sort_pos tc n)" for n
    by (cases c) (auto simp: cur beyond_def sort_pos_def less_eq_prod_def)
  show ?thesis
    using build_page_eq [of 100 "inbox_after tc (map_option (sort_pos tc) c) s" "pos_token tc"]
    unfolding db_list_notes_in_notebook_def Let_def lim case_prod_beta b inbox_after_def [symmetric] pos_token_def [symmetric]
    by simp
qed

lemma inbox_after_set:
  assumes "notes_keyed s"
  shows "set (inbox_after tc c s) = note_at s ` {i \<in> inbox s. beyond c (sort_pos tc (note_at s i))}"
proof -
  have "n \<in> set (inbox_after tc c s) \<longleftrightarrow> (\<exists>i. fmlookup (db_notes s) i = Some n \<and> n_notebook_id n = INBOX_ID \<and>
      n_deleted_at n = None \<and> beyond c (sort_pos tc n))" for n
    by (auto simp: inbox_after_def rows_of_mem)
  then show ?thesis
    by (auto simp: inbox_def live_in_def note_at_def image_iff) (metis option.sel)
qed

lemma inbox_after_length:
  "length (inbox_after tc c s) = card {i \<in> inbox s. beyond c (sort_pos tc (note_at s i))}"
proof -
  let ?P = "\<lambda>n. n_notebook_id n = INBOX_ID \<and> n_deleted_at n = None \<and> beyond c (sort_pos tc n)"
  have "length (inbox_after tc c s) = size (mset (filter ?P (rows_of (db_notes s))))"
    by (simp add: inbox_after_def del: mset_filter)
  also have "\<dots> = card {i. \<exists>n. fmlookup (db_notes s) i = Some n \<and> ?P n}"
    by (simp only: mset_rows_filter size_image_mset size_mset_set)
  also have "{i. \<exists>n. fmlookup (db_notes s) i = Some n \<and> ?P n} = {i \<in> inbox s. beyond c (sort_pos tc (note_at s i))}"
    by (auto simp: inbox_def live_in_def note_at_def)
  finally show ?thesis .
qed

lemma inbox_after_distinct:
  assumes "notes_keyed s"
  shows "distinct (map n_id (inbox_after tc c s))"
proof -
  have "distinct (map n_id (rows_of (db_notes s)))"
    unfolding rows_of_eq map_map
    using notes_keyedD [OF assms] by (auto simp: distinct_map inj_on_def fmlookup_dom_iff sorted_list_of_fset.rep_eq)
  then have "distinct (map n_id (filter P (rows_of (db_notes s))))" for P by (rule distinct_map_filter)
  then show ?thesis by (simp add: inbox_after_def distinct_map inj_on_def)
qed

section \<open>One page\<close>

lemma saturating_step:
  "unat k + 1000 < 2 ^ 32 \<Longrightarrow> unat (saturating_add k RESEQUENCE_STEP) = unat k + 1000"
  by (simp add: unat_saturating_add RESEQUENCE_STEP_def)

text \<open>What a page leaves: the same notes in the Inbox, the visited ones with larger keys.\<close>

definition renumbered :: "Note list \<Rightarrow> nat \<Rightarrow> nat \<Rightarrow> Db \<Rightarrow> Db \<Rightarrow> bool" where
  "renumbered ns lo hi s s' \<longleftrightarrow> notes_keyed s' \<and> inbox s' = inbox s \<and>
     (\<forall>i. i \<notin> n_id ` set ns \<longrightarrow> fmlookup (db_notes s') i = fmlookup (db_notes s) i) \<and>
     (\<forall>n\<in>set ns. lo \<le> unat (effective_sort_key (note_at s' (n_id n))) \<and>
        unat (effective_sort_key (note_at s' (n_id n))) < hi)"

lemma effective_key_set: "0 < k \<Longrightarrow> effective_sort_key (n\<lparr>n_sort_key := k\<rparr>) = k"
  by (auto simp: effective_sort_key_def)

lemma inbox_update:
  assumes "fmlookup (db_notes s) i = Some n" "n_deleted_at m = n_deleted_at n" "n_notebook_id m = n_notebook_id n"
    and "db_notes s' = fmupd i m (db_notes s)"
  shows "inbox s' = inbox s"
  using assms by (auto simp: inbox_def live_in_def)

lemma resequence_page_renumbers:
  assumes "notes_keyed s" "distinct (map n_id ns)"
    and "\<forall>n\<in>set ns. fmlookup (db_notes s) (n_id n) = Some n \<and> unat (effective_sort_key n) < unat k"
    and "unat k + 1000 * length ns < 2 ^ 32" "0 < k"
  shows "\<exists>k' s'. resequence_page (db_backend tc rm) ns k s = (Inr k', s') \<and>
    unat k' = unat k + 1000 * length ns \<and> renumbered ns (unat k) (unat k') s s'"
  using assms
proof (induction ns arbitrary: k s)
  case Nil
  then show ?case by (simp add: renumbered_def)
next
  case (Cons n ns)
  let ?m = "n\<lparr>n_sort_key := k\<rparr>" and ?k = "saturating_add k RESEQUENCE_STEP"
  have n: "fmlookup (db_notes s) (n_id ?m) = Some n" "effective_sort_key n \<noteq> k"
    using Cons.prems(3) by auto
  from db_update_note_law [OF Cons.prems(1) n(1)] obtain n' s1 stored where
    u: "db_update_note ?m s = (Inr n', s1)" "notes_keyed s1" "same_but_version ?m stored"
    "db_notes s1 = fmupd (n_id ?m) stored (db_notes s)" by blast
  note st = same_but_versionD [OF u(3)]
  have k: "unat ?k = unat k + 1000" using Cons.prems(4) by (intro saturating_step) simp
  have kpos: "0 < ?k" using k by (simp add: word_less_nat_alt)
  have rest: "\<forall>x\<in>set ns. fmlookup (db_notes s1) (n_id x) = Some x \<and> unat (effective_sort_key x) < unat ?k"
    using Cons.prems(2,3) u(4) k by fastforce
  have "distinct (map n_id ns)" "unat ?k + 1000 * length ns < 2 ^ 32"
    using Cons.prems(2,4) k by simp_all
  from Cons.IH [OF u(2) this(1) rest this(2) kpos] obtain k' s' where
    r: "resequence_page (db_backend tc rm) ns ?k s1 = (Inr k', s')"
      "unat k' = unat ?k + 1000 * length ns" "renumbered ns (unat ?k) (unat k') s1 s'" by blast
  have page: "resequence_page (db_backend tc rm) (n # ns) k s = (Inr k', s')"
    using n(2) u(1) r(1) by (simp add: db_backend_def)
  have "inbox s1 = inbox s"
    using inbox_update [of s "n_id n" n stored s1] n(1) u(4) st by simp
  moreover have "note_at s' (n_id n) = stored"
    using r(3) Cons.prems(2) u(4) by (auto simp: renumbered_def note_at_def)
  moreover have "effective_sort_key stored = k"
    using st Cons.prems(5) by (auto simp: effective_sort_key_def)
  ultimately have "renumbered (n # ns) (unat k) (unat k') s s'"
    using r(2,3) u(4) k by (auto simp: renumbered_def)
  with page r(2) k show ?case by (intro exI [of _ k'] exI [of _ s']) simp
qed

section \<open>The walk\<close>

text \<open>
  The state of the walk before a page: every live note of the Inbox lies beyond the cursor and below
  the counter.
\<close>

definition walk_inv :: "'c text_codec_scheme \<Rightarrow> Note option \<Rightarrow> u32 \<Rightarrow> Db \<Rightarrow> bool" where
  "walk_inv tc c k s \<longleftrightarrow> notes_keyed s \<and> 100 < card (inbox s) \<and> 0 < k \<and>
     (\<forall>i\<in>inbox s. unat (effective_sort_key (note_at s i)) < unat k \<and>
        beyond (map_option (sort_pos tc) c) (sort_pos tc (note_at s i)))"

lemma walk_inv_after:
  assumes "renumbered (take 100 S) (unat k) (unat k') s s'" "unat k' = unat k + 100000"
    and inv: "notes_keyed s" "100 < card (inbox s)" "0 < k"
    and row: "\<And>n. n \<in> set S \<Longrightarrow>
      fmlookup (db_notes s) (n_id n) = Some n \<and> n_id n \<in> inbox s \<and> unat (effective_sort_key n) < unat k"
    and setS: "set S = note_at s ` inbox s" and lenS: "length S = card (inbox s)" and dS: "distinct (map n_id S)"
    and sorted: "sorted (map (sort_pos tc) S)" and ut: "uuid_text_ok (uuid_text.truncate tc)"
  shows "walk_inv tc (Some (S ! 99)) k' s'"
proof -
  have uinj: "inj (show_uuid tc)"
    using ut by (metis injI option.inject uuid_text_ok_def uuid_text.truncate_def uuid_text.select_convs)
  have dpos: "distinct (map (sort_pos tc) S)"
    using dS uinj by (auto simp: distinct_map inj_on_def sort_pos_def)
  have q: "S ! 99 \<in> set S" using lenS inv(2) by simp
  have p100: "0 < (100 :: nat)" "100 \<le> length S" using lenS inv(2) by simp_all
  note ren = assms(1) [unfolded renumbered_def]
  have step: "unat (effective_sort_key (note_at s' i)) < unat k' \<and>
      \<not> sort_pos tc (note_at s' i) \<le> sort_pos tc (S ! 99)" if i: "i \<in> inbox s" for i
  proof -
    let ?n = "note_at s i"
    from i setS have n: "?n \<in> set S" by auto
    have nid: "n_id ?n = i" using inbox_note [OF i] notes_keyedD [OF inv(1)] by simp
    from n have "?n \<in> set (take 100 S) \<or> ?n \<in> set (drop 100 S)"
      by (metis Un_iff append_take_drop_id set_append)
    then show ?thesis
    proof
      assume "?n \<in> set (take 100 S)"
      then have "unat k \<le> unat (effective_sort_key (note_at s' i))" "unat (effective_sort_key (note_at s' i)) < unat k'"
        using ren nid by auto
      then show ?thesis using row [OF q] by (auto simp: sort_pos_def less_eq_prod_def)
    next
      assume d: "?n \<in> set (drop 100 S)"
      have "distinct (map n_id (take 100 S) @ map n_id (drop 100 S))"
        using dS by (metis append_take_drop_id map_append)
      with d nid have "i \<notin> n_id ` set (take 100 S)" by force
      with ren have same: "note_at s' i = ?n" by (simp add: note_at_def)
      have "sort_pos tc (S ! 99) < sort_pos tc ?n"
        using strict_sorted_split(2) [OF sorted dpos p100] d by simp
      then show ?thesis using same row [OF n] assms(2) by auto
    qed
  qed
  have "0 < k'" using assms(2) inv(3) by (simp add: word_less_nat_alt)
  with step ren inv(2) show ?thesis by (auto simp: walk_inv_def beyond_def)
qed

lemma walk_step:
  assumes "walk_inv tc c k s" "uuid_text_ok (uuid_text.truncate tc)" "unat k + 100000 < 2 ^ 32"
    and S: "S = inbox_after tc (map_option (sort_pos tc) c) s"
  shows "100 < length S \<and> (\<exists>k' s'. resequence_page (db_backend tc rm) (take 100 S) k s = (Inr k', s') \<and>
    unat k' = unat k + 100000 \<and> walk_inv tc (Some (S ! 99)) k' s')"
proof -
  have inv: "notes_keyed s" "100 < card (inbox s)" "0 < k"
    and ib: "\<And>i. i \<in> inbox s \<Longrightarrow> unat (effective_sort_key (note_at s i)) < unat k \<and>
        beyond (map_option (sort_pos tc) c) (sort_pos tc (note_at s i))"
    using assms(1) by (auto simp: walk_inv_def)
  have all: "{i \<in> inbox s. beyond (map_option (sort_pos tc) c) (sort_pos tc (note_at s i))} = inbox s"
    using ib by auto
  have setS: "set S = note_at s ` inbox s" and lenS: "length S = card (inbox s)"
    unfolding S inbox_after_set [OF inv(1)] inbox_after_length all by simp_all
  have dS: "distinct (map n_id S)" unfolding S by (rule inbox_after_distinct [OF inv(1)])
  have row: "fmlookup (db_notes s) (n_id n) = Some n \<and> n_id n \<in> inbox s \<and> unat (effective_sort_key n) < unat k"
    if "n \<in> set S" for n
  proof -
    from that setS obtain i where i: "i \<in> inbox s" "n = note_at s i" by auto
    with inbox_note [OF i(1)] have "n_id n = i" using notes_keyedD [OF inv(1)] by simp
    with i inbox_note [OF i(1)] ib show ?thesis by simp
  qed
  have dP: "distinct (map n_id (take 100 S))" using dS by (simp add: take_map [symmetric])
  have "\<forall>n\<in>set (take 100 S). fmlookup (db_notes s) (n_id n) = Some n \<and> unat (effective_sort_key n) < unat k"
    using row by (meson in_set_takeD)
  moreover have "length (take 100 S) = 100" using lenS inv(2) by simp
  moreover from this have "unat k + 1000 * length (take 100 S) < 2 ^ 32" using assms(3) by simp
  ultimately obtain k' s' where
    r: "resequence_page (db_backend tc rm) (take 100 S) k s = (Inr k', s')" "unat k' = unat k + 100000"
      "renumbered (take 100 S) (unat k) (unat k') s s'"
    using resequence_page_renumbers [OF inv(1) dP _ _ inv(3), of tc rm] by auto
  have "walk_inv tc (Some (S ! 99)) k' s'"
    by (rule walk_inv_after [OF r(3) r(2) inv(1-3) row setS lenS dS _ assms(2)]) (simp_all add: S inbox_after_def)
  with r lenS inv(2) show ?thesis by auto
qed

lemma walk_does_not_end:
  assumes "walk_inv tc c k s" "uuid_text_ok (uuid_text.truncate tc)" "unat k + 100000 * fuel < 2 ^ 32"
  shows "resequence_loop fuel (db_backend tc rm) (map_option (pos_token tc) c) k s = None"
  using assms(1,3)
proof (induction fuel arbitrary: c k s)
  case (Suc fuel)
  let ?S = "inbox_after tc (map_option (sort_pos tc) c) s"
  have "unat k + 100000 < 2 ^ 32" using Suc.prems(2) by simp
  from walk_step [OF Suc.prems(1) assms(2) this refl] obtain k' s' where
    w: "100 < length ?S" "resequence_page (db_backend tc rm) (take 100 ?S) k s = (Inr k', s')"
    "unat k' = unat k + 100000" "walk_inv tc (Some (?S ! 99)) k' s'" by blast
  have "resequence_loop fuel (db_backend tc rm) (map_option (pos_token tc) (Some (?S ! 99))) k' s' = None"
    using w Suc.prems(2) by (intro Suc.IH) simp_all
  moreover have "list_notes_in_notebook (db_backend tc rm) INBOX_ID 0 (map_option (pos_token tc) c) s =
      (Inr (take 100 ?S, Some (pos_token tc (?S ! 99))), s)"
    using list_inbox [OF refl, of tc c s] w(1) by (simp add: db_backend_def Let_def)
  ultimately show ?case using w(2) by simp
qed simp

text \<open>An Inbox of 101 notes, all at key 1.\<close>

definition crowded_note :: "nat \<Rightarrow> Note" where
  "crowded_note j = sample_note\<lparr>n_id := of_nat j, n_sort_key := 1\<rparr>"

definition crowded_db :: Db where
  "crowded_db = (empty_db ''A'')\<lparr>db_notes := fmap_of_list (map (\<lambda>j. (of_nat j, crowded_note j)) [1..<102])\<rparr>"

lemma of_nat_uuid: "j < 102 \<Longrightarrow> unat (of_nat j :: uuid) = j"
  by (simp add: unsigned_of_nat take_bit_nat_eq_self_iff)

lemma crowded_lookup:
  "fmlookup (db_notes crowded_db) i = Some n \<longleftrightarrow> (\<exists>j\<in>{1..<102}. i = of_nat j \<and> n = crowded_note j)"
proof -
  have "distinct (map fst (map (\<lambda>j. (of_nat j :: uuid, crowded_note j)) [1..<102]))"
    using of_nat_uuid by (auto simp: comp_def distinct_map inj_on_def) (metis of_nat_uuid)
  then show ?thesis
    unfolding crowded_db_def by (auto simp: fmap_of_list.rep_eq map_of_eq_Some_iff simp del: upt_rec_numeral)
qed

lemma crowded_live: "live_in (db_notes crowded_db) INBOX_ID = of_nat ` {1..<102 :: nat}"
  by (auto simp: live_in_def crowded_lookup crowded_note_def sample_note_def new_note_def INBOX_ID_def)

lemma crowded_card: "card (live_in (db_notes crowded_db) INBOX_ID) = 101"
proof -
  have "inj_on (of_nat :: nat \<Rightarrow> uuid) {1..<102}"
    using of_nat_uuid by (intro inj_onI) (metis atLeastLessThan_iff)
  then show ?thesis by (simp add: crowded_live card_image)
qed

section \<open>Properties\<close>



end
