(* ===== verification/Sync_Engine.thy ===== *)
theory Sync_Engine
  imports Db_Backend
begin

text \<open>
  One synchronisation round, \<open>keeplin-core/src/sync/engine.rs\<close>: over any backend, and its effect on
  the SQL backend. The progress callback is a log of its calls; a \<open>SyncError\<close> is the storage error
  it wraps; \<open>sync_ts\<close> is the reading of the clock at the start of the round.
\<close>

datatype SyncStage = Collecting | Sending | Receiving | Applying | Done

type_synonym 's reporting = "'s \<times> (SyncStage \<times> nat) list"

definition report :: "SyncStage \<Rightarrow> nat \<Rightarrow> 's reporting \<Rightarrow> 's reporting" where
  "report stage n st = (fst st, snd st @ [(stage, n)])"

definition on_store :: "('a, 's) act \<Rightarrow> ('a, 's reporting) act" where
  "on_store act st = (let (r, s) = act (fst st) in (r, (s, snd st)))"

fun apply_all :: "'s backend \<Rightarrow> Change list \<Rightarrow> (unit, 's reporting) act" where
  "apply_all be [] st = (Inr (), st)"
| "apply_all be (c # cs) st = and_then (on_store (apply_change be c) st) (\<lambda>_ st. apply_all be cs st)"

definition run_sync :: "'s backend \<Rightarrow> ts \<Rightarrow> 's \<Rightarrow> (Change list, 's reporting) op" where
  "run_sync be sync_ts s =
    and_then (on_store (get_last_sync_time be) (s, [])) (\<lambda>last_sync st.
    let st = report Collecting 0 st in
    and_then (on_store (get_changes_since be last_sync) st) (\<lambda>local_changes st.
    let st = report Sending (length local_changes) st in
    and_then (on_store (send_changes be local_changes) st) (\<lambda>_ st.
    let st = report Receiving 0 st in
    and_then (on_store (receive_changes be) st) (\<lambda>remote_changes st.
    let st = report Applying (length remote_changes) st in
    and_then (apply_all be remote_changes st) (\<lambda>_ st.
    and_then (on_store (update_sync_time be sync_ts) st) (\<lambda>_ st.
    let st = report Done (length remote_changes) st in
    (Inr remote_changes, st)))))))"

section \<open>Rounds on the SQL backend\<close>

text \<open>What a round leaves alone besides the tables of objects.\<close>

definition same_journal :: "Db \<Rightarrow> Db \<Rightarrow> bool" where
  "same_journal s s' \<longleftrightarrow> db_entity_changes s' = db_entity_changes s \<and> db_server_url s' = db_server_url s \<and>
     db_ws_sent s' = db_ws_sent s \<and> db_last_sync s' = db_last_sync s"

lemma same_journal_refl [simp]: "same_journal s s"
  by (simp add: same_journal_def)

lemma same_journal_trans: "same_journal s s' \<Longrightarrow> same_journal s' s'' \<Longrightarrow> same_journal s s''"
  by (simp add: same_journal_def)

lemma cascade_same_journal:
  "same_journal s (delete_resources_of i t s)" "same_journal s (restore_after_undelete n d s)"
  "same_journal s (refresh_note_links n s)" "same_journal s (upsert_assoc i j t d v w s)"
  by (simp_all add: same_journal_def delete_resources_of_def restore_after_undelete_def undelete_resources_def
      refresh_note_links_def upsert_assoc_def Let_def split: option.split)

lemma table_same_journal:
  "same_journal s (s\<lparr>db_notes := a\<rparr>)" "same_journal s (s\<lparr>db_notebooks := b\<rparr>)" "same_journal s (s\<lparr>db_tags := c\<rparr>)"
  "same_journal s (s\<lparr>db_resources := d\<rparr>)"
  by (simp_all add: same_journal_def)

lemma db_apply_same_journal: "same_journal s (db_apply c s)"
  by (cases c)
    (simp_all add: db_apply_note_upsert_def db_apply_note_delete_def db_apply_notebook_upsert_def
      db_apply_notebook_delete_def db_apply_tag_upsert_def db_apply_tag_delete_def db_apply_assoc_def
      db_apply_resource_create_def db_apply_resource_delete_def Let_def table_same_journal cascade_same_journal
      same_journal_trans [OF same_journal_trans [OF cascade_same_journal(3) table_same_journal(1)] cascade_same_journal(2)]
      same_journal_trans [OF table_same_journal(1) cascade_same_journal(1)])

lemma fold_db_apply_same_journal: "same_journal s (fold db_apply cs s)"
  by (induction cs arbitrary: s) (auto intro: same_journal_trans db_apply_same_journal)

lemma apply_all_db:
  "apply_all (db_backend tc rm) cs (s, log) = (Inr (), (fold db_apply cs s, log))"
  by (induction cs arbitrary: s) (simp_all add: on_store_def db_backend_def db_apply_change_def)

text \<open>A step that only touches the connection.\<close>

definition disconnected :: "Db \<Rightarrow> Db" where
  "disconnected s = s\<lparr>db_ws := False, db_ws_tries := 0, db_ws_events := [], db_ws_sent := []\<rparr>"

definition transport_step :: "Db \<Rightarrow> Db \<Rightarrow> bool" where
  "transport_step s s' \<longleftrightarrow> disconnected s' = disconnected s"

lemma disconnected_simps [simp]:
  "disconnected (s\<lparr>db_ws := b\<rparr>) = disconnected s" "disconnected (s\<lparr>db_ws_tries := k\<rparr>) = disconnected s"
  "disconnected (s\<lparr>db_ws_events := ev\<rparr>) = disconnected s" "disconnected (s\<lparr>db_ws_sent := sent\<rparr>) = disconnected s"
  by (simp_all add: disconnected_def)

lemma transport_step_trans: "transport_step s t \<Longrightarrow> transport_step t u \<Longrightarrow> transport_step s u"
  by (simp add: transport_step_def)

lemma transport_stepD:
  assumes "transport_step s s'"
  shows "db_entity_changes s' = db_entity_changes s" "db_server_url s' = db_server_url s"
    "db_last_sync s' = db_last_sync s" "tables_agree s' s" "db_device_id s' = db_device_id s"
proof -
  have "f (disconnected s') = f (disconnected s)" for f :: "Db \<Rightarrow> 'x"
    using assms by (simp add: transport_step_def)
  note eq = this [of db_entity_changes] this [of db_server_url] this [of db_last_sync] this [of db_device_id]
    this [of db_notes] this [of db_notebooks] this [of db_tags] this [of db_note_tags]
    this [of db_note_links] this [of db_resources]
  from eq show "db_entity_changes s' = db_entity_changes s" "db_server_url s' = db_server_url s"
    "db_last_sync s' = db_last_sync s" "tables_agree s' s" "db_device_id s' = db_device_id s"
    by (simp_all add: disconnected_def tables_agree_def)
qed

lemma ensure_ws_step: "transport_step s (ensure_ws rm s)" "db_ws_sent (ensure_ws rm s) = db_ws_sent s"
  by (auto simp: ensure_ws_def transport_step_def)

lemma send_loop_result:
  assumes "send_loop rm cs (Suc left) s = (r, s')"
  shows "transport_step s s' \<and> (r = Inr () \<and> db_ws_sent s' = db_ws_sent s @ [cs] \<or>
    r = Inl WebSocket \<and> db_ws_sent s' = db_ws_sent s)"
  using assms
proof (induction left arbitrary: s)
  case 0
  then show ?case
    using ensure_ws_step by (auto simp: Let_def split: if_splits simp: transport_step_def)
next
  case (Suc left)
  let ?s = "ensure_ws rm s"
  show ?case
  proof (cases "db_ws ?s \<and> \<not> rm_call_ok rm (db_ws_tries ?s)")
    case True
    let ?s' = "?s\<lparr>db_ws_tries := db_ws_tries ?s + 1, db_ws := False\<rparr>"
    have "send_loop rm cs (Suc left) ?s' = (r, s')"
      using True Suc.prems by (simp add: Let_def)
    from Suc.IH [OF this] ensure_ws_step show ?thesis
      by (auto simp: transport_step_def)
  next
    case False
    with Suc.prems ensure_ws_step show ?thesis
      by (auto simp: Let_def split: if_splits simp: transport_step_def)
  qed
qed

definition batches :: "Db \<Rightarrow> Change list \<Rightarrow> Change list list" where
  "batches s cs = (if cs = [] \<or> db_server_url s = [] then [] else [cs])"

lemma db_send_result:
  assumes "db_send_changes rm cs s = (r, s')"
  shows "transport_step s s' \<and> (r = Inr () \<and> db_ws_sent s' = db_ws_sent s @ batches s cs \<or>
    r = Inl WebSocket \<and> db_ws_sent s' = db_ws_sent s)"
proof (cases "cs = [] \<or> db_server_url s = []")
  case True
  with assms show ?thesis by (auto simp: db_send_changes_def batches_def simp: transport_step_def split: if_splits)
next
  case False
  with assms have "send_loop rm cs (Suc 3) s = (r, s')"
    by (simp add: db_send_changes_def eval_nat_numeral del: send_loop.simps)
  from send_loop_result [OF this] False show ?thesis by (simp add: batches_def)
qed

lemma db_receive_result:
  "\<exists>cs s'. db_receive_changes rm s = (Inr cs, s') \<and> transport_step s s' \<and> db_ws_sent s' = db_ws_sent s"
proof -
  obtain cs closed rest where d: "ws_drain (db_ws_events (ensure_ws rm s)) 0 [] = (cs, closed, rest)"
    by (cases "ws_drain (db_ws_events (ensure_ws rm s)) 0 []")
  show ?thesis
    using ensure_ws_step by (auto simp: db_receive_changes_def d Let_def simp: transport_step_def)
qed

text \<open>The changes due: those recorded since the last round.\<close>

definition due :: "Db \<Rightarrow> Change list" where
  "due s = projr (fst (db_get_changes_since (projr (fst (db_get_last_sync_time s))) s))"

text \<open>
  What a round on the SQL backend does: it fails only in sending, and then only the connection is
  touched; otherwise the due changes have been sent as one batch, the received changes are applied,
  and the time of the round is stored.
\<close>

lemma run_sync_db:
  "(\<exists>s' log. run_sync (db_backend tc rm) t s = (Inl WebSocket, (s', log)) \<and>
      transport_step s s' \<and> db_ws_sent s' = db_ws_sent s) \<or>
   (\<exists>cs s1 s' log. run_sync (db_backend tc rm) t s = (Inr cs, (s', log)) \<and>
      transport_step s s1 \<and> db_ws_sent s1 = db_ws_sent s @ batches s (due s) \<and>
      s' = (fold db_apply cs s1)\<lparr>db_last_sync := Some t\<rparr>)"
proof -
  obtain r s1 where send: "db_send_changes rm (due s) s = (r, s1)"
    by (cases "db_send_changes rm (due s) s")
  obtain cs s2 where recv: "db_receive_changes rm s1 = (Inr cs, s2)" "transport_step s1 s2"
    "db_ws_sent s2 = db_ws_sent s1" using db_receive_result [of rm s1] by auto
  have fields: "get_last_sync_time (db_backend tc rm) = db_get_last_sync_time"
    "get_changes_since (db_backend tc rm) = db_get_changes_since"
    "send_changes (db_backend tc rm) = db_send_changes rm"
    "receive_changes (db_backend tc rm) = db_receive_changes rm"
    "update_sync_time (db_backend tc rm) = db_update_sync_time"
    by (simp_all add: db_backend_def)
  have get: "db_get_last_sync_time s = (Inr l, s) \<Longrightarrow> db_get_changes_since l s = (Inr (due s), s)" for l
    by (auto simp: due_def db_get_changes_since_def)
  obtain l where l: "db_get_last_sync_time s = (Inr l, s)" by (auto simp: db_get_last_sync_time_def)
  note step = run_sync_def on_store_def report_def fields l get [OF l] send
  from db_send_result [OF send] show ?thesis
  proof (elim conjE disjE)
    assume s1: "transport_step s s1" "r = Inl WebSocket" "db_ws_sent s1 = db_ws_sent s"
    then have "run_sync (db_backend tc rm) t s = (Inl WebSocket, (s1, [(Collecting, 0), (Sending, length (due s))]))"
      by (simp add: step)
    with s1 show ?thesis by blast
  next
    assume s1: "transport_step s s1" "r = Inr ()" "db_ws_sent s1 = db_ws_sent s @ batches s (due s)"
    then have "\<exists>log. run_sync (db_backend tc rm) t s = (Inr cs, ((fold db_apply cs s2)\<lparr>db_last_sync := Some t\<rparr>, log))"
      by (simp add: step recv apply_all_db db_update_sync_time_def)
    moreover have "transport_step s s2" using s1(1) recv(2) by (rule transport_step_trans)
    ultimately show ?thesis using s1 recv(3) by auto
  qed
qed

lemma due_eq:
  "due s = List.map_filter row_to_change
     (filter (\<lambda>row. projr (fst (db_get_last_sync_time s)) < cr_changed_at row) (db_entity_changes s))"
  by (simp add: due_def db_get_changes_since_def)

lemma run_sync_ok:
  assumes "run_sync (db_backend tc rm) t s = (Inr got, (s', log))"
  shows "db_ws_sent s' = db_ws_sent s @ batches s (due s)" "db_last_sync s' = Some t"
    "db_entity_changes s' = db_entity_changes s" "db_server_url s' = db_server_url s"
proof -
  from run_sync_db [of tc rm t s] assms obtain s1 where
    s1: "transport_step s s1" "db_ws_sent s1 = db_ws_sent s @ batches s (due s)"
      "s' = (fold db_apply got s1)\<lparr>db_last_sync := Some t\<rparr>" by auto
  with fold_db_apply_same_journal [of s1 got] transport_stepD [OF s1(1)]
  show "db_ws_sent s' = db_ws_sent s @ batches s (due s)" "db_last_sync s' = Some t"
    "db_entity_changes s' = db_entity_changes s" "db_server_url s' = db_server_url s"
    by (simp_all add: same_journal_def)
qed

lemma batches_concat: "db_server_url s \<noteq> [] \<Longrightarrow> concat (batches s cs) = cs"
  by (simp add: batches_def)

text \<open>
  C15. No local change is lost between synchronisation rounds: whatever the journal of the SQL backend
  recorded after the last round, before a successful round or between it and the next successful one,
  has been sent when that one returns, if the clock has moved on since the first round began.
\<close>

theorem sync_no_change_lost:
  assumes "run_sync (db_backend tc rm) t1 s = (Inr got1, (s1, log1))" and "db_server_url s \<noteq> []"
    and "db_entity_changes s2 = db_entity_changes s1 @ recorded" and "\<forall>row\<in>set recorded. t1 < cr_changed_at row"
    and "db_last_sync s2 = db_last_sync s1" "db_server_url s2 = db_server_url s1" "db_ws_sent s2 = db_ws_sent s1"
    and "run_sync (db_backend tc rm) t2 s2 = (Inr got2, (s3, log2))"
    and "row \<in> set (db_entity_changes s2)" "projr (fst (db_get_last_sync_time s)) < cr_changed_at row"
    and "row_to_change row = Some c"
  shows "\<exists>sent. db_ws_sent s3 = db_ws_sent s @ sent \<and> c \<in> set (concat sent)"
proof -
  note r1 = run_sync_ok [OF assms(1)] and r2 = run_sync_ok [OF assms(8)]
  have "c \<in> set (due s) \<or> c \<in> set (due s2)"
    using assms(3,4,5,9-11) r1
    by (auto simp: due_eq set_map_filter db_get_last_sync_time_def intro!: bexI [of _ row])
  moreover have "db_ws_sent s3 = db_ws_sent s @ batches s (due s) @ batches s2 (due s2)"
    using r1 r2 assms(7) by simp
  ultimately show ?thesis
    using assms(2,6) r1 by (intro exI [of _ "batches s (due s) @ batches s2 (due s2)"]) (auto simp: batches_concat)
qed

definition online :: remote where
  "online = \<lparr>rm_call_ok = (\<lambda>_. True), rm_note_history = (\<lambda>_ _. None), rm_notebook_history = (\<lambda>_ _. None)\<rparr>"

definition journal_row :: "ts \<Rightarrow> ChangeRow" where
  "journal_row t = \<lparr>cr_entity_type = ''tag'', cr_entity_id = 3, cr_operation = ''delete'', cr_changed_at = t,
     cr_data = JTombstone t fmempty ''A''\<rparr>"

theorem sync_no_change_lost_witness:
  "\<exists>s1 s2 s3 got log sent.
     run_sync (db_backend unary_codec online) 7 ((empty_db ''A'')\<lparr>db_server_url := ''u'', db_entity_changes := [journal_row 5]\<rparr>)
       = (Inr [], (s1, log)) \<and>
     s2 = s1\<lparr>db_entity_changes := db_entity_changes s1 @ [journal_row 8]\<rparr> \<and>
     run_sync (db_backend unary_codec online) 9 s2 = (Inr [], (s3, got)) \<and>
     db_ws_sent s3 = sent \<and> TagDelete 3 8 fmempty ''A'' \<in> set (concat sent)"
proof -
  let ?be = "db_backend unary_codec online"
  let ?s = "(empty_db ''A'')\<lparr>db_server_url := ''u'', db_entity_changes := [journal_row 5]\<rparr>"
  have run: "\<exists>s' log. run_sync ?be t s = (Inr [], (s', log)) \<and> db_server_url s' = ''u'' \<and> db_ws_events s' = []"
    if "db_server_url s = ''u''" "db_ws_events s = []" for t s
    using that
    by (simp add: run_sync_def on_store_def report_def db_backend_def db_get_last_sync_time_def Let_def online_def
        db_get_changes_since_def db_send_changes_def db_receive_changes_def ensure_ws_def db_update_sync_time_def eval_nat_numeral)
  from run [of ?s 7] obtain s1 log1 where
    s1: "run_sync ?be 7 ?s = (Inr [], (s1, log1))" "db_server_url s1 = ''u''" "db_ws_events s1 = []"
    by (auto simp: empty_db_def)
  let ?s2 = "s1\<lparr>db_entity_changes := db_entity_changes s1 @ [journal_row 8]\<rparr>"
  from run [of ?s2 9] s1 obtain s3 log2 where s3: "run_sync ?be 9 ?s2 = (Inr [], (s3, log2))" by auto
  have "\<exists>sent. db_ws_sent s3 = db_ws_sent ?s @ sent \<and> TagDelete 3 8 fmempty ''A'' \<in> set (concat sent)"
    by (rule sync_no_change_lost [OF s1(1) _ _ _ _ _ _ s3, where recorded = "[journal_row 8]" and row = "journal_row 8"])
      (simp_all add: journal_row_def empty_db_def db_get_last_sync_time_def row_to_change_def)
  with s1 s3 show ?thesis by (auto simp: empty_db_def)
qed

end
