(* ===== verification/History.thy ===== *)
theory History
  imports Db_Backend
begin

text \<open>
  Going back in time, \<open>keeplin-core/src/history.rs\<close>: the version of an entity at an instant, and
  reverting notes and notebooks to it, over any backend. The clock readings are parameters.
\<close>

definition REVERT_SCAN_LIMIT :: u32 where
  "REVERT_SCAN_LIMIT = 10000"

definition state_at :: "'e EntityVersion list \<Rightarrow> ts \<Rightarrow> 'e EntityVersion option" where
  "state_at versions at = find (\<lambda>v. ev_timestamp v \<le> at) versions"

definition revert_note :: "'s backend \<Rightarrow> ts \<Rightarrow> uuid \<Rightarrow> ts \<Rightarrow> (Note, 's) act" where
  "revert_note be now i at s =
    and_then (note_history be i REVERT_SCAN_LIMIT s) (\<lambda>versions s.
      case state_at versions at of
        None \<Rightarrow> (Inl NotFound, s)
      | Some target \<Rightarrow>
          (case ev_entity target of
             Some note \<Rightarrow> update_note be (note\<lparr>n_updated_at := now, n_deleted_at := None\<rparr>) s
           | None \<Rightarrow>
               (case delete_note be i s of
                  (Inl e, s) \<Rightarrow> if e \<noteq> NotFound then (Inl e, s) else read_note be i s
                | (Inr _, s) \<Rightarrow> read_note be i s)))"

definition revert_notebook :: "'s backend \<Rightarrow> ts \<Rightarrow> uuid \<Rightarrow> ts \<Rightarrow> (Notebook, 's) act" where
  "revert_notebook be now i at s =
    and_then (notebook_history be i REVERT_SCAN_LIMIT s) (\<lambda>versions s.
      case state_at versions at of
        None \<Rightarrow> (Inl NotFound, s)
      | Some target \<Rightarrow>
          (case ev_entity target of
             Some nb \<Rightarrow> update_notebook be (nb\<lparr>nb_updated_at := now, nb_deleted_at := None\<rparr>) s
           | None \<Rightarrow>
               (case delete_notebook be i s of
                  (Inl e, s) \<Rightarrow> if e \<noteq> NotFound then (Inl e, s) else read_notebook be i s
                | (Inr _, s) \<Rightarrow> read_notebook be i s)))"

text \<open>The \<open>k\<close>-th note is reverted at the clock reading \<open>clock k\<close>.\<close>

fun revert_notes_to :: "'s backend \<Rightarrow> (nat \<Rightarrow> ts) \<Rightarrow> uuid list \<Rightarrow> ts \<Rightarrow> (Note list, 's) act" where
  "revert_notes_to be clock [] at s = (Inr [], s)"
| "revert_notes_to be clock (i # ids) at s =
    and_then (revert_note be (clock 0) i at s) (\<lambda>n s.
    and_then (revert_notes_to be (\<lambda>k. clock (k + 1)) ids at s) (\<lambda>ns s. (Inr (n # ns), s)))"

definition revert_notebook_notes_to :: "nat \<Rightarrow> 's backend \<Rightarrow> (nat \<Rightarrow> ts) \<Rightarrow> uuid \<Rightarrow> ts \<Rightarrow> 's \<Rightarrow> (Note list, 's) op option" where
  "revert_notebook_notes_to fuel be clock notebook_id at s =
    map_option (\<lambda>r. and_then r (\<lambda>notes s. revert_notes_to be clock (map n_id notes) at s))
      (collect_pages fuel (list_notes_in_notebook be notebook_id) (\<lambda>_. True) None [] s)"

section \<open>The version at an instant\<close>

lemma state_at_split:
  assumes "\<forall>v\<in>set newer. at < ev_timestamp v" and "ev_timestamp v \<le> at"
  shows "state_at (newer @ v # older) at = Some v"
  using assms by (induction newer) (auto simp: state_at_def)

lemma state_at_None: "state_at vs at = None \<longleftrightarrow> (\<forall>v\<in>set vs. at < ev_timestamp v)"
  by (auto simp: state_at_def find_None_iff)

lemma row_version_time: "row_version d decode row = Some v \<Longrightarrow> ev_timestamp v = cr_changed_at row"
  by (auto simp: row_version_def split: if_splits)

text \<open>
  In the journal, the version at an instant is the last row about the entity not after it, if that row
  is among the newest ones looked at.
\<close>

lemma journal_state_at:
  assumes "filter (\<lambda>r. cr_entity_type r = ty \<and> cr_entity_id r = i) (db_entity_changes s) = older @ row # newer"
    and "\<forall>r\<in>set newer. at < cr_changed_at r" and "cr_changed_at row \<le> at"
    and "row_version (db_device_id s) decode row = Some v" and "length newer < 10000"
  shows "\<exists>versions. entity_history (\<lambda>_ _. None) decode ty i REVERT_SCAN_LIMIT s = (Inr versions, s) \<and>
    state_at versions at = Some v"
proof -
  obtain m where m: "unat REVERT_SCAN_LIMIT - length newer = Suc m"
    using assms(5) by (cases "unat REVERT_SCAN_LIMIT - length newer") (auto simp: REVERT_SCAN_LIMIT_def)
  have "length newer \<le> unat REVERT_SCAN_LIMIT" using m by simp
  then have rows: "history_rows ty i REVERT_SCAN_LIMIT s = rev newer @ row # take m (rev older)"
    using m by (simp add: history_rows_def assms(1))
  let ?f = "row_version (db_device_id s) decode"
  have "\<forall>v\<in>set (List.map_filter ?f (rev newer)). at < ev_timestamp v"
    using assms(2) by (auto simp: set_map_filter row_version_time)
  then have "state_at (List.map_filter ?f (rev newer) @ v # List.map_filter ?f (take m (rev older))) at = Some v"
    by (rule state_at_split) (use assms(3,4) row_version_time in metis)
  moreover have "REVERT_SCAN_LIMIT \<noteq> 0" by (simp add: REVERT_SCAN_LIMIT_def)
  ultimately show ?thesis
    by (simp add: entity_history_def rows assms(4))
qed

lemma db_update_note_journal:
  assumes "db_update_note n s = (Inr m, s')"
  shows "db_entity_changes s' = db_entity_changes s @
      [\<lparr>cr_entity_type = ''note'', cr_entity_id = n_id n, cr_operation = ''update'',
        cr_changed_at = db_clock s (db_ticks s), cr_data = JNote m\<rparr>]"
    and "m = n\<lparr>n_vv := n_vv m, n_last_writer := n_last_writer m\<rparr>"
  using assms
  by (auto simp: db_update_note_def transaction_ok Let_def record_change_def db_now_def refresh_note_links_def
      restore_after_undelete_def undelete_resources_def split: option.splits if_splits)

text \<open>
  C19. Reverting a note of the SQL backend to an instant after an update restores what that update
  wrote, live: whatever happened to the note later (edits, moves, deletion), the stored row has the
  updated note's content, apart from its version and creation time. The journal may hold at most
  9999 later changes of the note, all after the instant, and the server no history of its own.
\<close>

theorem db_revert_note:
  assumes "db_update_note n s0 = (Inr m, s1)" and "db_clock s0 (db_ticks s0) \<le> at"
    and "db_entity_changes s = db_entity_changes s1 @ recorded"
    and "\<forall>r\<in>set recorded. cr_entity_type r = ''note'' \<and> cr_entity_id r = n_id n \<longrightarrow> at < cr_changed_at r"
    and "length (filter (\<lambda>r. cr_entity_type r = ''note'' \<and> cr_entity_id r = n_id n) recorded) < 10000"
    and "notes_keyed s" "n_id n |\<in>| fmdom (db_notes s)"
    and "rm_note_history rm = (\<lambda>_ _. None)"
  shows "\<exists>n' s' stored. revert_note (db_backend tc rm) now (n_id n) at s = (Inr n', s') \<and>
    db_notes s' = fmupd (n_id n) stored (db_notes s) \<and>
    same_but_version (n\<lparr>n_updated_at := now, n_deleted_at := None\<rparr>) stored"
proof -
  let ?about = "\<lambda>r. cr_entity_type r = ''note'' \<and> cr_entity_id r = n_id n"
  let ?row = "\<lparr>cr_entity_type = ''note'', cr_entity_id = n_id n, cr_operation = ''update'',
    cr_changed_at = db_clock s0 (db_ticks s0), cr_data = JNote m\<rparr>"
  note j = db_update_note_journal [OF assms(1)]
  have "filter ?about (db_entity_changes s) = filter ?about (db_entity_changes s0) @ ?row # filter ?about recorded"
    using j(1) assms(3) by simp
  from journal_state_at [OF this _ _ _ assms(5), of at as_note
      "\<lparr>ev_timestamp = db_clock s0 (db_ticks s0), ev_device_id = db_device_id s, ev_entity = Some m\<rparr>"]
  obtain versions where v: "note_history (db_backend tc rm) (n_id n) REVERT_SCAN_LIMIT s = (Inr versions, s)"
    "state_at versions at = Some \<lparr>ev_timestamp = db_clock s0 (db_ticks s0), ev_device_id = db_device_id s, ev_entity = Some m\<rparr>"
    using assms(2,4,8) by (auto simp: row_version_def db_backend_def db_note_history_def)
  let ?m = "m\<lparr>n_updated_at := now, n_deleted_at := None\<rparr>"
  have id: "n_id ?m = n_id n" by (subst j(2)) simp
  obtain old where "fmlookup (db_notes s) (n_id ?m) = Some old"
    using assms(7) by (auto simp: id fmlookup_dom_iff)
  from db_update_note_law [OF assms(6) this] obtain n' s' stored where
    u: "db_update_note ?m s = (Inr n', s')" "same_but_version ?m stored"
      "db_notes s' = fmupd (n_id n) stored (db_notes s)" by (auto simp: id)
  have "same_but_version (n\<lparr>n_updated_at := now, n_deleted_at := None\<rparr>) stored"
    using u(2) by (subst (asm) j(2)) (simp add: same_but_version_def)
  moreover have "revert_note (db_backend tc rm) now (n_id n) at s = (Inr n', s')"
    using u(1) by (simp add: revert_note_def v) (simp add: db_backend_def)
  ultimately show ?thesis using u(3) by blast
qed

theorem db_revert_note_witness:
  "\<exists>m s1 s2 n' s3 stored. db_update_note (nb_note\<lparr>n_title := ''x''\<rparr>) db_nb = (Inr m, s1) \<and>
     db_delete_note 7 s1 = (Inr (), s2) \<and>
     revert_note (db_backend unary_codec offline) 9 7 0 s2 = (Inr n', s3) \<and>
     fmlookup (db_notes s3) 7 = Some stored \<and> n_title stored = ''x'' \<and> n_deleted_at stored = None"
proof -
  let ?n = "nb_note\<lparr>n_title := ''x''\<rparr>"
  have n7: "n_id ?n = 7" by (simp add: nb_note_def sample_note_def new_note_def)
  obtain m s1 where u: "db_update_note ?n db_nb = (Inr m, s1)" "notes_keyed s1" "7 |\<in>| fmdom (db_notes s1)"
    using db_update_note_law [OF db_nb_facts(1), of ?n nb_note] db_nb_facts(2) n7 by auto
  have c1: "db_clock s1 = int" "db_ticks s1 = 1"
    using u(1) by (auto simp: db_update_note_def transaction_ok Let_def record_change_def db_now_def refresh_note_links_def
      restore_after_undelete_def undelete_resources_def db_nb_def empty_db_def split: option.splits if_splits)
  obtain s2 where d: "db_delete_note 7 s1 = (Inr (), s2)"
    using u(3) by (auto simp: db_delete_note_def transaction_def Let_def db_now_def fmlookup_dom_iff)
  have s2: "\<exists>r. db_entity_changes s2 = db_entity_changes s1 @ [r] \<and> cr_changed_at r = 2" "notes_keyed s2" "7 |\<in>| fmdom (db_notes s2)"
    using d u c1 by (auto simp: db_delete_note_def transaction_ok Let_def db_now_def record_change_def delete_resources_of_def
        notes_keyed_def fmpred_iff note_tombstone_def split: option.splits if_splits)
  then obtain r where r: "db_entity_changes s2 = db_entity_changes s1 @ [r]" "cr_changed_at r = 2" by blast
  have "\<exists>n' s' stored. revert_note (db_backend unary_codec offline) 9 (n_id ?n) 0 s2 = (Inr n', s') \<and>
    db_notes s' = fmupd (n_id ?n) stored (db_notes s2) \<and>
    same_but_version (?n\<lparr>n_updated_at := 9, n_deleted_at := None\<rparr>) stored"
    by (rule db_revert_note [OF u(1) _ r(1)])
      (use r s2 n7 in \<open>simp_all add: db_nb_def empty_db_def offline_def\<close>)
  then obtain n' s3 stored where "revert_note (db_backend unary_codec offline) 9 7 0 s2 = (Inr n', s3)"
    "fmlookup (db_notes s3) 7 = Some stored" "same_but_version (?n\<lparr>n_updated_at := 9, n_deleted_at := None\<rparr>) stored"
    by (auto simp: n7)
  with u d show ?thesis by (auto dest: same_but_versionD)
qed

end
