(* ===== verification/Db_Invariant.thy ===== *)
theory Db_Invariant
  imports Sync_Engine
begin

text \<open>
  The states the SQL backend reaches. A step is any operation that changes the store, with any
  argument and any outcome; in every reachable state each row is stored under its own identifier, the
  link index holds exactly the link targets of the stored notes, and every journal row decodes.
\<close>

section \<open>Steps\<close>

inductive db_step :: "Db \<Rightarrow> Db \<Rightarrow> bool" where
  step_create_note: "db_step s (snd (db_create_note n s))"
| step_update_note: "db_step s (snd (db_update_note n s))"
| step_delete_note: "db_step s (snd (db_delete_note i s))"
| step_create_notebook: "db_step s (snd (db_create_notebook nb s))"
| step_update_notebook: "db_step s (snd (db_update_notebook nb s))"
| step_delete_notebook: "db_step s (snd (db_delete_notebook i s))"
| step_create_tag: "db_step s (snd (db_create_tag g s))"
| step_update_tag: "db_step s (snd (db_update_tag g s))"
| step_delete_tag: "db_step s (snd (db_delete_tag i s))"
| step_add_note_tag: "db_step s (snd (db_add_note_tag nt s))"
| step_remove_note_tag: "db_step s (snd (db_remove_note_tag i j s))"
| step_create_resource: "db_step s (snd (db_create_resource r d s))"
| step_delete_resource: "db_step s (snd (db_delete_resource i s))"
| step_purge: "db_step s (snd (db_purge_deleted_resources t s))"
| step_apply: "db_step s (snd (db_apply_change c s))"
| step_prune: "db_step s (snd (db_prune_change_journal t s))"
| step_sync_time: "db_step s (snd (db_update_sync_time t s))"
| step_send: "db_step s (snd (db_send_changes rm cs s))"
| step_receive: "db_step s (snd (db_receive_changes rm s))"

inductive db_reachable :: "Db \<Rightarrow> bool" where
  reach_new: "db_reachable ((empty_db device)\<lparr>db_clock := clock, db_server_url := url, db_ws_events := events\<rparr>)"
| reach_step: "db_reachable s \<Longrightarrow> db_step s s' \<Longrightarrow> db_reachable s'"

section \<open>The invariant\<close>

definition link_targets :: "Note \<Rightarrow> uuid set" where
  "link_targets n = {j. \<exists>l\<in>set (n_links n). l_target_note_id l = Some j}"

definition decodes :: "ChangeRow \<Rightarrow> bool" where
  "decodes row \<longleftrightarrow> row_to_change row \<noteq> None"

definition db_wf :: "Db \<Rightarrow> bool" where
  "db_wf s \<longleftrightarrow> notes_keyed s \<and> fmpred (\<lambda>i nb. nb_id nb = i) (db_notebooks s) \<and>
     fmpred (\<lambda>i g. t_id g = i) (db_tags s) \<and> fmpred (\<lambda>i row. r_id (rr_resource row) = i) (db_resources s) \<and>
     (\<forall>i j. (i, j) |\<in>| db_note_links s \<longleftrightarrow> (\<exists>n. fmlookup (db_notes s) i = Some n \<and> j \<in> link_targets n)) \<and>
     (\<forall>row\<in>set (db_entity_changes s). decodes row)"

text \<open>What the invariant depends on.\<close>

definition wf_view :: "Db \<Rightarrow> _" where
  "wf_view s = (db_notes s, db_notebooks s, db_tags s, db_resources s, db_note_links s, db_entity_changes s)"

lemma db_wf_cong: "wf_view s = wf_view s' \<Longrightarrow> db_wf s \<longleftrightarrow> db_wf s'"
  by (simp add: wf_view_def db_wf_def notes_keyed_def)

lemma refresh_note_links_iff:
  "(i, j) |\<in>| db_note_links (refresh_note_links n s) \<longleftrightarrow>
     (if i = n_id n then j \<in> link_targets n else (i, j) |\<in>| db_note_links s)"
proof -
  have folded: "(i, j) |\<in>| fold (\<lambda>l links. case l_target_note_id l of None \<Rightarrow> links | Some target \<Rightarrow> finsert (k, target) links) ls L \<longleftrightarrow>
      (i, j) |\<in>| L \<or> i = k \<and> (\<exists>l\<in>set ls. l_target_note_id l = Some j)" for k L and ls :: "NoteLink list"
  proof (induction ls arbitrary: L)
    case (Cons l ls)
    then show ?case by (cases "l_target_note_id l") (simp, simp, blast)
  qed simp
  show ?thesis
    unfolding refresh_note_links_def
    using folded [of "n_id n" "n_links n" "ffilter (\<lambda>p. fst p \<noteq> n_id n) (db_note_links s)"]
    by (auto simp: link_targets_def)
qed

text \<open>The elementary changes of the tables keep the invariant.\<close>

lemma wf_put_note:
  assumes "db_wf s" "n_id n = i" "link_targets n = link_targets m" "n_id m = i"
  shows "db_wf (refresh_note_links m (s\<lparr>db_notes := fmupd i n (db_notes s)\<rparr>))"
proof -
  let ?s = "refresh_note_links m (s\<lparr>db_notes := fmupd i n (db_notes s)\<rparr>)"
  have tables: "db_notes ?s = fmupd i n (db_notes s)" "db_notebooks ?s = db_notebooks s" "db_tags ?s = db_tags s"
    "db_resources ?s = db_resources s" "db_entity_changes ?s = db_entity_changes s"
    by (simp_all add: refresh_note_links_def)
  show ?thesis
    using assms by (auto simp: db_wf_def notes_keyed_def tables refresh_note_links_iff fmpred_iff)
qed

lemma wf_touch_note:
  assumes "db_wf s" "fmlookup (db_notes s) i = Some old" "n_id n = i" "n_links n = n_links old" "tab = db_notes s"
  shows "db_wf (s\<lparr>db_notes := fmupd i n tab\<rparr>)"
  using assms by (auto simp: db_wf_def notes_keyed_def fmpred_iff link_targets_def)

lemma wf_new_note:
  assumes "db_wf s" "fmlookup (db_notes s) i = None" "n_id n = i" "n_links n = []" "tab = db_notes s"
  shows "db_wf (s\<lparr>db_notes := fmupd i n tab\<rparr>)"
  using assms by (auto simp: db_wf_def notes_keyed_def fmpred_iff link_targets_def)

lemma wf_put_notebook: "db_wf s \<Longrightarrow> nb_id nb = i \<Longrightarrow> tab = db_notebooks s \<Longrightarrow> db_wf (s\<lparr>db_notebooks := fmupd i nb tab\<rparr>)"
  by (auto simp: db_wf_def notes_keyed_def fmpred_iff)

lemma wf_put_tag: "db_wf s \<Longrightarrow> t_id g = i \<Longrightarrow> tab = db_tags s \<Longrightarrow> db_wf (s\<lparr>db_tags := fmupd i g tab\<rparr>)"
  by (auto simp: db_wf_def notes_keyed_def fmpred_iff)

lemma wf_put_resource:
  "db_wf s \<Longrightarrow> r_id (rr_resource row) = i \<Longrightarrow> tab = db_resources s \<Longrightarrow> db_wf (s\<lparr>db_resources := fmupd i row tab\<rparr>)"
  by (auto simp: db_wf_def notes_keyed_def fmpred_iff)

lemma wf_map_resources:
  assumes "db_wf s" "\<And>row. r_id (rr_resource (f row)) = r_id (rr_resource row)"
  shows "db_wf (s\<lparr>db_resources := fmmap f (db_resources s)\<rparr>)"
  using assms by (auto simp: db_wf_def notes_keyed_def fmpred_iff)

lemma wf_record:
  assumes "db_wf s" "\<And>t. decodes \<lparr>cr_entity_type = ty, cr_entity_id = i, cr_operation = opn, cr_changed_at = t, cr_data = d\<rparr>"
  shows "db_wf (record_change ty i opn d s)"
  using assms by (auto simp: db_wf_def notes_keyed_def record_change_def db_now_def)

lemma wf_assoc: "db_wf s \<Longrightarrow> db_wf (upsert_assoc i j t d v w s)"
  by (simp add: db_wf_def notes_keyed_def upsert_assoc_def)

lemma wf_ticks: "db_wf (s\<lparr>db_ticks := k\<rparr>) = db_wf s"
  by (rule db_wf_cong) (simp add: wf_view_def)

lemma wf_delete_resources: "db_wf s \<Longrightarrow> db_wf (delete_resources_of i t s)"
  by (simp add: delete_resources_of_def wf_map_resources)

lemma wf_restore: "db_wf s \<Longrightarrow> db_wf (restore_after_undelete n d s)"
  by (simp add: restore_after_undelete_def undelete_resources_def wf_map_resources split: option.split)

lemma wf_transaction:
  assumes "db_wf s" "\<And>x s'. body s = (Inr x, s') \<Longrightarrow> db_wf s'"
  shows "db_wf (snd (transaction body s))"
  using assms by (auto simp: transaction_def wf_ticks split: prod.split sum.split)

lemmas wf_intros = wf_put_notebook wf_put_tag wf_put_resource wf_record wf_assoc wf_delete_resources wf_restore

section \<open>Preservation\<close>

text \<open>The rows the operations write decode.\<close>

lemma written_rows:
  "decodes \<lparr>cr_entity_type = ''note'', cr_entity_id = i, cr_operation = ''create'', cr_changed_at = t, cr_data = JNote n\<rparr>"
  "decodes \<lparr>cr_entity_type = ''note'', cr_entity_id = i, cr_operation = ''update'', cr_changed_at = t, cr_data = JNote n\<rparr>"
  "decodes \<lparr>cr_entity_type = ''note'', cr_entity_id = i, cr_operation = ''delete'', cr_changed_at = t, cr_data = JTombstone a v w\<rparr>"
  "decodes \<lparr>cr_entity_type = ''notebook'', cr_entity_id = i, cr_operation = ''create'', cr_changed_at = t, cr_data = JNotebook nb\<rparr>"
  "decodes \<lparr>cr_entity_type = ''notebook'', cr_entity_id = i, cr_operation = ''update'', cr_changed_at = t, cr_data = JNotebook nb\<rparr>"
  "decodes \<lparr>cr_entity_type = ''notebook'', cr_entity_id = i, cr_operation = ''delete'', cr_changed_at = t, cr_data = JTombstone a v w\<rparr>"
  "decodes \<lparr>cr_entity_type = ''tag'', cr_entity_id = i, cr_operation = ''create'', cr_changed_at = t, cr_data = JTag g\<rparr>"
  "decodes \<lparr>cr_entity_type = ''tag'', cr_entity_id = i, cr_operation = ''update'', cr_changed_at = t, cr_data = JTag g\<rparr>"
  "decodes \<lparr>cr_entity_type = ''tag'', cr_entity_id = i, cr_operation = ''delete'', cr_changed_at = t, cr_data = JTombstone a v w\<rparr>"
  "decodes \<lparr>cr_entity_type = ''note_tag'', cr_entity_id = i, cr_operation = ''add'', cr_changed_at = t, cr_data = JAssoc j a v w\<rparr>"
  "decodes \<lparr>cr_entity_type = ''note_tag'', cr_entity_id = i, cr_operation = ''remove'', cr_changed_at = t, cr_data = JAssoc j a v w\<rparr>"
  "decodes \<lparr>cr_entity_type = ''resource'', cr_entity_id = i, cr_operation = ''create'', cr_changed_at = t, cr_data = JResource r d\<rparr>"
  "decodes \<lparr>cr_entity_type = ''resource'', cr_entity_id = i, cr_operation = ''delete'', cr_changed_at = t, cr_data = JTombstone a v w\<rparr>"
  by (simp_all add: decodes_def row_to_change_def)

lemma link_targets_simps [simp]:
  "link_targets (n\<lparr>n_vv := v\<rparr>) = link_targets n" "link_targets (n\<lparr>n_last_writer := w\<rparr>) = link_targets n"
  "link_targets (n\<lparr>n_created_at := t\<rparr>) = link_targets n"
  by (simp_all add: link_targets_def)

lemma refresh_restore_commute:
  "refresh_note_links n (restore_after_undelete m d s) = restore_after_undelete m d (refresh_note_links n s)"
  by (simp add: restore_after_undelete_def undelete_resources_def refresh_note_links_def split: option.split)

lemma refresh_put_commute:
  "(refresh_note_links n s)\<lparr>db_notes := notes\<rparr> = refresh_note_links n (s\<lparr>db_notes := notes\<rparr>)"
  "db_notes (refresh_note_links n s) = db_notes s"
  by (simp_all add: refresh_note_links_def)

lemma wf_keyed:
  "db_wf s \<Longrightarrow> fmlookup (db_notes s) i = Some n \<Longrightarrow> n_id n = i"
  "db_wf s \<Longrightarrow> fmlookup (db_notebooks s) i = Some nb \<Longrightarrow> nb_id nb = i"
  "db_wf s \<Longrightarrow> fmlookup (db_tags s) i = Some g \<Longrightarrow> t_id g = i"
  "db_wf s \<Longrightarrow> fmlookup (db_resources s) i = Some row \<Longrightarrow> r_id (rr_resource row) = i"
  by (auto simp: db_wf_def notes_keyed_def fmpred_iff)

lemma tombstone_ids [simp]:
  "n_id (note_tombstone n t v w) = n_id n" "n_links (note_tombstone n t v w) = n_links n"
  "nb_id (notebook_tombstone nb t v w) = nb_id nb" "t_id (tag_tombstone g t v w) = t_id g"
  "r_id (rr_resource (resource_tombstone row t v w)) = r_id (rr_resource row)"
  by (simp_all add: note_tombstone_def notebook_tombstone_def tag_tombstone_def resource_tombstone_def)

lemma wf_db_create_note: assumes "db_wf s" shows "db_wf (snd (db_create_note n s))"
  unfolding db_create_note_def
  by (rule wf_transaction [OF assms])
    (auto simp: Let_def written_rows assms intro!: wf_record wf_put_note split: if_splits)

lemma wf_db_update_note: assumes "db_wf s" shows "db_wf (snd (db_update_note n s))"
  unfolding db_update_note_def
  by (rule wf_transaction [OF assms])
    (auto simp: Let_def written_rows assms refresh_restore_commute intro!: wf_record wf_restore wf_put_note split: option.splits)

lemma wf_db_delete_note: assumes "db_wf s" shows "db_wf (snd (db_delete_note i s))"
  unfolding db_delete_note_def
  by (rule wf_transaction [OF assms])
    (auto simp: Let_def written_rows db_now_def wf_ticks wf_keyed [OF assms] assms intro!: wf_record wf_delete_resources
      intro: wf_touch_note assms split: option.splits prod.splits)

lemmas wf_table_intros = wf_record wf_put_notebook wf_put_tag wf_put_resource wf_assoc

lemma wf_db_notebooks:
  assumes "db_wf s"
  shows "db_wf (snd (db_create_notebook nb s))" "db_wf (snd (db_update_notebook nb s))" "db_wf (snd (db_delete_notebook i s))"
  unfolding db_create_notebook_def db_update_notebook_def db_delete_notebook_def
  by (rule wf_transaction [OF assms];
      auto simp: Let_def written_rows db_now_def wf_ticks wf_keyed [OF assms] assms intro!: wf_table_intros
        intro: assms split: option.splits prod.splits if_splits)+

lemma wf_db_tags:
  assumes "db_wf s"
  shows "db_wf (snd (db_create_tag g s))" "db_wf (snd (db_update_tag g s))" "db_wf (snd (db_delete_tag i s))"
  unfolding db_create_tag_def db_update_tag_def db_delete_tag_def
  by (rule wf_transaction [OF assms];
      auto simp: Let_def written_rows db_now_def wf_ticks wf_keyed [OF assms] assms intro!: wf_table_intros
        intro: assms split: option.splits prod.splits if_splits)+

lemma wf_db_assocs:
  assumes "db_wf s"
  shows "db_wf (snd (db_add_note_tag nt s))" "db_wf (snd (db_remove_note_tag i j s))"
  unfolding db_add_note_tag_def db_remove_note_tag_def
  by (rule wf_transaction [OF assms];
      auto simp: Let_def written_rows db_now_def wf_ticks assms intro!: wf_table_intros split: option.splits prod.splits if_splits)+

lemma wf_db_resources:
  assumes "db_wf s"
  shows "db_wf (snd (db_create_resource r d s))" "db_wf (snd (db_delete_resource i s))"
    "db_wf (snd (db_purge_deleted_resources t s))"
proof -
  show "db_wf (snd (db_purge_deleted_resources t s))"
    using assms by (simp add: db_purge_deleted_resources_def wf_map_resources)
  show "db_wf (snd (db_create_resource r d s))" "db_wf (snd (db_delete_resource i s))"
    unfolding db_create_resource_def db_delete_resource_def
    by (rule wf_transaction [OF assms];
      auto simp: Let_def written_rows db_now_def wf_ticks wf_keyed [OF assms] assms intro!: wf_table_intros
        intro: assms split: option.splits prod.splits if_splits)+
qed

lemma wf_db_apply_note: assumes "db_wf s" shows "db_wf (db_apply_note_upsert n s)" "db_wf (db_apply_note_delete i t v w s)"
proof -
  show "db_wf (db_apply_note_upsert n s)"
    using assms by (auto simp: db_apply_note_upsert_def Let_def refresh_put_commute intro!: wf_restore wf_put_note)
  show "db_wf (db_apply_note_delete i t v w s)"
    using assms wf_keyed(1) [OF assms]
    by (auto simp: db_apply_note_delete_def Let_def note_stub_def intro!: wf_delete_resources
        intro: wf_touch_note wf_new_note split: option.split)
qed

lemma wf_db_apply_other:
  assumes "db_wf s"
  shows "db_wf (db_apply_notebook_upsert nb s)" "db_wf (db_apply_notebook_delete i t v w s)"
    "db_wf (db_apply_tag_upsert g s)" "db_wf (db_apply_tag_delete i t v w s)" "db_wf (db_apply_assoc i j t d v w s)"
    "db_wf (db_apply_resource_create r d' s)" "db_wf (db_apply_resource_delete i t v w s)"
  using assms wf_keyed [OF assms]
  by (auto simp: db_apply_notebook_upsert_def db_apply_notebook_delete_def db_apply_tag_upsert_def db_apply_tag_delete_def
      db_apply_assoc_def db_apply_resource_create_def db_apply_resource_delete_def Let_def notebook_stub_def tag_stub_def
      resource_stub_def intro!: wf_table_intros split: option.split)

lemma wf_db_apply: "db_wf s \<Longrightarrow> db_wf (db_apply c s)"
  by (cases c) (simp_all add: wf_db_apply_note wf_db_apply_other)

lemma wf_db_transport:
  assumes "db_wf s"
  shows "db_wf (snd (db_send_changes rm cs s))" "db_wf (snd (db_receive_changes rm s))"
proof -
  have wf: "db_wf s'" if "transport_step s s'" for s'
  proof -
    have "wf_view s' = wf_view (disconnected s')" "wf_view s = wf_view (disconnected s)"
      by (simp_all add: wf_view_def disconnected_def)
    with that have "wf_view s' = wf_view s" by (simp add: transport_step_def)
    from db_wf_cong [OF this] assms show ?thesis by simp
  qed
  obtain r s' where "db_send_changes rm cs s = (r, s')" by (cases "db_send_changes rm cs s")
  with db_send_result [OF this] show "db_wf (snd (db_send_changes rm cs s))" by (auto intro: wf)
  from db_receive_result [of rm s] show "db_wf (snd (db_receive_changes rm s))" by (auto intro: wf)
qed

lemma wf_db_prune: "db_wf s \<Longrightarrow> db_wf (snd (db_prune_change_journal t s))"
  by (auto simp: db_prune_change_journal_def db_wf_def notes_keyed_def)

lemma wf_db_sync_time: "db_wf s \<Longrightarrow> db_wf (snd (db_update_sync_time t s))"
  by (auto simp: db_update_sync_time_def db_wf_def notes_keyed_def)

lemma db_step_wf: "db_step s s' \<Longrightarrow> db_wf s \<Longrightarrow> db_wf s'"
  by (induction rule: db_step.induct)
    (simp_all add: wf_db_create_note wf_db_update_note wf_db_delete_note wf_db_notebooks wf_db_tags wf_db_assocs
      wf_db_resources wf_db_transport wf_db_prune wf_db_sync_time db_apply_change_def wf_db_apply)

section \<open>Properties\<close>

lemma db_new_wf: "db_wf ((empty_db device)\<lparr>db_clock := clock, db_server_url := url, db_ws_events := events\<rparr>)"
  by (simp add: db_wf_def notes_keyed_def empty_db_def)

lemma reachable_wf: "db_reachable s \<Longrightarrow> db_wf s"
  by (induction rule: db_reachable.induct) (auto intro: db_new_wf db_step_wf)

text \<open>
  C16. In every state the SQL backend reaches from a new database, by local operations, changes of
  other devices and synchronisation in any order, each row is stored under its own identifier, the
  link index holds exactly the link targets of the stored notes, and every journal row decodes to a
  change.
\<close>

theorem db_reachable_invariant:
  assumes "db_reachable s"
  shows "(\<forall>i n. fmlookup (db_notes s) i = Some n \<longrightarrow> n_id n = i) \<and>
    (\<forall>i nb. fmlookup (db_notebooks s) i = Some nb \<longrightarrow> nb_id nb = i) \<and>
    (\<forall>i g. fmlookup (db_tags s) i = Some g \<longrightarrow> t_id g = i) \<and>
    (\<forall>i row. fmlookup (db_resources s) i = Some row \<longrightarrow> r_id (rr_resource row) = i) \<and>
    (\<forall>i j. (i, j) |\<in>| db_note_links s \<longleftrightarrow>
       (\<exists>n l. fmlookup (db_notes s) i = Some n \<and> l \<in> set (n_links n) \<and> l_target_note_id l = Some j)) \<and>
    (\<forall>row\<in>set (db_entity_changes s). \<exists>c. row_to_change row = Some c)"
  using reachable_wf [OF assms] by (auto simp: db_wf_def notes_keyed_def fmpred_iff link_targets_def decodes_def)

definition linked_note :: Note where
  "linked_note = sample_note\<lparr>n_links := [\<lparr>l_source = Content, l_raw = ''m'', l_target_note_id = Some 9\<rparr>]\<rparr>"

definition linked_db :: Db where
  "linked_db = snd (db_create_note linked_note (empty_db ''A''))"

lemma linked_db_reachable: "db_reachable linked_db"
proof -
  have "(empty_db ''A'')\<lparr>db_clock := int, db_server_url := [], db_ws_events := []\<rparr> = empty_db ''A''"
    by (simp add: empty_db_def)
  with reach_new [where device = "''A''" and clock = int and url = "[]" and events = "[]"] have "db_reachable (empty_db ''A'')" by simp
  then show ?thesis unfolding linked_db_def by (rule reach_step) (rule step_create_note)
qed

lemma linked_db_note: "\<exists>n. fmlookup (db_notes linked_db) 7 = Some n \<and> n_links n = n_links linked_note \<and>
  n_created_at n = 100 \<and> n_deleted_at n = None \<and> n_id n = 7"
  by (simp add: linked_db_def db_create_note_def transaction_def Let_def empty_db_def record_change_def db_now_def
      refresh_note_links_def linked_note_def sample_note_def new_note_def)

theorem db_reachable_invariant_witness: "(7, 9) |\<in>| db_note_links linked_db"
  using db_reachable_invariant [OF linked_db_reachable] linked_db_note
  by (fastforce simp: linked_note_def)

text \<open>
  C17. The link index answers what a scan would: in every reachable state, paging through the
  backlinks of a note by the index lists the same notes, in the same order, as the storage
  interface's own method, which scans all notes for a link to the target.
\<close>

theorem db_backlinks_equal_scan:
  assumes "db_reachable s"
    and "ts_text_ok tc (n_created_at ` set (rows_of (db_notes s)))" and "uuid_text_ok (uuid_text.truncate tc)"
    and "length (rows_of (db_notes s)) \<le> Suc fuel * unat (effective_page_size n)"
    and "length (rows_of (db_notes s)) \<le> Suc fuel * unat (effective_page_size 0)"
  shows "\<exists>items. walk_pages (Suc fuel) (\<lambda>t. projr (fst (note_backlinks (db_backend tc rm) target n t s))) None = Some items \<and>
    collect_pages (Suc fuel) (list_notes (db_backend tc rm))
      (\<lambda>n. list_ex (\<lambda>l. l_target_note_id l = Some target) (n_links n)) None [] s = Some (Inr items, s)"
proof -
  let ?key = "\<lambda>n. created_key tc (n_created_at n) (n_id n)"
  let ?live = "\<lambda>n. n_deleted_at n = None"
  let ?linked = "\<lambda>n. list_ex (\<lambda>l. l_target_note_id l = Some target) (n_links n)"
  let ?all = "filter ?live (rows_of (db_notes s))"
  let ?bl = "filter (\<lambda>n. (n_id n, target) |\<in>| db_note_links s \<and> ?live n) (rows_of (db_notes s))"
  have wf: "db_wf s" using assms(1) by (rule reachable_wf)
  have "distinct (map n_id (rows_of (db_notes s)))"
    using rows_of_distinct [of "db_notes s" n_id] wf_keyed(1) [OF wf] by blast
  then have dist: "distinct (map n_id ?all)" "distinct (map n_id ?bl)" by (rule distinct_map_filter)+
  have ok: "ts_text_ok tc (n_created_at ` set ?all)" "ts_text_ok tc (n_created_at ` set ?bl)"
    by (rule ts_text_ok_subset [OF assms(2)]; auto)+
  have "(n_id n, target) |\<in>| db_note_links s \<longleftrightarrow> ?linked n" if "n \<in> set (rows_of (db_notes s))" for n
  proof -
    from that obtain i where "fmlookup (db_notes s) i = Some n" by (auto simp: rows_of_mem)
    with wf wf_keyed(1) [OF wf this] show ?thesis
      by (auto simp: db_wf_def link_targets_def list_ex_iff)
  qed
  then have backs: "?bl = filter ?linked ?all" by (auto simp: filter_filter intro: filter_cong)
  have "walk_pages (Suc fuel) (\<lambda>t. sql_page n t ?key ?bl) None = Some (sort_key ?key ?bl)"
    by (rule created_walk(1) [OF ok(2) assms(3) dist(2) le_trans [OF length_filter_le assms(4)]])
  moreover have "walk_pages (Suc fuel) (\<lambda>t. sql_page 0 t ?key ?all) None = Some (sort_key ?key ?all)"
    by (rule created_walk(1) [OF ok(1) assms(3) dist(1) le_trans [OF length_filter_le assms(5)]])
  then have "collect_pages (Suc fuel) (db_list_notes tc) ?linked None [] s = Some (Inr ([] @ filter ?linked (sort_key ?key ?all)), s)"
    by (rule collect_pages_walk [rotated]) (simp add: db_list_notes_def)
  moreover have "filter ?linked (sort_key ?key ?all) = sort_key ?key ?bl"
    unfolding backs by (rule filter_sort)
  ultimately show ?thesis
    by (intro exI [of _ "sort_key ?key ?bl"])
      (simp add: db_backend_def db_note_backlinks_def del: walk_pages.simps collect_pages.simps)
qed

lemma linked_db_rows: "rows_of (db_notes linked_db) = [the (fmlookup (db_notes linked_db) 7)]"
proof -
  have "fmdom (db_notes linked_db) = {|7|}"
    by (simp add: linked_db_def db_create_note_def transaction_def Let_def empty_db_def record_change_def db_now_def
      refresh_note_links_def linked_note_def sample_note_def new_note_def)
  then show ?thesis by (simp add: rows_of_eq sorted_list_of_fset.rep_eq)
qed

lemma linked_db_times: "ts_text_ok unary_codec (n_created_at ` set (rows_of (db_notes linked_db)))"
  using linked_db_note
  by (auto simp: linked_db_rows ts_text_ok_def strict_mono_on_def unary_codec_def uuid_text.extend_def bar_def)

theorem db_backlinks_equal_scan_witness:
  "\<exists>items. walk_pages (Suc 0) (\<lambda>t. projr (fst (note_backlinks (db_backend unary_codec offline) 9 0 t linked_db))) None = Some items \<and>
    collect_pages (Suc 0) (list_notes (db_backend unary_codec offline))
      (\<lambda>n. list_ex (\<lambda>l. l_target_note_id l = Some 9) (n_links n)) None [] linked_db = Some (Inr items, linked_db)"
proof (rule db_backlinks_equal_scan [OF linked_db_reachable linked_db_times])
  show "length (rows_of (db_notes linked_db)) \<le> Suc 0 * unat (effective_page_size 0)"
    "length (rows_of (db_notes linked_db)) \<le> Suc 0 * unat (effective_page_size 0)"
    by (simp_all add: linked_db_rows effective_page_size_def DEFAULT_PAGE_SIZE_def)
qed (rule unary_codec_ok)

end
