(* ===== verification/Migrate.thy ===== *)
theory Migrate
  imports Db_Invariant
begin

text \<open>
  Copying one backend into another, \<open>keeplin-core/src/migrate.rs\<close>: over any two backends, and its
  result between SQL backends. The state is the pair of the two stores. The page loops take fuel, a
  number of pages for each listing; \<open>None\<close> is a walk that has not ended.
\<close>

definition PAGE :: u32 where
  "PAGE = 500"

record MigrationReport =
  mr_notebooks :: nat
  mr_tags :: nat
  mr_notes :: nat
  mr_note_tags :: nat
  mr_resources :: nat

type_synonym ('a, 's, 't) migrating = "'s \<times> 't \<Rightarrow> ('a, 's \<times> 't) op option"

definition on_src :: "('a, 's) act \<Rightarrow> ('a, 's, 't) migrating" where
  "on_src act st = (let (r, s) = act (fst st) in Some (r, (s, snd st)))"

definition on_dst :: "('a, 't) act \<Rightarrow> ('a, 's, 't) migrating" where
  "on_dst act st = (let (r, t) = act (snd st) in Some (r, (fst st, t)))"

fun collect :: "nat \<Rightarrow> (string option \<Rightarrow> ('a list \<times> string option, 's) act) \<Rightarrow> string option \<Rightarrow> 'a list \<Rightarrow> ('a list, 's, 't) migrating" where
  "collect 0 page token out st = None"
| "collect (Suc fuel) page token out st =
    fuel_then (on_src (page token) st) (\<lambda>(items, next_token) st.
      let out = out @ items in
      case next_token of
        None \<Rightarrow> Some (Inr out, st)
      | Some t \<Rightarrow> collect fuel page (Some t) out st)"

text \<open>A loop over items whose body returns the number of records it has written.\<close>

fun for_each :: "('a \<Rightarrow> (nat, 's, 't) migrating) \<Rightarrow> 'a list \<Rightarrow> nat \<Rightarrow> (nat, 's, 't) migrating" where
  "for_each body [] n st = Some (Inr n, st)"
| "for_each body (x # xs) n st = fuel_then (body x st) (\<lambda>k st. for_each body xs (n + k) st)"

definition counted :: "('a, 's, 't) migrating \<Rightarrow> (nat, 's, 't) migrating" where
  "counted act st = fuel_then (act st) (\<lambda>_ st. Some (Inr 1, st))"

definition migrate_note_tags :: "nat \<Rightarrow> 's backend \<Rightarrow> 't backend \<Rightarrow> Note \<Rightarrow> (nat, 's, 't) migrating" where
  "migrate_note_tags fuel src dst note st =
    fuel_then (collect fuel (list_note_tags src (n_id note) PAGE) None [] st) (\<lambda>tags st.
      for_each (\<lambda>tag. counted (on_dst (add_note_tag dst \<lparr>nt_note_id = n_id note, nt_tag_id = t_id tag\<rparr>))) tags 0 st)"

definition migrate_resource :: "'s backend \<Rightarrow> 't backend \<Rightarrow> Resource \<Rightarrow> (nat, 's, 't) migrating" where
  "migrate_resource src dst meta st =
    fuel_then (on_src (read_resource src (r_id meta)) st) (\<lambda>(resource, data) st.
      counted (on_dst (create_resource dst resource data)) st)"

definition migrate :: "nat \<Rightarrow> 's backend \<Rightarrow> 't backend \<Rightarrow> (MigrationReport, 's, 't) migrating" where
  "migrate fuel src dst st =
    fuel_then (collect fuel (list_notebooks src PAGE) None [] st) (\<lambda>notebooks st.
    fuel_then (for_each (\<lambda>nb. counted (on_dst (create_notebook dst nb))) notebooks 0 st) (\<lambda>n_notebooks st.
    fuel_then (collect fuel (list_tags src PAGE) None [] st) (\<lambda>tags st.
    fuel_then (for_each (\<lambda>tag. counted (on_dst (create_tag dst tag))) tags 0 st) (\<lambda>n_tags st.
    fuel_then (collect fuel (list_notes src PAGE) None [] st) (\<lambda>notes st.
    fuel_then (for_each (\<lambda>n. counted (on_dst (create_note dst n))) notes 0 st) (\<lambda>n_notes st.
    fuel_then (for_each (migrate_note_tags fuel src dst) notes 0 st) (\<lambda>n_note_tags st.
    fuel_then (collect fuel (list_resources src PAGE) None [] st) (\<lambda>metas st.
    fuel_then (for_each (migrate_resource src dst) metas 0 st) (\<lambda>n_resources st.
      Some (Inr \<lparr>mr_notebooks = n_notebooks, mr_tags = n_tags, mr_notes = n_notes,
        mr_note_tags = n_note_tags, mr_resources = n_resources\<rparr>, st))))))))))"

section \<open>The loops\<close>

lemma collect_walk:
  assumes "\<And>t. page t s = (Inr (pg t), s)" and "walk_pages fuel pg token = Some items"
  shows "collect fuel page token out (s, d) = Some (Inr (out @ items), (s, d))"
  using assms(2)
proof (induction fuel arbitrary: token out items)
  case (Suc fuel)
  then show ?case
    by (cases "pg token"; cases "snd (pg token)") (auto simp: assms(1) on_src_def Let_def)
qed simp

text \<open>
  A loop of writes on the destination: \<open>obs\<close> is what a write changes, \<open>frame\<close> what it leaves alone.
\<close>

lemma for_each_writes:
  assumes "\<And>x u. x \<in> set xs \<Longrightarrow> frame u = frame d \<Longrightarrow> ok x (obs u) \<Longrightarrow>
      \<exists>u'. body x (s, u) = Some (Inr (cnt x), (s, u')) \<and> obs u' = upd x (obs u) \<and> frame u' = frame u"
    and "\<And>ys x zs. xs = ys @ x # zs \<Longrightarrow> ok x (fold upd ys (obs d))"
  shows "\<exists>d'. for_each body xs n (s, d) = Some (Inr (n + sum_list (map cnt xs)), (s, d')) \<and>
    obs d' = fold upd xs (obs d) \<and> frame d' = frame d"
  using assms
proof (induction xs arbitrary: n d)
  case (Cons x xs)
  from Cons.prems(2) [of "[]" x xs] have "ok x (obs d)" by simp
  with Cons.prems(1) [of x d] obtain u where
    u: "body x (s, d) = Some (Inr (cnt x), (s, u))" "obs u = upd x (obs d)" "frame u = frame d" by auto
  have "\<exists>d'. for_each body xs (n + cnt x) (s, u) = Some (Inr (n + cnt x + sum_list (map cnt xs)), (s, d')) \<and>
    obs d' = fold upd xs (obs u) \<and> frame d' = frame u"
  proof (rule Cons.IH)
    fix y v
    assume "y \<in> set xs" "frame v = frame u" "ok y (obs v)"
    then show "\<exists>u'. body y (s, v) = Some (Inr (cnt y), (s, u')) \<and> obs u' = upd y (obs v) \<and> frame u' = frame v"
      using Cons.prems(1) [of y v] u(3) by simp
  next
    fix ys y zs
    assume "xs = ys @ y # zs"
    then show "ok y (fold upd ys (obs u))" using Cons.prems(2) [of "x # ys" y zs] u(2) by simp
  qed
  with u show ?case by (simp add: add.assoc)
qed simp

definition put_all :: "('a \<Rightarrow> 'k) \<Rightarrow> ('a \<Rightarrow> 'v) \<Rightarrow> 'a list \<Rightarrow> ('k, 'v) fmap \<Rightarrow> ('k, 'v) fmap" where
  "put_all ident val xs m = fold (\<lambda>x. fmupd (ident x) (val x)) xs m"

lemma put_all_other: "i \<notin> ident ` set xs \<Longrightarrow> fmlookup (put_all ident val xs m) i = fmlookup m i"
  by (induction xs arbitrary: m) (auto simp: put_all_def)

lemma put_all_lookup:
  "distinct (map ident xs) \<Longrightarrow> x \<in> set xs \<Longrightarrow> fmlookup (put_all ident val xs m) (ident x) = Some (val x)"
proof (induction xs arbitrary: m)
  case (Cons y xs)
  show ?case
  proof (cases "x \<in> set xs")
    case True
    with Cons show ?thesis by (simp add: put_all_def)
  next
    case False
    with Cons.prems put_all_other [of "ident y" ident xs val "fmupd (ident y) (val y) m"] show ?thesis
      by (auto simp: put_all_def)
  qed
qed simp

lemma put_all_dom: "fmdom (put_all ident val xs m) = fmdom m |\<union>| fset_of_list (map ident xs)"
  by (induction xs arbitrary: m) (auto simp: put_all_def)

lemma for_each_creates:
  assumes "\<And>x u. x \<in> set xs \<Longrightarrow> frame u = frame d \<Longrightarrow> ident x |\<notin>| fmdom (tab u) \<Longrightarrow>
      \<exists>u'. body x (s, u) = Some (Inr 1, (s, u')) \<and> tab u' = fmupd (ident x) (val x) (tab u) \<and> frame u' = frame u"
    and "distinct (map ident xs)" and "tab d = fmempty"
  shows "\<exists>d'. for_each body xs 0 (s, d) = Some (Inr (length xs), (s, d')) \<and>
    tab d' = put_all ident val xs fmempty \<and> frame d' = frame d"
proof -
  have "\<exists>d'. for_each body xs 0 (s, d) = Some (Inr (0 + sum_list (map (\<lambda>_. 1) xs)), (s, d')) \<and>
    tab d' = fold (\<lambda>x. fmupd (ident x) (val x)) xs (tab d) \<and> frame d' = frame d"
  proof (rule for_each_writes [where ok = "\<lambda>x m. ident x |\<notin>| fmdom m"])
    fix ys x zs
    assume "xs = ys @ x # zs"
    with assms(2,3) show "ident x |\<notin>| fmdom (fold (\<lambda>x. fmupd (ident x) (val x)) ys (tab d))"
      using put_all_dom [of ident val ys fmempty] by (auto simp: put_all_def fset_of_list_elem)
  qed (rule assms(1))
  then show ?thesis by (simp add: put_all_def assms(3) sum_list_triv)
qed

lemma counted_act: "act u = (Inr r, u') \<Longrightarrow> counted (on_dst act) (s, u) = Some (Inr 1, (s, u'))"
  by (simp add: counted_def on_dst_def)

section \<open>Between SQL backends\<close>

text \<open>The copy of a table: its live rows, each as the destination stamps it.\<close>

definition copied :: "('v \<Rightarrow> bool) \<Rightarrow> ('v \<Rightarrow> 'v) \<Rightarrow> (uuid, 'v) fmap \<Rightarrow> (uuid, 'v) fmap" where
  "copied live stamp m = fmmap stamp (fmfilter (\<lambda>i. case fmlookup m i of None \<Rightarrow> False | Some v \<Rightarrow> live v) m)"

lemma copied_lookup: "fmlookup (copied live stamp m) i =
    (case fmlookup m i of None \<Rightarrow> None | Some v \<Rightarrow> if live v then Some (stamp v) else None)"
  by (auto simp: copied_def split: option.split)

lemma put_all_copied:
  assumes "\<And>i v. fmlookup m i = Some v \<Longrightarrow> ident v = i" and "distinct (map ident xs)"
    and "set xs = {v. live v \<and> v \<in> set (rows_of m)}"
  shows "put_all ident stamp xs fmempty = copied live stamp m"
proof (rule fmap_ext)
  fix i
  show "fmlookup (put_all ident stamp xs fmempty) i = fmlookup (copied live stamp m) i"
  proof (cases "\<exists>v\<in>set xs. ident v = i")
    case True
    then obtain v where v: "v \<in> set xs" "ident v = i" by blast
    with assms(1,3) have "fmlookup m i = Some v" "live v" by (auto simp: rows_of_mem)
    with v put_all_lookup [OF assms(2) v(1), of stamp fmempty] show ?thesis by (simp add: copied_lookup)
  next
    case False
    then have "i \<notin> ident ` set xs" by blast
    moreover have "\<not> live v" if "fmlookup m i = Some v" for v
      using False assms(1,3) that by (auto simp: rows_of_mem)
    ultimately show ?thesis
      by (auto simp: put_all_other copied_lookup split: option.split)
  qed
qed

definition stamp_note :: "string \<Rightarrow> Note \<Rightarrow> Note" where
  "stamp_note d n = n\<lparr>n_vv := next_local_vv None d, n_last_writer := d\<rparr>"

definition stamp_notebook :: "string \<Rightarrow> Notebook \<Rightarrow> Notebook" where
  "stamp_notebook d nb = nb\<lparr>nb_vv := next_local_vv None d, nb_last_writer := d\<rparr>"

definition stamp_tag :: "string \<Rightarrow> Tag \<Rightarrow> Tag" where
  "stamp_tag d g = g\<lparr>t_vv := next_local_vv None d, t_last_writer := d\<rparr>"

definition stamp_row :: "string \<Rightarrow> ResRow \<Rightarrow> ResRow" where
  "stamp_row d row = row\<lparr>rr_resource := (rr_resource row)\<lparr>r_vv := next_local_vv None d, r_last_writer := d\<rparr>\<rparr>"

definition live_assocs :: "Db \<Rightarrow> (uuid \<times> uuid) set" where
  "live_assocs s = {k. \<exists>a. fmlookup (db_note_tags s) k = Some a \<and> as_deleted_at a = None}"

lemma create_notebook_step:
  assumes "nb_id nb |\<notin>| fmdom (db_notebooks u)"
  shows "\<exists>r u'. db_create_notebook nb u = (Inr r, u') \<and>
    db_notebooks u' = fmupd (nb_id nb) (stamp_notebook (db_device_id u) nb) (db_notebooks u) \<and>
    db_tags u' = db_tags u \<and> db_notes u' = db_notes u \<and> db_note_tags u' = db_note_tags u \<and>
    db_resources u' = db_resources u \<and> db_device_id u' = db_device_id u"
  using assms
  by (auto simp: db_create_notebook_def transaction_def Let_def notebook_meta_def record_change_def db_now_def
      stamp_notebook_def fmlookup_dom_iff split: option.splits)

lemma create_tag_step:
  assumes "t_id g |\<notin>| fmdom (db_tags u)"
  shows "\<exists>r u'. db_create_tag g u = (Inr r, u') \<and>
    db_tags u' = fmupd (t_id g) (stamp_tag (db_device_id u) g) (db_tags u) \<and>
    db_notebooks u' = db_notebooks u \<and> db_notes u' = db_notes u \<and> db_note_tags u' = db_note_tags u \<and>
    db_resources u' = db_resources u \<and> db_device_id u' = db_device_id u"
  using assms
  by (auto simp: db_create_tag_def transaction_def Let_def tag_meta_def record_change_def db_now_def
      stamp_tag_def fmlookup_dom_iff split: option.splits)

lemma create_note_step:
  assumes "n_id n |\<notin>| fmdom (db_notes u)"
  shows "\<exists>r u'. db_create_note n u = (Inr r, u') \<and>
    db_notes u' = fmupd (n_id n) (stamp_note (db_device_id u) n) (db_notes u) \<and>
    db_notebooks u' = db_notebooks u \<and> db_tags u' = db_tags u \<and> db_note_tags u' = db_note_tags u \<and>
    db_resources u' = db_resources u \<and> db_device_id u' = db_device_id u"
  using assms
  by (auto simp: db_create_note_def transaction_def Let_def note_meta_def record_change_def db_now_def
      refresh_note_links_def stamp_note_def fmlookup_dom_iff split: option.splits)

lemma create_resource_step:
  assumes "r_id r |\<notin>| fmdom (db_resources u)"
  shows "\<exists>r' u'. db_create_resource r data u = (Inr r', u') \<and>
    db_resources u' = fmupd (r_id r) (stamp_row (db_device_id u) \<lparr>rr_resource = r, rr_data = Some data\<rparr>) (db_resources u) \<and>
    db_notebooks u' = db_notebooks u \<and> db_tags u' = db_tags u \<and> db_notes u' = db_notes u \<and>
    db_note_tags u' = db_note_tags u \<and> db_device_id u' = db_device_id u"
  using assms
  by (auto simp: db_create_resource_def transaction_def Let_def resource_meta_def record_change_def db_now_def
      stamp_row_def fmlookup_dom_iff split: option.splits)

lemma add_note_tag_step:
  assumes "note_is_live u i" "tag_is_live u j"
  shows "\<exists>u'. db_add_note_tag \<lparr>nt_note_id = i, nt_tag_id = j\<rparr> u = (Inr (), u') \<and>
    live_assocs u' = insert (i, j) (live_assocs u) \<and>
    db_notebooks u' = db_notebooks u \<and> db_tags u' = db_tags u \<and> db_notes u' = db_notes u \<and>
    db_resources u' = db_resources u \<and> db_device_id u' = db_device_id u"
  using assms
  by (auto simp: db_add_note_tag_def transaction_def Let_def record_change_def db_now_def upsert_assoc_def
      live_assocs_def note_is_live_def tag_is_live_def)

lemma unat_PAGE: "unat (effective_page_size PAGE) = 500"
  by (simp add: effective_page_size_def PAGE_def MAX_PAGE_SIZE_def)

lemma collect_listing:
  assumes "\<And>t. page t s = (Inr (sql_page PAGE t (\<lambda>r. created_key tc (created r) (ident r)) rows), s)"
    and "ts_text_ok tc (created ` T)" and "set rows \<subseteq> T" and "uuid_text_ok (uuid_text.truncate tc)"
    and "distinct (map ident rows)" and "length rows \<le> Suc fuel * 500"
  shows "\<exists>items. collect (Suc fuel) page None [] (s, d) = Some (Inr items, (s, d)) \<and>
    set items = set rows \<and> distinct (map ident items) \<and> length items = length rows"
proof -
  let ?key = "\<lambda>r. created_key tc (created r) (ident r)"
  have "ts_text_ok tc (created ` set rows)" by (rule ts_text_ok_subset [OF assms(2)]) (use assms(3) in auto)
  from created_walk(1) [OF this assms(4,5), of fuel PAGE] assms(6)
  have "walk_pages (Suc fuel) (\<lambda>t. sql_page PAGE t ?key rows) None = Some (sort_key ?key rows)"
    by (simp only: unat_PAGE)
  from collect_walk [where page = page and s = s and pg = "\<lambda>t. sql_page PAGE t ?key rows", OF assms(1) this, of "[]" d]
  have "collect (Suc fuel) page None [] (s, d) = Some (Inr (sort_key ?key rows), (s, d))" by simp
  moreover have "distinct (map ident (sort_key ?key rows))"
    using assms(5) by (simp add: distinct_map)
  ultimately show ?thesis by (intro exI [of _ "sort_key ?key rows"]) simp
qed

lemma fold_union: "fold (\<lambda>x S. S \<union> f x) xs A = A \<union> (\<Union>x\<in>set xs. f x)"
  by (induction xs arbitrary: A) auto

definition tags_of :: "Db \<Rightarrow> uuid \<Rightarrow> Tag list" where
  "tags_of s i = filter (\<lambda>t. t_deleted_at t = None \<and>
     (case fmlookup (db_note_tags s) (i, t_id t) of None \<Rightarrow> False | Some a \<Rightarrow> as_deleted_at a = None))
   (rows_of (db_tags s))"

definition assoc_frame :: "Db \<Rightarrow> _" where
  "assoc_frame u = (db_notebooks u, db_tags u, db_notes u, db_resources u, db_device_id u)"

lemma assoc_frame_live:
  "assoc_frame u = assoc_frame d \<Longrightarrow> note_is_live u = note_is_live d"
  "assoc_frame u = assoc_frame d \<Longrightarrow> tag_is_live u = tag_is_live d"
  by (simp_all add: assoc_frame_def note_is_live_def tag_is_live_def fun_eq_iff)

lemma migrate_note_tags_step:
  assumes "db_wf s" "ts_text_ok tc (t_created_at ` set (rows_of (db_tags s)))" "uuid_text_ok (uuid_text.truncate tc)"
    and "length (rows_of (db_tags s)) \<le> Suc fuel * 500"
    and "note_is_live u (n_id n)" "\<forall>g\<in>set (tags_of s (n_id n)). tag_is_live u (t_id g)"
  shows "\<exists>u'. migrate_note_tags (Suc fuel) (db_backend tc rm) (db_backend tc rm') n (s, u) =
      Some (Inr (length (tags_of s (n_id n))), (s, u')) \<and>
    live_assocs u' = live_assocs u \<union> (\<lambda>g. (n_id n, t_id g)) ` set (tags_of s (n_id n)) \<and>
    assoc_frame u' = assoc_frame u"
proof -
  let ?add = "\<lambda>g. counted (on_dst (db_add_note_tag \<lparr>nt_note_id = n_id n, nt_tag_id = t_id g\<rparr>))"
  have "distinct (map t_id (rows_of (db_tags s)))"
    using rows_of_distinct [of "db_tags s" t_id] wf_keyed(3) [OF assms(1)] by blast
  then have dist: "distinct (map t_id (tags_of s (n_id n)))" unfolding tags_of_def by (rule distinct_map_filter)
  have len: "length (tags_of s (n_id n)) \<le> Suc fuel * 500"
    using assms(4) by (simp add: tags_of_def le_trans [OF length_filter_le])
  have "list_note_tags (db_backend tc rm) (n_id n) PAGE t s =
      (Inr (sql_page PAGE t (\<lambda>r. created_key tc (t_created_at r) (t_id r)) (tags_of s (n_id n))), s)" for t
    by (simp add: db_backend_def db_list_note_tags_def tags_of_def)
  from collect_listing [where page = "list_note_tags (db_backend tc rm) (n_id n) PAGE" and
      rows = "tags_of s (n_id n)", OF this assms(2) _ assms(3) dist len, of u] obtain tags where
    tags: "collect (Suc fuel) (list_note_tags (db_backend tc rm) (n_id n) PAGE) None [] (s, u) = Some (Inr tags, (s, u))"
      "set tags = set (tags_of s (n_id n))" "length tags = length (tags_of s (n_id n))"
    by (auto simp: tags_of_def)
  have "\<exists>u'. for_each ?add tags 0 (s, u) = Some (Inr (0 + sum_list (map (\<lambda>_. 1) tags)), (s, u')) \<and>
    live_assocs u' = fold (\<lambda>g S. S \<union> {(n_id n, t_id g)}) tags (live_assocs u) \<and> assoc_frame u' = assoc_frame u"
  proof (rule for_each_writes [where ok = "\<lambda>_ _. True"])
    fix g v
    assume "g \<in> set tags" and frame: "assoc_frame v = assoc_frame u"
    with tags(2) assms(5,6) assoc_frame_live [OF frame]
    have "note_is_live v (n_id n)" "tag_is_live v (t_id g)" by simp_all
    from add_note_tag_step [OF this] obtain v' where
      "db_add_note_tag \<lparr>nt_note_id = n_id n, nt_tag_id = t_id g\<rparr> v = (Inr (), v')"
      "live_assocs v' = insert (n_id n, t_id g) (live_assocs v)" "assoc_frame v' = assoc_frame v"
      unfolding assoc_frame_def by blast
    then show "\<exists>u'. ?add g (s, v) = Some (Inr 1, (s, u')) \<and>
        live_assocs u' = live_assocs v \<union> {(n_id n, t_id g)} \<and> assoc_frame u' = assoc_frame v"
      by (intro exI [of _ v']) (simp add: counted_def on_dst_def)
  qed simp
  then obtain u' where "for_each ?add tags 0 (s, u) = Some (Inr (length tags), (s, u'))"
    "live_assocs u' = live_assocs u \<union> (\<Union>g\<in>set tags. {(n_id n, t_id g)})" "assoc_frame u' = assoc_frame u"
    unfolding fold_union by (auto simp: sum_list_triv)
  then show ?thesis
    using tags by (auto simp: migrate_note_tags_def db_backend_def)
qed

abbreviation live_note :: "Note \<Rightarrow> bool" where "live_note n \<equiv> n_deleted_at n = None"
abbreviation live_notebook :: "Notebook \<Rightarrow> bool" where "live_notebook nb \<equiv> nb_deleted_at nb = None"
abbreviation live_tag :: "Tag \<Rightarrow> bool" where "live_tag g \<equiv> t_deleted_at g = None"
abbreviation live_row :: "ResRow \<Rightarrow> bool" where "live_row row \<equiv> r_deleted_at (rr_resource row) = None"

text \<open>
  What a source has to be for a migration: well-formed, its timestamps rendered monotonely, no table
  longer than the pages walked, and the payload of every live resource present.
\<close>

definition migratable :: "'c text_codec_scheme \<Rightarrow> nat \<Rightarrow> Db \<Rightarrow> bool" where
  "migratable tc fuel s \<longleftrightarrow> db_wf s \<and> uuid_text_ok (uuid_text.truncate tc) \<and>
     ts_text_ok tc (nb_created_at ` set (rows_of (db_notebooks s))) \<and>
     ts_text_ok tc (t_created_at ` set (rows_of (db_tags s))) \<and>
     ts_text_ok tc (n_created_at ` set (rows_of (db_notes s))) \<and>
     ts_text_ok tc (r_created_at ` rr_resource ` set (rows_of (db_resources s))) \<and>
     length (rows_of (db_notebooks s)) \<le> Suc fuel * 500 \<and> length (rows_of (db_tags s)) \<le> Suc fuel * 500 \<and>
     length (rows_of (db_notes s)) \<le> Suc fuel * 500 \<and> length (rows_of (db_resources s)) \<le> Suc fuel * 500 \<and>
     (\<forall>row\<in>set (rows_of (db_resources s)). live_row row \<longrightarrow> rr_data row \<noteq> None)"

definition empty_tables :: "Db \<Rightarrow> bool" where
  "empty_tables d \<longleftrightarrow> db_notebooks d = fmempty \<and> db_tags d = fmempty \<and> db_notes d = fmempty \<and>
     db_note_tags d = fmempty \<and> db_resources d = fmempty"

text \<open>Listing the live rows of a table and writing each to the destination.\<close>

lemma migrate_table:
  assumes "\<And>t. page t s = (Inr (sql_page PAGE t (\<lambda>r. created_key tc (created r) (ident r)) (filter live (rows_of m))), s)"
    and "ts_text_ok tc (created ` set (rows_of m))" and "uuid_text_ok (uuid_text.truncate tc)"
    and "\<And>i v. fmlookup m i = Some v \<Longrightarrow> ident v = i" and "length (rows_of m) \<le> Suc fuel * 500"
    and "\<And>x u. live x \<Longrightarrow> x \<in> set (rows_of m) \<Longrightarrow> frame u = frame d \<Longrightarrow> ident x |\<notin>| fmdom (tab u) \<Longrightarrow>
      \<exists>u'. body x (s, u) = Some (Inr 1, (s, u')) \<and> tab u' = fmupd (ident x) (val x) (tab u) \<and> frame u' = frame u"
    and "tab d = fmempty"
  shows "\<exists>items d'. collect (Suc fuel) page None [] (s, d) = Some (Inr items, (s, d)) \<and>
    for_each body items 0 (s, d) = Some (Inr (length items), (s, d')) \<and>
    set items = {v. live v \<and> v \<in> set (rows_of m)} \<and> distinct (map ident items) \<and>
    length items = length (filter live (rows_of m)) \<and>
    tab d' = put_all ident val items fmempty \<and> frame d' = frame d"
proof -
  let ?rows = "filter live (rows_of m)"
  have dist: "distinct (map ident ?rows)"
    by (rule distinct_map_filter [OF rows_of_distinct]) (rule assms(4))
  have len: "length ?rows \<le> Suc fuel * 500"
    by (rule le_trans [OF length_filter_le assms(5)])
  have sub: "set ?rows \<subseteq> set (rows_of m)" by auto
  from collect_listing [where page = page and rows = ?rows and s = s, OF assms(1,2) sub assms(3) dist len, of d]
  obtain items where items: "collect (Suc fuel) page None [] (s, d) = Some (Inr items, (s, d))"
    "set items = set ?rows" "distinct (map ident items)" "length items = length ?rows" by blast
  have "\<exists>d'. for_each body items 0 (s, d) = Some (Inr (length items), (s, d')) \<and>
      tab d' = put_all ident val items fmempty \<and> frame d' = frame d"
    by (rule for_each_creates [where tab = tab and d = d and ident = ident and frame = frame, OF _ items(3) assms(7)],
        rule assms(6)) (auto simp: items(2))
  with items show ?thesis by auto
qed

lemma resource_page:
  "list_resources (db_backend tc rm) PAGE t s = (Inr (sql_page PAGE t (\<lambda>r. created_key tc (r_created_at r) (r_id r))
     (filter (\<lambda>r. r_deleted_at r = None) (rows_of (fmmap rr_resource (db_resources s))))), s)"
  by (simp add: db_backend_def db_list_resources_def rows_of_fmmap)

lemma migrate_resource_step:
  assumes "fmlookup (db_resources s) (r_id r) = Some row" "rr_resource row = r" "live_row row" "rr_data row = Some data"
    and "r_id r |\<notin>| fmdom (db_resources u)"
  shows "\<exists>u'. migrate_resource (db_backend tc rm) (db_backend tc rm') r (s, u) = Some (Inr 1, (s, u')) \<and>
    db_resources u' = fmupd (r_id r) (stamp_row (db_device_id u) row) (db_resources u) \<and>
    db_notebooks u' = db_notebooks u \<and> db_tags u' = db_tags u \<and> db_notes u' = db_notes u \<and>
    db_note_tags u' = db_note_tags u \<and> db_device_id u' = db_device_id u"
proof -
  have "stamp_row w \<lparr>rr_resource = r, rr_data = Some data\<rparr> = stamp_row w row" for w
    using assms(2,4) by (cases row) simp
  moreover from create_resource_step [OF assms(5), of data] obtain r' u' where
    "db_create_resource r data u = (Inr r', u')"
    "db_resources u' = fmupd (r_id r) (stamp_row (db_device_id u) \<lparr>rr_resource = r, rr_data = Some data\<rparr>) (db_resources u)"
    "db_notebooks u' = db_notebooks u" "db_tags u' = db_tags u" "db_notes u' = db_notes u"
    "db_note_tags u' = db_note_tags u" "db_device_id u' = db_device_id u" by blast
  ultimately show ?thesis
    using assms by (intro exI [of _ u'])
      (simp add: migrate_resource_def on_src_def db_backend_def db_read_resource_def counted_act)
qed

lemma tags_image:
  assumes "db_wf s"
  shows "(\<lambda>g. (i, t_id g)) ` set (tags_of s i) = {(i, j) |j. (i, j) \<in> live_assocs s \<and> tag_is_live s j}"
proof (intro set_eqI iffI; elim imageE CollectE exE conjE)
  fix p g
  assume "p = (i, t_id g)" "g \<in> set (tags_of s i)"
  then show "p \<in> {(i, j) |j. (i, j) \<in> live_assocs s \<and> tag_is_live s j}"
    using wf_keyed(3) [OF assms]
    by (auto simp: tags_of_def rows_of_mem live_assocs_def tag_is_live_def split: option.splits)
next
  fix p j
  assume p: "p = (i, j)" "(i, j) \<in> live_assocs s" "tag_is_live s j"
  then obtain g where g: "fmlookup (db_tags s) j = Some g" "t_deleted_at g = None"
    by (auto simp: tag_is_live_def split: option.splits)
  with wf_keyed(3) [OF assms g(1)] p have "g \<in> set (tags_of s i)"
    by (auto simp: tags_of_def rows_of_mem live_assocs_def)
  with p wf_keyed(3) [OF assms g(1)] show "p \<in> (\<lambda>g. (i, t_id g)) ` set (tags_of s i)" by auto
qed

text \<open>
  The note tags of all listed notes.
\<close>

lemma migrate_all_note_tags:
  assumes "migratable tc fuel s" "\<forall>n\<in>set notes. note_is_live d (n_id n) \<and> fmlookup (db_notes s) (n_id n) = Some n"
    and "\<And>g. g \<in> set (rows_of (db_tags s)) \<Longrightarrow> live_tag g \<Longrightarrow> tag_is_live d (t_id g)" and "live_assocs d = {}"
  shows "\<exists>k d'. for_each (migrate_note_tags (Suc fuel) (db_backend tc rm) (db_backend tc rm')) notes 0 (s, d) = Some (Inr k, (s, d')) \<and>
    live_assocs d' = {(i, j). (i, j) \<in> live_assocs s \<and> i \<in> n_id ` set notes \<and> tag_is_live s j} \<and>
    assoc_frame d' = assoc_frame d"
proof -
  let ?f = "\<lambda>n. (\<lambda>g. (n_id n, t_id g)) ` set (tags_of s (n_id n))"
  have wf: "db_wf s" and ok: "ts_text_ok tc (t_created_at ` set (rows_of (db_tags s)))" "uuid_text_ok (uuid_text.truncate tc)"
    "length (rows_of (db_tags s)) \<le> Suc fuel * 500" using assms(1) by (simp_all add: migratable_def)
  have "\<exists>d'. for_each (migrate_note_tags (Suc fuel) (db_backend tc rm) (db_backend tc rm')) notes 0 (s, d) =
      Some (Inr (0 + sum_list (map (\<lambda>n. length (tags_of s (n_id n))) notes)), (s, d')) \<and>
    live_assocs d' = fold (\<lambda>n S. S \<union> ?f n) notes (live_assocs d) \<and> assoc_frame d' = assoc_frame d"
  proof (rule for_each_writes [where ok = "\<lambda>_ _. True"])
    fix n u
    assume n: "n \<in> set notes" and frame: "assoc_frame u = assoc_frame d"
    have "note_is_live u (n_id n)" "\<forall>g\<in>set (tags_of s (n_id n)). tag_is_live u (t_id g)"
      using assoc_frame_live [OF frame] assms(2,3) n by (auto simp: tags_of_def)
    from migrate_note_tags_step [OF wf ok this, of rm rm']
    show "\<exists>u'. migrate_note_tags (Suc fuel) (db_backend tc rm) (db_backend tc rm') n (s, u) =
        Some (Inr (length (tags_of s (n_id n))), (s, u')) \<and>
      live_assocs u' = live_assocs u \<union> ?f n \<and> assoc_frame u' = assoc_frame u" .
  qed simp
  moreover have "(\<Union>n\<in>set notes. ?f n) = {(i, j). (i, j) \<in> live_assocs s \<and> i \<in> n_id ` set notes \<and> tag_is_live s j}"
    unfolding tags_image [OF wf] by auto
  ultimately show ?thesis unfolding fold_union assms(4) by fastforce
qed

text \<open>The phases, with the fields of the SQL backend.\<close>

lemma phase_notebooks:
  assumes "migratable tc fuel s" "db_notebooks d = fmempty"
  shows "\<exists>items d'. collect (Suc fuel) (list_notebooks (db_backend tc rm) PAGE) None [] (s, d) = Some (Inr items, (s, d)) \<and>
    for_each (\<lambda>x. counted (on_dst (create_notebook (db_backend tc rm') x))) items 0 (s, d) = Some (Inr (length items), (s, d')) \<and>
    set items = {v. live_notebook v \<and> v \<in> set (rows_of (db_notebooks s))} \<and>
    length items = length (filter live_notebook (rows_of (db_notebooks s))) \<and>
    db_notebooks d' = copied live_notebook (stamp_notebook (db_device_id d)) (db_notebooks s) \<and>
    db_tags d' = db_tags d \<and>
    db_notes d' = db_notes d \<and>
    db_note_tags d' = db_note_tags d \<and>
    db_resources d' = db_resources d \<and> db_device_id d' = db_device_id d"
proof -
  let ?frame = "\<lambda>u. (db_tags u, db_notes u, db_note_tags u, db_resources u, db_device_id u)"
  have ok: "ts_text_ok tc (nb_created_at ` set (rows_of (db_notebooks s)))" "uuid_text_ok (uuid_text.truncate tc)"
    "length (rows_of (db_notebooks s)) \<le> Suc fuel * 500" "db_wf s" using assms(1) by (simp_all add: migratable_def)
  have "\<exists>items d'. collect (Suc fuel) (list_notebooks (db_backend tc rm) PAGE) None [] (s, d) = Some (Inr items, (s, d)) \<and>
    for_each (\<lambda>x. counted (on_dst (create_notebook (db_backend tc rm') x))) items 0 (s, d) = Some (Inr (length items), (s, d')) \<and>
    set items = {v. live_notebook v \<and> v \<in> set (rows_of (db_notebooks s))} \<and> distinct (map nb_id items) \<and>
    length items = length (filter live_notebook (rows_of (db_notebooks s))) \<and>
    db_notebooks d' = put_all nb_id (stamp_notebook (db_device_id d)) items fmempty \<and> ?frame d' = ?frame d"
  proof (rule migrate_table [where created = nb_created_at and tc = tc])
    fix x :: Notebook and u :: Db
    assume "?frame u = ?frame d" "nb_id x |\<notin>| fmdom (db_notebooks u)"
    with create_notebook_step [OF this(2)]
    show "\<exists>u'. counted (on_dst (create_notebook (db_backend tc rm') x)) (s, u) = Some (Inr 1, (s, u')) \<and>
      db_notebooks u' = fmupd (nb_id x) (stamp_notebook (db_device_id d) x) (db_notebooks u) \<and> ?frame u' = ?frame u"
      by (auto simp: counted_def on_dst_def db_backend_def)
  qed (use ok wf_keyed(2) [OF ok(4)] assms(2) in \<open>simp_all add: db_backend_def db_list_notebooks_def\<close>)
  then show ?thesis using put_all_copied [where m = "db_notebooks s", OF wf_keyed(2) [OF ok(4)]] by fastforce
qed

lemma phase_tags:
  assumes "migratable tc fuel s" "db_tags d = fmempty"
  shows "\<exists>items d'. collect (Suc fuel) (list_tags (db_backend tc rm) PAGE) None [] (s, d) = Some (Inr items, (s, d)) \<and>
    for_each (\<lambda>x. counted (on_dst (create_tag (db_backend tc rm') x))) items 0 (s, d) = Some (Inr (length items), (s, d')) \<and>
    set items = {v. live_tag v \<and> v \<in> set (rows_of (db_tags s))} \<and>
    length items = length (filter live_tag (rows_of (db_tags s))) \<and>
    db_tags d' = copied live_tag (stamp_tag (db_device_id d)) (db_tags s) \<and>
    db_notebooks d' = db_notebooks d \<and>
    db_notes d' = db_notes d \<and>
    db_note_tags d' = db_note_tags d \<and>
    db_resources d' = db_resources d \<and> db_device_id d' = db_device_id d"
proof -
  let ?frame = "\<lambda>u. (db_notebooks u, db_notes u, db_note_tags u, db_resources u, db_device_id u)"
  have ok: "ts_text_ok tc (t_created_at ` set (rows_of (db_tags s)))" "uuid_text_ok (uuid_text.truncate tc)"
    "length (rows_of (db_tags s)) \<le> Suc fuel * 500" "db_wf s" using assms(1) by (simp_all add: migratable_def)
  have "\<exists>items d'. collect (Suc fuel) (list_tags (db_backend tc rm) PAGE) None [] (s, d) = Some (Inr items, (s, d)) \<and>
    for_each (\<lambda>x. counted (on_dst (create_tag (db_backend tc rm') x))) items 0 (s, d) = Some (Inr (length items), (s, d')) \<and>
    set items = {v. live_tag v \<and> v \<in> set (rows_of (db_tags s))} \<and> distinct (map t_id items) \<and>
    length items = length (filter live_tag (rows_of (db_tags s))) \<and>
    db_tags d' = put_all t_id (stamp_tag (db_device_id d)) items fmempty \<and> ?frame d' = ?frame d"
  proof (rule migrate_table [where created = t_created_at and tc = tc])
    fix x :: Tag and u :: Db
    assume "?frame u = ?frame d" "t_id x |\<notin>| fmdom (db_tags u)"
    with create_tag_step [OF this(2)]
    show "\<exists>u'. counted (on_dst (create_tag (db_backend tc rm') x)) (s, u) = Some (Inr 1, (s, u')) \<and>
      db_tags u' = fmupd (t_id x) (stamp_tag (db_device_id d) x) (db_tags u) \<and> ?frame u' = ?frame u"
      by (auto simp: counted_def on_dst_def db_backend_def)
  qed (use ok wf_keyed(3) [OF ok(4)] assms(2) in \<open>simp_all add: db_backend_def db_list_tags_def\<close>)
  then show ?thesis using put_all_copied [where m = "db_tags s", OF wf_keyed(3) [OF ok(4)]] by fastforce
qed

lemma phase_notes:
  assumes "migratable tc fuel s" "db_notes d = fmempty"
  shows "\<exists>items d'. collect (Suc fuel) (list_notes (db_backend tc rm) PAGE) None [] (s, d) = Some (Inr items, (s, d)) \<and>
    for_each (\<lambda>x. counted (on_dst (create_note (db_backend tc rm') x))) items 0 (s, d) = Some (Inr (length items), (s, d')) \<and>
    set items = {v. live_note v \<and> v \<in> set (rows_of (db_notes s))} \<and>
    length items = length (filter live_note (rows_of (db_notes s))) \<and>
    db_notes d' = copied live_note (stamp_note (db_device_id d)) (db_notes s) \<and>
    db_notebooks d' = db_notebooks d \<and>
    db_tags d' = db_tags d \<and>
    db_note_tags d' = db_note_tags d \<and>
    db_resources d' = db_resources d \<and> db_device_id d' = db_device_id d"
proof -
  let ?frame = "\<lambda>u. (db_notebooks u, db_tags u, db_note_tags u, db_resources u, db_device_id u)"
  have ok: "ts_text_ok tc (n_created_at ` set (rows_of (db_notes s)))" "uuid_text_ok (uuid_text.truncate tc)"
    "length (rows_of (db_notes s)) \<le> Suc fuel * 500" "db_wf s" using assms(1) by (simp_all add: migratable_def)
  have "\<exists>items d'. collect (Suc fuel) (list_notes (db_backend tc rm) PAGE) None [] (s, d) = Some (Inr items, (s, d)) \<and>
    for_each (\<lambda>x. counted (on_dst (create_note (db_backend tc rm') x))) items 0 (s, d) = Some (Inr (length items), (s, d')) \<and>
    set items = {v. live_note v \<and> v \<in> set (rows_of (db_notes s))} \<and> distinct (map n_id items) \<and>
    length items = length (filter live_note (rows_of (db_notes s))) \<and>
    db_notes d' = put_all n_id (stamp_note (db_device_id d)) items fmempty \<and> ?frame d' = ?frame d"
  proof (rule migrate_table [where created = n_created_at and tc = tc])
    fix x :: Note and u :: Db
    assume "?frame u = ?frame d" "n_id x |\<notin>| fmdom (db_notes u)"
    with create_note_step [OF this(2)]
    show "\<exists>u'. counted (on_dst (create_note (db_backend tc rm') x)) (s, u) = Some (Inr 1, (s, u')) \<and>
      db_notes u' = fmupd (n_id x) (stamp_note (db_device_id d) x) (db_notes u) \<and> ?frame u' = ?frame u"
      by (auto simp: counted_def on_dst_def db_backend_def)
  qed (use ok wf_keyed(1) [OF ok(4)] assms(2) in \<open>simp_all add: db_backend_def db_list_notes_def\<close>)
  then show ?thesis using put_all_copied [where m = "db_notes s", OF wf_keyed(1) [OF ok(4)]] by fastforce
qed

lemma put_all_resources:
  assumes "\<And>i row. fmlookup m i = Some row \<Longrightarrow> r_id (rr_resource row) = i" and "distinct (map r_id items)"
    and "set items = {r. r_deleted_at r = None \<and> r \<in> set (rows_of (fmmap rr_resource m))}"
  shows "put_all r_id (\<lambda>r. stamp (the (fmlookup m (r_id r)))) items fmempty = copied live_row stamp m"
proof (rule fmap_ext)
  fix i
  let ?val = "\<lambda>r. stamp (the (fmlookup m (r_id r)))"
  have items: "r \<in> set items \<longleftrightarrow> (\<exists>row. fmlookup m (r_id r) = Some row \<and> r = rr_resource row \<and> live_row row)" for r
    using assms(1,3) by (auto simp: rows_of_mem fmlookup_map)
  show "fmlookup (put_all r_id ?val items fmempty) i = fmlookup (copied live_row stamp m) i"
  proof (cases "\<exists>r\<in>set items. r_id r = i")
    case True
    then obtain r where r: "r \<in> set items" "r_id r = i" by blast
    with items [of r] put_all_lookup [OF assms(2) r(1), of ?val fmempty] show ?thesis
      by (auto simp: copied_lookup)
  next
    case False
    then have "i \<notin> r_id ` set items" by blast
    moreover have "\<not> live_row row" if "fmlookup m i = Some row" for row
      using False that items [of "rr_resource row"] assms(1) [OF that] by auto
    ultimately show ?thesis by (auto simp: put_all_other copied_lookup split: option.split)
  qed
qed

lemma phase_resources:
  assumes "migratable tc fuel s" "db_resources d = fmempty"
  shows "\<exists>items d'. collect (Suc fuel) (list_resources (db_backend tc rm) PAGE) None [] (s, d) = Some (Inr items, (s, d)) \<and>
    for_each (migrate_resource (db_backend tc rm) (db_backend tc rm')) items 0 (s, d) = Some (Inr (length items), (s, d')) \<and>
    length items = length (filter live_row (rows_of (db_resources s))) \<and>
    db_resources d' = copied live_row (stamp_row (db_device_id d)) (db_resources s) \<and>
    db_notebooks d' = db_notebooks d \<and> db_tags d' = db_tags d \<and> db_notes d' = db_notes d \<and>
    db_note_tags d' = db_note_tags d"
proof -
  let ?frame = "\<lambda>u. (db_notebooks u, db_tags u, db_notes u, db_note_tags u, db_device_id u)"
  let ?m = "fmmap rr_resource (db_resources s)"
  let ?val = "\<lambda>r. stamp_row (db_device_id d) (the (fmlookup (db_resources s) (r_id r)))"
  have ok: "ts_text_ok tc (r_created_at ` set (rows_of ?m))" "uuid_text_ok (uuid_text.truncate tc)"
    "length (rows_of ?m) \<le> Suc fuel * 500" "db_wf s"
    "\<forall>row\<in>set (rows_of (db_resources s)). live_row row \<longrightarrow> rr_data row \<noteq> None"
    using assms(1) by (simp_all add: migratable_def rows_of_fmmap image_image)
  have "\<exists>items d'. collect (Suc fuel) (list_resources (db_backend tc rm) PAGE) None [] (s, d) = Some (Inr items, (s, d)) \<and>
    for_each (migrate_resource (db_backend tc rm) (db_backend tc rm')) items 0 (s, d) = Some (Inr (length items), (s, d')) \<and>
    set items = {r. r_deleted_at r = None \<and> r \<in> set (rows_of ?m)} \<and> distinct (map r_id items) \<and>
    length items = length (filter (\<lambda>r. r_deleted_at r = None) (rows_of ?m)) \<and>
    db_resources d' = put_all r_id ?val items fmempty \<and> ?frame d' = ?frame d"
  proof (rule migrate_table [where created = r_created_at and tc = tc])
    fix x :: Resource and u :: Db
    assume x: "r_deleted_at x = None" "x \<in> set (rows_of ?m)" and frame: "?frame u = ?frame d"
      and new: "r_id x |\<notin>| fmdom (db_resources u)"
    from x(2) wf_keyed(4) [OF ok(4)] obtain row where
      row: "fmlookup (db_resources s) (r_id x) = Some row" "rr_resource row = x"
      by (auto simp: rows_of_mem)
    then have "row \<in> set (rows_of (db_resources s))" by (auto simp: rows_of_mem)
    with ok(5) x(1) row(2) obtain data where "rr_data row = Some data" by auto
    from migrate_resource_step [OF row _ this new, of tc rm rm'] row x(1) frame
    show "\<exists>u'. migrate_resource (db_backend tc rm) (db_backend tc rm') x (s, u) = Some (Inr 1, (s, u')) \<and>
      db_resources u' = fmupd (r_id x) (?val x) (db_resources u) \<and> ?frame u' = ?frame u" by simp
  qed (use ok wf_keyed(4) [OF ok(4)] assms(2) resource_page in auto)
  then show ?thesis
    using put_all_resources [where m = "db_resources s", OF wf_keyed(4) [OF ok(4)]]
    by (fastforce simp: rows_of_fmmap filter_map comp_def)
qed

lemma phase_tables:
  assumes "migratable tc fuel s" "empty_tables d"
  obtains nbs tags ns d1 d2 d3 where
    "collect (Suc fuel) (list_notebooks (db_backend tc rm) PAGE) None [] (s, d) = Some (Inr nbs, (s, d))"
    "for_each (\<lambda>x. counted (on_dst (create_notebook (db_backend tc rm') x))) nbs 0 (s, d) = Some (Inr (length nbs), (s, d1))"
    "collect (Suc fuel) (list_tags (db_backend tc rm) PAGE) None [] (s, d1) = Some (Inr tags, (s, d1))"
    "for_each (\<lambda>x. counted (on_dst (create_tag (db_backend tc rm') x))) tags 0 (s, d1) = Some (Inr (length tags), (s, d2))"
    "collect (Suc fuel) (list_notes (db_backend tc rm) PAGE) None [] (s, d2) = Some (Inr ns, (s, d2))"
    "for_each (\<lambda>x. counted (on_dst (create_note (db_backend tc rm') x))) ns 0 (s, d2) = Some (Inr (length ns), (s, d3))"
    "length nbs = length (filter live_notebook (rows_of (db_notebooks s)))"
    "length tags = length (filter live_tag (rows_of (db_tags s)))"
    "length ns = length (filter live_note (rows_of (db_notes s)))"
    "set ns = {n. live_note n \<and> n \<in> set (rows_of (db_notes s))}"
    "db_notebooks d3 = copied live_notebook (stamp_notebook (db_device_id d)) (db_notebooks s)"
    "db_tags d3 = copied live_tag (stamp_tag (db_device_id d)) (db_tags s)"
    "db_notes d3 = copied live_note (stamp_note (db_device_id d)) (db_notes s)"
    "db_note_tags d3 = fmempty" "db_resources d3 = fmempty" "db_device_id d3 = db_device_id d"
proof -
  let ?dev = "db_device_id d"
  from assms(2) have d: "db_notebooks d = fmempty" "db_tags d = fmempty" "db_notes d = fmempty"
    "db_note_tags d = fmempty" "db_resources d = fmempty" by (simp_all add: empty_tables_def)
  obtain nbs d1 where p1: "collect (Suc fuel) (list_notebooks (db_backend tc rm) PAGE) None [] (s, d) = Some (Inr nbs, (s, d))"
      "for_each (\<lambda>x. counted (on_dst (create_notebook (db_backend tc rm') x))) nbs 0 (s, d) = Some (Inr (length nbs), (s, d1))"
      "length nbs = length (filter live_notebook (rows_of (db_notebooks s)))"
      "db_notebooks d1 = copied live_notebook (stamp_notebook ?dev) (db_notebooks s)"
      "db_tags d1 = db_tags d" "db_notes d1 = db_notes d" "db_note_tags d1 = db_note_tags d"
      "db_resources d1 = db_resources d" "db_device_id d1 = ?dev"
    using phase_notebooks [OF assms(1) d(1), of rm rm'] by blast
  obtain tags d2 where p2: "collect (Suc fuel) (list_tags (db_backend tc rm) PAGE) None [] (s, d1) = Some (Inr tags, (s, d1))"
      "for_each (\<lambda>x. counted (on_dst (create_tag (db_backend tc rm') x))) tags 0 (s, d1) = Some (Inr (length tags), (s, d2))"
      "length tags = length (filter live_tag (rows_of (db_tags s)))"
      "db_tags d2 = copied live_tag (stamp_tag ?dev) (db_tags s)"
      "db_notebooks d2 = db_notebooks d1" "db_notes d2 = db_notes d1" "db_note_tags d2 = db_note_tags d1"
      "db_resources d2 = db_resources d1" "db_device_id d2 = ?dev"
    using phase_tags [OF assms(1), of d1 rm rm'] p1 d by auto
  obtain ns d3 where p3: "collect (Suc fuel) (list_notes (db_backend tc rm) PAGE) None [] (s, d2) = Some (Inr ns, (s, d2))"
      "for_each (\<lambda>x. counted (on_dst (create_note (db_backend tc rm') x))) ns 0 (s, d2) = Some (Inr (length ns), (s, d3))"
      "length ns = length (filter live_note (rows_of (db_notes s)))"
      "set ns = {n. live_note n \<and> n \<in> set (rows_of (db_notes s))}"
      "db_notes d3 = copied live_note (stamp_note ?dev) (db_notes s)"
      "db_notebooks d3 = db_notebooks d2" "db_tags d3 = db_tags d2" "db_note_tags d3 = db_note_tags d2"
      "db_resources d3 = db_resources d2" "db_device_id d3 = ?dev"
    using phase_notes [OF assms(1), of d2 rm rm'] p1 p2 d by auto
  show thesis
    by (rule that [OF p1(1,2) p2(1,2) p3(1,2) p1(3) p2(3) p3(3,4)]) (simp_all add: p1 p2 p3 d)
qed

text \<open>
  C18. Migrating between SQL backends copies everything that is live: from a well-formed source into
  an empty destination the migration ends without an error, leaves the source as it is, and the
  destination's notebooks, tags, notes and resources (with payloads) are the source's live ones,
  stamped by the destination's device, while its tag associations are the source's live ones between
  live notes and live tags; the report counts them.
\<close>

theorem db_migrate_copies:
  assumes "migratable tc fuel s" "empty_tables d"
  shows "\<exists>rep d'. migrate (Suc fuel) (db_backend tc rm) (db_backend tc rm') (s, d) = Some (Inr rep, (s, d')) \<and>
    db_notebooks d' = copied live_notebook (stamp_notebook (db_device_id d)) (db_notebooks s) \<and>
    db_tags d' = copied live_tag (stamp_tag (db_device_id d)) (db_tags s) \<and>
    db_notes d' = copied live_note (stamp_note (db_device_id d)) (db_notes s) \<and>
    db_resources d' = copied live_row (stamp_row (db_device_id d)) (db_resources s) \<and>
    live_assocs d' = {(i, j). (i, j) \<in> live_assocs s \<and> note_is_live s i \<and> tag_is_live s j} \<and>
    mr_notebooks rep = length (filter live_notebook (rows_of (db_notebooks s))) \<and>
    mr_tags rep = length (filter live_tag (rows_of (db_tags s))) \<and>
    mr_notes rep = length (filter live_note (rows_of (db_notes s))) \<and>
    mr_resources rep = length (filter live_row (rows_of (db_resources s)))"
proof -
  have wf: "db_wf s" using assms(1) by (simp add: migratable_def)
  obtain nbs tags ns d1 d2 d3 where p:
    "collect (Suc fuel) (list_notebooks (db_backend tc rm) PAGE) None [] (s, d) = Some (Inr nbs, (s, d))"
    "for_each (\<lambda>x. counted (on_dst (create_notebook (db_backend tc rm') x))) nbs 0 (s, d) = Some (Inr (length nbs), (s, d1))"
    "collect (Suc fuel) (list_tags (db_backend tc rm) PAGE) None [] (s, d1) = Some (Inr tags, (s, d1))"
    "for_each (\<lambda>x. counted (on_dst (create_tag (db_backend tc rm') x))) tags 0 (s, d1) = Some (Inr (length tags), (s, d2))"
    "collect (Suc fuel) (list_notes (db_backend tc rm) PAGE) None [] (s, d2) = Some (Inr ns, (s, d2))"
    "for_each (\<lambda>x. counted (on_dst (create_note (db_backend tc rm') x))) ns 0 (s, d2) = Some (Inr (length ns), (s, d3))"
    "length nbs = length (filter live_notebook (rows_of (db_notebooks s)))"
    "length tags = length (filter live_tag (rows_of (db_tags s)))"
    "length ns = length (filter live_note (rows_of (db_notes s)))"
    "set ns = {n. live_note n \<and> n \<in> set (rows_of (db_notes s))}"
    "db_notebooks d3 = copied live_notebook (stamp_notebook (db_device_id d)) (db_notebooks s)"
    "db_tags d3 = copied live_tag (stamp_tag (db_device_id d)) (db_tags s)"
    "db_notes d3 = copied live_note (stamp_note (db_device_id d)) (db_notes s)"
    "db_note_tags d3 = fmempty" "db_resources d3 = fmempty" "db_device_id d3 = db_device_id d"
    using phase_tables [OF assms] .
  have live: "i \<in> n_id ` set ns \<longleftrightarrow> note_is_live s i" for i
    using wf_keyed(1) [OF wf] by (auto simp: p(10) rows_of_mem note_is_live_def image_iff split: option.splits)
  have "\<forall>n\<in>set ns. note_is_live d3 (n_id n) \<and> fmlookup (db_notes s) (n_id n) = Some n"
    using wf_keyed(1) [OF wf] by (auto simp: p(10,13) rows_of_mem note_is_live_def copied_lookup stamp_note_def)
  moreover have "tag_is_live d3 (t_id g)" if "g \<in> set (rows_of (db_tags s))" "live_tag g" for g
    using wf_keyed(3) [OF wf] that by (auto simp: p(12) rows_of_mem tag_is_live_def copied_lookup stamp_tag_def)
  moreover have "live_assocs d3 = {}" by (simp add: live_assocs_def p(14))
  ultimately obtain k d4 where
    p4: "for_each (migrate_note_tags (Suc fuel) (db_backend tc rm) (db_backend tc rm')) ns 0 (s, d3) = Some (Inr k, (s, d4))"
      "live_assocs d4 = {(i, j). (i, j) \<in> live_assocs s \<and> note_is_live s i \<and> tag_is_live s j}"
      "assoc_frame d4 = assoc_frame d3"
    using migrate_all_note_tags [OF assms(1), of ns d3 rm rm'] unfolding live by blast
  obtain res d5 where p5: "collect (Suc fuel) (list_resources (db_backend tc rm) PAGE) None [] (s, d4) = Some (Inr res, (s, d4))"
      "for_each (migrate_resource (db_backend tc rm) (db_backend tc rm')) res 0 (s, d4) = Some (Inr (length res), (s, d5))"
      "length res = length (filter live_row (rows_of (db_resources s)))"
      "db_resources d5 = copied live_row (stamp_row (db_device_id d4)) (db_resources s)"
      "db_notebooks d5 = db_notebooks d4" "db_tags d5 = db_tags d4" "db_notes d5 = db_notes d4" "db_note_tags d5 = db_note_tags d4"
    using phase_resources [OF assms(1), of d4 rm rm'] p(15) p4(3) by (auto simp: assoc_frame_def)
  have "migrate (Suc fuel) (db_backend tc rm) (db_backend tc rm') (s, d) =
      Some (Inr \<lparr>mr_notebooks = length nbs, mr_tags = length tags, mr_notes = length ns,
        mr_note_tags = k, mr_resources = length res\<rparr>, (s, d5))"
    by (simp add: migrate_def p(1-6) p4(1) p5(1,2) del: collect.simps)
  moreover have "live_assocs d5 = live_assocs d4" by (simp add: live_assocs_def p5(8))
  ultimately show ?thesis using p p4 p5 by (auto simp: assoc_frame_def)
qed

lemma linked_db_migratable: "migratable unary_codec 0 linked_db"
proof -
  have "db_notebooks linked_db = fmempty" "db_tags linked_db = fmempty" "db_resources linked_db = fmempty"
    by (simp_all add: linked_db_def db_create_note_def transaction_def Let_def empty_db_def record_change_def db_now_def
      refresh_note_links_def)
  moreover have "ts_text_ok unary_codec {}" by (simp add: ts_text_ok_def strict_mono_on_def)
  ultimately show ?thesis
    using reachable_wf [OF linked_db_reachable] unary_codec_ok linked_db_times
    by (simp add: migratable_def linked_db_rows rows_of_fmempty)
qed

theorem db_migrate_copies_witness:
  "\<exists>rep d' n. migrate 1 (db_backend unary_codec offline) (db_backend unary_codec offline) (linked_db, empty_db ''B'') =
      Some (Inr rep, (linked_db, d')) \<and> mr_notes rep = 1 \<and> fmlookup (db_notes d') 7 = Some n \<and>
      n_links n = n_links linked_note \<and> n_last_writer n = ''B''"
proof -
  have "empty_tables (empty_db ''B'')" by (simp add: empty_tables_def empty_db_def)
  from db_migrate_copies [OF linked_db_migratable this, of offline offline] linked_db_note show ?thesis
    by (auto simp: linked_db_rows copied_lookup stamp_note_def empty_db_def)
qed

end
