(* ===== verification/Links.thy ===== *)
theory Links
  imports Storage "HOL-Library.Monad_Syntax"
begin

text \<open>
  Link references and bookmarks in note bodies, \<open>keeplin-core/src/links.rs\<close>. A body is the list of
  its bytes. The two regular expressions are written as the scanners they denote: a match starts at
  an opening bracket, every part of the expression is determined by the next byte, and the search
  goes on after a match or one byte further. White space (\<open>\s\<close>) is that of Unicode: a parameter
  gives the length of the white-space character a text starts with, or 0.
\<close>

section \<open>References\<close>

datatype Reference = RefId uuid | RefAlias string

datatype BookmarkRef = BmNumber u32 | BmAlias string

record LinkTarget =
  lt_notebook :: "Reference option"
  lt_note :: Reference
  lt_bookmark :: "BookmarkRef option"

definition parse_reference :: "'c uuid_text_scheme \<Rightarrow> string \<Rightarrow> Reference" where
  "parse_reference ut segment = (case parse_uuid ut segment of
     Some i \<Rightarrow> RefId i | None \<Rightarrow> RefAlias segment)"

definition parse_bookmark_ref :: "string \<Rightarrow> BookmarkRef" where
  "parse_bookmark_ref segment = (case parse_unsigned (2 ^ 32) segment of
     Some n \<Rightarrow> if 1 \<le> n then BmNumber (of_nat n) else BmAlias segment
   | None \<Rightarrow> BmAlias segment)"

text \<open>The segments of a reference: what follows the leading hash, cut at hashes, none empty.\<close>

definition hash :: char where
  "hash = CHR ''#''"

definition ref_segments :: "string \<Rightarrow> string list option" where
  "ref_segments s = do {
     body \<leftarrow> strip_prefix [hash] s;
     let segments = split_on hash body;
     if list_ex (\<lambda>seg. seg = []) segments then None else Some segments
   }"

definition parse_link_ref :: "'c uuid_text_scheme \<Rightarrow> string \<Rightarrow> LinkTarget option" where
  "parse_link_ref ut s = do {
     segments \<leftarrow> ref_segments s;
     case segments of
       [note_seg] \<Rightarrow> Some \<lparr>lt_notebook = None, lt_note = parse_reference ut note_seg, lt_bookmark = None\<rparr>
     | [notebook, note_seg] \<Rightarrow> Some \<lparr>lt_notebook = Some (parse_reference ut notebook),
         lt_note = parse_reference ut note_seg, lt_bookmark = None\<rparr>
     | [notebook, note_seg, bookmark] \<Rightarrow> Some \<lparr>lt_notebook = Some (parse_reference ut notebook),
         lt_note = parse_reference ut note_seg, lt_bookmark = Some (parse_bookmark_ref bookmark)\<rparr>
     | _ \<Rightarrow> None
   }"

definition from_raw :: "'c uuid_text_scheme \<Rightarrow> string \<Rightarrow> LinkSource \<Rightarrow> NoteLink option" where
  "from_raw ut raw source = do {
     _ \<leftarrow> parse_link_ref ut raw;
     Some \<lparr>l_source = source, l_raw = raw, l_target_note_id = None\<rparr>
   }"

definition link_target :: "'c uuid_text_scheme \<Rightarrow> NoteLink \<Rightarrow> LinkTarget option" where
  "link_target ut l = parse_link_ref ut (l_raw l)"

lemma ref_segments_iff:
  "ref_segments s = Some segs \<longleftrightarrow> s = hash # join_with hash segs \<and> segs \<noteq> [] \<and> (\<forall>seg\<in>set segs. seg \<noteq> [] \<and> hash \<notin> set seg)"
proof
  assume "ref_segments s = Some segs"
  then obtain body where "s = [hash] @ body" "segs = split_on hash body" "\<forall>seg\<in>set segs. seg \<noteq> []"
    by (auto simp: ref_segments_def Let_def bind_eq_Some_conv strip_prefix_iff list_ex_iff split: if_splits)
  then show "s = hash # join_with hash segs \<and> segs \<noteq> [] \<and> (\<forall>seg\<in>set segs. seg \<noteq> [] \<and> hash \<notin> set seg)"
    using split_on_no_sep [of _ hash body] by auto
next
  assume "s = hash # join_with hash segs \<and> segs \<noteq> [] \<and> (\<forall>seg\<in>set segs. seg \<noteq> [] \<and> hash \<notin> set seg)"
  then show "ref_segments s = Some segs"
    by (auto simp: ref_segments_def Let_def split_join list_ex_iff)
qed

section \<open>Scanning a body\<close>

record unicode =
  space_len :: "string \<Rightarrow> nat"

function skip_spaces :: "'u unicode_scheme \<Rightarrow> string \<Rightarrow> string" where
  "skip_spaces uc s = (if s = [] \<or> space_len uc s = 0 then s else skip_spaces uc (drop (space_len uc s) s))"
  by pat_completeness auto
termination by (relation "measure (\<lambda>(uc, s). length s)") (auto simp: diff_less)

declare skip_spaces.simps [simp del]

record DerivedBookmark =
  dbm_text :: string
  dbm_alias :: "string option"

definition quote :: char where
  "quote = CHR 0x22"

text \<open>\<open>(?:"([^"]*)")?\<close>\<close>

definition quoted :: "string \<Rightarrow> string option \<times> string" where
  "quoted s = (case s of
     c # r \<Rightarrow> if c = quote \<and> quote \<in> set r
       then (Some (takeWhile (\<lambda>x. x \<noteq> quote) r), tl (dropWhile (\<lambda>x. x \<noteq> quote) r)) else (None, s)
   | [] \<Rightarrow> (None, s))"

text \<open>\<open>\[([^\]]*)\]\(\<close>: the bracketed text and what follows the parenthesis.\<close>

definition bracketed :: "string \<Rightarrow> (string \<times> string) option" where
  "bracketed s = do {
     r \<leftarrow> strip_prefix ''['' s;
     let label = takeWhile (\<lambda>c. c \<noteq> CHR '']'') r;
     r \<leftarrow> strip_prefix ''](''  (dropWhile (\<lambda>c. c \<noteq> CHR '']'') r);
     Some (label, r)
   }"

definition bookmark_at :: "'u unicode_scheme \<Rightarrow> string \<Rightarrow> (DerivedBookmark \<times> string) option" where
  "bookmark_at uc s = do {
     (label, r) \<leftarrow> bracketed s;
     r \<leftarrow> strip_prefix ''###'' (skip_spaces uc r);
     let (alias, r) = quoted (skip_spaces uc r);
     r \<leftarrow> strip_prefix '')'' (skip_spaces uc r);
     Some (\<lparr>dbm_text = label, dbm_alias = alias\<rparr>, r)
   }"

text \<open>\<open>[^)\s]+\<close>: the longest run of bytes up to a closing parenthesis or white space.\<close>

function dest_run :: "'u unicode_scheme \<Rightarrow> string \<Rightarrow> string \<times> string" where
  "dest_run uc s = (case s of
     [] \<Rightarrow> ([], [])
   | c # r \<Rightarrow> if c = CHR '')'' \<or> 0 < space_len uc s then ([], s)
       else (let (a, b) = dest_run uc r in (c # a, b)))"
  by pat_completeness auto
termination by (relation "measure (\<lambda>(uc, s). length s)") auto

declare dest_run.simps [simp del]

definition content_link_at :: "'u unicode_scheme \<Rightarrow> string \<Rightarrow> (string \<times> string) option" where
  "content_link_at uc s = do {
     (_, r) \<leftarrow> bracketed s;
     r \<leftarrow> strip_prefix [hash] (skip_spaces uc r);
     let (dest, r) = dest_run uc r;
     if dest = [] then None else do {
       r \<leftarrow> strip_prefix '')'' (skip_spaces uc r);
       Some (hash # dest, r)
     }
   }"

text \<open>\<open>captures_iter\<close>: the leftmost matches, each search starting after the match before.\<close>

function captures :: "(string \<Rightarrow> ('a \<times> string) option) \<Rightarrow> string \<Rightarrow> 'a list" where
  "captures m s = (case s of
     [] \<Rightarrow> []
   | c # cs \<Rightarrow> (case m s of
       Some (x, rest) \<Rightarrow> x # (if length rest < length s then captures m rest else captures m cs)
     | None \<Rightarrow> captures m cs))"
  by pat_completeness auto
termination by (relation "measure (\<lambda>(m, s). length s)") auto

declare captures.simps [simp del]

definition parse_bookmarks :: "'u unicode_scheme \<Rightarrow> string \<Rightarrow> DerivedBookmark list" where
  "parse_bookmarks uc body = captures (bookmark_at uc) body"

definition parse_content_links :: "'u unicode_scheme \<Rightarrow> string \<Rightarrow> string list" where
  "parse_content_links uc body = filter (\<lambda>dest. dest \<noteq> ''###'') (captures (content_link_at uc) body)"

section \<open>What a body declares is what is parsed\<close>

text \<open>The documented behaviour of the class \<open>\s\<close> on the bytes the expressions name.\<close>

definition unicode_ok :: "'u unicode_scheme \<Rightarrow> bool" where
  "unicode_ok uc \<longleftrightarrow> (\<forall>s. space_len uc (CHR '' '' # s) = 1 \<and>
     space_len uc (hash # s) = 0 \<and> space_len uc (CHR '')'' # s) = 0 \<and> space_len uc (quote # s) = 0)"

definition render_bookmark :: "DerivedBookmark \<Rightarrow> string" where
  "render_bookmark b = ''['' @ dbm_text b @ ''](###'' @
     (case dbm_alias b of None \<Rightarrow> [] | Some a \<Rightarrow> CHR '' '' # quote # a @ [quote]) @ '')''"

fun render_body :: "(string \<times> DerivedBookmark) list \<Rightarrow> string \<Rightarrow> string" where
  "render_body [] tail = tail"
| "render_body ((plain, b) # rest) tail = plain @ render_bookmark b @ render_body rest tail"

definition bookmark_ok :: "DerivedBookmark \<Rightarrow> bool" where
  "bookmark_ok b \<longleftrightarrow> CHR '']'' \<notin> set (dbm_text b) \<and> (case dbm_alias b of None \<Rightarrow> True | Some a \<Rightarrow> quote \<notin> set a)"

lemma captures_skip:
  assumes "\<And>c s. c \<noteq> CHR ''['' \<Longrightarrow> m (c # s) = None" and "CHR ''['' \<notin> set p"
  shows "captures m (p @ s) = captures m s"
  using assms(2)
proof (induction p)
  case (Cons c p)
  have "c \<noteq> CHR ''[''" using Cons.prems by auto
  then have "m (c # p @ s) = None" by (rule assms(1))
  with captures.simps [of m "c # p @ s"] have "captures m (c # p @ s) = captures m (p @ s)" by simp
  with Cons show ?case by simp
qed simp

lemma captures_hit:
  assumes "m s = Some (x, rest)" "length rest < length s"
  shows "captures m s = x # captures m rest"
  using assms by (subst captures.simps) (auto split: list.split)

lemma takeWhile_stop: "x \<notin> set p \<Longrightarrow> takeWhile (\<lambda>c. c \<noteq> x) (p @ x # s) = p"
  by (induction p) auto

lemma dropWhile_stop: "x \<notin> set p \<Longrightarrow> dropWhile (\<lambda>c. c \<noteq> x) (p @ x # s) = x # s"
  by (induction p) auto

lemma bracketed_label:
  assumes "CHR '']'' \<notin> set label"
  shows "bracketed (''['' @ label @ ''](''  @ r) = Some (label, r)"
  using takeWhile_stop [OF assms, of "''('' @ r"] dropWhile_stop [OF assms, of "''('' @ r"]
  by (simp add: bracketed_def)

lemma skip_none: "space_len uc s = 0 \<Longrightarrow> skip_spaces uc s = s"
  by (subst skip_spaces.simps) simp

lemma skip_one: "unicode_ok uc \<Longrightarrow> skip_spaces uc (CHR '' '' # quote # s) = quote # s"
  by (subst skip_spaces.simps) (simp add: unicode_ok_def skip_none)

lemma bookmark_at_render:
  assumes "unicode_ok uc" "bookmark_ok b"
  shows "bookmark_at uc (render_bookmark b @ r) = Some (b, r)"
proof -
  have spaces: "skip_spaces uc (hash # s) = hash # s" "skip_spaces uc (CHR '')'' # s) = CHR '')'' # s" for s
    using assms(1) by (simp_all add: skip_none unicode_ok_def)
  note spaces = spaces spaces(1) [unfolded hash_def]
  have stop: "CHR '')'' \<noteq> quote" by (simp add: quote_def)
  show ?thesis
  proof (cases "dbm_alias b")
    case None
    have "bracketed (render_bookmark b @ r) = Some (dbm_text b, hash # ''##)'' @ r)"
      using assms(2) bracketed_label [of "dbm_text b" "''###)'' @ r"]
      by (simp add: render_bookmark_def None bookmark_ok_def hash_def)
    then show ?thesis
      using None by (cases b) (simp add: bookmark_at_def spaces quoted_def stop hash_def)
  next
    case (Some a)
    have "bracketed (render_bookmark b @ r) = Some (dbm_text b, hash # ''##'' @ CHR '' '' # quote # a @ quote # '')'' @ r)"
      using assms(2) bracketed_label [of "dbm_text b" "''###'' @ CHR '' '' # quote # a @ quote # '')'' @ r"]
      by (simp add: render_bookmark_def Some bookmark_ok_def hash_def)
    moreover have "quoted (quote # a @ quote # '')'' @ r) = (Some a, '')'' @ r)"
      using assms(2) Some takeWhile_stop [of quote a "'')'' @ r"] dropWhile_stop [of quote a "'')'' @ r"]
      by (simp add: quoted_def bookmark_ok_def)
    ultimately show ?thesis
      using Some by (cases b) (simp add: bookmark_at_def spaces skip_one [OF assms(1)] hash_def)
  qed
qed

text \<open>
  C20. What a body declares is what is parsed: from a body of bookmark declarations separated by
  text without opening brackets, exactly the declared bookmarks are read, in order, each with its
  label and title.
\<close>

theorem parse_bookmarks_roundtrip:
  assumes "unicode_ok uc" and "\<forall>(plain, b)\<in>set ps. CHR ''['' \<notin> set plain \<and> bookmark_ok b"
    and "CHR ''['' \<notin> set tail"
  shows "parse_bookmarks uc (render_body ps tail) = map snd ps"
  using assms(2)
proof (induction ps)
  have miss: "c \<noteq> CHR ''['' \<Longrightarrow> bookmark_at uc (c # s) = None" for c s
    by (auto simp: bookmark_at_def bracketed_def)
  {
    case Nil
    have "captures (bookmark_at uc) [] = []" by (subst captures.simps) simp
    then show ?case
      using captures_skip [where m = "bookmark_at uc" and p = tail and s = "[]"] miss assms(3)
      by (simp add: parse_bookmarks_def)
  next
    case (Cons p ps)
    obtain plain b where p: "p = (plain, b)" by (cases p)
    from Cons.prems p have ok: "CHR ''['' \<notin> set plain" "bookmark_ok b" by auto
    have "captures (bookmark_at uc) (render_bookmark b @ render_body ps tail) = b # captures (bookmark_at uc) (render_body ps tail)"
      by (rule captures_hit, rule bookmark_at_render [OF assms(1) ok(2)]) (simp add: render_bookmark_def)
    moreover have "captures (bookmark_at uc) (plain @ s) = captures (bookmark_at uc) s" for s
      by (rule captures_skip [where m = "bookmark_at uc", OF _ ok(1)]) (rule miss)
    ultimately show ?case using Cons by (simp add: p parse_bookmarks_def)
  }
qed

definition ascii :: unicode where
  "ascii = \<lparr>space_len = (\<lambda>s. case s of c # _ \<Rightarrow> if c \<in> {CHR '' '', CHR 9, CHR 10, CHR 11, CHR 12, CHR 13} then 1 else 0 | [] \<Rightarrow> 0)\<rparr>"

theorem parse_bookmarks_roundtrip_witness:
  "parse_bookmarks ascii (''x '' @ ''[a](### '' @ [quote] @ ''k'' @ [quote] @ '') y [b](###)'') =
     [\<lparr>dbm_text = ''a'', dbm_alias = Some ''k''\<rparr>, \<lparr>dbm_text = ''b'', dbm_alias = None\<rparr>]"
proof -
  have "unicode_ok ascii" by (simp add: unicode_ok_def ascii_def hash_def quote_def)
  from parse_bookmarks_roundtrip [OF this, of "[(''x '', \<lparr>dbm_text = ''a'', dbm_alias = Some ''k''\<rparr>),
      ('' y '', \<lparr>dbm_text = ''b'', dbm_alias = None\<rparr>)]" "[]"]
  show ?thesis by (simp add: bookmark_ok_def render_bookmark_def quote_def)
qed

end
