(* ===== verification/Alias_Index.thy ===== *)
theory Alias_Index
  imports Links Ordering
begin

text \<open>
  The in-memory alias index of \<open>keeplin-core/src/linking.rs\<close>: the live aliased notes and notebooks,
  by alias and by identifier, and the resolution of references against it. A set of the code's
  \<open>BTreeMap\<close> and \<open>HashMap\<close> is a finite set, iterated in increasing order where the code does.
\<close>

record AliasIndex =
  note_aliases :: "(string, (uuid \<times> uuid) fset) fmap"
  aliased_notes :: "(uuid, string \<times> uuid) fmap"
  notebook_aliases :: "(string, uuid fset) fmap"
  aliased_notebooks :: "(uuid, string) fmap"

definition empty_index :: AliasIndex where
  "empty_index = \<lparr>note_aliases = fmempty, aliased_notes = fmempty, notebook_aliases = fmempty, aliased_notebooks = fmempty\<rparr>"

text \<open>\<open>entry(key).or_default().insert(x)\<close>, and removing \<open>x\<close> with its emptied set.\<close>

definition multi_insert :: "'k \<Rightarrow> 'x \<Rightarrow> ('k, 'x fset) fmap \<Rightarrow> ('k, 'x fset) fmap" where
  "multi_insert k x m = fmupd k (finsert x (case fmlookup m k of None \<Rightarrow> {||} | Some xs \<Rightarrow> xs)) m"

definition multi_remove :: "'k \<Rightarrow> 'x \<Rightarrow> ('k, 'x fset) fmap \<Rightarrow> ('k, 'x fset) fmap" where
  "multi_remove k x m = (case fmlookup m k of
     None \<Rightarrow> m
   | Some xs \<Rightarrow> let xs = xs |-| {|x|} in if xs = {||} then fmdrop k m else fmupd k xs m)"

definition remove_note :: "uuid \<Rightarrow> AliasIndex \<Rightarrow> AliasIndex" where
  "remove_note i idx = (case fmlookup (aliased_notes idx) i of
     None \<Rightarrow> idx
   | Some (alias, notebook_id) \<Rightarrow>
       idx\<lparr>aliased_notes := fmdrop i (aliased_notes idx),
         note_aliases := multi_remove alias (i, notebook_id) (note_aliases idx)\<rparr>)"

definition upsert_note :: "Note \<Rightarrow> AliasIndex \<Rightarrow> AliasIndex" where
  "upsert_note n idx =
    (let idx = remove_note (n_id n) idx in
     if n_deleted_at n \<noteq> None then idx
     else if is_inbox (n_notebook_id n) then idx
     else case n_alias n of
       None \<Rightarrow> idx
     | Some alias \<Rightarrow>
         idx\<lparr>note_aliases := multi_insert alias (n_id n, n_notebook_id n) (note_aliases idx),
           aliased_notes := fmupd (n_id n) (alias, n_notebook_id n) (aliased_notes idx)\<rparr>)"

definition remove_notebook :: "uuid \<Rightarrow> AliasIndex \<Rightarrow> AliasIndex" where
  "remove_notebook i idx = (case fmlookup (aliased_notebooks idx) i of
     None \<Rightarrow> idx
   | Some alias \<Rightarrow>
       idx\<lparr>aliased_notebooks := fmdrop i (aliased_notebooks idx),
         notebook_aliases := multi_remove alias i (notebook_aliases idx)\<rparr>)"

definition upsert_notebook :: "Notebook \<Rightarrow> AliasIndex \<Rightarrow> AliasIndex" where
  "upsert_notebook nb idx =
    (let idx = remove_notebook (nb_id nb) idx in
     if nb_deleted_at nb \<noteq> None then idx
     else case nb_alias nb of
       None \<Rightarrow> idx
     | Some alias \<Rightarrow>
         idx\<lparr>notebook_aliases := multi_insert alias (nb_id nb) (notebook_aliases idx),
           aliased_notebooks := fmupd (nb_id nb) alias (aliased_notebooks idx)\<rparr>)"

definition from_snapshots :: "Note list \<Rightarrow> Notebook list \<Rightarrow> AliasIndex" where
  "from_snapshots ns nbs = fold upsert_notebook nbs (fold upsert_note ns empty_index)"

definition note_alias_taken :: "AliasIndex \<Rightarrow> string \<Rightarrow> uuid \<Rightarrow> uuid \<Rightarrow> bool" where
  "note_alias_taken idx alias self_id notebook_id = (case fmlookup (note_aliases idx) alias of
     None \<Rightarrow> False
   | Some xs \<Rightarrow> fBex xs (\<lambda>(i, nb). i \<noteq> self_id \<and> nb = notebook_id))"

definition notebook_alias_taken :: "AliasIndex \<Rightarrow> string \<Rightarrow> uuid \<Rightarrow> bool" where
  "notebook_alias_taken idx alias self_id = (case fmlookup (notebook_aliases idx) alias of
     None \<Rightarrow> False
   | Some xs \<Rightarrow> fBex xs (\<lambda>i. i \<noteq> self_id))"

fun min_of :: "'a::linorder list \<Rightarrow> 'a option" where
  "min_of [] = None"
| "min_of (x # xs) = Some (fold min xs x)"

definition resolve_notebook_seg :: "'c uuid_text_scheme \<Rightarrow> AliasIndex \<Rightarrow> string \<Rightarrow> uuid option" where
  "resolve_notebook_seg ut idx seg = (case parse_uuid ut seg of
     Some i \<Rightarrow> Some i
   | None \<Rightarrow> (case fmlookup (notebook_aliases idx) seg of
       None \<Rightarrow> None
     | Some xs \<Rightarrow> (case sorted_list_of_fset xs of [] \<Rightarrow> None | i # _ \<Rightarrow> Some i)))"

definition resolve_note_seg :: "'c uuid_text_scheme \<Rightarrow> AliasIndex \<Rightarrow> string \<Rightarrow> string option \<Rightarrow> uuid option \<Rightarrow> uuid option" where
  "resolve_note_seg ut idx seg notebook_seg source_notebook = (case parse_uuid ut seg of
     Some i \<Rightarrow> Some i
   | None \<Rightarrow> do {
       xs \<leftarrow> fmlookup (note_aliases idx) seg;
       let candidates = filter (\<lambda>(_, nb). \<not> is_inbox nb) (sorted_list_of_fset xs);
       let within = (\<lambda>nb. min_of (map fst (filter (\<lambda>(_, n). n = nb) candidates)));
       if candidates = [] then None
       else case notebook_seg of
         Some ns \<Rightarrow> do {
           nb \<leftarrow> resolve_notebook_seg ut idx ns;
           if is_inbox nb then None else within nb
         }
       | None \<Rightarrow>
           if length candidates = 1 then Some (fst (candidates ! 0))
           else case source_notebook of
             Some src \<Rightarrow> within src
           | None \<Rightarrow> min_of (map fst candidates)
     })"

definition resolve_target :: "'c uuid_text_scheme \<Rightarrow> AliasIndex \<Rightarrow> string \<Rightarrow> uuid option \<Rightarrow> (uuid \<times> string option) option" where
  "resolve_target ut idx raw source_notebook = do {
     segments \<leftarrow> ref_segments raw;
     case segments of
       [note_seg] \<Rightarrow> do { i \<leftarrow> resolve_note_seg ut idx note_seg None source_notebook; Some (i, None) }
     | [first, second] \<Rightarrow>
         (case resolve_note_seg ut idx second (Some first) source_notebook of
            Some i \<Rightarrow> Some (i, None)
          | None \<Rightarrow> do { i \<leftarrow> resolve_note_seg ut idx first None source_notebook; Some (i, Some second) })
     | [notebook, note_seg, bookmark] \<Rightarrow>
         do { i \<leftarrow> resolve_note_seg ut idx note_seg (Some notebook) source_notebook; Some (i, Some bookmark) }
     | _ \<Rightarrow> None
   }"

section \<open>The index as a map of entries\<close>

text \<open>What the index holds of a note and of a notebook.\<close>

definition note_entry :: "Note \<Rightarrow> (string \<times> uuid) option" where
  "note_entry n = (if n_deleted_at n \<noteq> None \<or> is_inbox (n_notebook_id n) then None
     else map_option (\<lambda>a. (a, n_notebook_id n)) (n_alias n))"

definition notebook_entry :: "Notebook \<Rightarrow> string option" where
  "notebook_entry nb = (if nb_deleted_at nb \<noteq> None then None else nb_alias nb)"

text \<open>The two directions of the index agree, and no alias has an empty set.\<close>

definition members :: "('k, 'x fset) fmap \<Rightarrow> 'k \<Rightarrow> 'x set" where
  "members m k = (case fmlookup m k of None \<Rightarrow> {} | Some xs \<Rightarrow> fset xs)"

definition tidy :: "('k, 'x fset) fmap \<Rightarrow> bool" where
  "tidy m \<longleftrightarrow> (\<forall>k. fmlookup m k \<noteq> Some {||})"

lemma members_insert: "members (multi_insert k x m) = (members m)(k := insert x (members m k))"
  by (auto simp: fun_eq_iff members_def multi_insert_def split: option.split)

lemma members_remove: "members (multi_remove k x m) = (members m)(k := members m k - {x})"
proof (cases "fmlookup m k")
  case None
  then show ?thesis by (auto simp: fun_eq_iff members_def multi_remove_def)
next
  case (Some xs)
  have "fset xs - {x} = {} \<longleftrightarrow> xs |-| {|x|} = {||}"
    by (metis bot_fset.rep_eq finsert.rep_eq fset_inverse minus_fset.rep_eq)
  with Some show ?thesis
    by (auto simp: fun_eq_iff members_def multi_remove_def Let_def)
qed

lemma tidy_empty [simp]: "tidy fmempty" "members fmempty k = {}"
  by (simp_all add: tidy_def members_def)

lemma tidy_insert: "tidy m \<Longrightarrow> tidy (multi_insert k x m)"
  by (auto simp: tidy_def multi_insert_def)

lemma tidy_remove: "tidy m \<Longrightarrow> tidy (multi_remove k x m)"
  by (auto simp: tidy_def multi_remove_def Let_def split: option.split)

lemma multi_eqI: "members m = members m' \<Longrightarrow> tidy m \<Longrightarrow> tidy m' \<Longrightarrow> m = m'"
proof (rule fmap_ext)
  fix k
  assume m: "members m = members m'" "tidy m" "tidy m'"
  from fun_cong [OF m(1), of k] m(2,3) show "fmlookup m k = fmlookup m' k"
    by (cases "fmlookup m k"; cases "fmlookup m' k")
      (auto simp: members_def tidy_def fset_inject, (metis fset_inverse bot_fset.rep_eq)+)
qed

definition index_ok :: "AliasIndex \<Rightarrow> bool" where
  "index_ok idx \<longleftrightarrow> tidy (note_aliases idx) \<and> tidy (notebook_aliases idx) \<and>
     members (note_aliases idx) = (\<lambda>a. {(i, nb). fmlookup (aliased_notes idx) i = Some (a, nb)}) \<and>
     members (notebook_aliases idx) = (\<lambda>a. {i. fmlookup (aliased_notebooks idx) i = Some a})"

lemma index_ok_empty: "index_ok empty_index"
  by (simp add: index_ok_def empty_index_def fun_eq_iff)

lemma drop_absent: "fmlookup m i = None \<Longrightarrow> fmdrop i m = m"
  by (rule fmap_ext) auto

lemma remove_note_ok:
  assumes "index_ok idx"
  shows "index_ok (remove_note i idx)" "aliased_notes (remove_note i idx) = fmdrop i (aliased_notes idx)"
    "aliased_notebooks (remove_note i idx) = aliased_notebooks idx"
  using assms
  by (auto simp: index_ok_def remove_note_def members_remove tidy_remove fun_eq_iff drop_absent
      split: option.splits if_splits)

lemma remove_notebook_ok:
  assumes "index_ok idx"
  shows "index_ok (remove_notebook i idx)" "aliased_notebooks (remove_notebook i idx) = fmdrop i (aliased_notebooks idx)"
    "aliased_notes (remove_notebook i idx) = aliased_notes idx"
  using assms
  by (auto simp: index_ok_def remove_notebook_def members_remove tidy_remove fun_eq_iff drop_absent
      split: option.splits if_splits)

definition set_entry :: "'k \<Rightarrow> 'v option \<Rightarrow> ('k, 'v) fmap \<Rightarrow> ('k, 'v) fmap" where
  "set_entry k v m = (case v of None \<Rightarrow> fmdrop k m | Some x \<Rightarrow> fmupd k x m)"

lemma set_entry_lookup [simp]: "fmlookup (set_entry k v m) j = (if j = k then v else fmlookup m j)"
  by (auto simp: set_entry_def split: option.split)

lemma upsert_note_ok:
  assumes "index_ok idx"
  shows "index_ok (upsert_note n idx)" "aliased_notes (upsert_note n idx) = set_entry (n_id n) (note_entry n) (aliased_notes idx)"
    "aliased_notebooks (upsert_note n idx) = aliased_notebooks idx"
proof -
  note r = remove_note_ok [OF assms, of "n_id n"]
  show "aliased_notes (upsert_note n idx) = set_entry (n_id n) (note_entry n) (aliased_notes idx)"
    using r by (auto simp: upsert_note_def note_entry_def set_entry_def Let_def intro!: fmap_ext split: option.split)
  show "aliased_notebooks (upsert_note n idx) = aliased_notebooks idx"
    using r by (simp add: upsert_note_def Let_def split: option.split)
  show "index_ok (upsert_note n idx)"
    using r by (auto simp: upsert_note_def Let_def index_ok_def members_insert tidy_insert fun_eq_iff split: option.split if_splits)
qed

lemma upsert_notebook_ok:
  assumes "index_ok idx"
  shows "index_ok (upsert_notebook nb idx)"
    "aliased_notebooks (upsert_notebook nb idx) = set_entry (nb_id nb) (notebook_entry nb) (aliased_notebooks idx)"
    "aliased_notes (upsert_notebook nb idx) = aliased_notes idx"
proof -
  note r = remove_notebook_ok [OF assms, of "nb_id nb"]
  show "aliased_notebooks (upsert_notebook nb idx) = set_entry (nb_id nb) (notebook_entry nb) (aliased_notebooks idx)"
    using r by (auto simp: upsert_notebook_def notebook_entry_def set_entry_def Let_def intro!: fmap_ext split: option.split)
  show "aliased_notes (upsert_notebook nb idx) = aliased_notes idx"
    using r by (simp add: upsert_notebook_def Let_def split: option.split)
  show "index_ok (upsert_notebook nb idx)"
    using r by (auto simp: upsert_notebook_def Let_def index_ok_def members_insert tidy_insert fun_eq_iff split: option.split if_splits)
qed

text \<open>The entries determine the index.\<close>

lemma index_eqI:
  assumes "index_ok a" "index_ok b" "aliased_notes a = aliased_notes b" "aliased_notebooks a = aliased_notebooks b"
  shows "a = b"
proof -
  have "note_aliases a = note_aliases b" "notebook_aliases a = notebook_aliases b"
    using assms by (auto simp: index_ok_def intro!: multi_eqI)
  with assms(3,4) show ?thesis by simp
qed

lemma fold_entries_other: "i \<notin> ident ` set xs \<Longrightarrow> fmlookup (fold (\<lambda>x. set_entry (ident x) (entry x)) xs m) i = fmlookup m i"
  by (induction xs arbitrary: m) auto

lemma fold_entries_in:
  "distinct (map ident xs) \<Longrightarrow> x \<in> set xs \<Longrightarrow> fmlookup (fold (\<lambda>x. set_entry (ident x) (entry x)) xs m) (ident x) = entry x"
proof (induction xs arbitrary: m)
  case (Cons y xs)
  then show ?case
    using fold_entries_other [of "ident y" ident xs entry "set_entry (ident y) (entry y) m"]
    by (cases "x \<in> set xs") auto
qed simp

lemma fold_upsert_notes:
  "index_ok idx \<Longrightarrow> index_ok (fold upsert_note ns idx) \<and>
     aliased_notes (fold upsert_note ns idx) = fold (\<lambda>n. set_entry (n_id n) (note_entry n)) ns (aliased_notes idx) \<and>
     aliased_notebooks (fold upsert_note ns idx) = aliased_notebooks idx"
  by (induction ns arbitrary: idx) (simp_all add: upsert_note_ok)

lemma fold_upsert_notebooks:
  "index_ok idx \<Longrightarrow> index_ok (fold upsert_notebook nbs idx) \<and>
     aliased_notebooks (fold upsert_notebook nbs idx) = fold (\<lambda>nb. set_entry (nb_id nb) (notebook_entry nb)) nbs (aliased_notebooks idx) \<and>
     aliased_notes (fold upsert_notebook nbs idx) = aliased_notes idx"
  by (induction nbs arbitrary: idx) (simp_all add: upsert_notebook_ok)

lemma from_snapshots_ok:
  "index_ok (from_snapshots ns nbs)"
  "aliased_notes (from_snapshots ns nbs) = fold (\<lambda>n. set_entry (n_id n) (note_entry n)) ns fmempty"
  "aliased_notebooks (from_snapshots ns nbs) = fold (\<lambda>nb. set_entry (nb_id nb) (notebook_entry nb)) nbs fmempty"
  using fold_upsert_notes [OF index_ok_empty, of ns] fold_upsert_notebooks [of "fold upsert_note ns empty_index" nbs]
  by (auto simp: from_snapshots_def empty_index_def)

section \<open>Resolution\<close>

lemma note_alias_taken_iff:
  "index_ok idx \<Longrightarrow> note_alias_taken idx alias self_id nb \<longleftrightarrow>
     (\<exists>i. i \<noteq> self_id \<and> fmlookup (aliased_notes idx) i = Some (alias, nb))"
proof -
  assume "index_ok idx"
  then have "members (note_aliases idx) alias = {(i, nb). fmlookup (aliased_notes idx) i = Some (alias, nb)}"
    by (simp add: index_ok_def)
  moreover have "note_alias_taken idx alias self_id nb \<longleftrightarrow> (\<exists>i. (i, nb) \<in> members (note_aliases idx) alias \<and> i \<noteq> self_id)"
    by (auto simp: note_alias_taken_def members_def split: option.split)
  ultimately show ?thesis by auto
qed

lemma notebook_alias_taken_iff:
  "index_ok idx \<Longrightarrow> notebook_alias_taken idx alias self_id \<longleftrightarrow>
     (\<exists>i. i \<noteq> self_id \<and> fmlookup (aliased_notebooks idx) i = Some alias)"
proof -
  assume "index_ok idx"
  then have "members (notebook_aliases idx) alias = {i. fmlookup (aliased_notebooks idx) i = Some alias}"
    by (simp add: index_ok_def)
  moreover have "notebook_alias_taken idx alias self_id \<longleftrightarrow> (\<exists>i. i \<in> members (notebook_aliases idx) alias \<and> i \<noteq> self_id)"
    by (auto simp: notebook_alias_taken_def members_def split: option.split)
  ultimately show ?thesis by auto
qed

lemma min_of_spec: "min_of xs = (if xs = [] then None else Some (Min (set xs)))"
  by (cases xs) (simp_all add: Min.set_eq_fold [symmetric] del: list.set)

text \<open>The notes an alias stands for, and the notebook a segment names.\<close>

definition carriers :: "AliasIndex \<Rightarrow> string \<Rightarrow> (uuid \<times> uuid) set" where
  "carriers idx alias = {(i, nb). fmlookup (aliased_notes idx) i = Some (alias, nb) \<and> \<not> is_inbox nb}"

definition least :: "uuid set \<Rightarrow> uuid option" where
  "least A = (if A = {} then None else Some (Min A))"

lemma resolve_note_seg_spec:
  assumes "index_ok idx" "parse_uuid ut seg = None"
  shows "resolve_note_seg ut idx seg notebook_seg source_notebook =
    (case notebook_seg of
       Some ns \<Rightarrow> (if carriers idx seg = {} then None else case resolve_notebook_seg ut idx ns of
           None \<Rightarrow> None
         | Some nb \<Rightarrow> if is_inbox nb then None else least {i. (i, nb) \<in> carriers idx seg})
     | None \<Rightarrow> if card (carriers idx seg) = 1 then Some (fst (the_elem (carriers idx seg)))
         else case source_notebook of
           Some src \<Rightarrow> least {i. (i, src) \<in> carriers idx seg}
         | None \<Rightarrow> least (fst ` carriers idx seg))"
proof -
  define cs where "cs = filter (\<lambda>(_, nb). \<not> is_inbox nb)
    (sorted_list_of_fset (case fmlookup (note_aliases idx) seg of None \<Rightarrow> {||} | Some xs \<Rightarrow> xs))"
  have "members (note_aliases idx) seg = {(i, nb). fmlookup (aliased_notes idx) i = Some (seg, nb)}"
    using assms(1) by (simp add: index_ok_def)
  then have cs: "set cs = carriers idx seg" "distinct cs"
    by (auto simp: cs_def carriers_def members_def sorted_list_of_fset.rep_eq split: option.splits)
  have within: "min_of (map fst (filter (\<lambda>(_, n). n = nb) cs)) = least {i. (i, nb) \<in> carriers idx seg}" for nb
  proof -
    let ?ids = "map fst (filter (\<lambda>(_, n). n = nb) cs)"
    have "set ?ids = {i. (i, nb) \<in> carriers idx seg}" using cs(1) by force
    moreover have "?ids = [] \<longleftrightarrow> set ?ids = {}" by (simp only: set_empty)
    ultimately show ?thesis by (simp only: min_of_spec least_def)
  qed
  have all: "min_of (map fst cs) = least (fst ` carriers idx seg)"
    using cs(1) by (auto simp: min_of_spec least_def)
  have one: "fst (cs ! 0) = fst (the_elem (carriers idx seg))" if "length cs = 1"
  proof -
    from that obtain p where p: "cs = [p]" by (cases cs) auto
    with cs(1) have "carriers idx seg = {p}" by simp
    with p show ?thesis by simp
  qed
  have card: "card (carriers idx seg) = length cs"
    using distinct_card [OF cs(2)] cs(1) by simp
  have unfold: "resolve_note_seg ut idx seg notebook_seg source_notebook =
    (if cs = [] then None else case notebook_seg of
       Some ns \<Rightarrow> do {
         nb \<leftarrow> resolve_notebook_seg ut idx ns;
         if is_inbox nb then None else min_of (map fst (filter (\<lambda>(_, n). n = nb) cs))
       }
     | None \<Rightarrow> if length cs = 1 then Some (fst (cs ! 0))
         else case source_notebook of
           Some src \<Rightarrow> min_of (map fst (filter (\<lambda>(_, n). n = src) cs))
         | None \<Rightarrow> min_of (map fst cs))"
  proof (cases "fmlookup (note_aliases idx) seg")
    case None
    then have "cs = []" by (simp add: cs_def sorted_list_of_fset.rep_eq)
    with None assms(2) show ?thesis by (simp add: resolve_note_seg_def)
  next
    case (Some xs)
    then have "filter (\<lambda>(_, nb). \<not> is_inbox nb) (sorted_list_of_fset xs) = cs" by (simp add: cs_def)
    with Some assms(2) show ?thesis
      by (cases notebook_seg; cases source_notebook) (simp_all add: resolve_note_seg_def Let_def del: filter_filter cong: if_cong)
  qed
  show ?thesis
  proof (cases "cs = []")
    case True
    with cs(1) have "carriers idx seg = {}" by simp
    with True show ?thesis unfolding unfold by (simp add: least_def split: option.split)
  next
    case False
    with cs(1) have "carriers idx seg \<noteq> {}" by auto
    with False show ?thesis
      unfolding unfold by (auto simp: within all one card simp del: One_nat_def split: option.split bind_split)
  qed
qed

end
