(* ===== verification/Linking.thy ===== *)
theory Linking
  imports Alias_Index
begin

text \<open>
  The linking decorator and the alias operations of \<open>keeplin-core/src/linking.rs\<close>: it refreshes the
  bookmarks and links of a note from its body, resolves them through the alias index, and rejects
  colliding aliases before it passes a write to the inner backend. Its state is the inner store with
  the index, if one has been built. An operation that may build the index walks all pages and takes
  fuel. The locks are not modelled: operations run one after the other.
\<close>

definition SCAN_PAGE :: u32 where
  "SCAN_PAGE = 500"

record ResolvedReference =
  rf_note_id :: uuid
  rf_bookmark_number :: "u32 option"

record 'e AliasConflict =
  ac_alias :: string
  ac_entities :: "'e list"

record AliasConflicts =
  acs_notes :: "Note AliasConflict list"
  acs_notebooks :: "Notebook AliasConflict list"

type_synonym 's linked = "'s \<times> AliasIndex option"

section \<open>Scanning\<close>

fun collect_items :: "nat \<Rightarrow> (string option \<Rightarrow> ('a list \<times> string option, 's) act) \<Rightarrow> string option \<Rightarrow> 'a list \<Rightarrow> 's \<Rightarrow> ('a list, 's) op option" where
  "collect_items 0 page token out s = None"
| "collect_items (Suc fuel) page token out s =
    fuel_then (Some (page token s)) (\<lambda>(items, next_token) s.
      let out = out @ items in
      case next_token of
        Some t \<Rightarrow> collect_items fuel page (Some t) out s
      | None \<Rightarrow> Some (Inr out, s))"

definition collect_notes :: "nat \<Rightarrow> 's backend \<Rightarrow> 's \<Rightarrow> (Note list, 's) op option" where
  "collect_notes fuel be = collect_items fuel (list_notes be SCAN_PAGE) None []"

definition collect_notebooks :: "nat \<Rightarrow> 's backend \<Rightarrow> 's \<Rightarrow> (Notebook list, 's) op option" where
  "collect_notebooks fuel be = collect_items fuel (list_notebooks be SCAN_PAGE) None []"

section \<open>The decorator\<close>

definition on_inner :: "('a, 's) act \<Rightarrow> ('a, 's linked) act" where
  "on_inner act st = (let (r, s) = act (fst st) in (r, (s, snd st)))"

definition on_inner_fuel :: "('s \<Rightarrow> ('a, 's) op option) \<Rightarrow> 's linked \<Rightarrow> ('a, 's linked) op option" where
  "on_inner_fuel act st = map_option (\<lambda>(r, s). (r, (s, snd st))) (act (fst st))"

text \<open>\<open>with_index\<close>: the index, built by a scan when there is none.\<close>

definition with_index :: "nat \<Rightarrow> 's backend \<Rightarrow> 's linked \<Rightarrow> (AliasIndex, 's linked) op option" where
  "with_index fuel be st = (case snd st of
     Some idx \<Rightarrow> Some (Inr idx, st)
   | None \<Rightarrow>
       fuel_then (on_inner_fuel (collect_notes fuel be) st) (\<lambda>ns st.
       fuel_then (on_inner_fuel (collect_notebooks fuel be) st) (\<lambda>nbs st.
         let idx = from_snapshots ns nbs in Some (Inr idx, (fst st, Some idx)))))"

definition index_update :: "(AliasIndex \<Rightarrow> AliasIndex) \<Rightarrow> 's linked \<Rightarrow> 's linked" where
  "index_update f st = (fst st, map_option f (snd st))"

definition index_invalidate :: "'s linked \<Rightarrow> 's linked" where
  "index_invalidate st = (fst st, None)"

definition bookmark_of :: "nat \<Rightarrow> DerivedBookmark \<Rightarrow> Bookmark" where
  "bookmark_of i b =
    \<lparr>bm_number = of_nat (i + 1), bm_text = dbm_text b,
     bm_alias = (case dbm_alias b of None \<Rightarrow> dbm_text b | Some a \<Rightarrow> if a = [] then dbm_text b else a)\<rparr>"

definition refresh :: "'u unicode_scheme \<Rightarrow> 'c uuid_text_scheme \<Rightarrow> Note \<Rightarrow> Note" where
  "refresh uc ut n = n\<lparr>
     n_bookmarks := map (\<lambda>(i, b). bookmark_of i b) (enumerate 0 (parse_bookmarks uc (n_body n))),
     n_links := filter (\<lambda>l. l_source l = Manual) (n_links n) @
       List.map_filter (\<lambda>raw. from_raw ut raw Content) (parse_content_links uc (n_body n))\<rparr>"

text \<open>The identifiers among the candidates that are live notes of the Inbox.\<close>

fun inbox_targets :: "'s backend \<Rightarrow> uuid list \<Rightarrow> uuid list \<Rightarrow> 's linked \<Rightarrow> uuid list \<times> 's linked" where
  "inbox_targets be [] found st = (found, st)"
| "inbox_targets be (i # rest) found st =
    (if i \<in> set found then inbox_targets be rest found st
     else case on_inner (read_note be i) st of
       (Inr target, st) \<Rightarrow>
         if n_deleted_at target = None \<and> is_inbox (n_notebook_id target)
         then inbox_targets be rest (i # found) st else inbox_targets be rest found st
     | (Inl _, st) \<Rightarrow> inbox_targets be rest found st)"

definition prepare_note :: "nat \<Rightarrow> 'u unicode_scheme \<Rightarrow> 'c uuid_text_scheme \<Rightarrow> 's backend \<Rightarrow> Note \<Rightarrow> 's linked \<Rightarrow> (Note, 's linked) op option" where
  "prepare_note fuel uc ut be n0 st =
    (let n = refresh uc ut n0 in
     if is_inbox (n_notebook_id n)
     then Some (Inr (n\<lparr>n_alias := None, n_links := map (\<lambda>l. l\<lparr>l_target_note_id := None\<rparr>) (n_links n)\<rparr>), st)
     else if n_alias n = None \<and> n_links n = [] then Some (Inr n, st)
     else fuel_then (with_index fuel be st) (\<lambda>idx st.
       let taken = (case n_alias n of None \<Rightarrow> False | Some alias \<Rightarrow> note_alias_taken idx alias (n_id n) (n_notebook_id n));
           targets = map (\<lambda>l. map_option fst (resolve_target ut idx (l_raw l) (Some (n_notebook_id n)))) (n_links n);
           unverified = filter (\<lambda>i. i |\<notin>| fmdom (aliased_notes idx)) (List.map_filter id targets)
       in if taken then Some (Inl Conflict, st)
          else let (found, st) = inbox_targets be unverified [] st
               in Some (Inr (n\<lparr>n_links := map (\<lambda>(l, target). l\<lparr>l_target_note_id :=
                     (case target of None \<Rightarrow> None | Some t \<Rightarrow> if t \<in> set found then None else Some t)\<rparr>)
                     (zip (n_links n) targets)\<rparr>), st)))"

definition ensure_notebook_alias_free :: "nat \<Rightarrow> 's backend \<Rightarrow> Notebook \<Rightarrow> 's linked \<Rightarrow> (unit, 's linked) op option" where
  "ensure_notebook_alias_free fuel be nb st = (case nb_alias nb of
     None \<Rightarrow> Some (Inr (), st)
   | Some alias \<Rightarrow> fuel_then (with_index fuel be st) (\<lambda>idx st.
       if notebook_alias_taken idx alias (nb_id nb) then Some (Inl Conflict, st) else Some (Inr (), st)))"

definition link_create_note :: "nat \<Rightarrow> 'u unicode_scheme \<Rightarrow> 'c uuid_text_scheme \<Rightarrow> 's backend \<Rightarrow> Note \<Rightarrow> 's linked \<Rightarrow> (Note, 's linked) op option" where
  "link_create_note fuel uc ut be n st =
    fuel_then (prepare_note fuel uc ut be n st) (\<lambda>n st.
    fuel_then (Some (on_inner (create_note be n) st)) (\<lambda>stored st.
      Some (Inr stored, index_update (upsert_note stored) st)))"

definition link_update_note :: "nat \<Rightarrow> 'u unicode_scheme \<Rightarrow> 'c uuid_text_scheme \<Rightarrow> 's backend \<Rightarrow> Note \<Rightarrow> 's linked \<Rightarrow> (Note, 's linked) op option" where
  "link_update_note fuel uc ut be n st =
    fuel_then (prepare_note fuel uc ut be n st) (\<lambda>n st.
    fuel_then (Some (on_inner (update_note be n) st)) (\<lambda>stored st.
      Some (Inr stored, index_update (upsert_note stored) st)))"

definition link_delete_note :: "'s backend \<Rightarrow> uuid \<Rightarrow> (unit, 's linked) act" where
  "link_delete_note be i st = and_then (on_inner (delete_note be i) st) (\<lambda>_ st. (Inr (), index_update (remove_note i) st))"

definition link_note_backlinks :: "'s backend \<Rightarrow> uuid \<Rightarrow> (Note, 's linked) pages" where
  "link_note_backlinks be target_id page_size token st =
    (case on_inner (read_note be target_id) st of
       (Inr n, st) \<Rightarrow> if is_inbox (n_notebook_id n) then (Inr ([], None), st)
         else on_inner (note_backlinks be target_id page_size token) st
     | (Inl _, st) \<Rightarrow> on_inner (note_backlinks be target_id page_size token) st)"

definition link_create_notebook :: "nat \<Rightarrow> 's backend \<Rightarrow> Notebook \<Rightarrow> 's linked \<Rightarrow> (Notebook, 's linked) op option" where
  "link_create_notebook fuel be nb st =
    fuel_then (ensure_notebook_alias_free fuel be nb st) (\<lambda>_ st.
    fuel_then (Some (on_inner (create_notebook be nb) st)) (\<lambda>stored st.
      Some (Inr stored, index_update (upsert_notebook stored) st)))"

definition link_update_notebook :: "nat \<Rightarrow> 's backend \<Rightarrow> Notebook \<Rightarrow> 's linked \<Rightarrow> (Notebook, 's linked) op option" where
  "link_update_notebook fuel be nb st =
    fuel_then (ensure_notebook_alias_free fuel be nb st) (\<lambda>_ st.
    fuel_then (Some (on_inner (update_notebook be nb) st)) (\<lambda>stored st.
      Some (Inr stored, index_update (upsert_notebook stored) st)))"

definition link_delete_notebook :: "'s backend \<Rightarrow> uuid \<Rightarrow> (unit, 's linked) act" where
  "link_delete_notebook be i st =
    and_then (on_inner (delete_notebook be i) st) (\<lambda>_ st. (Inr (), index_update (remove_notebook i) st))"

fun change_affects_aliases :: "Change \<Rightarrow> bool" where
  "change_affects_aliases (NoteCreate _) = True"
| "change_affects_aliases (NoteUpdate _) = True"
| "change_affects_aliases (NoteDelete _ _ _ _) = True"
| "change_affects_aliases (NotebookCreate _) = True"
| "change_affects_aliases (NotebookUpdate _) = True"
| "change_affects_aliases (NotebookDelete _ _ _ _) = True"
| "change_affects_aliases _ = False"

definition link_apply_change :: "'s backend \<Rightarrow> Change \<Rightarrow> (unit, 's linked) act" where
  "link_apply_change be c st = and_then (on_inner (apply_change be c) st) (\<lambda>_ st.
     (Inr (), if change_affects_aliases c then index_invalidate st else st))"

definition link_receive_changes :: "'s backend \<Rightarrow> (Change list, 's linked) act" where
  "link_receive_changes be st = and_then (on_inner (receive_changes be) st) (\<lambda>changes st.
     (Inr changes, if list_ex change_affects_aliases changes then index_invalidate st else st))"

section \<open>Resolution and alias operations over any backend\<close>

definition resolve_bookmark_seg :: "string \<Rightarrow> uuid \<Rightarrow> Note list \<Rightarrow> u32 option" where
  "resolve_bookmark_seg seg note_id ns = do {
     n \<leftarrow> find (\<lambda>n. n_id n = note_id) ns;
     case parse_bookmark_ref seg of
       BmNumber k \<Rightarrow> map_option bm_number (find (\<lambda>b. bm_number b = k) (n_bookmarks n))
     | BmAlias a \<Rightarrow> map_option bm_number (find (\<lambda>b. bm_alias b = a) (n_bookmarks n))
   }"

definition resolve_ref :: "'c uuid_text_scheme \<Rightarrow> string \<Rightarrow> Note list \<Rightarrow> Notebook list \<Rightarrow> ResolvedReference option" where
  "resolve_ref ut raw ns nbs = do {
     (note_id, bookmark_seg) \<leftarrow> resolve_target ut (from_snapshots ns nbs) raw None;
     if list_ex (\<lambda>n. n_id n = note_id \<and> is_inbox (n_notebook_id n)) ns then None
     else Some \<lparr>rf_note_id = note_id,
       rf_bookmark_number = Option.bind bookmark_seg (\<lambda>seg. resolve_bookmark_seg seg note_id ns)\<rparr>
   }"

definition resolve_raw :: "nat \<Rightarrow> 'c uuid_text_scheme \<Rightarrow> 's backend \<Rightarrow> string \<Rightarrow> 's \<Rightarrow> (ResolvedReference option, 's) op option" where
  "resolve_raw fuel ut be raw s =
    fuel_then (collect_notes fuel be s) (\<lambda>ns s.
    fuel_then (collect_notebooks fuel be s) (\<lambda>nbs s. Some (Inr (resolve_ref ut raw ns nbs), s)))"

text \<open>
  Grouping by key: the groups in the order of the keys (a \<open>BTreeMap\<close>), each in the order of the
  items, sorted by identifier.
\<close>

definition group_by_key :: "('a \<Rightarrow> 'k::linorder option) \<Rightarrow> ('a \<Rightarrow> uuid) \<Rightarrow> 'a list \<Rightarrow> ('k \<times> 'a list) list" where
  "group_by_key key_of id_of items =
    (let keys = sort (remdups (List.map_filter key_of items));
         groups = map (\<lambda>k. (k, filter (\<lambda>x. key_of x = Some k) items)) keys
     in map (\<lambda>(k, g). (k, sort_key id_of g)) (filter (\<lambda>(k, g). 2 \<le> length g) groups))"

definition group_conflicts :: "('a \<Rightarrow> string option) \<Rightarrow> ('a \<Rightarrow> uuid) \<Rightarrow> 'a list \<Rightarrow> 'a AliasConflict list" where
  "group_conflicts alias_of id_of items =
    map (\<lambda>(k, g). \<lparr>ac_alias = k, ac_entities = g\<rparr>) (group_by_key alias_of id_of items)"

definition group_note_conflicts :: "Note list \<Rightarrow> Note AliasConflict list" where
  "group_note_conflicts ns =
    map (\<lambda>((alias, _), g). \<lparr>ac_alias = alias, ac_entities = g\<rparr>)
      (group_by_key (\<lambda>n. if is_inbox (n_notebook_id n) then None
          else map_option (\<lambda>alias. (alias, n_notebook_id n)) (n_alias n)) n_id ns)"

definition alias_conflicts :: "nat \<Rightarrow> 's backend \<Rightarrow> 's \<Rightarrow> (AliasConflicts, 's) op option" where
  "alias_conflicts fuel be s =
    fuel_then (collect_notes fuel be s) (\<lambda>ns s.
    fuel_then (collect_notebooks fuel be s) (\<lambda>nbs s.
      Some (Inr \<lparr>acs_notes = group_note_conflicts ns, acs_notebooks = group_conflicts nb_alias nb_id nbs\<rparr>, s)))"

definition read_live_notebook :: "'s backend \<Rightarrow> uuid \<Rightarrow> (Notebook, 's) act" where
  "read_live_notebook be i s = and_then (read_notebook be i s) (\<lambda>nb s.
     if nb_deleted_at nb \<noteq> None then (Inl NotFound, s) else (Inr nb, s))"

definition set_note_alias :: "'s backend \<Rightarrow> uuid \<Rightarrow> string option \<Rightarrow> (Note, 's) act" where
  "set_note_alias be i alias s = and_then (read_live_note be i s) (\<lambda>n s.
     if alias \<noteq> None \<and> is_inbox (n_notebook_id n) then (Inl InvalidInput, s)
     else update_note be (n\<lparr>n_alias := alias\<rparr>) s)"

definition set_notebook_alias :: "'s backend \<Rightarrow> uuid \<Rightarrow> string option \<Rightarrow> (Notebook, 's) act" where
  "set_notebook_alias be i alias s = and_then (read_live_notebook be i s) (\<lambda>nb s.
     update_notebook be (nb\<lparr>nb_alias := alias\<rparr>) s)"

definition add_manual_link :: "'c uuid_text_scheme \<Rightarrow> 's backend \<Rightarrow> uuid \<Rightarrow> string \<Rightarrow> (Note, 's) act" where
  "add_manual_link ut be i raw s = (case from_raw ut raw Manual of
     None \<Rightarrow> (Inl InvalidState, s)
   | Some l \<Rightarrow> and_then (read_live_note be i s) (\<lambda>n s. update_note be (n\<lparr>n_links := n_links n @ [l]\<rparr>) s))"

definition remove_link :: "'s backend \<Rightarrow> uuid \<Rightarrow> nat \<Rightarrow> (Note, 's) act" where
  "remove_link be i index s = and_then (read_live_note be i s) (\<lambda>n s.
     if length (n_links n) \<le> index then (Inl NotFound, s)
     else update_note be (n\<lparr>n_links := take index (n_links n) @ drop (Suc index) (n_links n)\<rparr>) s)"

end
