(* ===== verification/Linking_Laws.thy ===== *)
theory Linking_Laws
  imports Linking
begin

text \<open>
  The contract of a backend under the linking decorator, and what the decorator keeps on it: the
  index, when there is one, is that of the live notes and notebooks, and aliases stay unique.
\<close>

lemma fuel_then_some:
  "fuel_then m k = Some (r, t) \<longleftrightarrow>
     (\<exists>e. m = Some (Inl e, t) \<and> r = Inl e) \<or> (\<exists>x s. m = Some (Inr x, s) \<and> k x s = Some (r, t))"
  by (cases "(m, k)" rule: fuel_then.cases) auto

lemma and_then_result:
  "and_then m k = (r, t) \<longleftrightarrow> (\<exists>e. m = (Inl e, t) \<and> r = Inl e) \<or> (\<exists>x s. m = (Inr x, s) \<and> k x s = (r, t))"
  by (cases "(m, k)" rule: and_then.cases) auto

lemma map_filter_id: "t \<in> set (List.map_filter id xs) \<longleftrightarrow> Some t \<in> set xs"
  by (induction xs) (auto simp: map_filter_simps split: option.split)

text \<open>Notebooks agree but for the version the backend assigns and the creation time.\<close>

definition same_notebook :: "Notebook \<Rightarrow> Notebook \<Rightarrow> bool" where
  "same_notebook a b \<longleftrightarrow> nb_id b = nb_id a \<and> nb_alias b = nb_alias a \<and> nb_deleted_at b = nb_deleted_at a"

lemma same_note_entry: "same_but_version a b \<Longrightarrow> note_entry b = note_entry a \<and> n_id b = n_id a \<and> n_links b = n_links a"
  by (cases a; cases b) (simp add: same_but_version_def note_entry_def)

lemma same_notebook_entry: "same_notebook a b \<Longrightarrow> notebook_entry b = notebook_entry a \<and> nb_id b = nb_id a"
  by (simp add: same_notebook_def notebook_entry_def)

text \<open>More fuel does not change a scan.\<close>

lemma collect_items_mono:
  "collect_items f page token out s = Some r \<Longrightarrow> f \<le> g \<Longrightarrow> collect_items g page token out s = Some r"
proof (induction f arbitrary: g token out s)
  case (Suc f)
  then obtain h where g: "g = Suc h" "f \<le> h" by (cases g) auto
  obtain x t where p: "page token s = (x, t)" by (cases "page token s")
  show ?case
  proof (cases x)
    case (Inl e)
    with Suc.prems(1) g(1) p show ?thesis by simp
  next
    case (Inr y)
    obtain items nxt where y: "y = (items, nxt)" by (cases y)
    show ?thesis
    proof (cases nxt)
      case None
      with Suc.prems(1) g(1) p Inr y show ?thesis by simp
    next
      case (Some tok)
      with Suc.prems(1) p Inr y have "collect_items f page (Some tok) (out @ items) t = Some r" by simp
      from Suc.IH [OF this g(2)] g(1) p Inr y Some show ?thesis by simp
    qed
  qed
qed simp

text \<open>The operations the decorator only passes on.\<close>

inductive passes :: "'s backend \<Rightarrow> 's \<Rightarrow> 's \<Rightarrow> bool" for be s where
  pass_create_tag: "passes be s (snd (create_tag be g s))"
| pass_update_tag: "passes be s (snd (update_tag be g s))"
| pass_delete_tag: "passes be s (snd (delete_tag be i s))"
| pass_add_note_tag: "passes be s (snd (add_note_tag be nt s))"
| pass_remove_note_tag: "passes be s (snd (remove_note_tag be i j s))"
| pass_create_resource: "passes be s (snd (create_resource be r d s))"
| pass_delete_resource: "passes be s (snd (delete_resource be i s))"
| pass_purge: "passes be s (snd (purge_deleted_resources be t s))"
| pass_send: "passes be s (snd (send_changes be cs s))"
| pass_prune: "passes be s (snd (prune_change_journal be t s))"
| pass_sync_time: "passes be s (snd (update_sync_time be t s))"

text \<open>
  The contract: \<open>tab\<close> and \<open>nbtab\<close> are the note and notebook tables, \<open>ok\<close> the states the backend keeps
  to, \<open>valid\<close>, \<open>nbvalid\<close> and \<open>cvalid\<close> the arguments it takes and \<open>pages\<close> the pages a scan may need.
\<close>

locale alias_repo =
  fixes be :: "'s backend"
    and tab :: "'s \<Rightarrow> (uuid, Note) fmap"
    and nbtab :: "'s \<Rightarrow> (uuid, Notebook) fmap"
    and ok :: "'s \<Rightarrow> bool"
    and valid :: "Note \<Rightarrow> bool"
    and nbvalid :: "Notebook \<Rightarrow> bool"
    and cvalid :: "Change \<Rightarrow> bool"
    and pages :: "'s \<Rightarrow> nat"
  assumes keyed: "ok s \<Longrightarrow> fmlookup (tab s) i = Some n \<Longrightarrow> n_id n = i"
    and nbkeyed: "ok s \<Longrightarrow> fmlookup (nbtab s) i = Some nb \<Longrightarrow> nb_id nb = i"
    and created: "ok s \<Longrightarrow> valid n \<Longrightarrow> create_note be n s = (Inr m, s') \<Longrightarrow>
      ok s' \<and> nbtab s' = nbtab s \<and> same_but_version n m \<and>
      (\<exists>stored. same_but_version n stored \<and> tab s' = fmupd (n_id n) stored (tab s))"
    and updated: "ok s \<Longrightarrow> valid n \<Longrightarrow> update_note be n s = (Inr m, s') \<Longrightarrow>
      ok s' \<and> nbtab s' = nbtab s \<and> same_but_version n m \<and>
      (\<exists>stored. same_but_version n stored \<and> tab s' = fmupd (n_id n) stored (tab s))"
    and deleted: "ok s \<Longrightarrow> delete_note be i s = (Inr (), s') \<Longrightarrow>
      ok s' \<and> nbtab s' = nbtab s \<and> (\<exists>dead. n_deleted_at dead \<noteq> None \<and> tab s' = fmupd i dead (tab s))"
    and failed: "ok s \<Longrightarrow> create_note be n s = (Inl e, s') \<or> update_note be n s = (Inl e, s') \<or>
        delete_note be i s = (Inl e, s') \<or> create_notebook be nb s = (Inl e, s') \<or>
        update_notebook be nb s = (Inl e, s') \<or> delete_notebook be i s = (Inl e, s') \<Longrightarrow>
      ok s' \<and> tab s' = tab s \<and> nbtab s' = nbtab s"
    and nbcreated: "ok s \<Longrightarrow> nbvalid nb \<Longrightarrow> create_notebook be nb s = (Inr mb, s') \<Longrightarrow>
      ok s' \<and> tab s' = tab s \<and> same_notebook nb mb \<and>
      (\<exists>row. same_notebook nb row \<and> nbtab s' = fmupd (nb_id nb) row (nbtab s))"
    and nbupdated: "ok s \<Longrightarrow> nbvalid nb \<Longrightarrow> update_notebook be nb s = (Inr mb, s') \<Longrightarrow>
      ok s' \<and> tab s' = tab s \<and> same_notebook nb mb \<and>
      (\<exists>row. same_notebook nb row \<and> nbtab s' = fmupd (nb_id nb) row (nbtab s))"
    and nbdeleted: "ok s \<Longrightarrow> delete_notebook be i s = (Inr (), s') \<Longrightarrow>
      ok s' \<and> tab s' = tab s \<and> (\<exists>gone. nb_deleted_at gone \<noteq> None \<and> nbtab s' = fmupd i gone (nbtab s))"
    and reads: "read_note be i s = (case fmlookup (tab s) i of None \<Rightarrow> (Inl NotFound, s) | Some n \<Rightarrow> (Inr n, s))"
    and scanned: "ok s \<Longrightarrow> pages s \<le> fuel \<Longrightarrow> \<exists>ns. collect_notes fuel be s = Some (Inr ns, s) \<and>
      distinct (map n_id ns) \<and> set ns = {n. n_deleted_at n = None \<and> (\<exists>i. fmlookup (tab s) i = Some n)}"
    and nbscanned: "ok s \<Longrightarrow> pages s \<le> fuel \<Longrightarrow> \<exists>nbs. collect_notebooks fuel be s = Some (Inr nbs, s) \<and>
      distinct (map nb_id nbs) \<and> set nbs = {nb. nb_deleted_at nb = None \<and> (\<exists>i. fmlookup (nbtab s) i = Some nb)}"
    and applied: "ok s \<Longrightarrow> cvalid c \<Longrightarrow> apply_change be c s = (ra, s') \<Longrightarrow> ok s' \<and>
      (isl ra \<or> \<not> change_affects_aliases c \<longrightarrow> tab s' = tab s \<and> nbtab s' = nbtab s)"
    and received: "ok s \<Longrightarrow> receive_changes be s = (rr, s') \<Longrightarrow> ok s' \<and> tab s' = tab s \<and> nbtab s' = nbtab s"
    and passed: "ok s \<Longrightarrow> passes be s s' \<Longrightarrow> ok s' \<and> tab s' = tab s \<and> nbtab s' = nbtab s"
    and invalid_links: "valid (n\<lparr>n_bookmarks := b, n_links := ls\<rparr>) = valid n"
      "valid (n\<lparr>n_alias := a\<rparr>) = valid n"
begin

lemma scan_total:
  assumes "ok s" "collect_notes fuel be s = Some r"
  shows "\<exists>ns. r = (Inr ns, s) \<and> distinct (map n_id ns) \<and>
    set ns = {n. n_deleted_at n = None \<and> (\<exists>i. fmlookup (tab s) i = Some n)}"
  using scanned [OF assms(1), of "fuel + pages s"] assms(2)
    collect_items_mono [of fuel "list_notes be SCAN_PAGE" None "[]" s r "fuel + pages s"]
  by (fastforce simp: collect_notes_def)

lemma nbscan_total:
  assumes "ok s" "collect_notebooks fuel be s = Some r"
  shows "\<exists>nbs. r = (Inr nbs, s) \<and> distinct (map nb_id nbs) \<and>
    set nbs = {nb. nb_deleted_at nb = None \<and> (\<exists>i. fmlookup (nbtab s) i = Some nb)}"
  using nbscanned [OF assms(1), of "fuel + pages s"] assms(2)
    collect_items_mono [of fuel "list_notebooks be SCAN_PAGE" None "[]" s r "fuel + pages s"]
  by (fastforce simp: collect_notebooks_def)

definition coherent :: "'s linked \<Rightarrow> bool" where
  "coherent st \<longleftrightarrow> ok (fst st) \<and> (\<forall>idx. snd st = Some idx \<longrightarrow> index_ok idx \<and>
     (\<forall>i. fmlookup (aliased_notes idx) i = Option.bind (fmlookup (tab (fst st)) i) note_entry) \<and>
     (\<forall>i. fmlookup (aliased_notebooks idx) i = Option.bind (fmlookup (nbtab (fst st)) i) notebook_entry))"

definition unique :: "'s \<Rightarrow> bool" where
  "unique s \<longleftrightarrow> (\<forall>i j n m e. fmlookup (tab s) i = Some n \<longrightarrow> fmlookup (tab s) j = Some m \<longrightarrow>
       note_entry n = Some e \<longrightarrow> note_entry m = Some e \<longrightarrow> i = j) \<and>
     (\<forall>i j n m e. fmlookup (nbtab s) i = Some n \<longrightarrow> fmlookup (nbtab s) j = Some m \<longrightarrow>
       notebook_entry n = Some e \<longrightarrow> notebook_entry m = Some e \<longrightarrow> i = j)"

lemma note_entry_dead: "n_deleted_at n \<noteq> None \<Longrightarrow> note_entry n = None"
  by (simp add: note_entry_def)

lemma built_notes:
  assumes "ok s" "distinct (map n_id ns)" "set ns = {n. n_deleted_at n = None \<and> (\<exists>i. fmlookup (tab s) i = Some n)}"
  shows "fmlookup (aliased_notes (from_snapshots ns nbs)) i = Option.bind (fmlookup (tab s) i) note_entry"
proof (cases "i \<in> n_id ` set ns")
  case True
  then obtain n where n: "n \<in> set ns" "n_id n = i" by blast
  then have "fmlookup (tab s) i = Some n" using assms(1,3) keyed by blast
  with n fold_entries_in [OF assms(2) n(1), of note_entry fmempty] show ?thesis
    by (simp add: from_snapshots_ok)
next
  case False
  have "note_entry n = None" if "fmlookup (tab s) i = Some n" for n
  proof -
    from that False assms(3) keyed [OF assms(1) that] have "n_deleted_at n \<noteq> None" by (metis (mono_tags, lifting) image_eqI mem_Collect_eq)
    then show ?thesis by (simp add: note_entry_def)
  qed
  with fold_entries_other [OF False, of note_entry fmempty] show ?thesis
    by (cases "fmlookup (tab s) i") (simp_all add: from_snapshots_ok)
qed

lemma built_notebooks:
  assumes "ok s" "distinct (map nb_id nbs)" "set nbs = {nb. nb_deleted_at nb = None \<and> (\<exists>i. fmlookup (nbtab s) i = Some nb)}"
  shows "fmlookup (aliased_notebooks (from_snapshots ns nbs)) i = Option.bind (fmlookup (nbtab s) i) notebook_entry"
proof (cases "i \<in> nb_id ` set nbs")
  case True
  then obtain nb where n: "nb \<in> set nbs" "nb_id nb = i" by blast
  then have "fmlookup (nbtab s) i = Some nb" using assms(1,3) nbkeyed by blast
  with n fold_entries_in [OF assms(2) n(1), of notebook_entry fmempty] show ?thesis
    by (simp add: from_snapshots_ok)
next
  case False
  have "notebook_entry nb = None" if "fmlookup (nbtab s) i = Some nb" for nb
  proof -
    from that False assms(3) nbkeyed [OF assms(1) that] have "nb_deleted_at nb \<noteq> None" by (metis (mono_tags, lifting) image_eqI mem_Collect_eq)
    then show ?thesis by (simp add: notebook_entry_def)
  qed
  with fold_entries_other [OF False, of notebook_entry fmempty] show ?thesis
    by (cases "fmlookup (nbtab s) i") (simp_all add: from_snapshots_ok)
qed

lemma with_index_ok:
  assumes "coherent st" "with_index fuel be st = Some (r, st')"
  shows "fst st' = fst st \<and> (\<exists>idx. r = Inr idx \<and> snd st' = Some idx) \<and> coherent st'"
proof (cases "snd st")
  case (Some idx)
  with assms show ?thesis by (auto simp: with_index_def)
next
  case None
  have ok: "ok (fst st)" using assms(1) by (simp add: coherent_def)
  from assms(2) obtain rn sn where scan: "collect_notes fuel be (fst st) = Some (rn, sn)"
    by (auto simp: with_index_def None on_inner_fuel_def fuel_then_some)
  from scan_total [OF ok scan] obtain ns where ns: "rn = Inr ns" "sn = fst st" "distinct (map n_id ns)"
    "set ns = {n. n_deleted_at n = None \<and> (\<exists>i. fmlookup (tab (fst st)) i = Some n)}" by blast
  from assms(2) obtain rb sb where nbscan: "collect_notebooks fuel be (fst st) = Some (rb, sb)"
    by (auto simp: with_index_def None on_inner_fuel_def fuel_then_some scan ns)
  from nbscan_total [OF ok nbscan] obtain nbs where nbs: "rb = Inr nbs" "sb = fst st" "distinct (map nb_id nbs)"
    "set nbs = {nb. nb_deleted_at nb = None \<and> (\<exists>i. fmlookup (nbtab (fst st)) i = Some nb)}" by blast
  from assms(2) have "r = Inr (from_snapshots ns nbs)" "st' = (fst st, Some (from_snapshots ns nbs))"
    by (simp_all add: with_index_def None on_inner_fuel_def scan ns nbscan nbs Let_def)
  with ok built_notes [OF ok ns(3,4)] built_notebooks [OF ok nbs(3,4)] show ?thesis
    by (simp add: coherent_def from_snapshots_ok(1))
qed

section \<open>Preparing a note\<close>

definition inbox_now :: "'s \<Rightarrow> uuid \<Rightarrow> bool" where
  "inbox_now s t \<longleftrightarrow> (\<exists>n. fmlookup (tab s) t = Some n \<and> n_deleted_at n = None \<and> is_inbox (n_notebook_id n))"

lemma inbox_targets_result:
  "inbox_targets be cs found st = (found', st') \<Longrightarrow>
     st' = st \<and> set found' = set found \<union> {t \<in> set cs. inbox_now (fst st) t}"
proof (induction cs arbitrary: found)
  case (Cons c cs)
  show ?case
  proof (cases "c \<in> set found")
    case True
    with Cons show ?thesis by auto
  next
    case False
    show ?thesis
    proof (cases "fmlookup (tab (fst st)) c")
      case None
      then have "on_inner (read_note be c) st = (Inl NotFound, st)" by (simp add: on_inner_def reads)
      with Cons.prems False have "inbox_targets be cs found st = (found', st')" by simp
      note ih = Cons.IH [OF this]
      have "\<not> inbox_now (fst st) c" using None by (simp add: inbox_now_def)
      then have "{t \<in> set (c # cs). inbox_now (fst st) t} = {t \<in> set cs. inbox_now (fst st) t}" by auto
      with ih show ?thesis by simp
    next
      case (Some n)
      then have "on_inner (read_note be c) st = (Inr n, st)" by (simp add: on_inner_def reads)
      moreover have "inbox_now (fst st) c \<longleftrightarrow> n_deleted_at n = None \<and> is_inbox (n_notebook_id n)"
        using Some by (simp add: inbox_now_def)
      ultimately have "inbox_targets be cs (if inbox_now (fst st) c then c # found else found) st = (found', st')"
        using Cons.prems False by (auto split: if_splits)
      note ih = Cons.IH [OF this]
      have "{t \<in> set (c # cs). inbox_now (fst st) t} =
        (if inbox_now (fst st) c then {c} else {}) \<union> {t \<in> set cs. inbox_now (fst st) t}" by auto
      with ih show ?thesis by simp
    qed
  qed
qed simp

definition taken_by_other :: "'s \<Rightarrow> uuid \<Rightarrow> string \<times> uuid \<Rightarrow> bool" where
  "taken_by_other s i e \<longleftrightarrow> (\<exists>j n. j \<noteq> i \<and> fmlookup (tab s) j = Some n \<and> note_entry n = Some e)"

lemma taken_iff:
  assumes "coherent st" "snd st = Some idx"
  shows "note_alias_taken idx a i nb \<longleftrightarrow> taken_by_other (fst st) i (a, nb)"
  using assms by (auto simp: coherent_def note_alias_taken_iff taken_by_other_def bind_eq_Some_conv)

definition prepared :: "'s \<Rightarrow> Note \<Rightarrow> Note \<Rightarrow> bool" where
  "prepared s n m \<longleftrightarrow> n_id m = n_id n \<and> valid m = valid n \<and>
     (\<forall>e. note_entry m = Some e \<longrightarrow> \<not> taken_by_other s (n_id m) e) \<and>
     (\<forall>l\<in>set (n_links m). \<forall>t. l_target_note_id l = Some t \<longrightarrow> \<not> inbox_now s t)"

lemma refresh_keeps [simp]:
  "n_id (refresh uc ut n) = n_id n" "n_notebook_id (refresh uc ut n) = n_notebook_id n"
  "n_alias (refresh uc ut n) = n_alias n" "n_deleted_at (refresh uc ut n) = n_deleted_at n"
  "valid (refresh uc ut n) = valid n"
  by (simp_all add: refresh_def invalid_links)

lemma valid_links [simp]: "valid (n\<lparr>n_links := ls\<rparr>) = valid n"
  using invalid_links(1) [where n = n and b = "n_bookmarks n" and ls = ls] by simp

lemma prepare_note_result:
  assumes "coherent st" "prepare_note fuel uc ut be n st = Some (r, st')"
  shows "fst st' = fst st \<and> coherent st' \<and> (\<forall>m. r = Inr m \<longrightarrow> prepared (fst st) n m)"
proof -
  let ?n = "refresh uc ut n"
  consider (inbox) "is_inbox (n_notebook_id n)" | (plain) "\<not> is_inbox (n_notebook_id n)" "n_alias n = None" "n_links ?n = []"
    | (indexed) "\<not> is_inbox (n_notebook_id n)" "n_alias n \<noteq> None \<or> n_links ?n \<noteq> []" by blast
  then show ?thesis
  proof cases
    case inbox
    with assms show ?thesis
      by (auto simp: prepare_note_def Let_def prepared_def note_entry_def invalid_links)
  next
    case plain
    with assms show ?thesis by (auto simp: prepare_note_def Let_def prepared_def note_entry_def)
  next
    case indexed
    with assms(2) obtain x st1 where w: "with_index fuel be st = Some (x, st1)"
      by (cases "with_index fuel be st") (auto simp: prepare_note_def Let_def split: if_splits)
    from with_index_ok [OF assms(1) w] obtain idx where
      idx: "x = Inr idx" "snd st1 = Some idx" "coherent st1" "fst st1 = fst st" by blast
    let ?taken = "case n_alias ?n of None \<Rightarrow> False | Some alias \<Rightarrow> note_alias_taken idx alias (n_id ?n) (n_notebook_id ?n)"
    let ?targets = "map (\<lambda>l. map_option fst (resolve_target ut idx (l_raw l) (Some (n_notebook_id ?n)))) (n_links ?n)"
    let ?unv = "filter (\<lambda>i. i |\<notin>| fmdom (aliased_notes idx)) (List.map_filter id ?targets)"
    obtain found st2 where it: "inbox_targets be ?unv [] st1 = (found, st2)" by (cases "inbox_targets be ?unv [] st1")
    note f = inbox_targets_result [OF this]
    let ?set = "\<lambda>(l, target). l\<lparr>l_target_note_id :=
      (case target of None \<Rightarrow> None | Some t \<Rightarrow> if t \<in> set found then None else Some t)\<rparr>"
    have out: "(r, st') = (if ?taken then (Inl Conflict, st1)
        else (Inr (?n\<lparr>n_links := map ?set (zip (n_links ?n) ?targets)\<rparr>), st1))"
    proof -
      have "st2 = st1" using f by simp
      with assms(2) indexed w idx(1) it show ?thesis
        by (simp add: prepare_note_def Let_def del: inbox_targets.simps split: if_splits)
    qed
    have inb: "\<not> inbox_now (fst st) t" if "Some t \<in> set ?targets" "t \<notin> set found" for t
    proof
      assume inb: "inbox_now (fst st) t"
      then have "fmlookup (aliased_notes idx) t = None"
        using idx by (auto simp: coherent_def inbox_now_def note_entry_def)
      moreover have "t \<in> set (List.map_filter id ?targets)"
        using that(1) by (simp only: map_filter_id)
      ultimately have "t \<in> set ?unv" by (simp add: fmdom_notI)
      with f inb idx(4) that(2) show False by simp
    qed
    show ?thesis
    proof (cases ?taken)
      case True
      with out idx show ?thesis by simp
    next
      case False
      have "\<not> inbox_now (fst st) t" if "l \<in> set (map ?set (zip (n_links ?n) ?targets))" "l_target_note_id l = Some t" for l t
        using that inb by (auto split: option.splits if_splits dest: set_zip_rightD)
      with False out idx taken_iff [OF idx(3,2)] show ?thesis
        by (auto simp: prepared_def note_entry_def split: option.splits)
    qed
  qed
qed

section \<open>The operations\<close>

lemma coherent_fields:
  assumes "coherent st" "ok s'" "tab s' = tab (fst st)" "nbtab s' = nbtab (fst st)"
  shows "coherent (s', snd st)"
  using assms by (simp add: coherent_def)

lemma coherent_invalid: "ok s \<Longrightarrow> coherent (s, None)"
  by (simp add: coherent_def)

lemma coherent_put:
  assumes "coherent st" "ok s'" "nbtab s' = nbtab (fst st)" "tab s' = fmupd (n_id m) stored (tab (fst st))"
    and "note_entry stored = note_entry m"
  shows "coherent (index_update (upsert_note m) (s', snd st))"
proof (cases "snd st")
  case (Some idx)
  with assms(1) have idx: "index_ok idx" by (simp add: coherent_def)
  with assms Some show ?thesis
    by (auto simp: coherent_def index_update_def upsert_note_ok [OF idx])
qed (use assms in \<open>simp add: coherent_def index_update_def\<close>)

lemma coherent_remove:
  assumes "coherent st" "ok s'" "nbtab s' = nbtab (fst st)" "tab s' = fmupd i dead (tab (fst st))" "n_deleted_at dead \<noteq> None"
  shows "coherent (index_update (remove_note i) (s', snd st))"
proof (cases "snd st")
  case (Some idx)
  with assms(1) have idx: "index_ok idx" by (simp add: coherent_def)
  with assms Some note_entry_dead [OF assms(5)] show ?thesis
    by (auto simp: coherent_def index_update_def remove_note_ok [OF idx])
qed (use assms in \<open>simp add: coherent_def index_update_def\<close>)

lemma coherent_nbput:
  assumes "coherent st" "ok s'" "tab s' = tab (fst st)" "nbtab s' = fmupd (nb_id m) stored (nbtab (fst st))"
    and "notebook_entry stored = notebook_entry m"
  shows "coherent (index_update (upsert_notebook m) (s', snd st))"
proof (cases "snd st")
  case (Some idx)
  with assms(1) have idx: "index_ok idx" by (simp add: coherent_def)
  with assms Some show ?thesis
    by (auto simp: coherent_def index_update_def upsert_notebook_ok [OF idx])
qed (use assms in \<open>simp add: coherent_def index_update_def\<close>)

lemma coherent_nbremove:
  assumes "coherent st" "ok s'" "tab s' = tab (fst st)" "nbtab s' = fmupd i gone (nbtab (fst st))" "nb_deleted_at gone \<noteq> None"
  shows "coherent (index_update (remove_notebook i) (s', snd st))"
proof (cases "snd st")
  case (Some idx)
  with assms(1) have idx: "index_ok idx" by (simp add: coherent_def)
  have "notebook_entry gone = None" using assms(5) by (simp add: notebook_entry_def)
  with assms Some show ?thesis
    by (auto simp: coherent_def index_update_def remove_notebook_ok [OF idx])
qed (use assms in \<open>simp add: coherent_def index_update_def\<close>)

lemma unique_put:
  assumes "unique s" "nbtab s' = nbtab s" "tab s' = fmupd i stored (tab s)"
    and "\<And>e. note_entry stored = Some e \<Longrightarrow> \<not> taken_by_other s i e"
  shows "unique s'"
  using assms unfolding unique_def taken_by_other_def by (auto split: if_splits; metis)

lemma unique_nbput:
  assumes "unique s" "tab s' = tab s" "nbtab s' = fmupd i stored (nbtab s)"
    and "\<And>e j nb. notebook_entry stored = Some e \<Longrightarrow> fmlookup (nbtab s) j = Some nb \<Longrightarrow> notebook_entry nb = Some e \<Longrightarrow> j = i"
  shows "unique s'"
  using assms unfolding unique_def by (auto split: if_splits; metis)

lemma unique_same: "unique s \<Longrightarrow> tab s' = tab s \<Longrightarrow> nbtab s' = nbtab s \<Longrightarrow> unique s'"
  by (simp add: unique_def)

definition keeps :: "'s linked \<Rightarrow> 's linked \<Rightarrow> bool" where
  "keeps st st' \<longleftrightarrow> coherent st' \<and> (unique (fst st) \<longrightarrow> unique (fst st'))"

definition links_clear :: "'s \<Rightarrow> uuid \<Rightarrow> bool" where
  "links_clear s i \<longleftrightarrow> (\<exists>n. fmlookup (tab s) i = Some n \<and>
     (\<forall>l\<in>set (n_links n). \<forall>t. l_target_note_id l = Some t \<longrightarrow> \<not> inbox_now s t))"

lemma put_note_law:
  assumes "put = create_note be \<or> put = update_note be" "ok s" "valid n" "put n s = (r, s')"
  shows "ok s' \<and> nbtab s' = nbtab s \<and> (case r of Inl e \<Rightarrow> tab s' = tab s
    | Inr m \<Rightarrow> same_but_version n m \<and> (\<exists>stored. same_but_version n stored \<and> tab s' = fmupd (n_id n) stored (tab s)))"
proof (cases r)
  case (Inl e)
  with assms(1,4) have "create_note be n s = (Inl e, s') \<or> update_note be n s = (Inl e, s')" by auto
  then have "ok s' \<and> tab s' = tab s \<and> nbtab s' = nbtab s" using failed [OF assms(2), of n e s'] by blast
  with Inl show ?thesis by simp
next
  case (Inr m)
  with assms(1,4) consider "create_note be n s = (Inr m, s')" | "update_note be n s = (Inr m, s')" by auto
  then show ?thesis
  proof cases
    case 1
    from created [OF assms(2,3) this] Inr show ?thesis by simp
  next
    case 2
    from updated [OF assms(2,3) this] Inr show ?thesis by simp
  qed
qed

lemma links_clear_put:
  assumes "prepared s n m" "same_but_version m stored" "tab s' = fmupd (n_id m) stored (tab s)"
    and "is_inbox (n_notebook_id m) \<Longrightarrow> \<forall>l\<in>set (n_links m). l_target_note_id l = None"
  shows "links_clear s' (n_id m)"
proof -
  note e = same_note_entry [OF assms(2)] same_but_versionD [OF assms(2)]
  have "\<not> inbox_now s' t" if "l \<in> set (n_links stored)" "l_target_note_id l = Some t" for l t
  proof (cases "t = n_id m")
    case True
    with that assms(3,4) e show ?thesis by (fastforce simp: inbox_now_def)
  next
    case False
    with that assms(1,3) e show ?thesis by (auto simp: inbox_now_def prepared_def)
  qed
  then show ?thesis using assms(3) by (auto simp: links_clear_def)
qed

lemma prepare_inbox:
  assumes "prepare_note fuel uc ut be n st = Some (Inr m, st')" "is_inbox (n_notebook_id m)"
  shows "\<forall>l\<in>set (n_links m). l_target_note_id l = None"
  using assms by (auto simp: prepare_note_def Let_def fuel_then_some split: if_splits prod.splits)

lemma store_note_result:
  assumes "put = create_note be \<or> put = update_note be" "coherent st" "valid n"
    and "fuel_then (prepare_note fuel uc ut be n st) (\<lambda>n st.
      fuel_then (Some (on_inner (put n) st)) (\<lambda>stored st. Some (Inr stored, index_update (upsert_note stored) st))) = Some (r, st')"
  shows "keeps st st' \<and> (isl r \<or> links_clear (fst st') (n_id n))"
proof -
  from assms(4) obtain x st1 where p: "prepare_note fuel uc ut be n st = Some (x, st1)"
    by (cases "prepare_note fuel uc ut be n st") auto
  note pr = prepare_note_result [OF assms(2) p]
  show ?thesis
  proof (cases x)
    case (Inl e)
    with assms(4) p pr show ?thesis by (auto simp: keeps_def)
  next
    case (Inr m)
    with pr have m: "prepared (fst st) n m" "coherent st1" "fst st1 = fst st" by auto
    obtain y s2 where w: "put m (fst st1) = (y, s2)" by (cases "put m (fst st1)")
    have "ok (fst st1)" "valid m" using m assms(3) by (auto simp: coherent_def prepared_def)
    note law = put_note_law [OF assms(1) this w]
    show ?thesis
    proof (cases y)
      case (Inl e)
      with assms(4) p Inr w have "st' = (s2, snd st1)" "r = Inl e" by (simp_all add: on_inner_def)
      with Inl law m coherent_fields [OF m(2), of s2] unique_same [of "fst st" s2] show ?thesis
        by (simp add: keeps_def)
    next
      case (Inr z)
      with law obtain stored where z: "same_but_version m z" "same_but_version m stored" "ok s2"
        "nbtab s2 = nbtab (fst st1)" "tab s2 = fmupd (n_id m) stored (tab (fst st1))" by auto
      note e = same_note_entry [OF z(1)] same_note_entry [OF z(2)]
      from assms(4) p \<open>x = Inr m\<close> w Inr have st': "st' = index_update (upsert_note z) (s2, snd st1)"
        by (simp add: on_inner_def)
      have "coherent st'" unfolding st' by (rule coherent_put [OF m(2) z(3,4), where stored = stored]) (use z(5) e in \<open>simp_all\<close>)
      moreover have "unique (fst st')" if "unique (fst st)"
      proof -
        have "unique s2"
          by (rule unique_put [OF that, of s2 "n_id m" stored]) (use z m(1,3) e in \<open>auto simp: prepared_def\<close>)
        then show ?thesis by (simp add: st' index_update_def)
      qed
      moreover have "links_clear (fst st') (n_id m)"
        using links_clear_put [OF m(1) z(2), of s2] z(5) m(3) prepare_inbox [of fuel uc ut n st m st1] p \<open>x = Inr m\<close>
        by (simp add: st' index_update_def)
      moreover have "n_id m = n_id n" using m(1) by (simp add: prepared_def)
      ultimately show ?thesis by (simp add: keeps_def)
    qed
  qed
qed

lemma store_notebook_result:
  assumes "put = create_notebook be \<or> put = update_notebook be" "coherent st" "nbvalid nb"
    and "fuel_then (ensure_notebook_alias_free fuel be nb st) (\<lambda>_ st.
      fuel_then (Some (on_inner (put nb) st)) (\<lambda>stored st. Some (Inr stored, index_update (upsert_notebook stored) st))) = Some (r, st')"
  shows "keeps st st'"
proof -
  from assms(4) obtain x st1 where p: "ensure_notebook_alias_free fuel be nb st = Some (x, st1)"
    by (cases "ensure_notebook_alias_free fuel be nb st") auto
  have pr: "coherent st1 \<and> fst st1 = fst st \<and> (\<not> isl x \<longrightarrow> (\<forall>e j row. notebook_entry nb = Some e \<longrightarrow>
    fmlookup (nbtab (fst st)) j = Some row \<longrightarrow> notebook_entry row = Some e \<longrightarrow> j = nb_id nb))"
  proof (cases "nb_alias nb")
    case None
    with p assms(2) show ?thesis by (auto simp: ensure_notebook_alias_free_def notebook_entry_def)
  next
    case (Some al)
    with p obtain y st2 where w: "with_index fuel be st = Some (y, st2)"
      by (cases "with_index fuel be st") (auto simp: ensure_notebook_alias_free_def)
    from with_index_ok [OF assms(2) w] obtain idx where
      idx: "y = Inr idx" "snd st2 = Some idx" "coherent st2" "fst st2 = fst st" by blast
    have "notebook_alias_taken idx al (nb_id nb) \<longleftrightarrow>
      (\<exists>j row. j \<noteq> nb_id nb \<and> fmlookup (nbtab (fst st)) j = Some row \<and> notebook_entry row = Some al)"
      using idx by (auto simp: coherent_def notebook_alias_taken_iff bind_eq_Some_conv)
    with p Some w idx show ?thesis
      by (auto simp: ensure_notebook_alias_free_def notebook_entry_def split: if_splits)
  qed
  show ?thesis
  proof (cases x)
    case (Inl e)
    with assms(4) p pr show ?thesis by (auto simp: keeps_def)
  next
    case (Inr u)
    note Inr' = Inr
    obtain y s2 where w: "put nb (fst st1) = (y, s2)" by (cases "put nb (fst st1)")
    from pr have ok: "ok (fst st1)" by (auto simp: coherent_def)
    show ?thesis
    proof (cases y)
      case (Inl e)
      with assms(1) w have "create_notebook be nb (fst st1) = (Inl e, s2) \<or> update_notebook be nb (fst st1) = (Inl e, s2)" by auto
      then have "ok s2 \<and> tab s2 = tab (fst st1) \<and> nbtab s2 = nbtab (fst st1)" using failed [OF ok] by blast
      moreover from assms(4) p Inr w Inl have "st' = (s2, snd st1)" by (simp add: on_inner_def)
      ultimately show ?thesis
        using pr coherent_fields [of st1 s2] unique_same [of "fst st" s2] by (simp add: keeps_def)
    next
      case (Inr z)
      with assms(1) w consider "create_notebook be nb (fst st1) = (Inr z, s2)" | "update_notebook be nb (fst st1) = (Inr z, s2)" by auto
      then obtain row where z: "ok s2" "tab s2 = tab (fst st1)" "same_notebook nb z" "same_notebook nb row"
        "nbtab s2 = fmupd (nb_id nb) row (nbtab (fst st1))"
        using nbcreated [OF ok assms(3), of z s2] nbupdated [OF ok assms(3), of z s2] by cases blast+
      note e = same_notebook_entry [OF z(3)] same_notebook_entry [OF z(4)]
      from assms(4) p Inr' w Inr have st': "st' = index_update (upsert_notebook z) (s2, snd st1)"
        by (simp add: on_inner_def)
      have "coherent st'" unfolding st'
        by (rule coherent_nbput [where stored = row]) (use pr z(1,2,5) e in \<open>simp_all\<close>)
      moreover have "unique (fst st')" if "unique (fst st)"
      proof -
        have "unique s2"
          by (rule unique_nbput [OF that, of s2 "nb_id nb" row]) (use z pr e Inr' in \<open>auto\<close>)
        then show ?thesis by (simp add: st' index_update_def)
      qed
      ultimately show ?thesis by (simp add: keeps_def)
    qed
  qed
qed

lemma link_delete_note_result:
  assumes "coherent st" "link_delete_note be i st = (r, st')"
  shows "keeps st st'"
proof -
  have ok: "ok (fst st)" using assms(1) by (simp add: coherent_def)
  obtain y s2 where w: "delete_note be i (fst st) = (y, s2)" by (cases "delete_note be i (fst st)")
  show ?thesis
  proof (cases y)
    case (Inl e)
    with assms(2) w have "st' = (s2, snd st)" by (simp add: link_delete_note_def on_inner_def)
    moreover have "ok s2 \<and> tab s2 = tab (fst st) \<and> nbtab s2 = nbtab (fst st)" using failed [OF ok] w Inl by blast
    ultimately show ?thesis
      using coherent_fields [OF assms(1), of s2] unique_same [of "fst st" s2] by (simp add: keeps_def)
  next
    case (Inr u)
    with assms(2) w have st': "st' = index_update (remove_note i) (s2, snd st)"
      by (simp add: link_delete_note_def on_inner_def)
    from deleted [OF ok] w Inr obtain dead where d: "ok s2" "nbtab s2 = nbtab (fst st)" "n_deleted_at dead \<noteq> None"
      "tab s2 = fmupd i dead (tab (fst st))" by (cases u) blast
    have "coherent st'" unfolding st' by (rule coherent_remove [OF assms(1) d(1,2,4,3)])
    moreover have "unique s2" if "unique (fst st)"
      by (rule unique_put [OF that d(2,4)]) (simp add: note_entry_dead [OF d(3)])
    ultimately show ?thesis by (simp add: keeps_def st' index_update_def)
  qed
qed

lemma link_delete_notebook_result:
  assumes "coherent st" "link_delete_notebook be i st = (r, st')"
  shows "keeps st st'"
proof -
  have ok: "ok (fst st)" using assms(1) by (simp add: coherent_def)
  obtain y s2 where w: "delete_notebook be i (fst st) = (y, s2)" by (cases "delete_notebook be i (fst st)")
  show ?thesis
  proof (cases y)
    case (Inl e)
    with assms(2) w have "st' = (s2, snd st)" by (simp add: link_delete_notebook_def on_inner_def)
    moreover have "ok s2 \<and> tab s2 = tab (fst st) \<and> nbtab s2 = nbtab (fst st)" using failed [OF ok] w Inl by blast
    ultimately show ?thesis
      using coherent_fields [OF assms(1), of s2] unique_same [of "fst st" s2] by (simp add: keeps_def)
  next
    case (Inr u)
    with assms(2) w have st': "st' = index_update (remove_notebook i) (s2, snd st)"
      by (simp add: link_delete_notebook_def on_inner_def)
    from nbdeleted [OF ok] w Inr obtain gone where d: "ok s2" "tab s2 = tab (fst st)" "nb_deleted_at gone \<noteq> None"
      "nbtab s2 = fmupd i gone (nbtab (fst st))" by (cases u) blast
    have "coherent st'" unfolding st' by (rule coherent_nbremove [OF assms(1) d(1,2,4,3)])
    moreover have "unique s2" if "unique (fst st)"
      by (rule unique_nbput [OF that d(2,4)]) (use d(3) in \<open>simp add: notebook_entry_def\<close>)
    ultimately show ?thesis by (simp add: keeps_def st' index_update_def)
  qed
qed

lemma link_apply_change_result:
  assumes "coherent st" "cvalid c" "link_apply_change be c st = (r, st')"
  shows "coherent st'"
proof -
  have ok: "ok (fst st)" using assms(1) by (simp add: coherent_def)
  obtain y s2 where w: "apply_change be c (fst st) = (y, s2)" by (cases "apply_change be c (fst st)")
  from applied [OF ok assms(2) w] show ?thesis
    using assms(3) w coherent_fields [OF assms(1), of s2] coherent_invalid [of s2]
    by (cases y) (auto simp: link_apply_change_def on_inner_def index_invalidate_def split: if_splits)
qed

lemma link_receive_changes_result:
  assumes "coherent st" "link_receive_changes be st = (r, st')"
  shows "keeps st st'"
proof -
  have ok: "ok (fst st)" using assms(1) by (simp add: coherent_def)
  obtain y s2 where w: "receive_changes be (fst st) = (y, s2)" by (cases "receive_changes be (fst st)")
  from received [OF ok w] show ?thesis
    using assms(2) w coherent_fields [OF assms(1), of s2] coherent_invalid [of s2] unique_same [of "fst st" s2]
    by (cases y) (auto simp: link_receive_changes_def on_inner_def index_invalidate_def keeps_def split: if_splits)
qed

lemma passes_result:
  assumes "coherent st" "passes be (fst st) s'"
  shows "keeps st (s', snd st)"
proof -
  have "ok (fst st)" using assms(1) by (simp add: coherent_def)
  from passed [OF this assms(2)] coherent_fields [OF assms(1)] unique_same show ?thesis by (simp add: keeps_def)
qed

text \<open>With fuel for the pages of the store, the operations return.\<close>

lemma with_index_total:
  assumes "coherent st" "pages (fst st) \<le> fuel"
  shows "with_index fuel be st \<noteq> None"
proof (cases "snd st")
  case None
  have ok: "ok (fst st)" using assms(1) by (simp add: coherent_def)
  from scanned [OF ok assms(2)] nbscanned [OF ok assms(2)] None show ?thesis
    by (auto simp: with_index_def on_inner_fuel_def Let_def)
qed (simp add: with_index_def)

lemma prepare_note_total:
  assumes "coherent st" "pages (fst st) \<le> fuel"
  shows "prepare_note fuel uc ut be n st \<noteq> None"
proof -
  obtain x st1 where w: "with_index fuel be st = Some (x, st1)" using with_index_total [OF assms] by auto
  from with_index_ok [OF assms(1) w] obtain idx where "x = Inr idx" by blast
  with w show ?thesis by (auto simp: prepare_note_def Let_def split: prod.split)
qed

lemma store_note_total:
  assumes "coherent st" "pages (fst st) \<le> fuel"
  shows "fuel_then (prepare_note fuel uc ut be n st) (\<lambda>n st.
      fuel_then (Some (on_inner (put n) st)) (\<lambda>stored st. Some (Inr stored, index_update (upsert_note stored) st))) \<noteq> None"
proof -
  obtain x st1 where p: "prepare_note fuel uc ut be n st = Some (x, st1)" using prepare_note_total [OF assms, of uc ut n] by auto
  show ?thesis
  proof (cases x)
    case (Inr m)
    obtain y s2 where "put m (fst st1) = (y, s2)" by (cases "put m (fst st1)")
    with p Inr show ?thesis by (cases y) (simp_all add: on_inner_def)
  qed (use p in simp)
qed

lemma index_rebuilt:
  assumes "coherent st" "snd st = Some idx" "pages (fst st) \<le> fuel"
  shows "with_index fuel be (fst st, None) = Some (Inr idx, (fst st, Some idx))"
proof -
  have ok: "ok (fst st)" using assms(1) by (simp add: coherent_def)
  then have c: "coherent (fst st, None)" by (rule coherent_invalid)
  obtain r st' where w: "with_index fuel be (fst st, None) = Some (r, st')"
    using with_index_total [OF c, of fuel] assms(3) by fastforce
  from with_index_ok [OF c w] obtain idx' where i: "fst st' = fst st" "r = Inr idx'" "snd st' = Some idx'" "coherent st'" by auto
  have "idx' = idx"
    using i assms(1,2) by (intro index_eqI) (auto simp: coherent_def intro!: fmap_ext)
  with w i show ?thesis by (cases st') simp
qed

lemma store_note_conflict:
  assumes "coherent st" "pages (fst st) \<le> fuel" "\<not> is_inbox (n_notebook_id n)" "n_alias n = Some a"
    and "taken_by_other (fst st) (n_id n) (a, n_notebook_id n)"
  shows "\<exists>st1. fst st1 = fst st \<and> fuel_then (prepare_note fuel uc ut be n st) k = Some (Inl Conflict, st1)"
proof -
  obtain x st1 where w: "with_index fuel be st = Some (x, st1)" using with_index_total [OF assms(1,2)] by auto
  from with_index_ok [OF assms(1) w] obtain idx where
    idx: "x = Inr idx" "snd st1 = Some idx" "coherent st1" "fst st1 = fst st" by blast
  have "note_alias_taken idx a (n_id n) (n_notebook_id n)" using taken_iff [OF idx(3,2)] assms(5) idx(4) by simp
  with assms(3,4) w idx(1) have "prepare_note fuel uc ut be n st = Some (Inl Conflict, st1)"
    by (simp add: prepare_note_def Let_def)
  with idx(4) show ?thesis by (intro exI [of _ st1]) simp
qed

end

end
