(* ===== verification/Db_Linking.thy ===== *)
theory Db_Linking
  imports Linking_Laws Db_Invariant
begin

text \<open>
  The linking decorator over the SQL backend: the backend honours the contract of
  \<open>Linking_Laws\<close>, and the states the two reach together.
\<close>

section \<open>The backend as a repository under the decorator\<close>

text \<open>
  The creation times that may appear are a set on which the text form of timestamps is monotone, so
  that listings page completely.
\<close>

definition link_ok :: "'c text_codec_scheme \<Rightarrow> ts set \<Rightarrow> Db \<Rightarrow> bool" where
  "link_ok tc T s \<longleftrightarrow> db_wf s \<and> ts_text_ok tc T \<and> uuid_text_ok (uuid_text.truncate tc) \<and>
     (\<forall>i n. fmlookup (db_notes s) i = Some n \<longrightarrow> n_created_at n \<in> T) \<and>
     (\<forall>i nb. fmlookup (db_notebooks s) i = Some nb \<longrightarrow> nb_created_at nb \<in> T)"

fun change_created :: "Change \<Rightarrow> ts option" where
  "change_created (NoteCreate n) = Some (n_created_at n)"
| "change_created (NoteUpdate n) = Some (n_created_at n)"
| "change_created (NoteDelete i t v w) = Some t"
| "change_created (NotebookCreate nb) = Some (nb_created_at nb)"
| "change_created (NotebookUpdate nb) = Some (nb_created_at nb)"
| "change_created (NotebookDelete i t v w) = Some t"
| "change_created _ = None"

definition created_within :: "ts set \<Rightarrow> Change \<Rightarrow> bool" where
  "created_within T c \<longleftrightarrow> (\<forall>t. change_created c = Some t \<longrightarrow> t \<in> T)"

definition row_count :: "Db \<Rightarrow> nat" where
  "row_count s = Suc (max (length (rows_of (db_notes s))) (length (rows_of (db_notebooks s))))"

lemma link_ok_same:
  "link_ok tc T s \<Longrightarrow> db_wf s' \<Longrightarrow> db_notes s' = db_notes s \<Longrightarrow> db_notebooks s' = db_notebooks s \<Longrightarrow> link_ok tc T s'"
  by (simp add: link_ok_def)

lemma link_ok_note:
  "link_ok tc T s \<Longrightarrow> db_wf s' \<Longrightarrow> db_notes s' = fmupd i row (db_notes s) \<Longrightarrow> db_notebooks s' = db_notebooks s \<Longrightarrow>
     n_created_at row \<in> T \<Longrightarrow> link_ok tc T s'"
  by (auto simp: link_ok_def)

lemma link_ok_notebook:
  "link_ok tc T s \<Longrightarrow> db_wf s' \<Longrightarrow> db_notes s' = db_notes s \<Longrightarrow> db_notebooks s' = fmupd i row (db_notebooks s) \<Longrightarrow>
     nb_created_at row \<in> T \<Longrightarrow> link_ok tc T s'"
  by (auto simp: link_ok_def)

lemma link_ok_created:
  "link_ok tc T s \<Longrightarrow> fmlookup (db_notes s) i = Some n \<Longrightarrow> n_created_at n \<in> T"
  "link_ok tc T s \<Longrightarrow> fmlookup (db_notebooks s) i = Some nb \<Longrightarrow> nb_created_at nb \<in> T"
  "link_ok tc T s \<Longrightarrow> db_wf s"
  by (auto simp: link_ok_def)

lemma transaction_failed:
  "transaction body s = (Inl e, s') \<Longrightarrow>
     db_notes s' = db_notes s \<and> db_notebooks s' = db_notebooks s \<and> (db_wf s \<longrightarrow> db_wf s')"
  by (auto simp: transaction_def wf_ticks split: prod.splits sum.splits)

lemma transaction_result: "transaction body s = (Inr x, s') \<longleftrightarrow> body s = (Inr x, s')"
  by (auto simp: transaction_def split: prod.splits sum.splits)

lemma transaction_frame:
  assumes "\<And>x s'. body s = (Inr x, s') \<Longrightarrow> db_notes s' = db_notes s \<and> db_notebooks s' = db_notebooks s"
  shows "db_notes (snd (transaction body s)) = db_notes s \<and> db_notebooks (snd (transaction body s)) = db_notebooks s"
  using assms by (auto simp: transaction_def split: prod.splits sum.splits)

lemma create_note_tables:
  assumes "db_create_note n s = (Inr m, s')"
  shows "same_but_version n m \<and> db_notes s' = fmupd (n_id n) m (db_notes s) \<and> db_notebooks s' = db_notebooks s \<and>
    n_created_at m = n_created_at n"
  using assms unfolding db_create_note_def transaction_result
  by (auto simp: Let_def same_but_version_def split: if_splits)

lemma update_note_tables:
  assumes "db_update_note n s = (Inr m, s')"
  shows "\<exists>old row. db_notes s' = fmupd (n_id n) row (db_notes s) \<and> fmlookup (db_notes s) (n_id n) = Some old \<and>
    same_but_version n m \<and> same_but_version n row \<and> n_created_at row = n_created_at old \<and> db_notebooks s' = db_notebooks s"
  using assms unfolding db_update_note_def transaction_result
  by (auto simp: Let_def same_but_version_def intro!: exI conjI split: option.splits)

lemma delete_note_tables:
  assumes "db_delete_note i s = (Inr u, s')"
  shows "\<exists>old row. db_notes s' = fmupd i row (db_notes s) \<and> fmlookup (db_notes s) i = Some old \<and>
    n_deleted_at row \<noteq> None \<and> n_created_at row = n_created_at old \<and> db_notebooks s' = db_notebooks s"
  using assms unfolding db_delete_note_def transaction_result
  by (auto simp: Let_def db_now_def note_tombstone_def intro!: exI conjI split: option.splits)

lemma create_notebook_tables:
  assumes "db_create_notebook nb s = (Inr m, s')"
  shows "same_notebook nb m \<and> db_notebooks s' = fmupd (nb_id nb) m (db_notebooks s) \<and> db_notes s' = db_notes s \<and>
    nb_created_at m = nb_created_at nb"
  using assms unfolding db_create_notebook_def transaction_result
  by (auto simp: Let_def same_notebook_def split: if_splits)

lemma update_notebook_tables:
  assumes "db_update_notebook nb s = (Inr m, s')"
  shows "\<exists>old row. db_notebooks s' = fmupd (nb_id nb) row (db_notebooks s) \<and> fmlookup (db_notebooks s) (nb_id nb) = Some old \<and>
    same_notebook nb m \<and> same_notebook nb row \<and> nb_created_at row = nb_created_at old \<and> db_notes s' = db_notes s"
  using assms unfolding db_update_notebook_def transaction_result
  by (auto simp: Let_def same_notebook_def intro!: exI conjI split: option.splits)

lemma delete_notebook_tables:
  assumes "db_delete_notebook i s = (Inr u, s')"
  shows "\<exists>old row. db_notebooks s' = fmupd i row (db_notebooks s) \<and> fmlookup (db_notebooks s) i = Some old \<and>
    nb_deleted_at row \<noteq> None \<and> nb_created_at row = nb_created_at old \<and> db_notes s' = db_notes s"
  using assms unfolding db_delete_notebook_def transaction_result
  by (auto simp: Let_def db_now_def notebook_tombstone_def intro!: exI conjI split: option.splits)

lemma passes_tables:
  assumes "passes (db_backend tc rm) s s'"
  shows "db_notes s' = db_notes s \<and> db_notebooks s' = db_notebooks s"
  using assms
proof cases
  case (pass_create_tag g)
  have "db_notes (snd (db_create_tag g s)) = db_notes s \<and> db_notebooks (snd (db_create_tag g s)) = db_notebooks s"
    unfolding db_create_tag_def by (rule transaction_frame) (auto simp: Let_def split: if_splits)
  with pass_create_tag show ?thesis by (simp add: db_backend_def)
next
  case (pass_update_tag g)
  have "db_notes (snd (db_update_tag g s)) = db_notes s \<and> db_notebooks (snd (db_update_tag g s)) = db_notebooks s"
    unfolding db_update_tag_def by (rule transaction_frame) (auto simp: Let_def split: option.splits)
  with pass_update_tag show ?thesis by (simp add: db_backend_def)
next
  case (pass_delete_tag i)
  have "db_notes (snd (db_delete_tag i s)) = db_notes s \<and> db_notebooks (snd (db_delete_tag i s)) = db_notebooks s"
    unfolding db_delete_tag_def by (rule transaction_frame) (auto simp: Let_def db_now_def split: option.splits)
  with pass_delete_tag show ?thesis by (simp add: db_backend_def)
next
  case (pass_add_note_tag nt)
  have "db_notes (snd (db_add_note_tag nt s)) = db_notes s \<and> db_notebooks (snd (db_add_note_tag nt s)) = db_notebooks s"
    unfolding db_add_note_tag_def
    by (rule transaction_frame) (auto simp: Let_def db_now_def upsert_assoc_def split: if_splits)
  with pass_add_note_tag show ?thesis by (simp add: db_backend_def)
next
  case (pass_remove_note_tag i j)
  have "db_notes (snd (db_remove_note_tag i j s)) = db_notes s \<and> db_notebooks (snd (db_remove_note_tag i j s)) = db_notebooks s"
    unfolding db_remove_note_tag_def
    by (rule transaction_frame) (auto simp: Let_def db_now_def upsert_assoc_def split: if_splits option.splits)
  with pass_remove_note_tag show ?thesis by (simp add: db_backend_def)
next
  case (pass_create_resource r d)
  have "db_notes (snd (db_create_resource r d s)) = db_notes s \<and> db_notebooks (snd (db_create_resource r d s)) = db_notebooks s"
    unfolding db_create_resource_def by (rule transaction_frame) (auto simp: Let_def split: if_splits)
  with pass_create_resource show ?thesis by (simp add: db_backend_def)
next
  case (pass_delete_resource i)
  have "db_notes (snd (db_delete_resource i s)) = db_notes s \<and> db_notebooks (snd (db_delete_resource i s)) = db_notebooks s"
    unfolding db_delete_resource_def by (rule transaction_frame) (auto simp: Let_def db_now_def split: option.splits)
  with pass_delete_resource show ?thesis by (simp add: db_backend_def)
next
  case (pass_send cs)
  obtain r t where r: "db_send_changes rm cs s = (r, t)" by (cases "db_send_changes rm cs s")
  with db_send_result [OF r] pass_send show ?thesis
    by (auto simp: db_backend_def dest!: transport_stepD(4) simp: tables_agree_def)
qed (simp_all add: db_backend_def db_purge_deleted_resources_def db_prune_change_journal_def db_update_sync_time_def)

lemma passes_wf: "db_wf s \<Longrightarrow> passes (db_backend tc rm) s s' \<Longrightarrow> db_wf s'"
  by (erule passes.cases)
    (simp_all add: db_backend_def wf_db_tags wf_db_assocs wf_db_resources wf_db_transport wf_db_prune wf_db_sync_time)

lemma apply_tables:
  "change_affects_aliases c \<or> (db_notes (db_apply c s) = db_notes s \<and> db_notebooks (db_apply c s) = db_notebooks s)"
  by (cases c) (simp_all add: db_apply_defs)

lemma apply_notes_created:
  assumes "fmlookup (db_notes (db_apply c s)) i = Some n"
  shows "change_created c = Some (n_created_at n) \<or> (\<exists>j old. fmlookup (db_notes s) j = Some old \<and> n_created_at n = n_created_at old)"
proof (cases c)
  case (NoteDelete j t v w)
  with assms show ?thesis
    by (cases "fmlookup (db_notes s) j") (simp_all add: db_apply_defs note_stub_def note_tombstone_def split: if_splits, auto, blast+)
qed (use assms in \<open>auto simp: db_apply_defs split: if_splits\<close>)

lemma apply_notebooks_created:
  assumes "fmlookup (db_notebooks (db_apply c s)) i = Some nb"
  shows "change_created c = Some (nb_created_at nb) \<or> (\<exists>j old. fmlookup (db_notebooks s) j = Some old \<and> nb_created_at nb = nb_created_at old)"
proof (cases c)
  case (NotebookDelete j t v w)
  with assms show ?thesis
    by (cases "fmlookup (db_notebooks s) j") (simp_all add: db_apply_defs notebook_stub_def notebook_tombstone_def split: if_splits, auto, blast+)
qed (use assms in \<open>auto simp: db_apply_defs split: if_splits\<close>)

lemma apply_link_ok: "link_ok tc T s \<Longrightarrow> created_within T c \<Longrightarrow> link_ok tc T (db_apply c s)"
  using apply_notes_created [of c s] apply_notebooks_created [of c s] wf_db_apply [of s c]
  unfolding link_ok_def created_within_def by metis

lemma receive_tables: "db_notes (snd (db_receive_changes rm s)) = db_notes s \<and> db_notebooks (snd (db_receive_changes rm s)) = db_notebooks s"
  using transport_stepD(4) [of s "snd (db_receive_changes rm s)"] db_receive_result [of rm s]
  by (auto simp: tables_agree_def)

lemma collect_items_walk:
  assumes "\<And>t. page t s = (Inr (pg t), s)" and "walk_pages fuel pg token = Some items"
  shows "collect_items fuel page token out s = Some (Inr (out @ items), s)"
  using assms(2)
proof (induction fuel arbitrary: token out items)
  case (Suc fuel)
  then show ?case
    by (cases "pg token"; cases "snd (pg token)") (auto simp: assms(1) Let_def)
qed simp

lemma scan_page: "unat (effective_page_size SCAN_PAGE) = 500"
  by (simp add: SCAN_PAGE_def effective_page_size_def MAX_PAGE_SIZE_def DEFAULT_PAGE_SIZE_def)

lemma scan_rows:
  assumes "ts_text_ok tc T" "uuid_text_ok (uuid_text.truncate tc)" "\<And>r. r \<in> set rows \<Longrightarrow> created r \<in> T"
    and "distinct (map ident rows)" "Suc (length rows) \<le> fuel"
    and "\<And>t. page t s = (Inr (sql_page SCAN_PAGE t (\<lambda>r. created_key tc (created r) (ident r)) rows), s)"
  shows "\<exists>items. collect_items fuel page None [] s = Some (Inr items, s) \<and> mset items = mset rows"
proof -
  obtain k where k: "fuel = Suc k" "length rows \<le> k" using assms(5) by (cases fuel) auto
  have "ts_text_ok tc (created ` set rows)" using ts_text_ok_subset [OF assms(1)] assms(3) by blast
  moreover have "length rows \<le> Suc k * unat (effective_page_size SCAN_PAGE)" using k scan_page by simp
  ultimately have "walk_pages (Suc k) (\<lambda>t. sql_page SCAN_PAGE t (\<lambda>r. created_key tc (created r) (ident r)) rows) None =
      Some (sort_key (\<lambda>r. created_key tc (created r) (ident r)) rows)"
    using created_walk(1) [of tc created rows ident k SCAN_PAGE] assms(2,4) by blast
  from collect_items_walk [of page s, OF assms(6) this, of "[]"] k(1) show ?thesis by auto
qed

lemma db_scans:
  assumes "link_ok tc T s" "row_count s \<le> fuel"
  shows "\<exists>ns. collect_notes fuel (db_backend tc rm) s = Some (Inr ns, s) \<and> distinct (map n_id ns) \<and>
      set ns = {n. n_deleted_at n = None \<and> (\<exists>i. fmlookup (db_notes s) i = Some n)}"
    and "\<exists>nbs. collect_notebooks fuel (db_backend tc rm) s = Some (Inr nbs, s) \<and> distinct (map nb_id nbs) \<and>
      set nbs = {nb. nb_deleted_at nb = None \<and> (\<exists>i. fmlookup (db_notebooks s) i = Some nb)}"
proof -
  note ok = assms(1) [unfolded link_ok_def]
  let ?ns = "filter (\<lambda>n. n_deleted_at n = None) (rows_of (db_notes s))"
  let ?nbs = "filter (\<lambda>n. nb_deleted_at n = None) (rows_of (db_notebooks s))"
  have len: "Suc (length ?ns) \<le> fuel" "Suc (length ?nbs) \<le> fuel"
    using assms(2) length_filter_le [of "\<lambda>n. n_deleted_at n = None" "rows_of (db_notes s)"]
      length_filter_le [of "\<lambda>n. nb_deleted_at n = None" "rows_of (db_notebooks s)"]
    unfolding row_count_def by linarith+
  have wf: "db_wf s" using ok by simp
  have dist: "distinct (map n_id ?ns)" "distinct (map nb_id ?nbs)"
    using rows_of_distinct [of "db_notes s" n_id] rows_of_distinct [of "db_notebooks s" nb_id] wf_keyed(1,2) [OF wf]
      distinct_map_filter by blast+
  have ts: "ts_text_ok tc T" "uuid_text_ok (uuid_text.truncate tc)" using ok by simp_all
  have "\<exists>items. collect_items fuel (db_list_notes tc SCAN_PAGE) None [] s = Some (Inr items, s) \<and> mset items = mset ?ns"
    by (rule scan_rows [OF ts _ dist(1) len(1), of n_created_at])
      (use ok in \<open>auto simp: rows_of_mem db_list_notes_def\<close>)
  then obtain ns where n: "collect_items fuel (db_list_notes tc SCAN_PAGE) None [] s = Some (Inr ns, s)" "mset ns = mset ?ns" by blast
  then have "distinct (map n_id ns)" using dist(1) by (metis mset_map mset_eq_imp_distinct_iff)
  moreover have "set ns = set ?ns" by (rule mset_eq_setD [OF n(2)])
  ultimately show "\<exists>ns. collect_notes fuel (db_backend tc rm) s = Some (Inr ns, s) \<and> distinct (map n_id ns) \<and>
      set ns = {n. n_deleted_at n = None \<and> (\<exists>i. fmlookup (db_notes s) i = Some n)}"
    using n(1) by (auto simp: collect_notes_def db_backend_def rows_of_mem)
  have "\<exists>items. collect_items fuel (db_list_notebooks tc SCAN_PAGE) None [] s = Some (Inr items, s) \<and> mset items = mset ?nbs"
    by (rule scan_rows [OF ts _ dist(2) len(2), of nb_created_at])
      (use ok in \<open>auto simp: rows_of_mem db_list_notebooks_def\<close>)
  then obtain nbs where b: "collect_items fuel (db_list_notebooks tc SCAN_PAGE) None [] s = Some (Inr nbs, s)" "mset nbs = mset ?nbs" by blast
  then have "distinct (map nb_id nbs)" using dist(2) by (metis mset_map mset_eq_imp_distinct_iff)
  moreover have "set nbs = set ?nbs" by (rule mset_eq_setD [OF b(2)])
  ultimately show "\<exists>nbs. collect_notebooks fuel (db_backend tc rm) s = Some (Inr nbs, s) \<and> distinct (map nb_id nbs) \<and>
      set nbs = {nb. nb_deleted_at nb = None \<and> (\<exists>i. fmlookup (db_notebooks s) i = Some nb)}"
    using b(1) by (auto simp: collect_notebooks_def db_backend_def rows_of_mem)
qed

lemma link_ok_ops:
  assumes "link_ok tc T s"
  shows "n_created_at n \<in> T \<Longrightarrow> db_create_note n s = (Inr m, s') \<Longrightarrow> link_ok tc T s'"
    and "db_update_note n s = (Inr m, s') \<Longrightarrow> link_ok tc T s'"
    and "db_delete_note i s = (Inr u, s') \<Longrightarrow> link_ok tc T s'"
    and "nb_created_at nb \<in> T \<Longrightarrow> db_create_notebook nb s = (Inr mb, s') \<Longrightarrow> link_ok tc T s'"
    and "db_update_notebook nb s = (Inr mb, s') \<Longrightarrow> link_ok tc T s'"
    and "db_delete_notebook i s = (Inr u, s') \<Longrightarrow> link_ok tc T s'"
proof -
  note ok = link_ok_created [OF assms]
  note wf = wf_db_create_note [OF ok(3), of n] wf_db_update_note [OF ok(3), of n] wf_db_delete_note [OF ok(3), of i]
    wf_db_notebooks(1) [OF ok(3), of nb] wf_db_notebooks(2) [OF ok(3), of nb] wf_db_notebooks(3) [OF ok(3), of i]
  show "n_created_at n \<in> T \<Longrightarrow> db_create_note n s = (Inr m, s') \<Longrightarrow> link_ok tc T s'"
    using create_note_tables [of n s m s'] wf(1) link_ok_note [OF assms, of s'] by simp
  show "db_update_note n s = (Inr m, s') \<Longrightarrow> link_ok tc T s'"
    using update_note_tables [of n s m s'] wf(2) link_ok_note [OF assms, of s'] ok(1) by fastforce
  show "db_delete_note i s = (Inr u, s') \<Longrightarrow> link_ok tc T s'"
    using delete_note_tables [of i s u s'] wf(3) link_ok_note [OF assms, of s'] ok(1) by fastforce
  show "nb_created_at nb \<in> T \<Longrightarrow> db_create_notebook nb s = (Inr mb, s') \<Longrightarrow> link_ok tc T s'"
    using create_notebook_tables [of nb s mb s'] wf(4) link_ok_notebook [OF assms, of s'] by simp
  show "db_update_notebook nb s = (Inr mb, s') \<Longrightarrow> link_ok tc T s'"
    using update_notebook_tables [of nb s mb s'] wf(5) link_ok_notebook [OF assms, of s'] ok(2) by fastforce
  show "db_delete_notebook i s = (Inr u, s') \<Longrightarrow> link_ok tc T s'"
    using delete_notebook_tables [of i s u s'] wf(6) link_ok_notebook [OF assms, of s'] ok(2) by fastforce
qed

lemma failed_tables:
  assumes "db_create_note n s = (Inl e, s') \<or> db_update_note n s = (Inl e, s') \<or> db_delete_note i s = (Inl e, s') \<or>
    db_create_notebook nb s = (Inl e, s') \<or> db_update_notebook nb s = (Inl e, s') \<or> db_delete_notebook i s = (Inl e, s')"
  shows "db_notes s' = db_notes s \<and> db_notebooks s' = db_notebooks s \<and> (db_wf s \<longrightarrow> db_wf s')"
  using assms
  unfolding db_create_note_def db_update_note_def db_delete_note_def db_create_notebook_def db_update_notebook_def
    db_delete_notebook_def
  by (elim disjE) (blast dest: transaction_failed)+

interpretation sql_links: alias_repo "db_backend tc rm" db_notes db_notebooks "link_ok tc T" "\<lambda>n. n_created_at n \<in> T"
  "\<lambda>nb. nb_created_at nb \<in> T" "created_within T" row_count for tc rm T
proof (unfold_locales, goal_cases)
  case (1 s i n)
  then show ?case using wf_keyed(1) link_ok_created(3) by blast
next
  case (2 s i nb)
  then show ?case using wf_keyed(2) link_ok_created(3) by blast
next
  case (3 s n m s')
  then show ?case using link_ok_ops(1) [of tc T s n m s'] create_note_tables [of n s m s'] by (auto simp: db_backend_def)
next
  case (4 s n m s')
  then show ?case using link_ok_ops(2) [of tc T s n m s'] update_note_tables [of n s m s'] by (auto simp: db_backend_def)
next
  case (5 s i s')
  then show ?case using link_ok_ops(3) [of tc T s i "()" s'] delete_note_tables [of i s "()" s'] by (auto simp: db_backend_def)
next
  case (6 s n e s' i nb)
  then have "db_notes s' = db_notes s \<and> db_notebooks s' = db_notebooks s \<and> (db_wf s \<longrightarrow> db_wf s')"
    by (intro failed_tables [of n s e s' i nb]) (simp add: db_backend_def)
  with 6(1) link_ok_same link_ok_created(3) show ?case by blast
next
  case (7 s nb mb s')
  then show ?case using link_ok_ops(4) [of tc T s nb mb s'] create_notebook_tables [of nb s mb s'] by (auto simp: db_backend_def)
next
  case (8 s nb mb s')
  then show ?case using link_ok_ops(5) [of tc T s nb mb s'] update_notebook_tables [of nb s mb s'] by (auto simp: db_backend_def)
next
  case (9 s i s')
  then show ?case using link_ok_ops(6) [of tc T s i "()" s'] delete_notebook_tables [of i s "()" s'] by (auto simp: db_backend_def)
next
  case (10 i s)
  show ?case by (simp add: db_backend_def db_read_note_def)
next
  case (11 s fuel)
  then show ?case by (rule db_scans(1))
next
  case (12 s fuel)
  then show ?case by (rule db_scans(2))
next
  case (13 s c ra s')
  then show ?case using apply_tables [of c s] apply_link_ok by (auto simp: db_backend_def db_apply_change_def)
next
  case (14 s rr s')
  then have s': "s' = snd (db_receive_changes rm s)" by (simp add: db_backend_def)
  show ?case using receive_tables [of rm s] link_ok_same [OF 14(1)] wf_db_transport(2) [OF link_ok_created(3) [OF 14(1)]]
    unfolding s' by blast
next
  case (15 s s')
  then show ?case using passes_tables passes_wf link_ok_same link_ok_created(3) by blast
qed simp_all

section \<open>The states the decorator and the backend reach\<close>

text \<open>
  The operations of this device, with any arguments whose creation times are in \<open>T\<close>, any outcome and
  any fuel they return with.
\<close>

inductive link_local :: "'u unicode_scheme \<Rightarrow> 'c text_codec_scheme \<Rightarrow> remote \<Rightarrow> ts set \<Rightarrow> Db linked \<Rightarrow> Db linked \<Rightarrow> bool"
  for uc tc rm T where
  local_create_note: "n_created_at n \<in> T \<Longrightarrow> link_create_note fuel uc tc (db_backend tc rm) n st = Some (r, st') \<Longrightarrow> link_local uc tc rm T st st'"
| local_update_note: "n_created_at n \<in> T \<Longrightarrow> link_update_note fuel uc tc (db_backend tc rm) n st = Some (r, st') \<Longrightarrow> link_local uc tc rm T st st'"
| local_delete_note: "link_delete_note (db_backend tc rm) i st = (u, st') \<Longrightarrow> link_local uc tc rm T st st'"
| local_create_notebook: "nb_created_at nb \<in> T \<Longrightarrow> link_create_notebook fuel (db_backend tc rm) nb st = Some (rb, st') \<Longrightarrow> link_local uc tc rm T st st'"
| local_update_notebook: "nb_created_at nb \<in> T \<Longrightarrow> link_update_notebook fuel (db_backend tc rm) nb st = Some (rb, st') \<Longrightarrow> link_local uc tc rm T st st'"
| local_delete_notebook: "link_delete_notebook (db_backend tc rm) i st = (u, st') \<Longrightarrow> link_local uc tc rm T st st'"
| local_receive: "link_receive_changes (db_backend tc rm) st = (cs, st') \<Longrightarrow> link_local uc tc rm T st st'"
| local_pass: "passes (db_backend tc rm) (fst st) s' \<Longrightarrow> link_local uc tc rm T st (s', snd st)"

inductive link_reachable :: "'u unicode_scheme \<Rightarrow> 'c text_codec_scheme \<Rightarrow> remote \<Rightarrow> ts set \<Rightarrow> Db linked \<Rightarrow> bool"
  for uc tc rm T where
  linked_new: "link_reachable uc tc rm T ((empty_db device)\<lparr>db_clock := clock, db_server_url := url, db_ws_events := events\<rparr>, None)"
| linked_local: "link_reachable uc tc rm T st \<Longrightarrow> link_local uc tc rm T st st' \<Longrightarrow> link_reachable uc tc rm T st'"
| linked_apply: "link_reachable uc tc rm T st \<Longrightarrow> created_within T c \<Longrightarrow> link_apply_change (db_backend tc rm) c st = (u, st') \<Longrightarrow>
    link_reachable uc tc rm T st'"

definition codec_ok :: "'c text_codec_scheme \<Rightarrow> ts set \<Rightarrow> bool" where
  "codec_ok tc T \<longleftrightarrow> ts_text_ok tc T \<and> uuid_text_ok (uuid_text.truncate tc)"

text \<open>No two live notes of a notebook share an alias, the Inbox apart, and no two live notebooks do.\<close>

definition unique_aliases :: "Db \<Rightarrow> bool" where
  "unique_aliases s \<longleftrightarrow>
    (\<forall>i j n m a. fmlookup (db_notes s) i = Some n \<longrightarrow> fmlookup (db_notes s) j = Some m \<longrightarrow>
       n_deleted_at n = None \<longrightarrow> n_deleted_at m = None \<longrightarrow> n_alias n = Some a \<longrightarrow> n_alias m = Some a \<longrightarrow>
       n_notebook_id n = n_notebook_id m \<longrightarrow> \<not> is_inbox (n_notebook_id n) \<longrightarrow> i = j) \<and>
    (\<forall>i j n m a. fmlookup (db_notebooks s) i = Some n \<longrightarrow> fmlookup (db_notebooks s) j = Some m \<longrightarrow>
       nb_deleted_at n = None \<longrightarrow> nb_deleted_at m = None \<longrightarrow> nb_alias n = Some a \<longrightarrow> nb_alias m = Some a \<longrightarrow> i = j)"

text \<open>No link of the stored note points to a live note of the Inbox.\<close>

definition targets_outside_inbox :: "Db \<Rightarrow> uuid \<Rightarrow> bool" where
  "targets_outside_inbox s i \<longleftrightarrow> (\<exists>n. fmlookup (db_notes s) i = Some n \<and>
     (\<forall>l\<in>set (n_links n). \<forall>t target. l_target_note_id l = Some t \<longrightarrow> fmlookup (db_notes s) t = Some target \<longrightarrow>
        n_deleted_at target = None \<longrightarrow> \<not> is_inbox (n_notebook_id target)))"

abbreviation link_coherent :: "'c text_codec_scheme \<Rightarrow> ts set \<Rightarrow> Db linked \<Rightarrow> bool" where
  "link_coherent tc T \<equiv> alias_repo.coherent db_notes db_notebooks (link_ok tc T)"

abbreviation link_keeps :: "'c text_codec_scheme \<Rightarrow> ts set \<Rightarrow> Db linked \<Rightarrow> Db linked \<Rightarrow> bool" where
  "link_keeps tc T \<equiv> alias_repo.keeps db_notes db_notebooks (link_ok tc T)"

lemma entry_iff:
  "note_entry n = Some (a, nb) \<longleftrightarrow> n_deleted_at n = None \<and> n_alias n = Some a \<and> n_notebook_id n = nb \<and> \<not> is_inbox nb"
  "notebook_entry b = Some a \<longleftrightarrow> nb_deleted_at b = None \<and> nb_alias b = Some a"
  by (auto simp: note_entry_def notebook_entry_def)

lemma unique_aliases_iff: "unique_aliases s = sql_links.unique s"
  unfolding unique_aliases_def sql_links.unique_def split_paired_All entry_iff
  by (rule iffI; elim conjE; intro conjI allI impI; metis)

lemma targets_outside_inbox_iff: "targets_outside_inbox s i = sql_links.links_clear s i"
  unfolding targets_outside_inbox_def sql_links.links_clear_def sql_links.inbox_now_def by blast

lemma local_keeps:
  assumes "link_local uc tc rm T st st'" "link_coherent tc T st"
  shows "link_keeps tc T st st'"
  using assms(1)
proof cases
  case (local_create_note n fuel r)
  with sql_links.store_note_result [where put = "create_note (db_backend tc rm)"] assms(2) show ?thesis
    unfolding link_create_note_def by blast
next
  case (local_update_note n fuel r)
  with sql_links.store_note_result [where put = "update_note (db_backend tc rm)"] assms(2) show ?thesis
    unfolding link_update_note_def by blast
next
  case (local_create_notebook nb fuel r)
  with sql_links.store_notebook_result [where put = "create_notebook (db_backend tc rm)"] assms(2) show ?thesis
    unfolding link_create_notebook_def by blast
next
  case (local_update_notebook nb fuel r)
  with sql_links.store_notebook_result [where put = "update_notebook (db_backend tc rm)"] assms(2) show ?thesis
    unfolding link_update_notebook_def by blast
next
  case (local_delete_note i u)
  with sql_links.link_delete_note_result assms(2) show ?thesis by blast
next
  case (local_delete_notebook i u)
  with sql_links.link_delete_notebook_result assms(2) show ?thesis by blast
next
  case (local_receive cs)
  with sql_links.link_receive_changes_result assms(2) show ?thesis by blast
next
  case (local_pass s')
  with sql_links.passes_result assms(2) show ?thesis by blast
qed

lemma reachable_coherent:
  assumes "codec_ok tc T" "link_reachable uc tc rm T st"
  shows "link_coherent tc T st"
  using assms(2)
proof induction
  case (linked_new events url clock device)
  let ?s = "(empty_db device)\<lparr>db_clock := clock, db_server_url := url, db_ws_events := events\<rparr>"
  have "db_notes ?s = fmempty" "db_notebooks ?s = fmempty" by (simp_all add: empty_db_def)
  with assms(1) db_new_wf [where device = device and clock = clock and url = url and events = events] have "link_ok tc T ?s" by (simp add: link_ok_def codec_ok_def)
  then show ?case by (rule sql_links.coherent_invalid)
next
  case (linked_local st st')
  then show ?case using local_keeps sql_links.keeps_def by blast
next
  case (linked_apply st c u st')
  then show ?case using sql_links.link_apply_change_result by blast
qed

section \<open>Properties\<close>

text \<open>
  C21. Whenever the decorator over the SQL backend has an alias index, in any state reached by local
  operations and changes of other devices, the index holds exactly the live notes outside the Inbox and
  the live notebooks under their aliases, and it is the very index a scan of the store would build.
\<close>

theorem link_index_current:
  assumes "codec_ok tc T" and "link_reachable uc tc rm T (s, Some idx)" and "row_count s \<le> fuel"
  shows "(\<forall>a i nb. (i, nb) \<in> members (note_aliases idx) a \<longleftrightarrow> (\<exists>n. fmlookup (db_notes s) i = Some n \<and>
      n_deleted_at n = None \<and> n_alias n = Some a \<and> n_notebook_id n = nb \<and> \<not> is_inbox nb)) \<and>
    (\<forall>a i. i \<in> members (notebook_aliases idx) a \<longleftrightarrow> (\<exists>nb. fmlookup (db_notebooks s) i = Some nb \<and>
      nb_deleted_at nb = None \<and> nb_alias nb = Some a)) \<and>
    with_index fuel (db_backend tc rm) (s, None) = Some (Inr idx, (s, Some idx))"
proof -
  have c: "link_coherent tc T (s, Some idx)" using assms(1,2) by (rule reachable_coherent)
  then have i: "index_ok idx"
    "\<And>i. fmlookup (aliased_notes idx) i = Option.bind (fmlookup (db_notes s) i) note_entry"
    "\<And>i. fmlookup (aliased_notebooks idx) i = Option.bind (fmlookup (db_notebooks s) i) notebook_entry"
    by (simp_all add: sql_links.coherent_def)
  have "with_index fuel (db_backend tc rm) (s, None) = Some (Inr idx, (s, Some idx))"
    using sql_links.index_rebuilt [OF c, of idx fuel rm] assms(3) by simp
  with i show ?thesis by (auto simp: index_ok_def bind_eq_Some_conv entry_iff)
qed

text \<open>
  C22. The operations of this device never introduce an alias collision: if no two live notes of a
  notebook and no two live notebooks share an alias, then after any sequence of local operations none
  do. (Applying another device's changes can; \<open>alias_conflicts\<close> reports it.)
\<close>

theorem link_aliases_stay_unique:
  assumes "codec_ok tc T" and "link_reachable uc tc rm T st" and "unique_aliases (fst st)"
    and "(link_local uc tc rm T)\<^sup>*\<^sup>* st st'"
  shows "unique_aliases (fst st')"
proof -
  from assms(4) have "link_reachable uc tc rm T st' \<and> unique_aliases (fst st')"
  proof induction
    case (step st1 st2)
    then have "link_coherent tc T st1" using reachable_coherent [OF assms(1)] by blast
    with step local_keeps [of uc tc rm T st1 st2] show ?case
      by (auto simp: sql_links.keeps_def unique_aliases_iff intro: linked_local)
  qed (use assms in simp)
  then show ?thesis ..
qed

text \<open>
  C23. Updating a note through the decorator over the SQL backend returns. If another live note of its
  notebook has its alias, it reports a conflict and the store is unchanged; and if it succeeds, no
  link of the stored note points to a live note of the Inbox.
\<close>

theorem link_update_note_result:
  assumes "codec_ok tc T" and "link_reachable uc tc rm T st" and "n_created_at n \<in> T" and "row_count (fst st) \<le> fuel"
  shows "\<exists>r st'. link_update_note fuel uc tc (db_backend tc rm) n st = Some (r, st') \<and>
    (\<forall>j m a. \<not> is_inbox (n_notebook_id n) \<longrightarrow> n_alias n = Some a \<longrightarrow> j \<noteq> n_id n \<longrightarrow> fmlookup (db_notes (fst st)) j = Some m \<longrightarrow>
       n_deleted_at m = None \<longrightarrow> n_alias m = Some a \<longrightarrow> n_notebook_id m = n_notebook_id n \<longrightarrow>
       r = Inl Conflict \<and> fst st' = fst st) \<and>
    (\<forall>m. r = Inr m \<longrightarrow> targets_outside_inbox (fst st') (n_id n))"
proof -
  have c: "link_coherent tc T st" using assms(1,2) by (rule reachable_coherent)
  obtain r st' where u: "link_update_note fuel uc tc (db_backend tc rm) n st = Some (r, st')"
    using sql_links.store_note_total [OF c assms(4)] unfolding link_update_note_def by fastforce
  have "r = Inl Conflict \<and> fst st' = fst st"
    if "\<not> is_inbox (n_notebook_id n)" "n_alias n = Some a" "j \<noteq> n_id n" "fmlookup (db_notes (fst st)) j = Some m"
      "n_deleted_at m = None" "n_alias m = Some a" "n_notebook_id m = n_notebook_id n" for j m a
  proof -
    have "sql_links.taken_by_other (fst st) (n_id n) (a, n_notebook_id n)"
      using that unfolding sql_links.taken_by_other_def entry_iff by metis
    from sql_links.store_note_conflict [OF c assms(4) that(1,2) this]
    obtain st1 where "fst st1 = fst st" "link_update_note fuel uc tc (db_backend tc rm) n st = Some (Inl Conflict, st1)"
      unfolding link_update_note_def by blast
    with u show ?thesis by simp
  qed
  moreover have "targets_outside_inbox (fst st') (n_id n)" if "r = Inr m" for m
    using sql_links.store_note_result [OF disjI2 [OF refl] c assms(3) u [unfolded link_update_note_def]] that
    by (simp add: targets_outside_inbox_iff)
  ultimately show ?thesis using u by blast
qed

text \<open>A note with an alias, and the state its creation leaves.\<close>

definition aliased_note :: Note where
  "aliased_note = sample_note\<lparr>n_notebook_id := 5, n_alias := Some ''x''\<rparr>"

definition blank :: "Db linked" where
  "blank = ((empty_db ''A'')\<lparr>db_clock := int, db_server_url := [], db_ws_events := []\<rparr>, None)"

lemma blank_index:
  "with_index (Suc k) (db_backend unary_codec offline) blank = Some (Inr empty_index, (fst blank, Some empty_index))"
  by (simp add: with_index_def blank_def on_inner_fuel_def collect_notes_def collect_notebooks_def db_backend_def
      db_list_notes_def db_list_notebooks_def empty_db_def rows_of_fmempty sql_page_eq Let_def from_snapshots_def)

lemma plain_body: "parse_bookmarks ascii ''b'' = []" "parse_content_links ascii ''b'' = []"
  by (simp_all add: parse_bookmarks_def parse_content_links_def captures.simps bookmark_at_def content_link_at_def bracketed_def)

definition one_aliased :: "Db linked" where
  "one_aliased = snd (the (link_create_note 1 ascii unary_codec (db_backend unary_codec offline) aliased_note blank))"

lemma aliased_prepared:
  "prepare_note (Suc k) ascii unary_codec (db_backend unary_codec offline) aliased_note blank =
     Some (Inr aliased_note, (fst blank, Some empty_index))"
  by (simp add: prepare_note_def refresh_def aliased_note_def sample_note_def new_note_def plain_body is_inbox_def
      INBOX_ID_def uuid_nil_def blank_index note_alias_taken_def empty_index_def map_filter_simps Let_def)

lemma one_aliased_created:
  "\<exists>stored db. link_create_note 1 ascii unary_codec (db_backend unary_codec offline) aliased_note blank = Some (Inr stored, one_aliased) \<and>
     one_aliased = (db, Some (upsert_note stored empty_index)) \<and> same_but_version aliased_note stored \<and>
     db_notes db = fmupd 7 stored fmempty \<and> db_notebooks db = fmempty"
proof -
  obtain r s' where c: "db_create_note aliased_note (fst blank) = (r, s')" by (cases "db_create_note aliased_note (fst blank)")
  have "\<exists>m. r = Inr m"
    using c by (auto simp: db_create_note_def transaction_def Let_def blank_def empty_db_def split: prod.splits sum.splits if_splits)
  then obtain m where m: "r = Inr m" by blast
  from create_note_tables [OF c [unfolded m]] have t: "same_but_version aliased_note m" "db_notes s' = fmupd 7 m fmempty" "db_notebooks s' = fmempty"
    by (simp_all add: blank_def empty_db_def aliased_note_def sample_note_def new_note_def)
  have "link_create_note 1 ascii unary_codec (db_backend unary_codec offline) aliased_note blank =
      Some (Inr m, (s', Some (upsert_note m empty_index)))"
    using aliased_prepared [of 0] c m by (simp add: link_create_note_def on_inner_def db_backend_def index_update_def)
  with t show ?thesis by (simp add: one_aliased_def)
qed

lemma unary_codec_100: "codec_ok unary_codec {100}"
  using unary_codec_ok
  by (simp add: codec_ok_def ts_text_ok_def strict_mono_on_def) (simp add: unary_codec_def uuid_text.extend_def bar_def)

lemma blank_reachable: "link_reachable ascii unary_codec offline {100} blank"
  unfolding blank_def by (rule linked_new)

lemma one_aliased_local: "link_local ascii unary_codec offline {100} blank one_aliased"
proof -
  have "n_created_at aliased_note \<in> {100}" by (simp add: aliased_note_def sample_note_def new_note_def)
  with one_aliased_created show ?thesis by (blast intro: local_create_note)
qed

lemma one_aliased_reachable: "link_reachable ascii unary_codec offline {100} one_aliased"
  using blank_reachable one_aliased_local by (rule linked_local)

lemma one_aliased_facts:
  "\<exists>db idx n. one_aliased = (db, Some idx) \<and> fmlookup (db_notes db) 7 = Some n \<and> n_deleted_at n = None \<and>
     n_alias n = Some ''x'' \<and> n_notebook_id n = 5 \<and> row_count db = 2"
proof -
  obtain stored db where o: "one_aliased = (db, Some (upsert_note stored empty_index))" "same_but_version aliased_note stored"
    "db_notes db = fmupd 7 stored fmempty" "db_notebooks db = fmempty" using one_aliased_created by blast
  have "rows_of (fmupd (7 :: uuid) stored fmempty) = [stored]" "rows_of (fmempty :: (uuid, Notebook) fmap) = []"
    by (simp_all add: rows_of_eq sorted_list_of_fset.rep_eq)
  with o(3,4) have "row_count db = 2" by (simp add: row_count_def)
  moreover have "n_alias stored = Some ''x''" using o(2) by (cases stored) (simp add: same_but_version_def aliased_note_def sample_note_def new_note_def)
  moreover have "n_deleted_at stored = None \<and> n_notebook_id stored = 5"
    using same_but_versionD [OF o(2)] by (simp add: aliased_note_def sample_note_def new_note_def)
  ultimately show ?thesis
    using o by (intro exI [of _ db] exI [of _ "upsert_note stored empty_index"] exI [of _ stored]) simp
qed

theorem link_index_current_witness:
  "\<exists>db idx. one_aliased = (db, Some idx) \<and> (7, 5) \<in> members (note_aliases idx) ''x'' \<and>
     with_index 2 (db_backend unary_codec offline) (db, None) = Some (Inr idx, (db, Some idx))"
proof -
  obtain db idx n where o: "one_aliased = (db, Some idx)" "fmlookup (db_notes db) 7 = Some n" "n_deleted_at n = None"
    "n_alias n = Some ''x''" "n_notebook_id n = 5" "row_count db \<le> 2" using one_aliased_facts by force
  note c = link_index_current [OF unary_codec_100 one_aliased_reachable [unfolded o(1)] o(6)]
  have "\<not> is_inbox 5" by (simp add: is_inbox_def INBOX_ID_def uuid_nil_def)
  with c o have "(7, 5) \<in> members (note_aliases idx) ''x''" by blast
  with c o(1) show ?thesis by (intro exI [of _ db] exI [of _ idx]) blast
qed

theorem link_aliases_stay_unique_witness: "unique_aliases (fst one_aliased)"
  by (rule link_aliases_stay_unique [OF unary_codec_100 blank_reachable _ r_into_rtranclp, OF _ one_aliased_local])
    (simp add: unique_aliases_def blank_def empty_db_def)

definition rival_note :: Note where
  "rival_note = aliased_note\<lparr>n_id := 8\<rparr>"

theorem link_update_note_result_witness:
  "\<exists>st'. link_update_note 2 ascii unary_codec (db_backend unary_codec offline) rival_note one_aliased = Some (Inl Conflict, st') \<and>
     fst st' = fst one_aliased"
proof -
  obtain db idx n where o: "one_aliased = (db, Some idx)" "fmlookup (db_notes db) 7 = Some n" "n_deleted_at n = None"
    "n_alias n = Some ''x''" "n_notebook_id n = 5" "row_count db \<le> 2" using one_aliased_facts by force
  have r: "\<not> is_inbox (n_notebook_id rival_note)" "n_alias rival_note = Some ''x''" "n_id rival_note = 8"
    "n_notebook_id rival_note = 5" "n_created_at rival_note \<in> {100}"
    by (simp_all add: rival_note_def aliased_note_def sample_note_def new_note_def is_inbox_def INBOX_ID_def uuid_nil_def)
  have c: "row_count (fst one_aliased) \<le> 2" using o(6) by (simp only: o(1) fst_conv)
  obtain r st' where u: "link_update_note 2 ascii unary_codec (db_backend unary_codec offline) rival_note one_aliased = Some (r, st')"
    "\<forall>j m a. \<not> is_inbox (n_notebook_id rival_note) \<longrightarrow> n_alias rival_note = Some a \<longrightarrow> j \<noteq> n_id rival_note \<longrightarrow>
       fmlookup (db_notes (fst one_aliased)) j = Some m \<longrightarrow> n_deleted_at m = None \<longrightarrow> n_alias m = Some a \<longrightarrow>
       n_notebook_id m = n_notebook_id rival_note \<longrightarrow> r = Inl Conflict \<and> fst st' = fst one_aliased"
    using link_update_note_result [OF unary_codec_100 one_aliased_reachable r(5) c] by blast
  have "fmlookup (db_notes (fst one_aliased)) 7 = Some n" using o(2) by (simp only: o(1) fst_conv)
  from u(2) [rule_format, OF r(1,2) _ this] r(3,4) o(3-5) have "r = Inl Conflict \<and> fst st' = fst one_aliased" by simp
  with u(1) show ?thesis by blast
qed

end
