(* ===== verification/Fs_Store.thy ===== *)
theory Fs_Store
  imports Storage Note_Log
begin

text \<open>
  The directory backend, \<open>keeplin-core/src/storage/fs\<close>: the files it keeps, as values, and the
  change journals of \<open>journal.rs\<close> and \<open>convert.rs\<close>. A file the code decodes is either readable,
  with the value it encodes (the JSON encodings round-trip), or corrupt. Writes are atomic
  (\<open>io.rs\<close>) and the file system is taken not to fail otherwise; the directories \<open>new\<close> creates
  exist. A directory is listed in an order the system chooses. A journal is the list of its lines
  with their lengths in bytes, since readers remember byte offsets.
\<close>

section \<open>Files\<close>

datatype 'a sidecar = Readable 'a | Corrupt

record NoteMeta =
  nm_note :: Note
  nm_vv :: vv

record NoteMetaEntry =
  me_notebook_id :: uuid
  me_created_at :: ts
  me_effective_sort_key :: u32
  me_is_starred :: bool

type_synonym NoteMetaIndex = "(uuid, NoteMetaEntry) fmap"

record NoteTagState =
  ns_updated_at :: ts
  ns_deleted_at :: "ts option"
  ns_vv :: vv
  ns_last_writer :: string

record StoredResource =
  sr_resource :: Resource
  sr_blob_hash :: string

text \<open>
  The directory of a note: \<open>note.md\<close>, \<open>meta.ndjson\<close>, one log per device, and under
  \<open>resources\<close> a sidecar per resource and the payloads by hash.
\<close>

record NoteDir =
  nd_body :: "string option"
  nd_meta :: "NoteMeta sidecar option"
  nd_logs :: "(string, NoteLogEntry list sidecar) fmap"
  nd_resources :: "(uuid, StoredResource sidecar) fmap"
  nd_blobs :: "(string, u8 list) fmap"

definition empty_dir :: NoteDir where
  "empty_dir = \<lparr>nd_body = None, nd_meta = None, nd_logs = fmempty, nd_resources = fmempty, nd_blobs = fmempty\<rparr>"

text \<open>The \<open>data\<close> of a journal entry, by shape.\<close>

datatype FsData =
    FNote Note | FNotebook Notebook | FTag Tag | FResource Resource
  | FTombstone ts vv string
  | FAssoc uuid ts vv string

record LogEntry =
  le_timestamp :: ts
  le_entity_type :: string
  le_entity_id :: uuid
  le_operation :: string
  le_data :: FsData

datatype log_line = LHeader u64 | LEntry LogEntry | LBlank | LMalformed

type_synonym journal = "(nat \<times> log_line) list"

record Fs =
  fs_device_id :: string
  fs_notes :: "(uuid, NoteDir) fmap"
  fs_notebooks :: "(uuid, Notebook sidecar) fmap"
  fs_tags :: "(uuid, Tag sidecar) fmap"
  fs_note_tags :: "(uuid \<times> uuid, NoteTagState sidecar) fmap"
  fs_logs :: "(string, journal) fmap"
  fs_offsets :: "(string, u64 \<times> nat) fmap"
  fs_last_sync :: "ts sidecar option"
  fs_note_index :: "NoteMetaIndex option"
  fs_clock :: "nat \<Rightarrow> ts"
  fs_ticks :: nat

type_synonym 'a fs_act = "('a, Fs) act"

text \<open>
  What the environment provides: the order in which directories are listed, the lengths of encoded
  lines (\<open>serde_json\<close>), the hash of a payload (the \<open>blake2\<close> crate), and the text forms.
\<close>

record fs_env = text_codec +
  ls_ids :: "uuid fset \<Rightarrow> uuid list"
  ls_pairs :: "(uuid \<times> uuid) fset \<Rightarrow> (uuid \<times> uuid) list"
  ls_devices :: "string fset \<Rightarrow> string list"
  header_len :: "u64 \<Rightarrow> nat"
  entry_len :: "LogEntry \<Rightarrow> nat"
  content_hash :: "u8 list \<Rightarrow> string"

definition fs_now :: "Fs \<Rightarrow> ts \<times> Fs" where
  "fs_now s = (fs_clock s (fs_ticks s), s\<lparr>fs_ticks := fs_ticks s + 1\<rparr>)"

definition note_dir :: "Fs \<Rightarrow> uuid \<Rightarrow> NoteDir" where
  "note_dir s i = (case fmlookup (fs_notes s) i of None \<Rightarrow> empty_dir | Some d \<Rightarrow> d)"

text \<open>Writing in a note's directory creates it.\<close>

definition in_note_dir :: "uuid \<Rightarrow> (NoteDir \<Rightarrow> NoteDir) \<Rightarrow> Fs \<Rightarrow> Fs" where
  "in_note_dir i f s = s\<lparr>fs_notes := fmupd i (f (note_dir s i)) (fs_notes s)\<rparr>"

text \<open>\<open>read_sidecar\<close>\<close>

definition read_file :: "'a sidecar option \<Rightarrow> 'a res" where
  "read_file f = (case f of None \<Rightarrow> Inl NotFound | Some (Readable x) \<Rightarrow> Inr x | Some Corrupt \<Rightarrow> Inl CorruptedData)"

section \<open>Versions of sidecars\<close>

definition sidecar_vv :: "('a \<Rightarrow> vv) \<Rightarrow> 'a sidecar option \<Rightarrow> vv res" where
  "sidecar_vv vv_of f = (case f of
     None \<Rightarrow> Inr fmempty | Some (Readable x) \<Rightarrow> Inr (vv_of x) | Some Corrupt \<Rightarrow> Inl CorruptedData)"

definition next_sidecar_vv :: "string \<Rightarrow> ('a \<Rightarrow> vv) \<Rightarrow> 'a sidecar option \<Rightarrow> vv res" where
  "next_sidecar_vv device vv_of f = map_sum id (\<lambda>v. increment v device) (sidecar_vv vv_of f)"

definition sidecar_incoming_wins :: "('a \<Rightarrow> vv \<times> ts \<times> string) \<Rightarrow> 'a sidecar option \<Rightarrow> vv \<Rightarrow> ts \<Rightarrow> string \<Rightarrow> bool res" where
  "sidecar_incoming_wins meta f v updated writer = (case f of
     None \<Rightarrow> Inr True
   | Some Corrupt \<Rightarrow> Inl CorruptedData
   | Some (Readable x) \<Rightarrow>
       (case meta x of (local_vv, local_updated, local_writer) \<Rightarrow>
          Inr (resolve local_vv local_updated local_writer v updated writer = Incoming)))"

definition notebook_stamp :: "Notebook \<Rightarrow> vv \<times> ts \<times> string" where
  "notebook_stamp nb = (nb_vv nb, nb_updated_at nb, nb_last_writer nb)"

definition tag_stamp :: "Tag \<Rightarrow> vv \<times> ts \<times> string" where
  "tag_stamp t = (t_vv t, t_updated_at t, t_last_writer t)"

text \<open>A missing association is no state; an unreadable one counts as attached, with the least stamp.\<close>

definition assoc_marker :: NoteTagState where
  "assoc_marker = \<lparr>ns_updated_at = 0, ns_deleted_at = None, ns_vv = fmempty, ns_last_writer = []\<rparr>"

definition read_assoc_state :: "NoteTagState sidecar option \<Rightarrow> NoteTagState option" where
  "read_assoc_state f = (case f of
     None \<Rightarrow> None | Some (Readable st) \<Rightarrow> Some st | Some Corrupt \<Rightarrow> Some assoc_marker)"

definition next_assoc_vv :: "string \<Rightarrow> NoteTagState sidecar option \<Rightarrow> vv" where
  "next_assoc_vv device f =
     increment (case read_assoc_state f of None \<Rightarrow> fmempty | Some st \<Rightarrow> ns_vv st) device"

definition assoc_incoming_wins :: "NoteTagState sidecar option \<Rightarrow> vv \<Rightarrow> ts \<Rightarrow> string \<Rightarrow> bool" where
  "assoc_incoming_wins f v updated writer = (case read_assoc_state f of
     None \<Rightarrow> True
   | Some st \<Rightarrow> resolve (ns_vv st) (ns_updated_at st) (ns_last_writer st) v updated writer = Incoming)"

section \<open>Journal entries\<close>

fun data_deleted_at :: "FsData \<Rightarrow> ts option" where
  "data_deleted_at (FNote n) = n_deleted_at n"
| "data_deleted_at (FNotebook n) = nb_deleted_at n"
| "data_deleted_at (FTag t) = t_deleted_at t"
| "data_deleted_at (FResource r) = r_deleted_at r"
| "data_deleted_at (FTombstone t v w) = Some t"
| "data_deleted_at (FAssoc i t v w) = None"

fun data_updated_at :: "FsData \<Rightarrow> ts option" where
  "data_updated_at (FNote n) = Some (n_updated_at n)"
| "data_updated_at (FNotebook n) = Some (nb_updated_at n)"
| "data_updated_at (FTag t) = Some (t_updated_at t)"
| "data_updated_at (FAssoc i t v w) = Some t"
| "data_updated_at _ = None"

fun data_version :: "FsData \<Rightarrow> vv \<times> string" where
  "data_version (FNote n) = (n_vv n, n_last_writer n)"
| "data_version (FNotebook n) = (nb_vv n, nb_last_writer n)"
| "data_version (FTag t) = (t_vv t, t_last_writer t)"
| "data_version (FResource r) = (r_vv r, r_last_writer r)"
| "data_version (FTombstone t v w) = (v, w)"
| "data_version (FAssoc i t v w) = (v, w)"

definition fs_tombstone_from_data :: "FsData \<Rightarrow> ts \<Rightarrow> ts \<times> vv \<times> string" where
  "fs_tombstone_from_data d fallback_ts =
     ((case data_deleted_at d of None \<Rightarrow> fallback_ts | Some t \<Rightarrow> t), fst (data_version d), snd (data_version d))"

definition fs_assoc_from_data :: "FsData \<Rightarrow> ts \<Rightarrow> ts \<times> vv \<times> string" where
  "fs_assoc_from_data d fallback_ts =
     ((case data_updated_at d of None \<Rightarrow> fallback_ts | Some t \<Rightarrow> t), fst (data_version d), snd (data_version d))"

text \<open>A value whose shape is not that of its entity type does not decode.\<close>

definition log_entry_to_change :: "LogEntry \<Rightarrow> Change option" where
  "log_entry_to_change e =
    (let i = le_entity_id e; d = le_data e; ty = le_entity_type e; opn = le_operation e;
         (t, v, w) = fs_tombstone_from_data d (le_timestamp e);
         (at, av, aw) = fs_assoc_from_data d (le_timestamp e)
     in if ty = ''note'' \<and> opn \<in> {''create'', ''note_create''} then (case d of FNote n \<Rightarrow> Some (NoteCreate n) | _ \<Rightarrow> None)
        else if ty = ''note'' \<and> opn \<in> {''update'', ''note_update''} then (case d of FNote n \<Rightarrow> Some (NoteUpdate n) | _ \<Rightarrow> None)
        else if ty = ''note'' \<and> opn \<in> {''delete'', ''note_delete''} then Some (NoteDelete i t v w)
        else if (ty, opn) = (''notebook'', ''create'') then (case d of FNotebook n \<Rightarrow> Some (NotebookCreate n) | _ \<Rightarrow> None)
        else if (ty, opn) = (''notebook'', ''update'') then (case d of FNotebook n \<Rightarrow> Some (NotebookUpdate n) | _ \<Rightarrow> None)
        else if (ty, opn) = (''notebook'', ''delete'') then Some (NotebookDelete i t v w)
        else if (ty, opn) = (''tag'', ''create'') then (case d of FTag g \<Rightarrow> Some (TagCreate g) | _ \<Rightarrow> None)
        else if (ty, opn) = (''tag'', ''update'') then (case d of FTag g \<Rightarrow> Some (TagUpdate g) | _ \<Rightarrow> None)
        else if (ty, opn) = (''tag'', ''delete'') then Some (TagDelete i t v w)
        else if (ty, opn) = (''note_tag'', ''add'') then (case d of FAssoc g _ _ _ \<Rightarrow> Some (NoteTagAdd i g at av aw) | _ \<Rightarrow> None)
        else if (ty, opn) = (''note_tag'', ''remove'') then (case d of FAssoc g _ _ _ \<Rightarrow> Some (NoteTagRemove i g at av aw) | _ \<Rightarrow> None)
        else if (ty, opn) = (''resource'', ''create'') then (case d of FResource r \<Rightarrow> Some (ResourceCreate r None) | _ \<Rightarrow> None)
        else if (ty, opn) = (''resource'', ''delete'') then Some (ResourceDelete i t v w)
        else None)"

definition snapshot_entry :: "string \<Rightarrow> uuid \<Rightarrow> ts \<Rightarrow> FsData \<Rightarrow> LogEntry" where
  "snapshot_entry kind i t d = (case data_deleted_at d of
     Some del \<Rightarrow> \<lparr>le_timestamp = t, le_entity_type = kind, le_entity_id = i, le_operation = ''delete'',
       le_data = FTombstone del (fst (data_version d)) (snd (data_version d))\<rparr>
   | None \<Rightarrow> \<lparr>le_timestamp = t, le_entity_type = kind, le_entity_id = i, le_operation = ''create'', le_data = d\<rparr>)"

text \<open>The entry of a sidecar, or \<open>None\<close> when it is unreadable.\<close>

definition snapshot_entry_from_sidecar :: "('a \<Rightarrow> FsData) \<Rightarrow> 'a sidecar \<Rightarrow> string \<Rightarrow> uuid \<Rightarrow> ts \<Rightarrow> LogEntry option" where
  "snapshot_entry_from_sidecar data f kind i t = (case f of
     Corrupt \<Rightarrow> None | Readable x \<Rightarrow> Some (snapshot_entry kind i t (data x)))"

end
