(* ===== verification/Fs_Journal.thy ===== *)
theory Fs_Journal
  imports Fs_Store
begin

text \<open>
  The change journals of the directory backend, \<open>storage/fs/journal.rs\<close>. Every device appends to its
  own journal and reads the others' from a remembered position: the epoch of the journal and the
  bytes read in it. Lines are valid UTF-8. A journal that has grown large is replaced by a snapshot of the sidecars under
  the next epoch.
\<close>

definition GLOBAL_LOG_COMPACT_THRESHOLD :: nat where
  "GLOBAL_LOG_COMPACT_THRESHOLD = 512"

definition GLOBAL_LOG_SOFT_BYTES :: nat where
  "GLOBAL_LOG_SOFT_BYTES = 64 * 1024"

section \<open>Directory listings\<close>

definition all_note_ids :: "'e fs_env_scheme \<Rightarrow> Fs \<Rightarrow> uuid list" where
  "all_note_ids e s = ls_ids e (fmdom (fs_notes s))"

definition note_resource_ids :: "'e fs_env_scheme \<Rightarrow> Fs \<Rightarrow> uuid \<Rightarrow> uuid list" where
  "note_resource_ids e s note_id = ls_ids e (fmdom (nd_resources (note_dir s note_id)))"

definition resource_file :: "Fs \<Rightarrow> uuid \<Rightarrow> uuid \<Rightarrow> StoredResource sidecar option" where
  "resource_file s note_id i = fmlookup (nd_resources (note_dir s note_id)) i"

section \<open>The device's own journal\<close>

definition line_entry :: "log_line \<Rightarrow> LogEntry option" where
  "line_entry l = (case l of LEntry e \<Rightarrow> Some e | _ \<Rightarrow> None)"

definition log_size :: "journal \<Rightarrow> nat" where
  "log_size j = sum_list (map fst j)"

definition own_log :: "Fs \<Rightarrow> journal" where
  "own_log s = (case fmlookup (fs_logs s) (fs_device_id s) of None \<Rightarrow> [] | Some j \<Rightarrow> j)"

text \<open>A malformed line counts as an entry; a blank line and a header do not.\<close>

definition own_log_entry_count :: "Fs \<Rightarrow> nat" where
  "own_log_entry_count s = length (filter (\<lambda>(n, l). case l of LBlank \<Rightarrow> False | LHeader _ \<Rightarrow> False | _ \<Rightarrow> True) (own_log s))"

text \<open>The epoch of a journal, and the length of its header line.\<close>

definition read_log_header :: "journal \<Rightarrow> u64 \<times> nat" where
  "read_log_header j = (case j of (n, LHeader ep) # _ \<Rightarrow> (ep, n) | _ \<Rightarrow> (0, 0))"

definition assoc_entry :: "uuid \<Rightarrow> uuid \<Rightarrow> ts \<Rightarrow> NoteTagState \<Rightarrow> LogEntry" where
  "assoc_entry note_id tag_id t st =
     \<lparr>le_timestamp = t, le_entity_type = ''note_tag'', le_entity_id = note_id,
      le_operation = (if ns_deleted_at st \<noteq> None then ''remove'' else ''add''),
      le_data = FAssoc tag_id (ns_updated_at st) (ns_vv st) (ns_last_writer st)\<rparr>"

text \<open>\<open>build_global_snapshot\<close>: an entry per sidecar, and the number of those that are unreadable.\<close>

definition snapshot_files :: "('a \<Rightarrow> FsData) \<Rightarrow> string \<Rightarrow> ts \<Rightarrow> (uuid \<times> 'a sidecar) list \<Rightarrow> LogEntry list \<times> nat" where
  "snapshot_files data kind t files =
    (let entries = map (\<lambda>(i, f). snapshot_entry_from_sidecar data f kind i t) files
     in (List.map_filter id entries, length (filter (\<lambda>x. x = None) entries)))"

definition listed :: "('k fset \<Rightarrow> 'k list) \<Rightarrow> ('k, 'v) fmap \<Rightarrow> ('k \<times> 'v) list" where
  "listed ls m = map (\<lambda>k. (k, the (fmlookup m k))) (ls (fmdom m))"

definition build_global_snapshot :: "'e fs_env_scheme \<Rightarrow> ts \<Rightarrow> Fs \<Rightarrow> LogEntry list \<times> nat" where
  "build_global_snapshot e t s =
    (let (nbs, bad1) = snapshot_files FNotebook ''notebook'' t (listed (ls_ids e) (fs_notebooks s));
         (tags, bad2) = snapshot_files FTag ''tag'' t (listed (ls_ids e) (fs_tags s));
         (ress, bad3) = snapshot_files (\<lambda>r. FResource (sr_resource r)) ''resource'' t
           (concat (map (\<lambda>note_id. listed (ls_ids e) (nd_resources (note_dir s note_id))) (all_note_ids e s)));
         assocs = List.map_filter (\<lambda>((note_id, tag_id), f).
             map_option (assoc_entry note_id tag_id t) (read_assoc_state (Some f)))
           (listed (ls_pairs e) (fs_note_tags s))
     in (nbs @ tags @ ress @ assocs, bad1 + bad2 + bad3))"

definition compact_global_log :: "'e fs_env_scheme \<Rightarrow> Fs \<Rightarrow> Fs" where
  "compact_global_log e s =
    (let new_epoch = saturating_add (fst (read_log_header (own_log s))) 1;
         (t, s) = fs_now s;
         (entries, unreadable) = build_global_snapshot e t s
     in if 0 < unreadable then s
        else s\<lparr>fs_logs := fmupd (fs_device_id s)
          ((header_len e new_epoch, LHeader new_epoch) # map (\<lambda>en. (entry_len e en, LEntry en)) entries) (fs_logs s)\<rparr>)"

definition maybe_compact_global_log :: "'e fs_env_scheme \<Rightarrow> Fs \<Rightarrow> Fs" where
  "maybe_compact_global_log e s =
    (if fmlookup (fs_logs s) (fs_device_id s) = None then s
     else if log_size (own_log s) < GLOBAL_LOG_SOFT_BYTES then s
     else if own_log_entry_count s \<le> GLOBAL_LOG_COMPACT_THRESHOLD then s
     else compact_global_log e s)"

definition append_log :: "'e fs_env_scheme \<Rightarrow> string \<Rightarrow> uuid \<Rightarrow> string \<Rightarrow> FsData \<Rightarrow> Fs \<Rightarrow> Fs" where
  "append_log e entity_type entity_id operation data s =
    (let (t, s) = fs_now s;
         entry = \<lparr>le_timestamp = t, le_entity_type = entity_type, le_entity_id = entity_id,
                  le_operation = operation, le_data = data\<rparr>;
         s = s\<lparr>fs_logs := fmupd (fs_device_id s) (own_log s @ [(entry_len e entry, LEntry entry)]) (fs_logs s)\<rparr>
     in maybe_compact_global_log e s)"

section \<open>The other devices' journals\<close>

definition dot_log :: string where
  "dot_log = ''.log''"

text \<open>\<open>trim_end_matches(".log")\<close> of a file name: every trailing \<open>.log\<close> goes.\<close>

function trim_dot_logs :: "string \<Rightarrow> string" where
  "trim_dot_logs s = (if length dot_log \<le> length s \<and> drop (length s - length dot_log) s = dot_log
     then trim_dot_logs (take (length s - length dot_log) s) else s)"
  by pat_completeness auto
termination by (relation "measure length") (auto simp: dot_log_def)

declare trim_dot_logs.simps [simp del]

definition other_logs :: "'e fs_env_scheme \<Rightarrow> Fs \<Rightarrow> (string \<times> journal) list" where
  "other_logs e s = filter (\<lambda>(d, j). d \<noteq> fs_device_id s) (listed (ls_devices e) (fs_logs s))"

definition read_other_logs_since :: "'e fs_env_scheme \<Rightarrow> ts \<Rightarrow> Fs \<Rightarrow> LogEntry list" where
  "read_other_logs_since e since s =
    concat (map (\<lambda>(d, j). filter (\<lambda>en. since < le_timestamp en) (List.map_filter (\<lambda>(n, l). line_entry l) j)) (other_logs e s))"

definition read_log_offset :: "Fs \<Rightarrow> string \<Rightarrow> u64 \<times> nat" where
  "read_log_offset s device = (case fmlookup (fs_offsets s) device of None \<Rightarrow> (0, 0) | Some p \<Rightarrow> p)"

text \<open>
  The lines from a byte position on. A position inside a line leaves the rest of that line, which
  does not decode.
\<close>

fun from_offset :: "nat \<Rightarrow> journal \<Rightarrow> journal" where
  "from_offset start [] = []"
| "from_offset start ((n, l) # rest) =
    (if start = 0 then (n, l) # rest
     else if n \<le> start then from_offset (start - n) rest
     else (n - start, LMalformed) # rest)"

text \<open>Reading one journal: the entries, and the position to remember when it has moved.\<close>

definition read_new_of :: "journal \<Rightarrow> u64 \<times> nat \<Rightarrow> LogEntry list \<times> (u64 \<times> nat) option" where
  "read_new_of j stored =
    (let (writer_epoch, hdr) = read_log_header j;
         (stored_epoch, stored_offset) = stored;
         start = (if writer_epoch \<noteq> stored_epoch then hdr else stored_offset);
         rest = from_offset start j;
         new_offset = start + log_size rest
     in (List.map_filter (\<lambda>(n, l). line_entry l) rest,
         if writer_epoch \<noteq> stored_epoch \<or> stored_offset < new_offset then Some (writer_epoch, new_offset) else None))"

fun read_new_logs :: "(string \<times> journal) list \<Rightarrow> Fs \<Rightarrow> LogEntry list \<times> Fs" where
  "read_new_logs [] s = ([], s)"
| "read_new_logs ((d, j) # rest) s =
    (let device = trim_dot_logs (d @ dot_log);
         (entries, pos) = read_new_of j (read_log_offset s device);
         s = (case pos of None \<Rightarrow> s | Some p \<Rightarrow> s\<lparr>fs_offsets := fmupd device p (fs_offsets s)\<rparr>);
         (more_entries, s) = read_new_logs rest s
     in (entries @ more_entries, s))"

definition read_new_entries :: "'e fs_env_scheme \<Rightarrow> Fs \<Rightarrow> LogEntry list \<times> Fs" where
  "read_new_entries e s = read_new_logs (other_logs e s) s"

end
