(* ===== verification/Fs_Delivery.thy ===== *)
theory Fs_Delivery
  imports Fs_Journal
begin

text \<open>
  Delivery of journal entries between devices of the directory backend: what a reader returns and
  remembers when the other devices' journals grow, or are compacted, between its reads.
\<close>

section \<open>The environment\<close>

text \<open>A directory listing yields the names that are there, each once, in some order.\<close>

definition lists_all :: "('k fset \<Rightarrow> 'k list) \<Rightarrow> bool" where
  "lists_all ls \<longleftrightarrow> (\<forall>A. distinct (ls A) \<and> set (ls A) = fset A)"

lemma listed_simps:
  assumes "lists_all ls"
  shows "distinct (map fst (listed ls m))" "(k, v) \<in> set (listed ls m) \<longleftrightarrow> fmlookup m k = Some v"
  using assms by (auto simp: lists_all_def listed_def comp_def fmlookup_dom_iff image_iff)

text \<open>The name of a device is not changed by cutting the suffix off its journal's file name.\<close>

definition log_name :: "string \<Rightarrow> bool" where
  "log_name d \<longleftrightarrow> trim_dot_logs (d @ dot_log) = d"

lemma log_nameI: "\<not> (length dot_log \<le> length d \<and> drop (length d - length dot_log) d = dot_log) \<Longrightarrow> log_name d"
  by (simp add: log_name_def trim_dot_logs.simps [of "d @ dot_log"]) (auto simp: trim_dot_logs.simps [of d])

section \<open>Reading one journal\<close>

definition journal_entries :: "journal \<Rightarrow> LogEntry list" where
  "journal_entries j = List.map_filter (\<lambda>(n, l). line_entry l) j"

lemma journal_entries_append: "journal_entries (a @ b) = journal_entries a @ journal_entries b"
  by (simp add: journal_entries_def List.map_filter_def)

lemma log_size_append [simp]: "log_size (a @ b) = log_size a + log_size b"
  by (simp add: log_size_def)

lemma log_size_simps [simp]: "log_size [] = 0" "log_size ((n, l) # j) = n + log_size j"
  by (simp_all add: log_size_def)

text \<open>Every line has at least its line end.\<close>

definition lines_ok :: "journal \<Rightarrow> bool" where
  "lines_ok j \<longleftrightarrow> (\<forall>(n, l)\<in>set j. 0 < n)"

lemma lines_ok_simps [simp]:
  "lines_ok []" "lines_ok ((n, l) # j) \<longleftrightarrow> 0 < n \<and> lines_ok j" "lines_ok (a @ b) \<longleftrightarrow> lines_ok a \<and> lines_ok b"
  by (auto simp: lines_ok_def)

lemma from_offset_0 [simp]: "from_offset 0 j = j"
  by (cases j) auto

lemma from_offset_end: "lines_ok a \<Longrightarrow> from_offset (log_size a) (a @ b) = b"
proof (induction a)
  case (Cons p a)
  obtain n l where "p = (n, l)" by (cases p)
  with Cons show ?case by auto
qed simp

text \<open>The position at the end of a journal.\<close>

definition log_end :: "journal \<Rightarrow> u64 \<times> nat" where
  "log_end j = (fst (read_log_header j), log_size j)"

lemma log_end_Nil [simp]: "log_end [] = (0, 0)"
  by (simp add: log_end_def read_log_header_def)

text \<open>From the end of an earlier state, the lines added since are read.\<close>

lemma read_new_of_growth:
  assumes "lines_ok (a @ b)"
  shows "fst (read_new_of (a @ b) (log_end a)) = journal_entries b"
    and "(case snd (read_new_of (a @ b) (log_end a)) of None \<Rightarrow> log_end a | Some p \<Rightarrow> p) = log_end (a @ b)"
proof -
  have "fst (read_new_of (a @ b) (log_end a)) = journal_entries b \<and>
    (case snd (read_new_of (a @ b) (log_end a)) of None \<Rightarrow> log_end a | Some p \<Rightarrow> p) = log_end (a @ b)"
  proof (cases "a = []")
    case False
    then have "read_log_header (a @ b) = read_log_header a"
      by (cases a) (auto simp: read_log_header_def split: log_line.splits)
    with assms show ?thesis
      by (cases "read_log_header a") (auto simp: read_new_of_def log_end_def from_offset_end journal_entries_def Let_def)
  next
    case True
    show ?thesis
    proof (cases "\<exists>n ep rest. b = (n, LHeader ep) # rest")
      case True
      then obtain n ep rest where b: "b = (n, LHeader ep) # rest" by blast
      have "from_offset n ((n, LHeader ep) # rest) = rest" using assms b by simp
      with \<open>a = []\<close> b assms show ?thesis
        by (auto simp: read_new_of_def log_end_def read_log_header_def journal_entries_def
            List.map_filter_def line_entry_def)
    next
      case False
      then have "read_log_header b = (0, 0)"
        by (auto simp: read_log_header_def split: list.splits log_line.splits)
      with \<open>a = []\<close> assms show ?thesis
        by (auto simp: read_new_of_def log_end_def journal_entries_def)
    qed
  qed
  then show "fst (read_new_of (a @ b) (log_end a)) = journal_entries b"
    and "(case snd (read_new_of (a @ b) (log_end a)) of None \<Rightarrow> log_end a | Some p \<Rightarrow> p) = log_end (a @ b)" by auto
qed

text \<open>A journal of another epoch is read from its beginning, whatever was read before.\<close>

lemma read_new_of_epoch:
  assumes "fst (read_log_header j) \<noteq> fst pos" and "lines_ok j"
  shows "fst (read_new_of j pos) = journal_entries j" and "snd (read_new_of j pos) = Some (log_end j)"
proof -
  have "fst (read_new_of j pos) = journal_entries j \<and> snd (read_new_of j pos) = Some (log_end j)"
  proof (cases "\<exists>n ep rest. j = (n, LHeader ep) # rest")
    case True
    then obtain n ep rest where j: "j = (n, LHeader ep) # rest" by blast
    have "from_offset n j = rest" using assms j by simp
    with j assms show ?thesis
      by (cases pos) (auto simp: read_new_of_def log_end_def read_log_header_def journal_entries_def
          List.map_filter_def line_entry_def)
  next
    case False
    then have "read_log_header j = (0, 0)"
      by (auto simp: read_log_header_def split: list.splits log_line.splits)
    with assms show ?thesis
      by (cases pos) (auto simp: read_new_of_def log_end_def journal_entries_def)
  qed
  then show "fst (read_new_of j pos) = journal_entries j" and "snd (read_new_of j pos) = Some (log_end j)" by auto
qed

section \<open>Reading all journals\<close>

lemma read_log_offset_upd [simp]:
  "read_log_offset (s\<lparr>fs_offsets := fmupd d p (fs_offsets s)\<rparr>) d' = (if d' = d then p else read_log_offset s d')"
  "read_log_offset (s\<lparr>fs_logs := l\<rparr>) d' = read_log_offset s d'"
  by (simp_all add: read_log_offset_def)

definition position_after :: "journal \<Rightarrow> u64 \<times> nat \<Rightarrow> u64 \<times> nat" where
  "position_after j pos = (case snd (read_new_of j pos) of None \<Rightarrow> pos | Some p \<Rightarrow> p)"

lemma read_new_logs_eq:
  assumes "distinct (map fst ps)" and "\<forall>(d, j)\<in>set ps. log_name d"
  shows "fst (read_new_logs ps s) = concat (map (\<lambda>(d, j). fst (read_new_of j (read_log_offset s d))) ps) \<and>
    (\<exists>f. snd (read_new_logs ps s) = s\<lparr>fs_offsets := f\<rparr>) \<and>
    (\<forall>d. read_log_offset (snd (read_new_logs ps s)) d =
      (case map_of ps d of None \<Rightarrow> read_log_offset s d | Some j \<Rightarrow> position_after j (read_log_offset s d)))"
  using assms
proof (induction ps arbitrary: s)
  case Nil
  then show ?case by (auto intro: exI [of _ "fs_offsets s"])
next
  case (Cons p ps)
  obtain d j where p: "p = (d, j)" by (cases p)
  define s1 where "s1 = (case snd (read_new_of j (read_log_offset s d)) of
    None \<Rightarrow> s | Some q \<Rightarrow> s\<lparr>fs_offsets := fmupd d q (fs_offsets s)\<rparr>)"
  have off: "read_log_offset s1 d' = (if d' = d then position_after j (read_log_offset s d) else read_log_offset s d')" for d'
    by (auto simp: s1_def position_after_def split: option.splits)
  have s1: "\<exists>f. s1 = s\<lparr>fs_offsets := f\<rparr>"
    by (auto simp: s1_def split: option.splits intro: exI [of _ "fs_offsets s"])
  have step: "read_new_logs (p # ps) s =
      (fst (read_new_of j (read_log_offset s d)) @ fst (read_new_logs ps s1), snd (read_new_logs ps s1))"
    using Cons.prems(2) p by (simp add: log_name_def s1_def split: prod.splits)
  have d: "d \<notin> fst ` set ps" using Cons.prems(1) p by simp
  then have cong: "map (\<lambda>(d, j). fst (read_new_of j (read_log_offset s1 d))) ps =
      map (\<lambda>(d, j). fst (read_new_of j (read_log_offset s d))) ps"
    by (auto simp: off image_iff)
  have none: "map_of ps d = None" using d by (simp add: map_of_eq_None_iff)
  from Cons.prems p have "distinct (map fst ps)" "\<forall>(d, j)\<in>set ps. log_name d" by auto
  note IH = Cons.IH [OF this, of s1]
  have "\<exists>f. snd (read_new_logs ps s1) = s\<lparr>fs_offsets := f\<rparr>" using IH s1 by auto
  moreover have "read_log_offset (snd (read_new_logs ps s1)) d' = (case map_of (p # ps) d' of
      None \<Rightarrow> read_log_offset s d' | Some j \<Rightarrow> position_after j (read_log_offset s d'))" for d'
    using IH none by (auto simp: off p split: option.splits)
  ultimately show ?case
    unfolding step using IH by (simp add: p cong)
qed

text \<open>The journal of a device among those replicated here; a missing one is as an empty one.\<close>

definition journal_of :: "(string, journal) fmap \<Rightarrow> string \<Rightarrow> journal" where
  "journal_of logs d = (case fmlookup logs d of None \<Rightarrow> [] | Some j \<Rightarrow> j)"

text \<open>The reader has read the journals \<open>logs\<close> to their ends.\<close>

definition read_to_end :: "Fs \<Rightarrow> (string, journal) fmap \<Rightarrow> bool" where
  "read_to_end s logs \<longleftrightarrow> (\<forall>d. d \<noteq> fs_device_id s \<longrightarrow> read_log_offset s d = log_end (journal_of logs d))"

text \<open>
  Between two reads a journal grows by whole lines or is compacted, that is, replaced under another
  epoch. A reader of the earlier state is owed the new lines, or all of the replacement.
\<close>

definition journal_step :: "journal \<Rightarrow> journal \<Rightarrow> bool" where
  "journal_step j j' \<longleftrightarrow> lines_ok j' \<and> (fst (read_log_header j') \<noteq> fst (read_log_header j) \<or> (\<exists>ext. j' = j @ ext))"

definition journal_news :: "journal \<Rightarrow> journal \<Rightarrow> LogEntry list" where
  "journal_news j j' = journal_entries
     (if \<exists>ext. j' = j @ ext then drop (length j) j' else j')"

lemma read_new_of_step:
  assumes "journal_step j j'"
  shows "fst (read_new_of j' (log_end j)) = journal_news j j' \<and> position_after j' (log_end j) = log_end j'"
proof (cases "\<exists>ext. j' = j @ ext")
  case True
  with assms read_new_of_growth [of j] show ?thesis
    by (auto simp: journal_step_def journal_news_def position_after_def)
next
  case False
  with assms have *: "fst (read_log_header j') \<noteq> fst (log_end j)" "lines_ok j'" by (auto simp: journal_step_def log_end_def)
  from read_new_of_epoch [OF *] False show ?thesis
    by (simp add: journal_news_def position_after_def)
qed

definition logs_step :: "string \<Rightarrow> (string, journal) fmap \<Rightarrow> (string, journal) fmap \<Rightarrow> bool" where
  "logs_step own logs logs' \<longleftrightarrow> fset (fmdom logs) \<subseteq> fset (fmdom logs') \<and>
     (\<forall>d j. fmlookup logs' d = Some j \<longrightarrow> d \<noteq> own \<longrightarrow> log_name d \<and> journal_step (journal_of logs d) j)"

definition others_listed :: "'e fs_env_scheme \<Rightarrow> string \<Rightarrow> (string, journal) fmap \<Rightarrow> string list" where
  "others_listed e own logs = filter (\<lambda>d. d \<noteq> own) (ls_devices e (fmdom logs))"

text \<open>One read returns exactly what is owed, and leaves the reader at the ends again.\<close>

lemma read_new_entries_step:
  assumes "lists_all (ls_devices e)" and "read_to_end s logs" and "logs_step (fs_device_id s) logs logs'"
  shows "fst (read_new_entries e (s\<lparr>fs_logs := logs'\<rparr>)) =
      concat (map (\<lambda>d. journal_news (journal_of logs d) (journal_of logs' d)) (others_listed e (fs_device_id s) logs')) \<and>
    (\<exists>f. snd (read_new_entries e (s\<lparr>fs_logs := logs'\<rparr>)) = s\<lparr>fs_logs := logs', fs_offsets := f\<rparr>) \<and>
    read_to_end (snd (read_new_entries e (s\<lparr>fs_logs := logs'\<rparr>))) logs'"
proof -
  let ?own = "fs_device_id s" and ?s = "s\<lparr>fs_logs := logs'\<rparr>"
  let ?ps = "filter (\<lambda>(d, j). d \<noteq> ?own) (listed (ls_devices e) logs')"
  have ps: "(d, j) \<in> set ?ps \<longleftrightarrow> fmlookup logs' d = Some j \<and> d \<noteq> ?own" for d j
    by (auto simp: listed_simps(2) [OF assms(1)])
  have dist: "distinct (map fst ?ps)"
    by (rule distinct_map_filter [OF listed_simps(1) [OF assms(1)]])
  have names: "\<forall>(d, j)\<in>set ?ps. log_name d"
    using assms(3) by (auto simp: ps logs_step_def simp del: set_filter)
  have "map_of ?ps d = Some j \<longleftrightarrow> (if d = ?own then None else fmlookup logs' d) = Some j" for d j
    unfolding map_of_eq_Some_iff [OF dist] ps by auto
  then have mo: "map_of ?ps d = (if d = ?own then None else fmlookup logs' d)" for d
    by (metis not_None_eq)
  have at: "read_log_offset s d = log_end (journal_of logs d)" if "d \<noteq> ?own" for d
    using assms(2) that by (simp add: read_to_end_def)
  have step: "fst (read_new_of j (log_end (journal_of logs d))) = journal_news (journal_of logs d) j"
      "position_after j (log_end (journal_of logs d)) = log_end j"
    if "fmlookup logs' d = Some j" "d \<noteq> ?own" for d j
    using assms(3) that read_new_of_step by (auto simp: logs_step_def)
  note R = read_new_logs_eq [OF dist names, of ?s]
  have 1: "concat (map (\<lambda>(d, j). fst (read_new_of j (read_log_offset ?s d))) ?ps) =
      concat (map (\<lambda>d. journal_news (journal_of logs d) (journal_of logs' d)) (map fst ?ps))"
    by (intro arg_cong [where f = concat]) (auto simp: ps at step journal_of_def [of logs'] simp del: set_filter)
  have 2: "map fst ?ps = others_listed e ?own logs'"
    by (simp add: listed_def others_listed_def filter_map comp_def)
  have 3: "read_log_offset (snd (read_new_logs ?ps ?s)) d = log_end (journal_of logs' d)" if "d \<noteq> ?own" for d
  proof (cases "fmlookup logs' d")
    case None
    then have "d |\<notin>| fmdom logs" using assms(3) by (auto simp: logs_step_def fmlookup_dom_iff)
    with None R that at show ?thesis by (simp add: mo journal_of_def fmdom_notD)
  qed (use R that at step in \<open>simp add: mo journal_of_def [of logs']\<close>)
  have 4: "fs_device_id (snd (read_new_logs ?ps ?s)) = ?own" using R by auto
  show ?thesis
    using R 1 3 4 by (auto simp: read_new_entries_def other_logs_def read_to_end_def 2)
qed

section \<open>A run of reads\<close>

text \<open>The journals as they are replicated before each read, and what the reads return.\<close>

fun reads :: "'e fs_env_scheme \<Rightarrow> Fs \<Rightarrow> (string, journal) fmap list \<Rightarrow> LogEntry list list" where
  "reads e s [] = []"
| "reads e s (logs # rest) =
    (let (entries, s) = read_new_entries e (s\<lparr>fs_logs := logs\<rparr>) in entries # reads e s rest)"

text \<open>Journals only grow.\<close>

definition logs_grow :: "string \<Rightarrow> (string, journal) fmap \<Rightarrow> (string, journal) fmap \<Rightarrow> bool" where
  "logs_grow own logs logs' \<longleftrightarrow> fset (fmdom logs) \<subseteq> fset (fmdom logs') \<and>
     (\<forall>d j. fmlookup logs' d = Some j \<longrightarrow> d \<noteq> own \<longrightarrow>
        log_name d \<and> lines_ok j \<and> (\<exists>ext. j = journal_of logs d @ ext))"

fun growing :: "string \<Rightarrow> (string, journal) fmap \<Rightarrow> (string, journal) fmap list \<Rightarrow> bool" where
  "growing own logs [] \<longleftrightarrow> True"
| "growing own logs (logs' # rest) \<longleftrightarrow> logs_grow own logs logs' \<and> growing own logs' rest"

lemma logs_grow_step: "logs_grow own logs logs' \<Longrightarrow> logs_step own logs logs'"
  by (auto simp: logs_grow_def logs_step_def journal_step_def)

lemma journal_of_grow:
  assumes "logs_grow own logs logs'" and "d \<noteq> own"
  shows "journal_entries (journal_of logs' d) =
    journal_entries (journal_of logs d) @ journal_news (journal_of logs d) (journal_of logs' d)"
proof (cases "fmlookup logs' d")
  case None
  then have "d |\<notin>| fmdom logs" using assms(1) by (auto simp: logs_grow_def fmlookup_dom_iff)
  with None show ?thesis by (simp add: journal_of_def fmdom_notD journal_news_def journal_entries_def)
next
  case (Some j)
  with assms obtain ext where "j = journal_of logs d @ ext" by (metis logs_grow_def)
  with Some show ?thesis
    by (simp add: journal_of_def [of logs'] journal_news_def journal_entries_append)
qed

lemma growing_dom: "growing own logs ls \<Longrightarrow> fset (fmdom logs) \<subseteq> fset (fmdom (last (logs # ls)))"
proof (induction ls arbitrary: logs)
  case (Cons l ls)
  then show ?case by (fastforce simp: logs_grow_def)
qed simp

lemma mset_concat_map: "distinct xs \<Longrightarrow> mset (concat (map f xs)) = (\<Sum>x\<in>set xs. mset (f x))"
  by (induction xs) simp_all

lemma reads_growing:
  assumes "lists_all (ls_devices e)" and "read_to_end s logs" and "growing (fs_device_id s) logs ls"
    and "D = fset (fmdom (last (logs # ls))) - {fs_device_id s}"
  shows "mset (concat (reads e s ls)) + (\<Sum>d\<in>D. mset (journal_entries (journal_of logs d))) =
    (\<Sum>d\<in>D. mset (journal_entries (journal_of (last (logs # ls)) d)))"
  using assms(2-)
proof (induction ls arbitrary: s logs)
  case (Cons l ls)
  let ?own = "fs_device_id s" and ?R = "read_new_entries e (s\<lparr>fs_logs := l\<rparr>)"
  from Cons.prems have g: "logs_grow ?own logs l" "growing ?own l ls" by simp_all
  note R = read_new_entries_step [OF assms(1) Cons.prems(1) logs_grow_step [OF g(1)]]
  have own: "fs_device_id (snd ?R) = ?own" using R by auto
  have IH: "mset (concat (reads e (snd ?R) ls)) + (\<Sum>d\<in>D. mset (journal_entries (journal_of l d))) =
      (\<Sum>d\<in>D. mset (journal_entries (journal_of (last (l # ls)) d)))"
    using R g(2) Cons.prems(3) own by (intro Cons.IH) auto
  let ?news = "\<lambda>d. journal_news (journal_of logs d) (journal_of l d)"
  have ds: "distinct (others_listed e ?own l)" "set (others_listed e ?own l) = fset (fmdom l) - {?own}"
    using assms(1) by (auto simp: others_listed_def lists_all_def)
  have "fset (fmdom l) - {?own} \<subseteq> D" using growing_dom [OF g(2)] Cons.prems(3) by auto
  moreover have "?news d = []" if "d \<in> D - (fset (fmdom l) - {?own})" for d
  proof -
    have "d |\<notin>| fmdom l" using that Cons.prems(3) by auto
    then show ?thesis by (auto simp: journal_of_def [of l] fmdom_notD journal_news_def journal_entries_def)
  qed
  ultimately have news: "mset (fst ?R) = (\<Sum>d\<in>D. mset (?news d))"
    using R Cons.prems(3) by (simp add: mset_concat_map ds sum.mono_neutral_left)
  have "(\<Sum>d\<in>D. mset (journal_entries (journal_of l d))) =
      (\<Sum>d\<in>D. mset (journal_entries (journal_of logs d)) + mset (?news d))"
    using journal_of_grow [OF g(1)] Cons.prems(3) by (intro sum.cong) auto
  moreover have "reads e s (l # ls) = fst ?R # reads e (snd ?R) ls" by (simp add: case_prod_beta)
  moreover have "last (logs # l # ls) = last (l # ls)" by simp
  ultimately show ?case
    using IH news by (simp add: sum.distrib ac_simps del: last.simps)
qed simp

definition tag_entry :: "uuid \<Rightarrow> LogEntry" where
  "tag_entry i = \<lparr>le_timestamp = 5, le_entity_type = ''tag'', le_entity_id = i, le_operation = ''delete'',
     le_data = FTombstone 5 fmempty ''B''\<rparr>"

definition sample_env :: fs_env where
  "sample_env = text_codec.extend (uuid_text.extend unary_text \<lparr>show_ts = (\<lambda>t. replicate (nat t) CHR ''a'')\<rparr>)
     \<lparr>ls_ids = sorted_list_of_fset, ls_pairs = sorted_list_of_fset, ls_devices = sorted_list_of_fset,
      header_len = (\<lambda>_. 30), entry_len = (\<lambda>_. 100), content_hash = (\<lambda>data. map (\<lambda>b. char_of (unat b)) data)\<rparr>"

lemma lists_all_sorted [simp]: "lists_all sorted_list_of_fset"
  by (simp add: lists_all_def sorted_list_of_fset.rep_eq)

lemma sample_env_lists [simp]:
  "lists_all (ls_ids sample_env)" "lists_all (ls_pairs sample_env)" "lists_all (ls_devices sample_env)"
  by (simp_all add: sample_env_def text_codec.extend_def)

definition empty_fs :: Fs where
  "empty_fs = \<lparr>fs_device_id = ''A'', fs_notes = fmempty, fs_notebooks = fmempty, fs_tags = fmempty, fs_note_tags = fmempty,
     fs_logs = fmempty, fs_offsets = fmempty, fs_last_sync = None, fs_note_index = None, fs_clock = int, fs_ticks = 0\<rparr>"

text \<open>
  C24. Journal entries are delivered exactly once: over any run of reads between which the other
  devices' journals grow by whole lines, a new reader gets, all reads together, exactly the entries
  of the journals as they stand at the last read, whatever the order in which the journals are listed.
\<close>

theorem fs_entries_delivered_once:
  assumes "lists_all (ls_devices e)" and "fs_offsets s = fmempty"
    and "growing (fs_device_id s) fmempty (logs # ls)"
  shows "mset (concat (reads e s (logs # ls))) =
    (\<Sum>d\<in>fset (fmdom (last (logs # ls))) - {fs_device_id s}. mset (journal_entries (journal_of (last (logs # ls)) d)))"
proof -
  have "read_to_end s fmempty"
    using assms(2) by (simp add: read_to_end_def read_log_offset_def journal_of_def)
  moreover have "journal_entries (journal_of fmempty d) = []" for d
    by (simp add: journal_of_def journal_entries_def)
  ultimately show ?thesis
    using reads_growing [OF assms(1) _ assms(3) refl] by simp
qed

theorem fs_entries_delivered_once_witness:
  "mset (concat (reads sample_env empty_fs [fmap_of_list [(''B'', [(7, LEntry (tag_entry 1))])],
      fmap_of_list [(''B'', [(7, LEntry (tag_entry 1)), (9, LEntry (tag_entry 2))])]])) =
   {#tag_entry 1, tag_entry 2#}"
proof -
  have "log_name ''B''" by (rule log_nameI) (simp add: dot_log_def)
  then have "growing (fs_device_id empty_fs) fmempty [fmap_of_list [(''B'', [(7, LEntry (tag_entry 1))])],
      fmap_of_list [(''B'', [(7, LEntry (tag_entry 1)), (9, LEntry (tag_entry 2))])]]"
    by (auto simp: logs_grow_def journal_of_def empty_fs_def)
  moreover have "fs_offsets empty_fs = fmempty" by (simp add: empty_fs_def)
  ultimately show ?thesis
    using fs_entries_delivered_once [of sample_env empty_fs]
    by (simp add: empty_fs_def journal_of_def journal_entries_def line_entry_def List.map_filter_simps del: reads.simps growing.simps)
qed

text \<open>
  A journal that is compacted between two reads is delivered from its beginning: the reader gets the
  whole snapshot. A line that is still incomplete when it is read is skipped, and its entry is not
  delivered when it is complete.
\<close>

lemma torn_line_is_lost:
  "let torn = [(7, LEntry (tag_entry 1)), (4, LMalformed)];
       whole = [(7, LEntry (tag_entry 1)), (9, LEntry (tag_entry 2))];
       pos = the (snd (read_new_of torn (0, 0)))
   in fst (read_new_of torn (0, 0)) = [tag_entry 1] \<and> fst (read_new_of whole pos) = []"
  by (simp add: read_new_of_def read_log_header_def log_size_def line_entry_def List.map_filter_def)

end
