(* ===== verification/Fs_Entities.thy ===== *)
theory Fs_Entities
  imports Fs_Journal
begin

text \<open>
  Notebooks, tags, tag associations and resources of the directory backend
  (\<open>storage/fs/notebooks.rs\<close>, \<open>tags.rs\<close>, \<open>resources.rs\<close>, \<open>sidecars.rs\<close>): a sidecar per record, written
  before the journal entry. A failed operation keeps what it had written.
\<close>

text \<open>\<open>?\<close> on a value that is read.\<close>

definition with_res :: "'a res \<Rightarrow> Fs \<Rightarrow> ('a \<Rightarrow> Fs \<Rightarrow> ('b, Fs) op) \<Rightarrow> ('b, Fs) op" where
  "with_res r s k = (case r of Inl err \<Rightarrow> (Inl err, s) | Inr x \<Rightarrow> k x s)"

lemma with_res_simps [simp]: "with_res (Inl err) s k = (Inl err, s)" "with_res (Inr x) s k = k x s"
  by (simp_all add: with_res_def)

section \<open>Notebooks\<close>

definition put_notebook :: "Notebook \<Rightarrow> Fs \<Rightarrow> Fs" where
  "put_notebook nb s = s\<lparr>fs_notebooks := fmupd (nb_id nb) (Readable nb) (fs_notebooks s)\<rparr>"

definition store_notebook :: "'e fs_env_scheme \<Rightarrow> string \<Rightarrow> Notebook \<Rightarrow> Notebook fs_act" where
  "store_notebook e operation nb s =
    with_res (next_sidecar_vv (fs_device_id s) nb_vv (fmlookup (fs_notebooks s) (nb_id nb))) s (\<lambda>v s.
      let nb = nb\<lparr>nb_vv := v, nb_last_writer := fs_device_id s\<rparr>;
          s = put_notebook nb s;
          s = append_log e ''notebook'' (nb_id nb) operation (FNotebook nb) s
      in (Inr nb, s))"

definition fs_create_notebook :: "'e fs_env_scheme \<Rightarrow> Notebook \<Rightarrow> Notebook fs_act" where
  "fs_create_notebook e nb s = store_notebook e ''create'' nb s"

definition fs_read_notebook :: "uuid \<Rightarrow> Notebook fs_act" where
  "fs_read_notebook i s = (read_file (fmlookup (fs_notebooks s) i), s)"

definition fs_update_notebook :: "'e fs_env_scheme \<Rightarrow> Notebook \<Rightarrow> Notebook fs_act" where
  "fs_update_notebook e nb s =
    (if fmlookup (fs_notebooks s) (nb_id nb) = None then (Inl NotFound, s)
     else store_notebook e ''update'' nb s)"

text \<open>The sidecar of \<open>id\<close> is rewritten at the path of \<open>id\<close>, whatever identifier it holds.\<close>

definition fs_delete_notebook :: "'e fs_env_scheme \<Rightarrow> uuid \<Rightarrow> unit fs_act" where
  "fs_delete_notebook e i s = with_res (read_file (fmlookup (fs_notebooks s) i)) s (\<lambda>nb s.
     let (t, s) = fs_now s;
         nb = nb\<lparr>nb_deleted_at := Some t, nb_updated_at := t, nb_vv := increment (nb_vv nb) (fs_device_id s),
                 nb_last_writer := fs_device_id s\<rparr>;
         s = s\<lparr>fs_notebooks := fmupd i (Readable nb) (fs_notebooks s)\<rparr>;
         s = append_log e ''notebook'' i ''delete'' (FTombstone t (nb_vv nb) (nb_last_writer nb)) s
     in (Inr (), s))"

text \<open>The readable, live values of a directory.\<close>

definition live_values :: "('a \<Rightarrow> ts option) \<Rightarrow> ('k \<times> 'a sidecar) list \<Rightarrow> 'a list" where
  "live_values deleted files = List.map_filter (\<lambda>(k, f). case f of
     Readable x \<Rightarrow> if deleted x = None then Some x else None | Corrupt \<Rightarrow> None) files"

text \<open>\<open>sort_by(created_at, id)\<close> and \<open>paginate\<close>.\<close>

definition created_page :: "'e fs_env_scheme \<Rightarrow> ('a \<Rightarrow> ts) \<Rightarrow> ('a \<Rightarrow> uuid) \<Rightarrow> 'a list \<Rightarrow> u32 \<Rightarrow> string option \<Rightarrow> 'a list \<times> string option" where
  "created_page e created ident items page_size token =
     paginate (uuid_text.truncate e) (sort_key (\<lambda>x. (created x, ident x)) items)
       (unat (effective_page_size page_size)) token (\<lambda>x. (show_ts e (created x), ident x))"

definition fs_list_notebooks :: "'e fs_env_scheme \<Rightarrow> (Notebook, Fs) pages" where
  "fs_list_notebooks e page_size token s =
     (Inr (created_page e nb_created_at nb_id (live_values nb_deleted_at (listed (ls_ids e) (fs_notebooks s))) page_size token), s)"

section \<open>Tags\<close>

definition put_tag :: "Tag \<Rightarrow> Fs \<Rightarrow> Fs" where
  "put_tag t s = s\<lparr>fs_tags := fmupd (t_id t) (Readable t) (fs_tags s)\<rparr>"

definition store_tag :: "'e fs_env_scheme \<Rightarrow> string \<Rightarrow> Tag \<Rightarrow> Tag fs_act" where
  "store_tag e operation g s =
    with_res (next_sidecar_vv (fs_device_id s) t_vv (fmlookup (fs_tags s) (t_id g))) s (\<lambda>v s.
      let g = g\<lparr>t_vv := v, t_last_writer := fs_device_id s\<rparr>;
          s = put_tag g s;
          s = append_log e ''tag'' (t_id g) operation (FTag g) s
      in (Inr g, s))"

definition fs_create_tag :: "'e fs_env_scheme \<Rightarrow> Tag \<Rightarrow> Tag fs_act" where
  "fs_create_tag e g s = store_tag e ''create'' g s"

definition fs_read_tag :: "uuid \<Rightarrow> Tag fs_act" where
  "fs_read_tag i s = (read_file (fmlookup (fs_tags s) i), s)"

definition fs_update_tag :: "'e fs_env_scheme \<Rightarrow> Tag \<Rightarrow> Tag fs_act" where
  "fs_update_tag e g s =
    (if fmlookup (fs_tags s) (t_id g) = None then (Inl NotFound, s) else store_tag e ''update'' g s)"

definition fs_delete_tag :: "'e fs_env_scheme \<Rightarrow> uuid \<Rightarrow> unit fs_act" where
  "fs_delete_tag e i s = with_res (read_file (fmlookup (fs_tags s) i)) s (\<lambda>g s.
     let (t, s) = fs_now s;
         g = g\<lparr>t_deleted_at := Some t, t_updated_at := t, t_vv := increment (t_vv g) (fs_device_id s),
               t_last_writer := fs_device_id s\<rparr>;
         s = s\<lparr>fs_tags := fmupd i (Readable g) (fs_tags s)\<rparr>;
         s = append_log e ''tag'' i ''delete'' (FTombstone t (t_vv g) (t_last_writer g)) s
     in (Inr (), s))"

definition fs_list_tags :: "'e fs_env_scheme \<Rightarrow> (Tag, Fs) pages" where
  "fs_list_tags e page_size token s =
     (Inr (created_page e t_created_at t_id (live_values t_deleted_at (listed (ls_ids e) (fs_tags s))) page_size token), s)"

section \<open>Associations\<close>

definition write_assoc_state :: "uuid \<Rightarrow> uuid \<Rightarrow> NoteTagState \<Rightarrow> Fs \<Rightarrow> Fs" where
  "write_assoc_state note_id tag_id st s =
     s\<lparr>fs_note_tags := fmupd (note_id, tag_id) (Readable st) (fs_note_tags s)\<rparr>"

definition fs_set_assoc :: "'e fs_env_scheme \<Rightarrow> string \<Rightarrow> bool \<Rightarrow> uuid \<Rightarrow> uuid \<Rightarrow> Fs \<Rightarrow> Fs" where
  "fs_set_assoc e operation removed note_id tag_id s =
    (let v = next_assoc_vv (fs_device_id s) (fmlookup (fs_note_tags s) (note_id, tag_id));
         (t, s) = fs_now s;
         st = \<lparr>ns_updated_at = t, ns_deleted_at = (if removed then Some t else None), ns_vv = v, ns_last_writer = fs_device_id s\<rparr>;
         s = write_assoc_state note_id tag_id st s
     in append_log e ''note_tag'' note_id operation (FAssoc tag_id t v (fs_device_id s)) s)"

definition fs_remove_note_tag :: "'e fs_env_scheme \<Rightarrow> uuid \<Rightarrow> uuid \<Rightarrow> unit fs_act" where
  "fs_remove_note_tag e note_id tag_id s = (Inr (), fs_set_assoc e ''remove'' True note_id tag_id s)"

definition tags_of_note :: "'e fs_env_scheme \<Rightarrow> uuid \<Rightarrow> Fs \<Rightarrow> Tag list" where
  "tags_of_note e note_id s =
    List.map_filter (\<lambda>(n, tag_id). 
        if n \<noteq> note_id then None
        else if (case read_assoc_state (fmlookup (fs_note_tags s) (n, tag_id)) of None \<Rightarrow> False | Some st \<Rightarrow> ns_deleted_at st \<noteq> None) then None
        else (case read_file (fmlookup (fs_tags s) tag_id) of
            Inr t \<Rightarrow> if t_deleted_at t = None then Some t else None | Inl _ \<Rightarrow> None))
      (ls_pairs e (fmdom (fs_note_tags s)))"

definition fs_list_note_tags :: "'e fs_env_scheme \<Rightarrow> uuid \<Rightarrow> (Tag, Fs) pages" where
  "fs_list_note_tags e note_id page_size token s =
     (Inr (created_page e t_created_at t_id (tags_of_note e note_id s) page_size token), s)"

section \<open>Resources\<close>

definition locate_resource_note :: "'e fs_env_scheme \<Rightarrow> uuid \<Rightarrow> Fs \<Rightarrow> uuid option" where
  "locate_resource_note e i s = find (\<lambda>note_id. resource_file s note_id i \<noteq> None) (all_note_ids e s)"

definition read_resource_sidecar :: "'e fs_env_scheme \<Rightarrow> uuid \<Rightarrow> Fs \<Rightarrow> (uuid \<times> StoredResource) option res" where
  "read_resource_sidecar e i s = (case locate_resource_note e i s of
     None \<Rightarrow> Inr None
   | Some note_id \<Rightarrow> map_sum id (\<lambda>st. Some (note_id, st)) (read_file (resource_file s note_id i)))"

definition read_resource_meta :: "'e fs_env_scheme \<Rightarrow> uuid \<Rightarrow> Fs \<Rightarrow> Resource option res" where
  "read_resource_meta e i s = map_sum id (map_option (\<lambda>(n, st). sr_resource st)) (read_resource_sidecar e i s)"

definition next_resource_vv :: "'e fs_env_scheme \<Rightarrow> uuid \<Rightarrow> Fs \<Rightarrow> vv res" where
  "next_resource_vv e i s = map_sum id
     (\<lambda>r. increment (case r of None \<Rightarrow> fmempty | Some r \<Rightarrow> r_vv r) (fs_device_id s)) (read_resource_meta e i s)"

definition resource_incoming_wins :: "'e fs_env_scheme \<Rightarrow> uuid \<Rightarrow> vv \<Rightarrow> ts \<Rightarrow> string \<Rightarrow> Fs \<Rightarrow> bool res" where
  "resource_incoming_wins e i v t w s = map_sum id (\<lambda>r. case r of
       None \<Rightarrow> True
     | Some r \<Rightarrow> resolve (r_vv r) (case r_deleted_at r of None \<Rightarrow> r_created_at r | Some d \<Rightarrow> d) (r_last_writer r) v t w = Incoming)
     (read_resource_meta e i s)"

definition put_resource_meta :: "uuid \<Rightarrow> uuid \<Rightarrow> StoredResource \<Rightarrow> Fs \<Rightarrow> Fs" where
  "put_resource_meta note_id i st = in_note_dir note_id (\<lambda>d. d\<lparr>nd_resources := fmupd i (Readable st) (nd_resources d)\<rparr>)"

definition put_blob :: "uuid \<Rightarrow> string \<Rightarrow> u8 list \<Rightarrow> Fs \<Rightarrow> Fs" where
  "put_blob note_id h data = in_note_dir note_id (\<lambda>d. d\<lparr>nd_blobs := fmupd h data (nd_blobs d)\<rparr>)"

text \<open>
  The two cascades: each walks the resources of a note and rewrites the deletion time where a test
  on it holds; an unreadable sidecar ends the walk with an error.
\<close>

fun restamp_resources :: "uuid \<Rightarrow> (ts option \<Rightarrow> bool) \<Rightarrow> ts option \<Rightarrow> uuid list \<Rightarrow> unit fs_act" where
  "restamp_resources note_id test stamp [] s = (Inr (), s)"
| "restamp_resources note_id test stamp (i # rest) s = (case read_file (resource_file s note_id i) of
     Inl NotFound \<Rightarrow> restamp_resources note_id test stamp rest s
   | Inl err \<Rightarrow> (Inl err, s)
   | Inr st \<Rightarrow> restamp_resources note_id test stamp rest
       (if test (r_deleted_at (sr_resource st))
        then put_resource_meta note_id i (st\<lparr>sr_resource := (sr_resource st)\<lparr>r_deleted_at := stamp\<rparr>\<rparr>) s
        else s))"

definition cascade_stamp_resources :: "'e fs_env_scheme \<Rightarrow> uuid \<Rightarrow> ts \<Rightarrow> unit fs_act" where
  "cascade_stamp_resources e note_id t s =
     restamp_resources note_id (\<lambda>d. d = None) (Some t) (note_resource_ids e s note_id) s"

definition cascade_unstamp_resources :: "'e fs_env_scheme \<Rightarrow> uuid \<Rightarrow> ts \<Rightarrow> unit fs_act" where
  "cascade_unstamp_resources e note_id t s =
     restamp_resources note_id (\<lambda>d. d = Some t) None (note_resource_ids e s note_id) s"

text \<open>The note's resource directory is created first, and the payload before its version is known.\<close>

definition fs_create_resource :: "'e fs_env_scheme \<Rightarrow> Resource \<Rightarrow> u8 list \<Rightarrow> Resource fs_act" where
  "fs_create_resource e r data s =
    (let h = content_hash e data;
         s = in_note_dir (r_note_id r) (\<lambda>d. d) s
     in with_res (next_resource_vv e (r_id r) s) s (\<lambda>v s.
       let r = r\<lparr>r_vv := v, r_last_writer := fs_device_id s\<rparr>;
           s = put_blob (r_note_id r) h data s;
           s = put_resource_meta (r_note_id r) (r_id r) \<lparr>sr_resource = r, sr_blob_hash = h\<rparr> s;
           s = append_log e ''resource'' (r_id r) ''create'' (FResource r) s
       in (Inr r, s)))"

definition fs_read_resource :: "'e fs_env_scheme \<Rightarrow> uuid \<Rightarrow> (Resource \<times> u8 list) fs_act" where
  "fs_read_resource e i s = with_res (read_resource_sidecar e i s) s (\<lambda>found s. case found of
     None \<Rightarrow> (Inl NotFound, s)
   | Some (note_id, st) \<Rightarrow>
       if r_deleted_at (sr_resource st) \<noteq> None then (Inl NotFound, s)
       else case fmlookup (nd_blobs (note_dir s note_id)) (sr_blob_hash st) of
         None \<Rightarrow> (Inl Io, s) | Some data \<Rightarrow> (Inr (sr_resource st, data), s))"

definition fs_delete_resource :: "'e fs_env_scheme \<Rightarrow> uuid \<Rightarrow> unit fs_act" where
  "fs_delete_resource e i s = with_res (read_resource_sidecar e i s) s (\<lambda>found s. case found of
     None \<Rightarrow> (Inl NotFound, s)
   | Some (note_id, st) \<Rightarrow>
       let (t, s) = fs_now s;
           r = (sr_resource st)\<lparr>r_deleted_at := Some t, r_vv := increment (r_vv (sr_resource st)) (fs_device_id s),
                 r_last_writer := fs_device_id s\<rparr>;
           s = put_resource_meta note_id i (st\<lparr>sr_resource := r\<rparr>) s;
           s = append_log e ''resource'' i ''delete'' (FTombstone t (r_vv r) (r_last_writer r)) s
       in (Inr (), s))"

definition note_resource_files :: "'e fs_env_scheme \<Rightarrow> Fs \<Rightarrow> uuid \<Rightarrow> (uuid \<times> StoredResource sidecar) list" where
  "note_resource_files e s note_id = listed (ls_ids e) (nd_resources (note_dir s note_id))"

definition fs_list_resources :: "'e fs_env_scheme \<Rightarrow> (Resource, Fs) pages" where
  "fs_list_resources e page_size token s =
     (Inr (created_page e r_created_at r_id (map sr_resource (live_values (\<lambda>st. r_deleted_at (sr_resource st))
        (concat (map (note_resource_files e s) (all_note_ids e s))))) page_size token), s)"

definition fs_list_resources_for_note :: "'e fs_env_scheme \<Rightarrow> uuid \<Rightarrow> (Resource, Fs) pages" where
  "fs_list_resources_for_note e note_id page_size token s =
     (Inr (created_page e r_created_at r_id (map sr_resource (live_values (\<lambda>st. r_deleted_at (sr_resource st))
        (note_resource_files e s note_id))) page_size token), s)"

text \<open>
  A payload is removed when a resource deleted long enough ago has it and no live resource of the
  note does. A payload that is gone already is not counted.
\<close>

fun purge_blobs :: "uuid \<Rightarrow> string set \<Rightarrow> ts \<Rightarrow> StoredResource list \<Rightarrow> nat \<Rightarrow> Fs \<Rightarrow> nat \<times> Fs" where
  "purge_blobs note_id live_hashes older_than [] purged s = (purged, s)"
| "purge_blobs note_id live_hashes older_than (st # rest) purged s = (case r_deleted_at (sr_resource st) of
     None \<Rightarrow> purge_blobs note_id live_hashes older_than rest purged s
   | Some t \<Rightarrow>
       if older_than \<le> t then purge_blobs note_id live_hashes older_than rest purged s
       else if sr_blob_hash st = [] \<or> sr_blob_hash st \<in> live_hashes then purge_blobs note_id live_hashes older_than rest purged s
       else if fmlookup (nd_blobs (note_dir s note_id)) (sr_blob_hash st) = None then purge_blobs note_id live_hashes older_than rest purged s
       else purge_blobs note_id live_hashes older_than rest (purged + 1)
         (in_note_dir note_id (\<lambda>d. d\<lparr>nd_blobs := fmdrop (sr_blob_hash st) (nd_blobs d)\<rparr>) s))"

fun purge_notes :: "'e fs_env_scheme \<Rightarrow> ts \<Rightarrow> uuid list \<Rightarrow> nat \<Rightarrow> Fs \<Rightarrow> nat \<times> Fs" where
  "purge_notes e older_than [] purged s = (purged, s)"
| "purge_notes e older_than (note_id # rest) purged s =
    (let stored_list = List.map_filter (\<lambda>(i, f). case f of Readable st \<Rightarrow> Some st | Corrupt \<Rightarrow> None) (note_resource_files e s note_id);
         live_hashes = sr_blob_hash ` set (filter (\<lambda>st. r_deleted_at (sr_resource st) = None) stored_list);
         (purged, s) = purge_blobs note_id live_hashes older_than stored_list purged s
     in purge_notes e older_than rest purged s)"

definition fs_purge_deleted_resources :: "'e fs_env_scheme \<Rightarrow> ts \<Rightarrow> nat fs_act" where
  "fs_purge_deleted_resources e older_than s =
    (let (purged, s) = purge_notes e older_than (all_note_ids e s) 0 s in (Inr purged, s))"

end
