(* ===== verification/Fs_Notes.thy ===== *)
theory Fs_Notes
  imports Fs_Entities Ordering
begin

text \<open>
  Notes of the directory backend, \<open>storage/fs/notes.rs\<close>: each device appends to its own log of a note,
  the note is the merge of the logs, and \<open>note.md\<close>, \<open>meta.ndjson\<close> and the in-memory index are
  projections of the last merge this device has stored.
\<close>

definition NOTE_LOG_COMPACT_THRESHOLD :: nat where
  "NOTE_LOG_COMPACT_THRESHOLD = 256"

section \<open>The index of live notes\<close>

definition meta_entry :: "Note \<Rightarrow> NoteMetaEntry" where
  "meta_entry n = \<lparr>me_notebook_id = n_notebook_id n, me_created_at = n_created_at n,
     me_effective_sort_key = effective_sort_key n, me_is_starred = n_is_starred n\<rparr>"

definition index_apply :: "Note \<Rightarrow> NoteMetaIndex \<Rightarrow> NoteMetaIndex" where
  "index_apply n idx = (if n_deleted_at n \<noteq> None then fmdrop (n_id n) idx else fmupd (n_id n) (meta_entry n) idx)"

section \<open>Logs and merges\<close>

text \<open>An unreadable log is left out of the merge.\<close>

definition read_note_logs :: "'e fs_env_scheme \<Rightarrow> Fs \<Rightarrow> uuid \<Rightarrow> NoteLogEntry list list" where
  "read_note_logs e s i = List.map_filter (\<lambda>(d, f). case f of Readable l \<Rightarrow> Some l | Corrupt \<Rightarrow> None)
     (listed (ls_devices e) (nd_logs (note_dir s i)))"

definition merge_note :: "'e fs_env_scheme \<Rightarrow> Fs \<Rightarrow> uuid \<Rightarrow> Note option res" where
  "merge_note e s i = map_sum id m_note (merge (read_note_logs e s i))"

definition note_vv :: "Fs \<Rightarrow> uuid \<Rightarrow> vv res" where
  "note_vv s i = (case nd_meta (note_dir s i) of
     None \<Rightarrow> Inr fmempty | Some (Readable m) \<Rightarrow> Inr (nm_vv m) | Some Corrupt \<Rightarrow> Inl CorruptedData)"

definition persist_note_projection :: "Note \<Rightarrow> vv \<Rightarrow> Fs \<Rightarrow> Fs" where
  "persist_note_projection n v s =
    (let s = in_note_dir (n_id n) (\<lambda>d. d\<lparr>nd_body := Some (n_body n),
           nd_meta := Some (Readable \<lparr>nm_note = n\<lparr>n_body := []\<rparr>, nm_vv = v\<rparr>)\<rparr>) s
     in s\<lparr>fs_note_index := map_option (index_apply n) (fs_note_index s)\<rparr>)"

definition materialize_note :: "'e fs_env_scheme \<Rightarrow> uuid \<Rightarrow> Note option fs_act" where
  "materialize_note e i s = with_res (merge (read_note_logs e s i)) s (\<lambda>merged s.
     case m_note merged of
       None \<Rightarrow> (Inr None, s)
     | Some n \<Rightarrow> (Inr (Some n), persist_note_projection n (m_vv merged) s))"

definition read_note_projection :: "Fs \<Rightarrow> uuid \<Rightarrow> Note option res" where
  "read_note_projection s i = (case nd_meta (note_dir s i) of
     None \<Rightarrow> Inr None | Some (Readable m) \<Rightarrow> Inr (Some (nm_note m)) | Some Corrupt \<Rightarrow> Inl CorruptedData)"

fun index_notes :: "'e fs_env_scheme \<Rightarrow> Fs \<Rightarrow> uuid list \<Rightarrow> NoteMetaIndex \<Rightarrow> NoteMetaIndex res" where
  "index_notes e s [] idx = Inr idx"
| "index_notes e s (i # rest) idx =
    (case (case read_note_projection s i of
            Inr (Some n) \<Rightarrow> Inr (Some n)
          | Inr None \<Rightarrow> merge_note e s i
          | Inl _ \<Rightarrow> merge_note e s i) of
       Inl err \<Rightarrow> Inl err
     | Inr None \<Rightarrow> index_notes e s rest idx
     | Inr (Some n) \<Rightarrow> index_notes e s rest (if n_deleted_at n = None then index_apply n idx else idx))"

definition build_note_index :: "'e fs_env_scheme \<Rightarrow> Fs \<Rightarrow> NoteMetaIndex res" where
  "build_note_index e s = index_notes e s (all_note_ids e s) fmempty"

definition with_note_index :: "'e fs_env_scheme \<Rightarrow> NoteMetaIndex fs_act" where
  "with_note_index e s = (case fs_note_index s of
     Some idx \<Rightarrow> (Inr idx, s)
   | None \<Rightarrow> with_res (build_note_index e s) s (\<lambda>idx s. (Inr idx, s\<lparr>fs_note_index := Some idx\<rparr>)))"

text \<open>A merge can only fail by panicking, which no handler catches.\<close>

fun materialize_page :: "'e fs_env_scheme \<Rightarrow> Fs \<Rightarrow> uuid list \<Rightarrow> Note list \<Rightarrow> Note list res" where
  "materialize_page e s [] out = Inr out"
| "materialize_page e s (i # rest) out = (case merge_note e s i of
     Inl err \<Rightarrow> Inl err
   | Inr (Some n) \<Rightarrow> materialize_page e s rest (if n_deleted_at n = None then out @ [n] else out)
   | Inr None \<Rightarrow> materialize_page e s rest out)"

section \<open>Writing\<close>

definition put_note_log :: "uuid \<Rightarrow> string \<Rightarrow> NoteLogEntry list \<Rightarrow> Fs \<Rightarrow> Fs" where
  "put_note_log i device log = in_note_dir i (\<lambda>d. d\<lparr>nd_logs := fmupd device (Readable log) (nd_logs d)\<rparr>)"

definition append_note_op :: "'e fs_env_scheme \<Rightarrow> uuid \<Rightarrow> NoteOp \<Rightarrow> Note fs_act" where
  "append_note_op e i opn s =
    (let s = in_note_dir i (\<lambda>d. d) s in
     with_res (merge (read_note_logs e s i)) s (\<lambda>merged s.
     with_res (case fmlookup (nd_logs (note_dir s i)) (fs_device_id s) of
          None \<Rightarrow> Inr [] | Some (Readable l) \<Rightarrow> Inr l | Some Corrupt \<Rightarrow> Inl CorruptedData) s (\<lambda>log s.
       let v = increment (m_vv merged) (fs_device_id s);
           (t, s) = fs_now s;
           log = log @ [\<lparr>e_vv = v, e_timestamp = t, e_device_id = fs_device_id s, e_op = opn\<rparr>];
           log = (if NOTE_LOG_COMPACT_THRESHOLD < length log then compact_own_log log else log);
           s = put_note_log i (fs_device_id s) log s
       in and_then (materialize_note e i s) (\<lambda>n s. case n of None \<Rightarrow> (Inl NotFound, s) | Some n \<Rightarrow> (Inr n, s)))))"

definition fs_create_note :: "'e fs_env_scheme \<Rightarrow> Note \<Rightarrow> Note fs_act" where
  "fs_create_note e n s = append_note_op e (n_id n) (Upsert n) s"

definition fs_read_note :: "'e fs_env_scheme \<Rightarrow> uuid \<Rightarrow> Note fs_act" where
  "fs_read_note e i s = with_res (merge_note e s i) s (\<lambda>n s. case n of None \<Rightarrow> (Inl NotFound, s) | Some n \<Rightarrow> (Inr n, s))"

definition fs_update_note :: "'e fs_env_scheme \<Rightarrow> Note \<Rightarrow> Note fs_act" where
  "fs_update_note e n s =
    (let i = n_id n in
     if read_note_logs e s i = [] then (Inl NotFound, s)
     else with_res (merge_note e s i) s (\<lambda>old s.
       let prior_deleted = Option.bind old n_deleted_at in
       and_then (append_note_op e i (Upsert n) s) (\<lambda>merged s.
         if n_deleted_at merged = None
         then (case prior_deleted of
             None \<Rightarrow> (Inr merged, s)
           | Some old_ts \<Rightarrow> and_then (cascade_unstamp_resources e i old_ts s) (\<lambda>_ s. (Inr merged, s)))
         else (Inr merged, s))))"

definition fs_delete_note :: "'e fs_env_scheme \<Rightarrow> uuid \<Rightarrow> unit fs_act" where
  "fs_delete_note e i s =
    (if read_note_logs e s i = [] then (Inl NotFound, s)
     else let (t, s) = fs_now s in
       and_then (append_note_op e i (Tombstone t) s) (\<lambda>_ s. cascade_stamp_resources e i t s))"

text \<open>A note can be tagged when its merge and the tag are live.\<close>

definition fs_add_note_tag :: "'e fs_env_scheme \<Rightarrow> NoteTag \<Rightarrow> unit fs_act" where
  "fs_add_note_tag e nt s = with_res (merge_note e s (nt_note_id nt)) s (\<lambda>n s.
     if (case n of None \<Rightarrow> True | Some n \<Rightarrow> n_deleted_at n \<noteq> None) then (Inl NotFound, s)
     else with_res (read_file (fmlookup (fs_tags s) (nt_tag_id nt))) s (\<lambda>tag s.
       if t_deleted_at tag \<noteq> None then (Inl NotFound, s)
       else (Inr (), fs_set_assoc e ''add'' False (nt_note_id nt) (nt_tag_id nt) s)))"

section \<open>Listing\<close>

text \<open>\<open>{:010}\<close>: decimal, padded with zeros to ten digits.\<close>

definition pad10 :: "u32 \<Rightarrow> string" where
  "pad10 k = (let t = show_nat (unat k) in replicate (10 - length t) (CHR ''0'') @ t)"

text \<open>
  A page of the notes whose index entry passes, by the text of a key; the hash map is visited in
  some order, on which the page does not depend.
\<close>

definition index_page :: "'e fs_env_scheme \<Rightarrow> (NoteMetaEntry \<Rightarrow> bool) \<Rightarrow> (NoteMetaEntry \<Rightarrow> string) \<Rightarrow> (Note, Fs) pages" where
  "index_page e P key page_size token s = and_then (with_note_index e s) (\<lambda>idx s.
     let (ids, next_token) = collect_page (uuid_text.truncate e) (unat (effective_page_size page_size)) token
           (map (\<lambda>(i, entry). ((key entry, i), i)) (filter (\<lambda>(i, entry). P entry) (listed (ls_ids e) idx)))
     in with_res (materialize_page e s ids []) s (\<lambda>notes s. (Inr (notes, next_token), s)))"

definition fs_list_notes :: "'e fs_env_scheme \<Rightarrow> (Note, Fs) pages" where
  "fs_list_notes e = index_page e (\<lambda>_. True) (\<lambda>entry. show_ts e (me_created_at entry))"

definition fs_list_notes_in_notebook :: "'e fs_env_scheme \<Rightarrow> uuid \<Rightarrow> (Note, Fs) pages" where
  "fs_list_notes_in_notebook e notebook_id =
     index_page e (\<lambda>entry. me_notebook_id entry = notebook_id) (\<lambda>entry. pad10 (me_effective_sort_key entry))"

definition fs_list_starred_notes :: "'e fs_env_scheme \<Rightarrow> (Note, Fs) pages" where
  "fs_list_starred_notes e = index_page e me_is_starred (\<lambda>entry. show_ts e (me_created_at entry))"

definition fs_notebook_sort_profile :: "'e fs_env_scheme \<Rightarrow> uuid \<Rightarrow> NotebookSortProfile fs_act" where
  "fs_notebook_sort_profile e notebook_id s = and_then (with_note_index e s) (\<lambda>idx s.
     (Inr (from_effective_keys (map (\<lambda>(i, entry). me_effective_sort_key entry)
        (filter (\<lambda>(i, entry). me_notebook_id entry = notebook_id) (listed (ls_ids e) idx)))), s))"

section \<open>Notes other devices have changed\<close>

text \<open>
  \<open>collect_advanced_notes\<close>: every note whose merged vector is not that of its projection is projected
  again and reported.
\<close>

fun collect_advanced :: "'e fs_env_scheme \<Rightarrow> uuid list \<Rightarrow> Change list \<Rightarrow> Change list fs_act" where
  "collect_advanced e [] changes s = (Inr changes, s)"
| "collect_advanced e (i # rest) changes s =
    with_res (note_vv s i) s (\<lambda>old_vv s.
    with_res (merge (read_note_logs e s i)) s (\<lambda>merged s.
      if m_vv merged = old_vv then collect_advanced e rest changes s
      else case m_note merged of
        None \<Rightarrow> collect_advanced e rest changes s
      | Some n \<Rightarrow>
          let s = persist_note_projection n (m_vv merged) s;
              change = (case n_deleted_at n of
                Some deleted_at \<Rightarrow> NoteDelete i deleted_at (m_winner_vv merged) (m_winner_device merged)
              | None \<Rightarrow> NoteUpdate n)
          in collect_advanced e rest (changes @ [change]) s))"

definition collect_advanced_notes :: "'e fs_env_scheme \<Rightarrow> Change list fs_act" where
  "collect_advanced_notes e s = collect_advanced e (all_note_ids e s) [] s"

end
