(* ===== verification/Fs_Sync.thy ===== *)
theory Fs_Sync
  imports Fs_Notes
begin

text \<open>
  Synchronisation and history of the directory backend (\<open>storage/fs/sync.rs\<close>, \<open>history.rs\<close>), and the
  backend as a whole. Notes travel as the log files themselves, which another program replicates; the
  other records travel as journal entries. Applying a note change only projects the merge again.
\<close>

section \<open>Applying a change\<close>

definition fs_apply_note_upsert :: "'e fs_env_scheme \<Rightarrow> uuid \<Rightarrow> unit fs_act" where
  "fs_apply_note_upsert e i s = with_res (merge_note e s i) s (\<lambda>old s.
     let prior_deleted = Option.bind old n_deleted_at in
     and_then (materialize_note e i s) (\<lambda>n s.
       if (case n of None \<Rightarrow> False | Some n \<Rightarrow> n_deleted_at n = None)
       then (case prior_deleted of None \<Rightarrow> (Inr (), s) | Some old_ts \<Rightarrow> cascade_unstamp_resources e i old_ts s)
       else (Inr (), s)))"

definition fs_apply_note_delete :: "'e fs_env_scheme \<Rightarrow> uuid \<Rightarrow> ts \<Rightarrow> unit fs_act" where
  "fs_apply_note_delete e i deleted_at s =
     and_then (materialize_note e i s) (\<lambda>_ s. cascade_stamp_resources e i deleted_at s)"

definition fs_apply_notebook_upsert :: "Notebook \<Rightarrow> unit fs_act" where
  "fs_apply_notebook_upsert nb s =
    with_res (sidecar_incoming_wins notebook_stamp (fmlookup (fs_notebooks s) (nb_id nb)) (nb_vv nb) (nb_updated_at nb) (nb_last_writer nb)) s
      (\<lambda>wins s. (Inr (), if wins then put_notebook nb s else s))"

definition fs_notebook_stub :: "uuid \<Rightarrow> ts \<Rightarrow> Notebook" where
  "fs_notebook_stub i t = \<lparr>nb_id = i, nb_title = [], nb_created_at = t, nb_updated_at = t, nb_deleted_at = None,
     nb_alias = None, nb_vv = fmempty, nb_last_writer = []\<rparr>"

definition fs_apply_notebook_delete :: "uuid \<Rightarrow> ts \<Rightarrow> vv \<Rightarrow> string \<Rightarrow> unit fs_act" where
  "fs_apply_notebook_delete i t v w s =
    with_res (sidecar_incoming_wins notebook_stamp (fmlookup (fs_notebooks s) i) v t w) s (\<lambda>wins s.
      if \<not> wins then (Inr (), s)
      else with_res (case read_file (fmlookup (fs_notebooks s) i) of
             Inl NotFound \<Rightarrow> Inr (fs_notebook_stub i t) | r \<Rightarrow> r) s (\<lambda>nb s.
        (Inr (), s\<lparr>fs_notebooks := fmupd i (Readable (nb\<lparr>nb_deleted_at := Some t, nb_updated_at := t,
           nb_vv := v, nb_last_writer := w\<rparr>)) (fs_notebooks s)\<rparr>)))"

definition fs_apply_tag_upsert :: "Tag \<Rightarrow> unit fs_act" where
  "fs_apply_tag_upsert g s =
    with_res (sidecar_incoming_wins tag_stamp (fmlookup (fs_tags s) (t_id g)) (t_vv g) (t_updated_at g) (t_last_writer g)) s
      (\<lambda>wins s. (Inr (), if wins then put_tag g s else s))"

definition fs_tag_stub :: "uuid \<Rightarrow> ts \<Rightarrow> Tag" where
  "fs_tag_stub i t = \<lparr>t_id = i, t_title = [], t_created_at = t, t_updated_at = t, t_deleted_at = None,
     t_vv = fmempty, t_last_writer = [], t_system = False\<rparr>"

definition fs_apply_tag_delete :: "uuid \<Rightarrow> ts \<Rightarrow> vv \<Rightarrow> string \<Rightarrow> unit fs_act" where
  "fs_apply_tag_delete i t v w s =
    with_res (sidecar_incoming_wins tag_stamp (fmlookup (fs_tags s) i) v t w) s (\<lambda>wins s.
      if \<not> wins then (Inr (), s)
      else with_res (case read_file (fmlookup (fs_tags s) i) of
             Inl NotFound \<Rightarrow> Inr (fs_tag_stub i t) | r \<Rightarrow> r) s (\<lambda>g s.
        (Inr (), s\<lparr>fs_tags := fmupd i (Readable (g\<lparr>t_deleted_at := Some t, t_updated_at := t,
           t_vv := v, t_last_writer := w\<rparr>)) (fs_tags s)\<rparr>)))"

definition fs_apply_assoc :: "uuid \<Rightarrow> uuid \<Rightarrow> ts \<Rightarrow> ts option \<Rightarrow> vv \<Rightarrow> string \<Rightarrow> unit fs_act" where
  "fs_apply_assoc note_id tag_id t deleted v w s =
    (Inr (), if assoc_incoming_wins (fmlookup (fs_note_tags s) (note_id, tag_id)) v t w
       then write_assoc_state note_id tag_id \<lparr>ns_updated_at = t, ns_deleted_at = deleted, ns_vv = v, ns_last_writer = w\<rparr> s
       else s)"

text \<open>Without a payload the resource keeps the hash it had, if it was known.\<close>

definition fs_apply_resource_create :: "'e fs_env_scheme \<Rightarrow> Resource \<Rightarrow> u8 list option \<Rightarrow> unit fs_act" where
  "fs_apply_resource_create e r data s =
    (let t = (case r_deleted_at r of None \<Rightarrow> r_created_at r | Some d \<Rightarrow> d) in
     with_res (resource_incoming_wins e (r_id r) (r_vv r) t (r_last_writer r) s) s (\<lambda>wins s.
       if \<not> wins then (Inr (), s)
       else let s = in_note_dir (r_note_id r) (\<lambda>d. d) s in
         case data of
           Some bytes \<Rightarrow>
             let h = content_hash e bytes;
                 s = put_blob (r_note_id r) h bytes s
             in (Inr (), put_resource_meta (r_note_id r) (r_id r) \<lparr>sr_resource = r, sr_blob_hash = h\<rparr> s)
         | None \<Rightarrow> with_res (read_resource_sidecar e (r_id r) s) s (\<lambda>found s.
             (Inr (), put_resource_meta (r_note_id r) (r_id r)
               \<lparr>sr_resource = r, sr_blob_hash = (case found of None \<Rightarrow> [] | Some (_, st) \<Rightarrow> sr_blob_hash st)\<rparr> s))))"

definition fs_resource_stub :: "uuid \<Rightarrow> ts \<Rightarrow> StoredResource" where
  "fs_resource_stub i t = \<lparr>sr_resource = \<lparr>r_id = i, r_note_id = SYSTEM_RESOURCE_NOTE_ID, r_title = [], r_mime_type = [],
      r_file_name = [], r_size = 0, r_duration_ms = None, r_dimensions = None, r_created_at = t, r_deleted_at = None,
      r_vv = fmempty, r_last_writer = []\<rparr>, sr_blob_hash = []\<rparr>"

definition fs_apply_resource_delete :: "'e fs_env_scheme \<Rightarrow> uuid \<Rightarrow> ts \<Rightarrow> vv \<Rightarrow> string \<Rightarrow> unit fs_act" where
  "fs_apply_resource_delete e i t v w s =
    with_res (resource_incoming_wins e i v t w s) s (\<lambda>wins s.
      if \<not> wins then (Inr (), s)
      else with_res (read_resource_sidecar e i s) s (\<lambda>found s.
        let (note_id, st) = (case found of Some p \<Rightarrow> p | None \<Rightarrow> (SYSTEM_RESOURCE_NOTE_ID, fs_resource_stub i t));
            st = st\<lparr>sr_resource := (sr_resource st)\<lparr>r_deleted_at := Some t, r_vv := v, r_last_writer := w\<rparr>\<rparr>
        in (Inr (), put_resource_meta note_id i st s)))"

fun fs_apply_change :: "'e fs_env_scheme \<Rightarrow> Change \<Rightarrow> unit fs_act" where
  "fs_apply_change e (NoteCreate n) s = fs_apply_note_upsert e (n_id n) s"
| "fs_apply_change e (NoteUpdate n) s = fs_apply_note_upsert e (n_id n) s"
| "fs_apply_change e (NoteDelete i t v w) s = fs_apply_note_delete e i t s"
| "fs_apply_change e (NotebookCreate nb) s = fs_apply_notebook_upsert nb s"
| "fs_apply_change e (NotebookUpdate nb) s = fs_apply_notebook_upsert nb s"
| "fs_apply_change e (NotebookDelete i t v w) s = fs_apply_notebook_delete i t v w s"
| "fs_apply_change e (TagCreate g) s = fs_apply_tag_upsert g s"
| "fs_apply_change e (TagUpdate g) s = fs_apply_tag_upsert g s"
| "fs_apply_change e (TagDelete i t v w) s = fs_apply_tag_delete i t v w s"
| "fs_apply_change e (NoteTagAdd n g t v w) s = fs_apply_assoc n g t None v w s"
| "fs_apply_change e (NoteTagRemove n g t v w) s = fs_apply_assoc n g t (Some t) v w s"
| "fs_apply_change e (ResourceCreate r d) s = fs_apply_resource_create e r d s"
| "fs_apply_change e (ResourceDelete i t v w) s = fs_apply_resource_delete e i t v w s"

section \<open>Changes, and the time of the last round\<close>

definition fs_get_changes_since :: "'e fs_env_scheme \<Rightarrow> ts \<Rightarrow> Change list fs_act" where
  "fs_get_changes_since e since s = (Inr (List.map_filter log_entry_to_change (read_other_logs_since e since s)), s)"

definition fs_receive_changes :: "'e fs_env_scheme \<Rightarrow> Change list fs_act" where
  "fs_receive_changes e s =
    (let (entries, s) = read_new_entries e s in
     and_then (collect_advanced_notes e s) (\<lambda>advanced s.
       (Inr (List.map_filter log_entry_to_change entries @ advanced), s)))"

definition fs_get_last_sync_time :: "ts fs_act" where
  "fs_get_last_sync_time s = (case read_file (fs_last_sync s) of Inl NotFound \<Rightarrow> (Inr 0, s) | r \<Rightarrow> (r, s))"

definition fs_update_sync_time :: "ts \<Rightarrow> unit fs_act" where
  "fs_update_sync_time t s = (Inr (), s\<lparr>fs_last_sync := Some (Readable t)\<rparr>)"

definition fs_send_changes :: "Change list \<Rightarrow> unit fs_act" where
  "fs_send_changes changes s = (Inr (), s)"

definition fs_prune_change_journal :: "ts \<Rightarrow> nat fs_act" where
  "fs_prune_change_journal older_than s = (Inr 0, s)"

definition fs_get_device_id :: "string fs_act" where
  "fs_get_device_id s = (Inr (fs_device_id s), s)"

section \<open>History\<close>

text \<open>Newest first; equal versions stay in order.\<close>

definition sort_and_cap :: "'x EntityVersion list \<Rightarrow> u32 \<Rightarrow> 'x EntityVersion list" where
  "sort_and_cap versions limit =
     take (unat (if limit = 0 then DEFAULT_HISTORY_LIMIT else limit))
       (rev (sort_key (\<lambda>v. (ev_timestamp v, ev_device_id v)) (rev versions)))"

definition fs_note_history :: "'e fs_env_scheme \<Rightarrow> uuid \<Rightarrow> u32 \<Rightarrow> Note EntityVersion list fs_act" where
  "fs_note_history e i limit s = (Inr (sort_and_cap (map (\<lambda>en. \<lparr>ev_timestamp = e_timestamp en, ev_device_id = e_device_id en,
      ev_entity = (case e_op en of Upsert n \<Rightarrow> Some n | Tombstone _ \<Rightarrow> None)\<rparr>) (concat (read_note_logs e s i))) limit), s)"

definition read_all_global_entries :: "'e fs_env_scheme \<Rightarrow> Fs \<Rightarrow> (string \<times> LogEntry) list" where
  "read_all_global_entries e s = concat (map (\<lambda>(d, j). map (\<lambda>en. (d, en)) (List.map_filter (\<lambda>(n, l). line_entry l) j))
     (listed (ls_devices e) (fs_logs s)))"

definition notebook_version :: "string \<times> LogEntry \<Rightarrow> Notebook EntityVersion option" where
  "notebook_version x = (case x of (device, en) \<Rightarrow>
     let entity = (if le_operation en \<in> {''create'', ''update''}
           then (case le_data en of FNotebook nb \<Rightarrow> Some (Some nb) | _ \<Rightarrow> None)
           else if le_operation en = ''delete'' then Some None else None)
     in map_option (\<lambda>entity. \<lparr>ev_timestamp = le_timestamp en, ev_device_id = device, ev_entity = entity\<rparr>) entity)"

definition fs_notebook_history :: "'e fs_env_scheme \<Rightarrow> uuid \<Rightarrow> u32 \<Rightarrow> Notebook EntityVersion list fs_act" where
  "fs_notebook_history e i limit s = (Inr (sort_and_cap (List.map_filter notebook_version
      (filter (\<lambda>(d, en). le_entity_type en = ''notebook'' \<and> le_entity_id en = i) (read_all_global_entries e s))) limit), s)"

section \<open>The backend\<close>

text \<open>
  Backlinks are the provided method of the interface, which pages through all notes. It is given
  fuel; a walk that has not ended by then is reported as a panic.
\<close>

definition fs_base :: "'e fs_env_scheme \<Rightarrow> Fs backend" where
  "fs_base e =
    \<lparr>create_note = fs_create_note e, read_note = fs_read_note e, update_note = fs_update_note e,
     delete_note = fs_delete_note e, list_notes = fs_list_notes e,
     list_notes_in_notebook = fs_list_notes_in_notebook e, list_starred_notes = fs_list_starred_notes e,
     notebook_sort_profile = fs_notebook_sort_profile e, note_backlinks = (\<lambda>_ _ _ s. (Inl Panic, s)),
     create_notebook = fs_create_notebook e, read_notebook = fs_read_notebook,
     update_notebook = fs_update_notebook e, delete_notebook = fs_delete_notebook e,
     list_notebooks = fs_list_notebooks e,
     create_tag = fs_create_tag e, read_tag = fs_read_tag, update_tag = fs_update_tag e,
     delete_tag = fs_delete_tag e, list_tags = fs_list_tags e, add_note_tag = fs_add_note_tag e,
     remove_note_tag = fs_remove_note_tag e, list_note_tags = fs_list_note_tags e,
     create_resource = fs_create_resource e, read_resource = fs_read_resource e,
     delete_resource = fs_delete_resource e, list_resources = fs_list_resources e,
     list_resources_for_note = fs_list_resources_for_note e,
     purge_deleted_resources = fs_purge_deleted_resources e,
     get_changes_since = fs_get_changes_since e, apply_change = fs_apply_change e,
     get_last_sync_time = fs_get_last_sync_time, update_sync_time = fs_update_sync_time,
     send_changes = fs_send_changes, receive_changes = fs_receive_changes e,
     prune_change_journal = fs_prune_change_journal, get_device_id = fs_get_device_id,
     note_history = fs_note_history e, notebook_history = fs_notebook_history e\<rparr>"

definition fs_backend :: "'e fs_env_scheme \<Rightarrow> nat \<Rightarrow> Fs backend" where
  "fs_backend e fuel = (fs_base e)\<lparr>note_backlinks := (\<lambda>target page_size token s.
     case default_note_backlinks e fuel (fs_base e) target page_size token s of
       None \<Rightarrow> (Inl Panic, s) | Some r \<Rightarrow> r)\<rparr>"

end
