(* ===== verification/Fs_Agree.thy ===== *)
theory Fs_Agree
  imports Fs_Sync Fs_Delivery Sync_Engine
begin

text \<open>
  The two backends resolve incoming changes alike: a directory and a database that hold the same
  notebooks, tags and associations still do after applying the same changes. The database does not
  keep the system flag of a tag that arrives (finding on \<open>storage/db/sync.rs\<close>), so tags are
  compared without it.
\<close>

section \<open>The same tables\<close>

definition tag_row :: "Tag \<Rightarrow> Tag" where
  "tag_row t = t\<lparr>t_system := False\<rparr>"

definition assoc_row :: "NoteTagState \<Rightarrow> AssocRow" where
  "assoc_row st = \<lparr>as_updated_at = Some (ns_updated_at st), as_deleted_at = ns_deleted_at st,
     as_vv = ns_vv st, as_last_writer = ns_last_writer st\<rparr>"

definition same_tables :: "Fs \<Rightarrow> Db \<Rightarrow> bool" where
  "same_tables f d \<longleftrightarrow>
     (\<forall>i. fmlookup (fs_notebooks f) i = map_option Readable (fmlookup (db_notebooks d) i)) \<and>
     (\<forall>i. fmlookup (fs_tags f) i \<noteq> Some Corrupt \<and>
        map_option tag_row (fmlookup (db_tags d) i) =
          (case fmlookup (fs_tags f) i of Some (Readable t) \<Rightarrow> Some (tag_row t) | _ \<Rightarrow> None)) \<and>
     (\<forall>k. fmlookup (fs_note_tags f) k \<noteq> Some Corrupt \<and>
        fmlookup (db_note_tags d) k =
          (case fmlookup (fs_note_tags f) k of Some (Readable st) \<Rightarrow> Some (assoc_row st) | _ \<Rightarrow> None))"

lemma same_notebook:
  assumes "same_tables f d"
  obtains "fmlookup (fs_notebooks f) i = None" "fmlookup (db_notebooks d) i = None"
  | nb where "fmlookup (fs_notebooks f) i = Some (Readable nb)" "fmlookup (db_notebooks d) i = Some nb"
  using assms by (cases "fmlookup (db_notebooks d) i") (auto simp: same_tables_def)

lemma same_tag:
  assumes "same_tables f d"
  obtains "fmlookup (fs_tags f) i = None" "fmlookup (db_tags d) i = None"
  | t t' where "fmlookup (fs_tags f) i = Some (Readable t)" "fmlookup (db_tags d) i = Some t'" "tag_row t = tag_row t'"
proof (cases "fmlookup (fs_tags f) i")
  case None
  with assms that(1) show ?thesis unfolding same_tables_def by (metis option.case(1) option.map_disc_iff)
next
  case (Some a)
  with assms obtain t where "a = Readable t" unfolding same_tables_def by (metis sidecar.exhaust)
  moreover have "map_option tag_row (fmlookup (db_tags d) i) =
      (case fmlookup (fs_tags f) i of Some (Readable t) \<Rightarrow> Some (tag_row t) | _ \<Rightarrow> None)"
    using assms unfolding same_tables_def by blast
  ultimately show ?thesis using Some that(2) by auto
qed

lemma same_assoc:
  assumes "same_tables f d"
  obtains "fmlookup (fs_note_tags f) k = None" "fmlookup (db_note_tags d) k = None"
  | st where "fmlookup (fs_note_tags f) k = Some (Readable st)" "fmlookup (db_note_tags d) k = Some (assoc_row st)"
proof (cases "fmlookup (fs_note_tags f) k")
  case None
  with assms that(1) show ?thesis unfolding same_tables_def by (metis option.case(1))
next
  case (Some a)
  with assms obtain st where "a = Readable st" unfolding same_tables_def by (metis sidecar.exhaust)
  moreover have "fmlookup (db_note_tags d) k =
      (case fmlookup (fs_note_tags f) k of Some (Readable st) \<Rightarrow> Some (assoc_row st) | _ \<Rightarrow> None)"
    using assms unfolding same_tables_def by blast
  ultimately show ?thesis using Some that(2) by auto
qed

text \<open>Writing the same record in both keeps them the same.\<close>

lemma same_tables_upd:
  assumes "same_tables f d"
  shows "same_tables (f\<lparr>fs_notebooks := fmupd i (Readable nb) (fs_notebooks f)\<rparr>) (d\<lparr>db_notebooks := fmupd i nb (db_notebooks d)\<rparr>)"
    and "tag_row t = tag_row t' \<Longrightarrow> same_tables (f\<lparr>fs_tags := fmupd i (Readable t) (fs_tags f)\<rparr>) (d\<lparr>db_tags := fmupd i t' (db_tags d)\<rparr>)"
    and "same_tables (write_assoc_state n g st f) (d\<lparr>db_note_tags := fmupd (n, g) (assoc_row st) (db_note_tags d)\<rparr>)"
  using assms by (auto simp: same_tables_def write_assoc_state_def)

text \<open>Both resolve against the same stamp.\<close>

lemma same_wins:
  assumes "same_tables f d"
  shows "sidecar_incoming_wins notebook_stamp (fmlookup (fs_notebooks f) i) v t w = Inr (incoming_wins (notebook_meta d i) v t w)"
    and "sidecar_incoming_wins tag_stamp (fmlookup (fs_tags f) i) v t w = Inr (incoming_wins (tag_meta d i) v t w)"
    and "assoc_incoming_wins (fmlookup (fs_note_tags f) (n, g)) v t w = incoming_wins (assoc_meta d n g) v t w"
proof -
  show "sidecar_incoming_wins notebook_stamp (fmlookup (fs_notebooks f) i) v t w = Inr (incoming_wins (notebook_meta d i) v t w)"
    by (rule same_notebook [OF assms, of i])
      (simp_all add: sidecar_incoming_wins_def notebook_stamp_def notebook_meta_def incoming_wins_def)
  show "sidecar_incoming_wins tag_stamp (fmlookup (fs_tags f) i) v t w = Inr (incoming_wins (tag_meta d i) v t w)"
  proof (rule same_tag [OF assms, of i])
    fix a b assume "fmlookup (fs_tags f) i = Some (Readable a)" "fmlookup (db_tags d) i = Some b" "tag_row a = tag_row b"
    moreover from this(3) have "tag_stamp a = tag_stamp b"
      by (cases a; cases b) (simp add: tag_row_def tag_stamp_def)
    ultimately show ?thesis
      by (simp add: sidecar_incoming_wins_def tag_meta_def incoming_wins_def) (simp add: tag_stamp_def)
  qed (simp add: sidecar_incoming_wins_def tag_meta_def incoming_wins_def)
  show "assoc_incoming_wins (fmlookup (fs_note_tags f) (n, g)) v t w = incoming_wins (assoc_meta d n g) v t w"
    by (rule same_assoc [OF assms, of "(n, g)"])
      (simp_all add: assoc_incoming_wins_def read_assoc_state_def assoc_meta_def incoming_wins_def assoc_row_def)
qed

section \<open>Applying a change\<close>

fun table_change :: "Change \<Rightarrow> bool" where
  "table_change (NotebookCreate nb) = True"
| "table_change (NotebookUpdate nb) = True"
| "table_change (NotebookDelete i t v w) = True"
| "table_change (TagCreate g) = True"
| "table_change (TagUpdate g) = True"
| "table_change (TagDelete i t v w) = True"
| "table_change (NoteTagAdd n g t v w) = True"
| "table_change (NoteTagRemove n g t v w) = True"
| "table_change c = False"

lemma same_tables_apply:
  assumes "same_tables f d" and "table_change c"
  shows "\<exists>f'. fs_apply_change e c f = (Inr (), f') \<and> same_tables f' (db_apply c d)"
proof -
  note W = same_wins [OF assms(1)] and U = same_tables_upd [OF assms(1)]
  have nb: "\<exists>f'. fs_apply_notebook_upsert nb f = (Inr (), f') \<and> same_tables f' (db_apply_notebook_upsert nb d)" for nb
    using assms(1) U(1) by (auto simp: fs_apply_notebook_upsert_def db_apply_notebook_upsert_def W put_notebook_def)
  have nbd: "\<exists>f'. fs_apply_notebook_delete i t v w f = (Inr (), f') \<and> same_tables f' (db_apply_notebook_delete i t v w d)" for i t v w
    unfolding fs_apply_notebook_delete_def db_apply_notebook_delete_def W with_res_simps
    by (rule same_notebook [OF assms(1), of i])
      (use assms(1) U(1) in \<open>auto simp: read_file_def fs_notebook_stub_def notebook_stub_def notebook_tombstone_def Let_def\<close>)
  have tg: "\<exists>f'. fs_apply_tag_upsert g f = (Inr (), f') \<and> same_tables f' (db_apply_tag_upsert g d)" for g
    using assms(1) U(2) [of g "g\<lparr>t_system := False\<rparr>"]
    by (auto simp: fs_apply_tag_upsert_def db_apply_tag_upsert_def W put_tag_def tag_row_def)
  have tgd: "\<exists>f'. fs_apply_tag_delete i t v w f = (Inr (), f') \<and> same_tables f' (db_apply_tag_delete i t v w d)" for i t v w
    unfolding fs_apply_tag_delete_def db_apply_tag_delete_def W with_res_simps
  proof (rule same_tag [OF assms(1), of i])
    fix a b assume ab: "fmlookup (fs_tags f) i = Some (Readable a)" "fmlookup (db_tags d) i = Some b" "tag_row a = tag_row b"
    have "tag_row (a\<lparr>t_deleted_at := Some t, t_updated_at := t, t_vv := v, t_last_writer := w\<rparr>) = tag_row (tag_tombstone b t v w)"
      using ab(3) by (cases a; cases b) (simp add: tag_row_def tag_tombstone_def)
    from U(2) [OF this] assms(1) ab(1,2)
    show "\<exists>f'. (if \<not> incoming_wins (tag_meta d i) v t w then (Inr (), f)
        else with_res (case read_file (fmlookup (fs_tags f) i) of Inl NotFound \<Rightarrow> Inr (fs_tag_stub i t) | r \<Rightarrow> r) f
          (\<lambda>g s. (Inr (), s\<lparr>fs_tags := fmupd i (Readable (g\<lparr>t_deleted_at := Some t, t_updated_at := t,
             t_vv := v, t_last_writer := w\<rparr>)) (fs_tags s)\<rparr>))) = (Inr (), f') \<and>
      same_tables f' (if \<not> incoming_wins (tag_meta d i) v t w then d
        else let row = (case fmlookup (db_tags d) i of None \<Rightarrow> tag_stub i t v w | Some row \<Rightarrow> tag_tombstone row t v w)
          in d\<lparr>db_tags := fmupd i row (db_tags d)\<rparr>)"
      by (auto simp: read_file_def Let_def)
  qed (use assms(1) U(2) in \<open>auto simp: read_file_def fs_tag_stub_def tag_stub_def Let_def\<close>)
  have as: "\<exists>f'. fs_apply_assoc n g t del v w f = (Inr (), f') \<and> same_tables f' (db_apply_assoc n g t del v w d)" for n g t del v w
    using assms(1) U(3) [of n g "\<lparr>ns_updated_at = t, ns_deleted_at = del, ns_vv = v, ns_last_writer = w\<rparr>"]
    by (auto simp: fs_apply_assoc_def db_apply_assoc_def W upsert_assoc_def assoc_row_def)
  show ?thesis
    using assms(2) nb nbd tg tgd as by (cases c) simp_all
qed

lemma fs_backend_apply [simp]: "apply_change (fs_backend e fuel) = fs_apply_change e"
  by (simp add: fs_backend_def fs_base_def)


definition tag_changes :: "Change list" where
  "tag_changes = [TagCreate (new_tag 3 5 ''red''), NoteTagAdd 7 3 6 fmempty ''B'', TagDelete 4 8 fmempty ''B'']"


end
