(* ===== verification/Fs_Note_Laws.thy ===== *)
theory Fs_Note_Laws
  imports Fs_Notes Fs_Delivery
begin

text \<open>
  What a note write of the directory backend achieves: the new entry of the own log dominates every
  head this device knows, so it is the winner of every merge of these logs, on any device.
\<close>

section \<open>Merges with a newest head\<close>

lemma merge_newest:
  assumes "new \<in> set (heads_of L)" and "\<forall>h\<in>set (heads_of L). vv_normal (e_vv h)"
    and "\<forall>h\<in>set (heads_of L). h = new \<or> dominates (e_vv new) (e_vv h) \<and> e_vv new \<noteq> e_vv h"
  shows "merge L = Inr (merged_by L new)"
proof -
  have "heads_of L \<noteq> []" using assms(1) by auto
  with assms(2) obtain w where w: "merge L = Inr (merged_by L w)" "wins (heads_of L) w"
    by (rule merge_okE) auto
  then have "w = new" using assms(1,3) by (auto simp: wins_def undominated_in_def)
  with w(1) show ?thesis by simp
qed

section \<open>The logs of a note\<close>

lemma set_read_note_logs:
  assumes "lists_all (ls_devices e)"
  shows "l \<in> set (read_note_logs e s i) \<longleftrightarrow> (\<exists>d. fmlookup (nd_logs (note_dir s i)) d = Some (Readable l))"
proof -
  have "(case p of (d, f) \<Rightarrow> case f of Readable l \<Rightarrow> Some l | Corrupt \<Rightarrow> None) = Some l \<longleftrightarrow> snd p = Readable l" for p :: "string \<times> NoteLogEntry list sidecar"
    by (cases p; cases "snd p") auto
  then show ?thesis
    by (auto simp: read_note_logs_def set_map_filter listed_simps(2) [OF assms] Bex_def)
qed

lemma note_dir_upd [simp]:
  "note_dir (in_note_dir i f s) j = (if j = i then f (note_dir s i) else note_dir s j)"
  by (simp add: in_note_dir_def note_dir_def)

lemma in_note_dir_simps [simp]:
  "fs_device_id (in_note_dir i f s) = fs_device_id s" "fs_note_index (in_note_dir i f s) = fs_note_index s"
  "fs_notebooks (in_note_dir i f s) = fs_notebooks s" "fs_tags (in_note_dir i f s) = fs_tags s"
  "fs_note_tags (in_note_dir i f s) = fs_note_tags s" "fs_logs (in_note_dir i f s) = fs_logs s"
  by (simp_all add: in_note_dir_def)

lemma note_dir_frame [simp]:
  "note_dir (s\<lparr>fs_ticks := k\<rparr>) j = note_dir s j" "note_dir (s\<lparr>fs_note_index := idx\<rparr>) j = note_dir s j"
  by (simp_all add: note_dir_def)

lemma read_note_logs_cong:
  "nd_logs (note_dir s i) = nd_logs (note_dir s' i) \<Longrightarrow> read_note_logs e s i = read_note_logs e s' i"
  by (simp add: read_note_logs_def)

text \<open>A device can write a note when its own log is readable and its counter has room.\<close>

definition writable :: "'e fs_env_scheme \<Rightarrow> Fs \<Rightarrow> uuid \<Rightarrow> bool" where
  "writable e s i \<longleftrightarrow> fmlookup (nd_logs (note_dir s i)) (fs_device_id s) \<noteq> Some Corrupt \<and>
     (\<forall>h\<in>set (heads_of (read_note_logs e s i)). vv_normal (e_vv h) \<and> vv_get (e_vv h) (fs_device_id s) \<noteq> - 1)"

definition heads_vv :: "NoteLogEntry list list \<Rightarrow> vv" where
  "heads_vv L = fold (\<lambda>h acc. join acc (e_vv h)) (heads_of L) fmempty"

lemma fold_max_not: "\<forall>h\<in>set hs. f h \<noteq> x \<Longrightarrow> a \<noteq> x \<Longrightarrow> fold (\<lambda>h m. max m (f h)) hs a \<noteq> (x :: 'a :: linorder)"
  by (induction hs arbitrary: a) (auto simp: max_def)

lemma heads_vv_facts:
  assumes "\<forall>h\<in>set (heads_of L). vv_normal (e_vv h) \<and> vv_get (e_vv h) d \<noteq> - 1"
  shows "vv_get (heads_vv L) d \<noteq> - 1" "vv_normal (heads_vv L)"
    "h \<in> set (heads_of L) \<Longrightarrow> dominates (heads_vv L) (e_vv h)"
proof -
  show "vv_get (heads_vv L) d \<noteq> - 1"
    unfolding heads_vv_def vv_get_join_fold using assms by (intro fold_max_not) auto
  show "vv_normal (heads_vv L)"
    unfolding heads_vv_def using assms by (intro join_fold_normal) auto
  show "h \<in> set (heads_of L) \<Longrightarrow> dominates (heads_vv L) (e_vv h)"
    using join_fold_dominates [of "heads_vv L" e_vv "heads_of L" fmempty] by (simp add: heads_vv_def)
qed

lemma merge_vv:
  assumes "\<forall>h\<in>set (heads_of L). vv_normal (e_vv h)"
  shows "\<exists>m. merge L = Inr m \<and> m_vv m = heads_vv L"
proof (cases "heads_of L = []")
  case True
  then show ?thesis by (simp add: heads_vv_def)
next
  case False
  with assms show ?thesis by (rule merge_okE) (auto simp: merged_by_def heads_vv_def)
qed

text \<open>
  The logs after a write: whatever the order in which they are listed, the merge takes the new
  entry.
\<close>

lemma new_entry_wins:
  assumes "lists_all (ls_devices e)" and "lists_all (ls_devices e')" and "writable e s i"
    and "nd_logs (note_dir s' i) = fmupd (fs_device_id s) (Readable log) (nd_logs (note_dir s i))"
    and "log \<noteq> []" and "last log = new" and "e_vv new = increment (heads_vv (read_note_logs e s i)) (fs_device_id s)"
  shows "merge (read_note_logs e' s' i) = Inr (merged_by (read_note_logs e' s' i) new)"
proof -
  let ?d = "fs_device_id s" and ?L = "read_note_logs e s i"
  have heads: "\<forall>h\<in>set (heads_of ?L). vv_normal (e_vv h) \<and> vv_get (e_vv h) ?d \<noteq> - 1"
    using assms(3) by (simp add: writable_def)
  note F = heads_vv_facts [OF heads]
  have old: "h = new \<or> h \<in> set (heads_of ?L)" if "h \<in> set (heads_of (read_note_logs e' s' i))" for h
  proof -
    from that obtain d l where l: "fmlookup (nd_logs (note_dir s' i)) d = Some (Readable l)" "l \<noteq> []" "h = last l"
      by (auto simp: set_heads_of set_read_note_logs [OF assms(2)])
    show ?thesis
    proof (cases "d = ?d")
      case True
      with l assms(4,6) show ?thesis by simp
    next
      case False
      with l assms(4) have "l \<in> set ?L" by (auto simp: set_read_note_logs [OF assms(1)])
      with l show ?thesis by (auto simp: set_heads_of)
    qed
  qed
  have "log \<in> set (read_note_logs e' s' i)"
    using assms(4) by (auto simp: set_read_note_logs [OF assms(2)] intro!: exI [of _ ?d])
  then have "new \<in> set (heads_of (read_note_logs e' s' i))"
    using assms(5,6) by (auto simp: set_heads_of)
  moreover have "vv_normal (e_vv new)"
    unfolding assms(7) using F(1,2) by (rule vv_normal_increment [rotated])
  moreover have "dominates (e_vv new) (e_vv h) \<and> e_vv new \<noteq> e_vv h" if "h \<in> set (heads_of ?L)" for h
  proof -
    have "dominates (e_vv new) (heads_vv ?L)" "\<not> dominates (heads_vv ?L) (e_vv new)"
      unfolding assms(7) using F(1) by (rule dominates_incrementI)+
    with F(3) [OF that] show ?thesis by (auto dest: dominates_trans)
  qed
  ultimately show ?thesis using old heads by (intro merge_newest) auto
qed

section \<open>Writing\<close>

lemma persist_frame [simp]:
  "nd_logs (note_dir (persist_note_projection n v s) i) = nd_logs (note_dir s i)"
  "nd_resources (note_dir (persist_note_projection n v s) i) = nd_resources (note_dir s i)"
  "fs_device_id (persist_note_projection n v s) = fs_device_id s"
  "fs_notebooks (persist_note_projection n v s) = fs_notebooks s"
  "fs_tags (persist_note_projection n v s) = fs_tags s"
  "fs_note_tags (persist_note_projection n v s) = fs_note_tags s"
  by (auto simp: persist_note_projection_def Let_def)

definition written :: "Fs \<Rightarrow> uuid \<Rightarrow> Fs \<Rightarrow> bool" where
  "written s i s' \<longleftrightarrow> fs_device_id s' = fs_device_id s \<and> fs_notebooks s' = fs_notebooks s \<and> fs_tags s' = fs_tags s \<and>
     fs_note_tags s' = fs_note_tags s \<and> (\<forall>j. nd_resources (note_dir s' j) = nd_resources (note_dir s j)) \<and>
     (\<forall>j d. (j, d) \<noteq> (i, fs_device_id s) \<longrightarrow>
        fmlookup (nd_logs (note_dir s' j)) d = fmlookup (nd_logs (note_dir s j)) d)"

lemma append_note_op_result:
  assumes "lists_all (ls_devices e)" and "writable e s i"
  shows "\<exists>new log s1 r s'. append_note_op e i opn s = (r, s') \<and> e_op new = opn \<and>
    e_vv new = increment (heads_vv (read_note_logs e s i)) (fs_device_id s) \<and> log \<noteq> [] \<and> last log = new \<and>
    nd_logs (note_dir s' i) = fmupd (fs_device_id s) (Readable log) (nd_logs (note_dir s i)) \<and> written s i s' \<and>
    r = (case note_of_winner (read_note_logs e s' i) new of None \<Rightarrow> Inl NotFound | Some n \<Rightarrow> Inr n)"
proof -
  let ?d = "fs_device_id s" and ?L = "read_note_logs e s i"
  let ?s = "in_note_dir i (\<lambda>d. d) s"
  have L: "read_note_logs e ?s i = ?L" by (rule read_note_logs_cong) simp
  obtain m where m: "merge ?L = Inr m" "m_vv m = heads_vv ?L"
    using merge_vv [of ?L] assms(2) by (auto simp: writable_def)
  obtain old where old: "(case fmlookup (nd_logs (note_dir s i)) ?d of
      None \<Rightarrow> Inr [] | Some (Readable l) \<Rightarrow> Inr l | Some Corrupt \<Rightarrow> Inl CorruptedData) = (Inr old :: NoteLogEntry list res)"
    using assms(2) by (cases "fmlookup (nd_logs (note_dir s i)) ?d"; cases "the (fmlookup (nd_logs (note_dir s i)) ?d)")
      (auto simp: writable_def)
  define new where "new = \<lparr>e_vv = increment (heads_vv ?L) ?d, e_timestamp = fst (fs_now ?s), e_device_id = ?d, e_op = opn\<rparr>"
  define log where "log = (if NOTE_LOG_COMPACT_THRESHOLD < length (old @ [new]) then compact_own_log (old @ [new]) else old @ [new])"
  define s1 where "s1 = put_note_log i ?d log (snd (fs_now ?s))"
  have log: "log \<noteq> []" "last log = new" by (auto simp: log_def)
  have logs1: "nd_logs (note_dir s1 i) = fmupd ?d (Readable log) (nd_logs (note_dir s i))"
    by (simp add: s1_def put_note_log_def fs_now_def)
  have "written s i s1"
    by (simp add: written_def s1_def put_note_log_def fs_now_def)
  have win: "merge (read_note_logs e s1 i) = Inr (merged_by (read_note_logs e s1 i) new)"
    by (rule new_entry_wins [OF assms(1,1,2) logs1 log]) (simp add: new_def)
  define r where "r = materialize_note e i s1"
  have app: "append_note_op e i opn s = and_then r (\<lambda>n s. case n of None \<Rightarrow> (Inl NotFound, s) | Some n \<Rightarrow> (Inr n, s))"
    by (simp add: append_note_op_def Let_def L m old r_def s1_def log_def new_def fs_now_def)
  show ?thesis
  proof (cases "note_of_winner (read_note_logs e s1 i) new")
    case None
    then have "r = (Inr None, s1)" by (simp add: r_def materialize_note_def win merged_by_def)
    with app None log logs1 \<open>written s i s1\<close> show ?thesis
      by (intro exI [of _ new] exI [of _ log] exI) (auto simp: new_def)
  next
    case (Some n)
    define s2 where "s2 = persist_note_projection n (m_vv (merged_by (read_note_logs e s1 i) new)) s1"
    have "r = (Inr (Some n), s2)" using Some by (simp add: r_def s2_def materialize_note_def win merged_by_def)
    moreover have "read_note_logs e s2 i = read_note_logs e s1 i" by (rule read_note_logs_cong) (simp add: s2_def)
    moreover have "written s i s2" using \<open>written s i s1\<close> by (simp add: written_def s2_def)
    moreover have "nd_logs (note_dir s2 i) = nd_logs (note_dir s1 i)" by (simp add: s2_def)
    ultimately show ?thesis using app Some log logs1
      by (intro exI [of _ new] exI [of _ log] exI [of _ s2] exI) (auto simp: new_def)
  qed
qed


definition fs_two_writers :: Fs where
  "fs_two_writers = empty_fs\<lparr>fs_notes := fmap_of_list [(7, empty_dir\<lparr>nd_logs :=
     fmap_of_list [(''A'', Readable [entry_a]), (''B'', Readable [entry_b]), (''C'', Corrupt)]\<rparr>)]\<rparr>"

lemma fs_two_writers_writable: "writable sample_env fs_two_writers 7"
proof -
  have "read_note_logs sample_env fs_two_writers 7 = [[entry_a], [entry_b]]" by code_simp
  then show ?thesis
    using sample_normal
    by (simp add: writable_def fs_two_writers_def empty_fs_def note_dir_def entry_a_def entry_b_def vv_get_def)
qed


end
