(* ===== verification/Fs_Compact.thy ===== *)
theory Fs_Compact
  imports Fs_Agree Fs_Note_Laws
begin

text \<open>
  Compaction of a change journal: the snapshot that replaces it brings a device that has never read
  it to the same notebooks, tags and associations.
\<close>

section \<open>What a snapshot entry becomes\<close>

definition received_notebook :: "uuid \<Rightarrow> Notebook \<Rightarrow> Notebook" where
  "received_notebook i nb = (case nb_deleted_at nb of
     None \<Rightarrow> nb
   | Some t \<Rightarrow> (fs_notebook_stub i t)\<lparr>nb_deleted_at := Some t, nb_vv := nb_vv nb, nb_last_writer := nb_last_writer nb\<rparr>)"

definition received_tag :: "uuid \<Rightarrow> Tag \<Rightarrow> Tag" where
  "received_tag i g = (case t_deleted_at g of
     None \<Rightarrow> g
   | Some t \<Rightarrow> (fs_tag_stub i t)\<lparr>t_deleted_at := Some t, t_vv := t_vv g, t_last_writer := t_last_writer g\<rparr>)"

definition notebook_change :: "uuid \<Rightarrow> Notebook \<Rightarrow> Change" where
  "notebook_change i nb = (case nb_deleted_at nb of
     None \<Rightarrow> NotebookCreate nb | Some t \<Rightarrow> NotebookDelete i t (nb_vv nb) (nb_last_writer nb))"

definition tag_change :: "uuid \<Rightarrow> Tag \<Rightarrow> Change" where
  "tag_change i g = (case t_deleted_at g of
     None \<Rightarrow> TagCreate g | Some t \<Rightarrow> TagDelete i t (t_vv g) (t_last_writer g))"

definition assoc_change :: "uuid \<times> uuid \<Rightarrow> NoteTagState \<Rightarrow> Change" where
  "assoc_change k st = (if ns_deleted_at st = None
     then NoteTagAdd (fst k) (snd k) (ns_updated_at st) (ns_vv st) (ns_last_writer st)
     else NoteTagRemove (fst k) (snd k) (ns_updated_at st) (ns_vv st) (ns_last_writer st))"

lemma snapshot_changes:
  "log_entry_to_change (snapshot_entry ''notebook'' i t (FNotebook nb)) = Some (notebook_change i nb)"
  "log_entry_to_change (snapshot_entry ''tag'' i t (FTag g)) = Some (tag_change i g)"
  "log_entry_to_change (assoc_entry (fst k) (snd k) t st) = Some (assoc_change k st)"
  by (simp_all add: log_entry_to_change_def snapshot_entry_def notebook_change_def tag_change_def
      assoc_entry_def assoc_change_def fs_tombstone_from_data_def fs_assoc_from_data_def split: option.splits)

text \<open>Applied where the record is not known, they write what is received.\<close>

lemma apply_notebook_change:
  assumes "fmlookup (fs_notebooks s) i = None" and "nb_id nb = i"
  shows "fs_apply_change e (notebook_change i nb) s =
    (Inr (), s\<lparr>fs_notebooks := fmupd i (Readable (received_notebook i nb)) (fs_notebooks s)\<rparr>)"
  using assms by (simp add: notebook_change_def received_notebook_def fs_apply_notebook_upsert_def
      fs_apply_notebook_delete_def sidecar_incoming_wins_def put_notebook_def read_file_def fs_notebook_stub_def
      split: option.split)

lemma apply_tag_change:
  assumes "fmlookup (fs_tags s) i = None" and "t_id g = i"
  shows "fs_apply_change e (tag_change i g) s =
    (Inr (), s\<lparr>fs_tags := fmupd i (Readable (received_tag i g)) (fs_tags s)\<rparr>)"
  using assms by (simp add: tag_change_def received_tag_def fs_apply_tag_upsert_def
      fs_apply_tag_delete_def sidecar_incoming_wins_def put_tag_def read_file_def fs_tag_stub_def
      split: option.split)

lemma apply_assoc_change:
  assumes "fmlookup (fs_note_tags s) k = None" and "ns_deleted_at st \<in> {None, Some (ns_updated_at st)}"
  shows "fs_apply_change e (assoc_change k st) s =
    (Inr (), s\<lparr>fs_note_tags := fmupd k (Readable st) (fs_note_tags s)\<rparr>)"
  using assms by (cases st) (auto simp: assoc_change_def fs_apply_assoc_def assoc_incoming_wins_def
      read_assoc_state_def write_assoc_state_def)

section \<open>Applying a block of changes\<close>

text \<open>
  Changes to different keys of one table, none of which is there yet: the table afterwards holds what
  each writes. The table is given by its lookup and its update.
\<close>

lemma apply_block:
  fixes look :: "Fs \<Rightarrow> 'k \<Rightarrow> 'v option"
  assumes "distinct (map fst xs)" and "\<forall>(k, x)\<in>set xs. look s k = None \<and> P k x"
    and "\<And>s k x. look s k = None \<Longrightarrow> P k x \<Longrightarrow> fs_apply_change e (chg k x) s = (Inr (), put k (val k x) s)"
    and "\<And>s k v k'. look (put k v s) k' = (if k' = k then Some v else look s k')"
    and "\<And>s k v. keep (put k v s) = keep s"
  shows "\<exists>s'. apply_all (fs_backend e fuel) (map (\<lambda>(k, x). chg k x) xs) (s, reports) = (Inr (), (s', reports)) \<and>
    (\<forall>k. look s' k = (case map_of xs k of None \<Rightarrow> look s k | Some x \<Rightarrow> Some (val k x))) \<and> keep s' = keep s"
  using assms(1,2)
proof (induction xs arbitrary: s)
  case (Cons p xs)
  obtain k x where p: "p = (k, x)" by (cases p)
  let ?s = "put k (val k x) s"
  have app: "fs_apply_change e (chg k x) s = (Inr (), ?s)" using Cons.prems(2) p by (intro assms(3)) auto
  have "\<forall>(k, x)\<in>set xs. look ?s k = None \<and> P k x"
    using Cons.prems p by (force simp: assms(4))
  with Cons.IH [of ?s] Cons.prems(1) p obtain s' where
    s': "apply_all (fs_backend e fuel) (map (\<lambda>(k, x). chg k x) xs) (?s, reports) = (Inr (), (s', reports))"
      "\<forall>k. look s' k = (case map_of xs k of None \<Rightarrow> look ?s k | Some x \<Rightarrow> Some (val k x))" "keep s' = keep ?s"
    by auto
  have "map_of xs k = None" using Cons.prems(1) p by (simp add: map_of_eq_None_iff)
  with s' app show ?case
    by (intro exI [of _ s']) (auto simp: p on_store_def assms(4,5) split: option.split)
qed simp

section \<open>Resource changes do not fail\<close>

definition tables_of :: "Fs \<Rightarrow> _" where
  "tables_of s = (fs_notebooks s, fs_tags s, fs_note_tags s)"

definition resources_readable :: "Fs \<Rightarrow> bool" where
  "resources_readable s \<longleftrightarrow> (\<forall>n i. resource_file s n i \<noteq> Some Corrupt)"

lemma read_resource_readable:
  assumes "resources_readable s"
  shows "\<exists>r. read_resource_sidecar e i s = Inr r"
proof (cases "locate_resource_note e i s")
  case None
  then show ?thesis by (simp add: read_resource_sidecar_def)
next
  case (Some n)
  then have "resource_file s n i \<noteq> None" by (auto simp: locate_resource_note_def find_Some_iff)
  with assms obtain st where "resource_file s n i = Some (Readable st)"
    unfolding resources_readable_def by (metis not_None_eq sidecar.exhaust)
  with Some show ?thesis by (simp add: read_resource_sidecar_def read_file_def)
qed

lemma resource_files_upd [simp]:
  "resource_file (in_note_dir n (\<lambda>d. d) s) n' i' = resource_file s n' i'"
  "resource_file (put_resource_meta n i st s) n' i' = (if n' = n \<and> i' = i then Some (Readable st) else resource_file s n' i')"
  by (auto simp: resource_file_def put_resource_meta_def)

lemma tables_of_frame [simp]:
  "tables_of (in_note_dir n f s) = tables_of s" "tables_of (put_resource_meta n i st s) = tables_of s"
  by (simp_all add: tables_of_def put_resource_meta_def)

lemma resource_apply_ok:
  assumes "resources_readable s"
  shows "\<exists>s'. fs_apply_resource_create e r None s = (Inr (), s') \<and> tables_of s' = tables_of s \<and> resources_readable s'"
    and "\<exists>s'. fs_apply_resource_delete e i t v w s = (Inr (), s') \<and> tables_of s' = tables_of s \<and> resources_readable s'"
proof -
  have wins: "\<exists>b. resource_incoming_wins e i v t w s = Inr b" for i v t w
    using read_resource_readable [OF assms, of e i] by (auto simp: resource_incoming_wins_def read_resource_meta_def)
  let ?s = "in_note_dir (r_note_id r) (\<lambda>d. d) s"
  have ok: "resources_readable ?s" using assms by (simp add: resources_readable_def)
  obtain f where f: "read_resource_sidecar e (r_id r) ?s = Inr f" using read_resource_readable [OF ok] by blast
  show "\<exists>s'. fs_apply_resource_create e r None s = (Inr (), s') \<and> tables_of s' = tables_of s \<and> resources_readable s'"
    using wins [of "r_id r" "r_vv r" "case r_deleted_at r of None \<Rightarrow> r_created_at r | Some d \<Rightarrow> d" "r_last_writer r"] f assms
    by (auto simp: fs_apply_resource_create_def resources_readable_def)
  obtain g where "read_resource_sidecar e i s = Inr g" using read_resource_readable [OF assms] by blast
  then show "\<exists>s'. fs_apply_resource_delete e i t v w s = (Inr (), s') \<and> tables_of s' = tables_of s \<and> resources_readable s'"
    using wins [of i v t w] assms
    by (auto simp: fs_apply_resource_delete_def resources_readable_def split: option.split prod.split)
qed

definition resource_change :: "uuid \<times> StoredResource \<Rightarrow> Change" where
  "resource_change p = (let r = sr_resource (snd p) in case r_deleted_at r of
     None \<Rightarrow> ResourceCreate r None | Some t \<Rightarrow> ResourceDelete (fst p) t (r_vv r) (r_last_writer r))"

lemma snapshot_resource_change:
  "log_entry_to_change (snapshot_entry ''resource'' i t (FResource (sr_resource st))) = Some (resource_change (i, st))"
  by (simp add: log_entry_to_change_def snapshot_entry_def resource_change_def Let_def
      fs_tombstone_from_data_def fs_assoc_from_data_def split: option.splits)

lemma apply_resources:
  assumes "resources_readable s"
  shows "\<exists>s'. apply_all (fs_backend e fuel) (map resource_change xs) (s, reports) = (Inr (), (s', reports)) \<and>
    tables_of s' = tables_of s \<and> resources_readable s'"
  using assms
proof (induction xs arbitrary: s)
  case (Cons p xs)
  have "\<exists>s1. fs_apply_change e (resource_change p) s = (Inr (), s1) \<and> tables_of s1 = tables_of s \<and> resources_readable s1"
    using resource_apply_ok [OF Cons.prems, where e = e] by (auto simp: resource_change_def Let_def split: option.split)
  then obtain s1 where s1: "fs_apply_change e (resource_change p) s = (Inr (), s1)" "tables_of s1 = tables_of s" "resources_readable s1"
    by blast
  from Cons.IH [OF s1(3)] s1(1,2) show ?case by (auto simp: on_store_def)
qed simp

lemma apply_all_append:
  "apply_all be (cs @ ds) st = and_then (apply_all be cs st) (\<lambda>_ st. apply_all be ds st)"
proof (induction cs arbitrary: st)
  case (Cons c cs)
  obtain r st1 where "on_store (apply_change be c) st = (r, st1)" by (metis surj_pair)
  with Cons show ?case by (cases r) auto
qed simp

section \<open>The snapshot\<close>

lemma readable_listing:
  assumes "lists_all ls" and "\<forall>k f. fmlookup m k = Some f \<longrightarrow> (\<exists>x. f = Readable x \<and> P k x)"
  obtains xs where "listed ls m = map (\<lambda>(k, x). (k, Readable x)) xs" "distinct (map fst xs)"
    "\<forall>k. fmlookup m k = map_option Readable (map_of xs k)" "\<forall>(k, x)\<in>set xs. P k x"
proof -
  define xs where "xs = map (\<lambda>(k, f). (k, case f of Readable x \<Rightarrow> x)) (listed ls m)"
  have in_list: "(k, f) \<in> set (listed ls m) \<longleftrightarrow> fmlookup m k = Some f" for k f
    by (rule listed_simps(2) [OF assms(1)])
  have 1: "listed ls m = map (\<lambda>(k, x). (k, Readable x)) xs"
  proof -
    have "Readable (case f of Readable x \<Rightarrow> x) = f" if "fmlookup m k = Some f" for k f
      using assms(2) that by (metis sidecar.case(1))
    then show ?thesis by (auto simp: xs_def in_list intro!: map_idI [symmetric])
  qed
  have "map fst xs = map fst (listed ls m)" by (simp add: xs_def comp_def case_prod_beta')
  then have 2: "distinct (map fst xs)" using listed_simps(1) [OF assms(1), of m] by simp
  have mem: "(k, x) \<in> set xs \<longleftrightarrow> fmlookup m k = Some (Readable x)" for k x
    unfolding in_list [symmetric] 1 by (force simp: image_iff)
  have 3: "fmlookup m k = map_option Readable (map_of xs k)" for k
  proof (cases "map_of xs k")
    case None
    then have "fmlookup m k \<noteq> Some (Readable x)" for x
      unfolding mem [symmetric] by (auto simp: map_of_eq_None_iff image_iff)
    with assms(2) None show ?thesis by (cases "fmlookup m k") auto
  qed (use 2 mem in auto)
  have 4: "\<forall>(k, x)\<in>set xs. P k x" using assms(2) by (fastforce simp: mem)
  from 1 2 3 4 show thesis by (intro that) auto
qed

lemma snapshot_files_readable:
  "snapshot_files data kind t (map (\<lambda>(i, x). (i, Readable x)) xs) =
     (map (\<lambda>(i, x). snapshot_entry kind i t (data x)) xs, 0)"
proof -
  have "map (\<lambda>(i, f). snapshot_entry_from_sidecar data f kind i t) (map (\<lambda>(i, x). (i, Readable x)) xs) =
      map Some (map (\<lambda>(i, x). snapshot_entry kind i t (data x)) xs)"
    by (auto simp: snapshot_entry_from_sidecar_def)
  then show ?thesis
    unfolding snapshot_files_def Let_def by (simp add: List.map_filter_def comp_def)
qed

lemma map_filter_map_Some: "(\<And>x. f (g x) = Some (h x)) \<Longrightarrow> List.map_filter f (map g xs) = map h xs"
  by (induction xs) (simp_all add: List.map_filter_simps)

text \<open>Every sidecar is readable and under its own identifier; a removed association was changed last by its removal.\<close>

definition tables_clean :: "Fs \<Rightarrow> bool" where
  "tables_clean s \<longleftrightarrow>
     (\<forall>i f. fmlookup (fs_notebooks s) i = Some f \<longrightarrow> (\<exists>nb. f = Readable nb \<and> nb_id nb = i)) \<and>
     (\<forall>i f. fmlookup (fs_tags s) i = Some f \<longrightarrow> (\<exists>g. f = Readable g \<and> t_id g = i)) \<and>
     (\<forall>k f. fmlookup (fs_note_tags s) k = Some f \<longrightarrow>
        (\<exists>st. f = Readable st \<and> ns_deleted_at st \<in> {None, Some (ns_updated_at st)})) \<and>
     resources_readable s"

lemma resource_listing:
  assumes "lists_all (ls_ids e)" and "resources_readable s"
  shows "\<exists>xs. concat (map (\<lambda>n. listed (ls_ids e) (nd_resources (note_dir s n))) ns) = map (\<lambda>(i, x). (i, Readable x)) xs"
proof (induction ns)
  case (Cons n ns)
  then obtain xs where xs: "concat (map (\<lambda>n. listed (ls_ids e) (nd_resources (note_dir s n))) ns) = map (\<lambda>(i, x). (i, Readable x)) xs"
    by blast
  have "\<forall>k f. fmlookup (nd_resources (note_dir s n)) k = Some f \<longrightarrow> (\<exists>x. f = Readable x \<and> True)"
    using assms(2) unfolding resources_readable_def resource_file_def by (metis sidecar.exhaust)
  then obtain ys where "listed (ls_ids e) (nd_resources (note_dir s n)) = map (\<lambda>(i, x). (i, Readable x)) ys"
    by (rule readable_listing [OF assms(1)]) auto
  with xs show ?case by (intro exI [of _ "ys @ xs"]) simp
qed simp

text \<open>The changes a reader makes of the snapshot.\<close>

lemma snapshot_of_clean:
  assumes "lists_all (ls_ids e)" "lists_all (ls_pairs e)" "tables_clean s"
  obtains nbs tags ress assocs where
    "snd (build_global_snapshot e t s) = 0"
    "List.map_filter log_entry_to_change (fst (build_global_snapshot e t s)) =
       map (\<lambda>(i, x). notebook_change i x) nbs @ map (\<lambda>(i, x). tag_change i x) tags @ map resource_change ress @
       map (\<lambda>(k, x). assoc_change k x) assocs"
    "distinct (map fst nbs)" "\<forall>i. fmlookup (fs_notebooks s) i = map_option Readable (map_of nbs i)" "\<forall>(i, x)\<in>set nbs. nb_id x = i"
    "distinct (map fst tags)" "\<forall>i. fmlookup (fs_tags s) i = map_option Readable (map_of tags i)" "\<forall>(i, x)\<in>set tags. t_id x = i"
    "distinct (map fst assocs)" "\<forall>k. fmlookup (fs_note_tags s) k = map_option Readable (map_of assocs k)"
    "\<forall>(k, x)\<in>set assocs. ns_deleted_at x \<in> {None, Some (ns_updated_at x)}"
proof -
  have C: "\<forall>i f. fmlookup (fs_notebooks s) i = Some f \<longrightarrow> (\<exists>nb. f = Readable nb \<and> nb_id nb = i)"
    "\<forall>i f. fmlookup (fs_tags s) i = Some f \<longrightarrow> (\<exists>g. f = Readable g \<and> t_id g = i)"
    "\<forall>k f. fmlookup (fs_note_tags s) k = Some f \<longrightarrow> (\<exists>st. f = Readable st \<and> ns_deleted_at st \<in> {None, Some (ns_updated_at st)})"
    "resources_readable s" using assms(3) by (simp_all add: tables_clean_def)
  obtain nbs where nbs: "listed (ls_ids e) (fs_notebooks s) = map (\<lambda>(k, x). (k, Readable x)) nbs" "distinct (map fst nbs)"
    "\<forall>i. fmlookup (fs_notebooks s) i = map_option Readable (map_of nbs i)" "\<forall>(i, x)\<in>set nbs. nb_id x = i"
    by (rule readable_listing [OF assms(1) C(1)])
  obtain tags where tags: "listed (ls_ids e) (fs_tags s) = map (\<lambda>(k, x). (k, Readable x)) tags" "distinct (map fst tags)"
    "\<forall>i. fmlookup (fs_tags s) i = map_option Readable (map_of tags i)" "\<forall>(i, x)\<in>set tags. t_id x = i"
    by (rule readable_listing [OF assms(1) C(2)])
  obtain assocs where assocs: "listed (ls_pairs e) (fs_note_tags s) = map (\<lambda>(k, x). (k, Readable x)) assocs" "distinct (map fst assocs)"
    "\<forall>k. fmlookup (fs_note_tags s) k = map_option Readable (map_of assocs k)" "\<forall>(k, x)\<in>set assocs. ns_deleted_at x \<in> {None, Some (ns_updated_at x)}"
    by (rule readable_listing [OF assms(2) C(3)])
  obtain ress where ress: "concat (map (\<lambda>n. listed (ls_ids e) (nd_resources (note_dir s n))) (all_note_ids e s)) = map (\<lambda>(i, x). (i, Readable x)) ress"
    using resource_listing [OF assms(1) C(4)] by blast
  have as: "List.map_filter (\<lambda>((n, g), f). map_option (assoc_entry n g t) (read_assoc_state (Some f))) (map (\<lambda>(k, x). (k, Readable x)) assocs) =
      map (\<lambda>(k, x). assoc_entry (fst k) (snd k) t x) assocs"
    by (rule map_filter_map_Some) (auto simp: read_assoc_state_def)
  have B: "build_global_snapshot e t s =
      (map (\<lambda>(i, x). snapshot_entry ''notebook'' i t (FNotebook x)) nbs @ map (\<lambda>(i, x). snapshot_entry ''tag'' i t (FTag x)) tags @
       map (\<lambda>(i, x). snapshot_entry ''resource'' i t (FResource (sr_resource x))) ress @ map (\<lambda>(k, x). assoc_entry (fst k) (snd k) t x) assocs, 0)"
    by (simp add: build_global_snapshot_def nbs(1) tags(1) ress assocs(1) as snapshot_files_readable)
  have "List.map_filter log_entry_to_change (fst (build_global_snapshot e t s)) =
       map (\<lambda>(i, x). notebook_change i x) nbs @ map (\<lambda>(i, x). tag_change i x) tags @ map resource_change ress @
       map (\<lambda>(k, x). assoc_change k x) assocs"
    unfolding B fst_conv map_filter_append
    by (intro arg_cong2 [where f = "(@)"] map_filter_map_Some)
      (auto simp: snapshot_changes(1,2) snapshot_changes(3) [where k = "(a, b)" for a b, simplified] snapshot_resource_change)
  with B nbs tags assocs show thesis by (intro that [of nbs tags ress assocs]) auto
qed

section \<open>A reader of the compacted journal\<close>

text \<open>A device that has nothing but the other's journal.\<close>

definition fresh_reader :: "Fs \<Rightarrow> string \<Rightarrow> journal \<Rightarrow> bool" where
  "fresh_reader r device j \<longleftrightarrow> fs_notes r = fmempty \<and> fs_notebooks r = fmempty \<and> fs_tags r = fmempty \<and>
     fs_note_tags r = fmempty \<and> fs_offsets r = fmempty \<and> fs_logs r = fmap_of_list [(device, j)] \<and> fs_device_id r \<noteq> device"

lemma distinct_set_single: "distinct xs \<Longrightarrow> set xs = {x} \<Longrightarrow> xs = [x]"
  by (cases xs; cases "tl xs") auto

lemma fresh_receive:
  assumes "lists_all (ls_devices e)" "lists_all (ls_ids e)" "fresh_reader r device j" "log_name device" "lines_ok j"
  shows "\<exists>f. fs_receive_changes e r = (Inr (List.map_filter log_entry_to_change (journal_entries j)), r\<lparr>fs_offsets := f\<rparr>)"
proof -
  let ?logs = "fmap_of_list [(device, j)]"
  have r: "read_to_end r fmempty" "logs_step (fs_device_id r) fmempty ?logs" "r\<lparr>fs_logs := ?logs\<rparr> = r" "fs_device_id r \<noteq> device"
    using assms(3-5) by (auto simp: fresh_reader_def read_to_end_def read_log_offset_def journal_of_def
        logs_step_def journal_step_def split: if_splits)
  have "ls_devices e {|device|} = [device]"
    using assms(1) by (intro distinct_set_single) (simp_all add: lists_all_def)
  then have "others_listed e (fs_device_id r) ?logs = [device]"
    using r(4) by (simp add: others_listed_def)
  with read_new_entries_step [OF assms(1) r(1,2)] r(3)
  have R: "fst (read_new_entries e r) = journal_entries j" "\<exists>f. snd (read_new_entries e r) = r\<lparr>fs_logs := ?logs, fs_offsets := f\<rparr>"
    by (simp_all add: journal_of_def journal_news_def)
  have "collect_advanced_notes e (r\<lparr>fs_offsets := f\<rparr>) = (Inr [], r\<lparr>fs_offsets := f\<rparr>)" for f
  proof -
    have "ls_ids e {||} = []" using assms(2) unfolding lists_all_def by (metis bot_fset.rep_eq set_empty)
    then show ?thesis
      using assms(3) by (simp add: collect_advanced_notes_def all_note_ids_def fresh_reader_def)
  qed
  with R r(3) show ?thesis
    by (cases "read_new_entries e r") (auto simp: fs_receive_changes_def fresh_reader_def)
qed

lemma snapshot_applied:
  assumes "fresh_reader r device j"
    and "distinct (map fst nbs)" "\<forall>(i, x)\<in>set nbs. nb_id x = i"
    and "distinct (map fst tags)" "\<forall>(i, x)\<in>set tags. t_id x = i"
    and "distinct (map fst assocs)" "\<forall>(k, x)\<in>set assocs. ns_deleted_at x \<in> {None, Some (ns_updated_at x)}"
  shows "\<exists>r2. apply_all (fs_backend e fuel) (map (\<lambda>(i, x). notebook_change i x) nbs @ map (\<lambda>(i, x). tag_change i x) tags @
      map resource_change ress @ map (\<lambda>(k, x). assoc_change k x) assocs) (r\<lparr>fs_offsets := f\<rparr>, reports) = (Inr (), (r2, reports)) \<and>
    (\<forall>i. fmlookup (fs_notebooks r2) i = map_option (\<lambda>x. Readable (received_notebook i x)) (map_of nbs i)) \<and>
    (\<forall>i. fmlookup (fs_tags r2) i = map_option (\<lambda>x. Readable (received_tag i x)) (map_of tags i)) \<and>
    (\<forall>k. fmlookup (fs_note_tags r2) k = map_option Readable (map_of assocs k))"
proof -
  let ?be = "fs_backend e fuel" and ?r = "r\<lparr>fs_offsets := f\<rparr>"
  have r: "fs_notes ?r = fmempty" "fs_notebooks ?r = fmempty" "fs_tags ?r = fmempty" "fs_note_tags ?r = fmempty"
    using assms(1) by (simp_all add: fresh_reader_def)
  have "\<exists>s'. apply_all ?be (map (\<lambda>(i, x). notebook_change i x) nbs) (?r, reports) = (Inr (), (s', reports)) \<and>
      (\<forall>i. fmlookup (fs_notebooks s') i = (case map_of nbs i of None \<Rightarrow> fmlookup (fs_notebooks ?r) i | Some x \<Rightarrow> Some (Readable (received_notebook i x)))) \<and>
      (fs_tags s', fs_note_tags s', fs_notes s') = (fs_tags ?r, fs_note_tags ?r, fs_notes ?r)"
    using assms(3) r by (intro apply_block [OF assms(2), where P = "\<lambda>i x. nb_id x = i"
        and put = "\<lambda>i v s. s\<lparr>fs_notebooks := fmupd i v (fs_notebooks s)\<rparr>"]) (auto simp: apply_notebook_change)
  then obtain r1 where r1: "apply_all ?be (map (\<lambda>(i, x). notebook_change i x) nbs) (?r, reports) = (Inr (), (r1, reports))"
      "\<forall>i. fmlookup (fs_notebooks r1) i = map_option (\<lambda>x. Readable (received_notebook i x)) (map_of nbs i)"
      "fs_tags r1 = fmempty" "fs_note_tags r1 = fmempty" "fs_notes r1 = fmempty"
    unfolding r fmempty_lookup by (auto simp: map_option_case)
  have "\<exists>s'. apply_all ?be (map (\<lambda>(i, x). tag_change i x) tags) (r1, reports) = (Inr (), (s', reports)) \<and>
      (\<forall>i. fmlookup (fs_tags s') i = (case map_of tags i of None \<Rightarrow> fmlookup (fs_tags r1) i | Some x \<Rightarrow> Some (Readable (received_tag i x)))) \<and>
      (fs_notebooks s', fs_note_tags s', fs_notes s') = (fs_notebooks r1, fs_note_tags r1, fs_notes r1)"
    using assms(5) r1 by (intro apply_block [OF assms(4), where P = "\<lambda>i x. t_id x = i"
        and put = "\<lambda>i v s. s\<lparr>fs_tags := fmupd i v (fs_tags s)\<rparr>"]) (auto simp: apply_tag_change)
  then obtain r2 where r2: "apply_all ?be (map (\<lambda>(i, x). tag_change i x) tags) (r1, reports) = (Inr (), (r2, reports))"
      "\<forall>i. fmlookup (fs_tags r2) i = map_option (\<lambda>x. Readable (received_tag i x)) (map_of tags i)"
      "fs_notebooks r2 = fs_notebooks r1" "fs_note_tags r2 = fmempty" "fs_notes r2 = fmempty"
    using r1(1,2,4,5) unfolding r1(3) fmempty_lookup by (auto simp: map_option_case)
  have "resources_readable r2" using r2(5) by (simp add: resources_readable_def resource_file_def note_dir_def empty_dir_def)
  from apply_resources [OF this] obtain r3 where r3: "apply_all ?be (map resource_change ress) (r2, reports) = (Inr (), (r3, reports))"
      "tables_of r3 = tables_of r2" by blast
  have "\<exists>s'. apply_all ?be (map (\<lambda>(k, x). assoc_change k x) assocs) (r3, reports) = (Inr (), (s', reports)) \<and>
      (\<forall>k. fmlookup (fs_note_tags s') k = (case map_of assocs k of None \<Rightarrow> fmlookup (fs_note_tags r3) k | Some x \<Rightarrow> Some (Readable x))) \<and>
      (fs_notebooks s', fs_tags s') = (fs_notebooks r3, fs_tags r3)"
    using assms(7) r2 r3 by (intro apply_block [OF assms(6), where P = "\<lambda>k x. ns_deleted_at x \<in> {None, Some (ns_updated_at x)}"
        and put = "\<lambda>i v s. s\<lparr>fs_note_tags := fmupd i v (fs_note_tags s)\<rparr>"]) (auto simp: apply_assoc_change tables_of_def)
  then obtain r4 where r4: "apply_all ?be (map (\<lambda>(k, x). assoc_change k x) assocs) (r3, reports) = (Inr (), (r4, reports))"
      "\<forall>k. fmlookup (fs_note_tags r4) k = map_option Readable (map_of assocs k)"
      "fs_notebooks r4 = fs_notebooks r3" "fs_tags r4 = fs_tags r3"
    using r2 r3 by (auto simp: tables_of_def map_option_case cong: option.case_cong)
  show ?thesis
    using r1 r2 r3 r4 by (intro exI [of _ r4]) (auto simp: apply_all_append tables_of_def)
qed

text \<open>
  C27. Compacting a change journal loses nothing: a device that has never seen this one and reads the
  compacted journal, in a round that succeeds, ends with every notebook, tag and association the
  compacting device has, the live ones as they are and the deleted ones with the version and the time
  of their deletion.
\<close>

theorem fs_compaction_complete:
  assumes "lists_all (ls_ids e)" "lists_all (ls_pairs e)" "lists_all (ls_devices e)"
    and "\<forall>ep. 0 < header_len e ep" "\<forall>en. 0 < entry_len e en" "log_name (fs_device_id s)"
    and "tables_clean s" and "fresh_reader r (fs_device_id s) (own_log (compact_global_log e s))"
  shows "\<exists>changes r1 r2. fs_receive_changes e r = (Inr changes, r1) \<and>
    apply_all (fs_backend e fuel) changes (r1, reports) = (Inr (), (r2, reports)) \<and>
    (\<forall>i. fmlookup (fs_notebooks r2) i = (case fmlookup (fs_notebooks s) i of
       Some (Readable nb) \<Rightarrow> Some (Readable (received_notebook i nb)) | _ \<Rightarrow> None)) \<and>
    (\<forall>i. fmlookup (fs_tags r2) i = (case fmlookup (fs_tags s) i of
       Some (Readable g) \<Rightarrow> Some (Readable (received_tag i g)) | _ \<Rightarrow> None)) \<and>
    fs_note_tags r2 = fs_note_tags s"
proof -
  let ?t = "fst (fs_now s)" and ?s = "snd (fs_now s)"
  have clean: "tables_clean ?s"
    using assms(7) by (simp add: tables_clean_def fs_now_def resources_readable_def resource_file_def)
  have eq: "fs_notebooks ?s = fs_notebooks s" "fs_tags ?s = fs_tags s" "fs_note_tags ?s = fs_note_tags s" "fs_device_id ?s = fs_device_id s"
    by (simp_all add: fs_now_def)
  obtain nbs tags ress assocs where S: "snd (build_global_snapshot e ?t ?s) = 0"
    "List.map_filter log_entry_to_change (fst (build_global_snapshot e ?t ?s)) =
       map (\<lambda>(i, x). notebook_change i x) nbs @ map (\<lambda>(i, x). tag_change i x) tags @ map resource_change ress @
       map (\<lambda>(k, x). assoc_change k x) assocs"
    "distinct (map fst nbs)" "\<forall>i. fmlookup (fs_notebooks ?s) i = map_option Readable (map_of nbs i)" "\<forall>(i, x)\<in>set nbs. nb_id x = i"
    "distinct (map fst tags)" "\<forall>i. fmlookup (fs_tags ?s) i = map_option Readable (map_of tags i)" "\<forall>(i, x)\<in>set tags. t_id x = i"
    "distinct (map fst assocs)" "\<forall>k. fmlookup (fs_note_tags ?s) k = map_option Readable (map_of assocs k)"
    "\<forall>(k, x)\<in>set assocs. ns_deleted_at x \<in> {None, Some (ns_updated_at x)}"
    by (rule snapshot_of_clean [OF assms(1,2) clean])
  let ?j = "own_log (compact_global_log e s)" and ?ep = "saturating_add (fst (read_log_header (own_log s))) 1"
  have j: "?j = (header_len e ?ep, LHeader ?ep) # map (\<lambda>en. (entry_len e en, LEntry en)) (fst (build_global_snapshot e ?t ?s))"
  proof -
    have "compact_global_log e s = ?s\<lparr>fs_logs := fmupd (fs_device_id s) ((header_len e ?ep, LHeader ?ep) #
        map (\<lambda>en. (entry_len e en, LEntry en)) (fst (build_global_snapshot e ?t ?s))) (fs_logs ?s)\<rparr>"
      using S(1) by (simp add: compact_global_log_def Let_def case_prod_beta eq)
    then show ?thesis by (simp add: own_log_def eq)
  qed
  have "lines_ok ?j" using assms(4,5) unfolding j by (auto simp: lines_ok_def)
  moreover have "journal_entries ?j = fst (build_global_snapshot e ?t ?s)"
    unfolding j by (simp add: journal_entries_def List.map_filter_def line_entry_def comp_def)
  ultimately obtain f where recv: "fs_receive_changes e r = (Inr (List.map_filter log_entry_to_change (fst (build_global_snapshot e ?t ?s))), r\<lparr>fs_offsets := f\<rparr>)"
    using fresh_receive [OF assms(3,1,8,6)] by auto
  show ?thesis
    using recv snapshot_applied [OF assms(8) S(3,5,6,8,9,11), of e fuel ress f reports] S(2,4,7,10)
    by (auto simp: eq option.map_comp comp_def intro!: fmap_ext split: option.split)
qed

definition fs_writer :: Fs where
  "fs_writer = empty_fs\<lparr>fs_notebooks := fmap_of_list [(5, Readable (new_notebook 5 1 ''work''))],
     fs_tags := fmap_of_list [(3, Readable ((new_tag 3 1 ''red'')\<lparr>t_deleted_at := Some 4, t_last_writer := ''A''\<rparr>))],
     fs_note_tags := fmap_of_list [((7, 3), Readable \<lparr>ns_updated_at = 2, ns_deleted_at = None, ns_vv = fmempty, ns_last_writer = ''A''\<rparr>)]\<rparr>"

definition fs_newcomer :: Fs where
  "fs_newcomer = empty_fs\<lparr>fs_device_id := ''B'', fs_logs := fmap_of_list [(''A'', own_log (compact_global_log sample_env fs_writer))]\<rparr>"

theorem fs_compaction_complete_witness:
  "\<exists>changes r1 r2. fs_receive_changes sample_env fs_newcomer = (Inr changes, r1) \<and>
    apply_all (fs_backend sample_env 0) changes (r1, []) = (Inr (), (r2, [])) \<and>
    fmlookup (fs_notebooks r2) 5 = Some (Readable (new_notebook 5 1 ''work'')) \<and> fs_note_tags r2 = fs_note_tags fs_writer"
proof -
  have env: "\<forall>ep. 0 < header_len sample_env ep" "\<forall>en. 0 < entry_len sample_env en"
    by (simp_all add: sample_env_def text_codec.extend_def)
  have name: "log_name (fs_device_id fs_writer)"
    by (rule log_nameI) (simp add: fs_writer_def empty_fs_def dot_log_def)
  have clean: "tables_clean fs_writer"
    by (auto simp: tables_clean_def fs_writer_def empty_fs_def new_notebook_def new_tag_def resources_readable_def
        resource_file_def note_dir_def empty_dir_def split: if_splits)
  have "fresh_reader fs_newcomer (fs_device_id fs_writer) (own_log (compact_global_log sample_env fs_writer))"
    by (simp add: fresh_reader_def fs_newcomer_def empty_fs_def fs_writer_def)
  from fs_compaction_complete [OF sample_env_lists env name clean this, of 0 "[]"] show ?thesis
    by (auto simp: fs_writer_def empty_fs_def received_notebook_def new_notebook_def)
qed

end
