(* ===== verification/Interop.thy ===== *)
theory Interop
  imports Storage
begin

text \<open>
  Contacts, events and to-dos as vCard and iCalendar text, \<open>keeplin-core/src/interop.rs\<close>, and the
  operations that keep them as resources. A text is the list of its UTF-8 bytes. Dates are written
  and read by the \<open>chrono\<close> crate, and \<open>str::trim\<close> uses the Unicode tables: both are parameters. A
  fresh identifier and the clock are inputs.
\<close>

definition MIME_VCARD :: string where
  "MIME_VCARD = ''text/vcard''"

definition MIME_ICALENDAR :: string where
  "MIME_ICALENDAR = ''text/calendar''"

section \<open>Content lines\<close>

definition carriage_return :: char where
  "carriage_return = CHR 0x0D"

definition line_end :: string where
  "line_end = [carriage_return, newline]"

definition strip_cr :: "string \<Rightarrow> string" where
  "strip_cr raw = (if raw \<noteq> [] \<and> last raw = carriage_return then butlast raw else raw)"

text \<open>A line that starts with a space or a tab continues the one before it.\<close>

definition unfold_step :: "string list \<Rightarrow> string \<Rightarrow> string list" where
  "unfold_step lines raw =
    (let line = strip_cr raw in
     case line of
       [] \<Rightarrow> lines @ [line]
     | c # rest \<Rightarrow>
         if (c = CHR '' '' \<or> c = CHR 0x09) \<and> lines \<noteq> [] then butlast lines @ [last lines @ rest]
         else lines @ [line])"

definition unfold_text :: "string \<Rightarrow> string list" where
  "unfold_text input =
    (let lines = foldl unfold_step [] (split_on newline input)
     in if lines \<noteq> [] \<and> last lines = [] then butlast lines else lines)"

definition is_continuation :: "char \<Rightarrow> bool" where
  "is_continuation c = (0x80 \<le> (of_char c :: nat) \<and> (of_char c :: nat) < 0xC0)"

definition is_char_boundary :: "string \<Rightarrow> nat \<Rightarrow> bool" where
  "is_char_boundary line i = (i = 0 \<or> i = length line \<or> i < length line \<and> \<not> is_continuation (line ! i))"

fun back_to_boundary :: "string \<Rightarrow> nat \<Rightarrow> nat" where
  "back_to_boundary line 0 = 0"
| "back_to_boundary line (Suc e) =
    (if Suc e < length line \<and> \<not> is_char_boundary line (Suc e) then back_to_boundary line e else Suc e)"

definition LIMIT :: nat where
  "LIMIT = 75"

text \<open>
  The loop of \<open>fold_line\<close>. In a valid text a character has at most four bytes, so that every step
  advances; the test that it does ends the recursion otherwise.
\<close>

function fold_from :: "string \<Rightarrow> nat \<Rightarrow> bool \<Rightarrow> string" where
  "fold_from line start first =
    (if \<not> start < length line then []
     else let budget = (if first then LIMIT else LIMIT - 1);
              e = back_to_boundary line (min (start + budget) (length line))
          in if e \<le> start then []
             else (if first then [] else '' '') @ take (e - start) (drop start line) @ line_end @ fold_from line e False)"
  by pat_completeness auto
termination by (relation "measure (\<lambda>(line, start, first). length line - start)") auto

declare fold_from.simps [simp del]

definition fold_line :: "string \<Rightarrow> string" where
  "fold_line line = (if length line \<le> LIMIT then line @ line_end else fold_from line 0 True)"

definition escape_char :: "char \<Rightarrow> string" where
  "escape_char c = (if c = CHR 0x5C then [CHR 0x5C, CHR 0x5C] else if c = CHR '','' then [CHR 0x5C, CHR '','']
     else if c = CHR '';'' then [CHR 0x5C, CHR '';''] else if c = newline then [CHR 0x5C, CHR ''n'']
     else if c = carriage_return then [] else [c])"

definition escape_text :: "string \<Rightarrow> string" where
  "escape_text s = concat (map escape_char s)"

fun unescape_text :: "string \<Rightarrow> string" where
  "unescape_text [] = []"
| "unescape_text [c] = [c]"
| "unescape_text (c # d # rest) =
    (if c = CHR 0x5C then (if d = CHR ''n'' \<or> d = CHR ''N'' then newline else d) # unescape_text rest
     else c # unescape_text (d # rest))"

definition upper_char :: "char \<Rightarrow> char" where
  "upper_char c = (if 97 \<le> (of_char c :: nat) \<and> (of_char c :: nat) \<le> 122 then char_of (of_char c - 32 :: nat) else c)"

definition eq_ignore_ascii_case :: "string \<Rightarrow> string \<Rightarrow> bool" where
  "eq_ignore_ascii_case a b = (map upper_char a = map upper_char b)"

definition split_prop :: "string \<Rightarrow> (string \<times> string) option" where
  "split_prop line = (case split_once CHR '':'' line of
     None \<Rightarrow> None
   | Some (head, value) \<Rightarrow> Some (map upper_char (takeWhile (\<lambda>c. c \<noteq> CHR '';'') head), value))"

section \<open>Dates\<close>

record date_text =
  show_dt :: "ts \<Rightarrow> string"
  parse_naive :: "string \<Rightarrow> string \<Rightarrow> ts option"
  parse_naive_date :: "string \<Rightarrow> ts option"
  trim_text :: "string \<Rightarrow> string"

definition FMT_UTC :: string where
  "FMT_UTC = ''%Y%m%dT%H%M%SZ''"

definition FMT_LOCAL :: string where
  "FMT_LOCAL = ''%Y%m%dT%H%M%S''"

definition parse_dt :: "'d date_text_scheme \<Rightarrow> string \<Rightarrow> ts option" where
  "parse_dt dt value =
    (let v = trim_text dt value in
     case parse_naive dt FMT_UTC v of
       Some t \<Rightarrow> Some t
     | None \<Rightarrow> (case parse_naive dt FMT_LOCAL v of Some t \<Rightarrow> Some t | None \<Rightarrow> parse_naive_date dt v))"

section \<open>Contacts\<close>

record Contact =
  ct_uid :: string
  ct_formatted_name :: string
  ct_family_name :: "string option"
  ct_given_name :: "string option"
  ct_emails :: "string list"
  ct_phones :: "string list"
  ct_org :: "string option"
  ct_note :: "string option"
  ct_extra :: "string list"

definition default_contact :: Contact where
  "default_contact = \<lparr>ct_uid = [], ct_formatted_name = [], ct_family_name = None, ct_given_name = None,
     ct_emails = [], ct_phones = [], ct_org = None, ct_note = None, ct_extra = []\<rparr>"

definition or_empty :: "string option \<Rightarrow> string" where
  "or_empty x = (case x of None \<Rightarrow> [] | Some s \<Rightarrow> s)"

definition opt_line :: "string \<Rightarrow> string option \<Rightarrow> string list" where
  "opt_line prefix x = (case x of None \<Rightarrow> [] | Some s \<Rightarrow> [prefix @ escape_text s])"

text \<open>The lines of a card before they are folded; \<open>fresh\<close> is the text of a new identifier.\<close>

definition vcard_lines :: "string \<Rightarrow> Contact \<Rightarrow> string list" where
  "vcard_lines fresh c =
    [''BEGIN:VCARD'', ''VERSION:4.0'',
     ''UID:'' @ escape_text (if ct_uid c = [] then fresh else ct_uid c),
     ''FN:'' @ escape_text (ct_formatted_name c)] @
    (if ct_family_name c \<noteq> None \<or> ct_given_name c \<noteq> None
     then [''N:'' @ escape_text (or_empty (ct_family_name c)) @ '';'' @ escape_text (or_empty (ct_given_name c)) @ '';;;'']
     else []) @
    map (\<lambda>email. ''EMAIL:'' @ escape_text email) (ct_emails c) @
    map (\<lambda>tel. ''TEL:'' @ escape_text tel) (ct_phones c) @
    opt_line ''ORG:'' (ct_org c) @ opt_line ''NOTE:'' (ct_note c) @ ct_extra c @ [''END:VCARD'']"

definition to_vcard :: "string \<Rightarrow> Contact \<Rightarrow> string" where
  "to_vcard fresh c = concat (map fold_line (vcard_lines fresh c))"

definition non_empty :: "string \<Rightarrow> string option" where
  "non_empty s = (if s = [] then None else Some s)"

text \<open>The two parts of an \<open>N\<close> value: \<open>splitn(2, ';')\<close> and the first piece of the rest.\<close>

definition name_parts :: "string \<Rightarrow> string option \<times> string option" where
  "name_parts value = (case split_once CHR '';'' value of
     None \<Rightarrow> (non_empty (unescape_text value), None)
   | Some (a, b) \<Rightarrow> (non_empty (unescape_text a), non_empty (unescape_text (takeWhile (\<lambda>c. c \<noteq> CHR '';'') b))))"

text \<open>The loop of \<open>from_vcard\<close>; it ends at the end of the card.\<close>

fun read_card :: "string list \<Rightarrow> bool \<Rightarrow> Contact \<Rightarrow> bool \<times> Contact" where
  "read_card [] in_card c = (in_card, c)"
| "read_card (line # rest) in_card c = (case split_prop line of
     None \<Rightarrow> read_card rest in_card c
   | Some (name, value) \<Rightarrow>
       if name = ''BEGIN'' \<and> eq_ignore_ascii_case value ''VCARD'' then read_card rest True c
       else if name = ''END'' \<and> eq_ignore_ascii_case value ''VCARD'' then (in_card, c)
       else if \<not> in_card then read_card rest in_card c
       else if name = ''VERSION'' then read_card rest in_card c
       else if name = ''UID'' then read_card rest in_card (c\<lparr>ct_uid := unescape_text value\<rparr>)
       else if name = ''FN'' then read_card rest in_card (c\<lparr>ct_formatted_name := unescape_text value\<rparr>)
       else if name = ''N'' then read_card rest in_card
         (c\<lparr>ct_family_name := fst (name_parts value), ct_given_name := snd (name_parts value)\<rparr>)
       else if name = ''EMAIL'' then read_card rest in_card (c\<lparr>ct_emails := ct_emails c @ [unescape_text value]\<rparr>)
       else if name = ''TEL'' then read_card rest in_card (c\<lparr>ct_phones := ct_phones c @ [unescape_text value]\<rparr>)
       else if name = ''ORG'' then read_card rest in_card (c\<lparr>ct_org := Some (unescape_text value)\<rparr>)
       else if name = ''NOTE'' then read_card rest in_card (c\<lparr>ct_note := Some (unescape_text value)\<rparr>)
       else read_card rest in_card (c\<lparr>ct_extra := ct_extra c @ [line]\<rparr>))"

definition from_vcard :: "string \<Rightarrow> Contact option" where
  "from_vcard input = (case read_card (unfold_text input) False default_contact of
     (in_card, c) \<Rightarrow> if in_card then Some c else None)"

definition user_vcard :: "string \<Rightarrow> string \<Rightarrow> string \<Rightarrow> string" where
  "user_vcard fresh display_name email =
     to_vcard fresh (default_contact\<lparr>ct_formatted_name := display_name, ct_emails := [email]\<rparr>)"

section \<open>Events and to-dos\<close>

record CalendarEvent =
  ev_uid :: string
  ev_summary :: string
  ev_start :: "ts option"
  ev_end :: "ts option"
  ev_location :: "string option"
  ev_description :: "string option"
  ev_extra :: "string list"

record CalendarTodo =
  td_uid :: string
  td_summary :: string
  td_due :: "ts option"
  td_completed :: "ts option"
  td_description :: "string option"
  td_extra :: "string list"

definition PRODID :: string where
  "PRODID = ''-//Keeplin//Keeplin//EN''"

definition calendar_open :: "string list" where
  "calendar_open = [''BEGIN:VCALENDAR'', ''VERSION:2.0'', ''PRODID:'' @ PRODID]"

definition uid_dtstamp :: "'d date_text_scheme \<Rightarrow> string \<Rightarrow> ts \<Rightarrow> string \<Rightarrow> string list" where
  "uid_dtstamp dt fresh now uid =
     [''UID:'' @ escape_text (if uid = [] then fresh else uid), ''DTSTAMP:'' @ show_dt dt now]"

definition date_line :: "'d date_text_scheme \<Rightarrow> string \<Rightarrow> ts option \<Rightarrow> string list" where
  "date_line dt prefix x = (case x of None \<Rightarrow> [] | Some t \<Rightarrow> [prefix @ show_dt dt t])"

definition event_lines :: "'d date_text_scheme \<Rightarrow> string \<Rightarrow> ts \<Rightarrow> CalendarEvent \<Rightarrow> string list" where
  "event_lines dt fresh now ev =
     calendar_open @ [''BEGIN:VEVENT''] @ uid_dtstamp dt fresh now (ev_uid ev) @
     [''SUMMARY:'' @ escape_text (ev_summary ev)] @ date_line dt ''DTSTART:'' (ev_start ev) @ date_line dt ''DTEND:'' (ev_end ev) @
     opt_line ''LOCATION:'' (ev_location ev) @ opt_line ''DESCRIPTION:'' (ev_description ev) @ ev_extra ev @
     [''END:VEVENT'', ''END:VCALENDAR'']"

definition event_to_ics :: "'d date_text_scheme \<Rightarrow> string \<Rightarrow> ts \<Rightarrow> CalendarEvent \<Rightarrow> string" where
  "event_to_ics dt fresh now ev = concat (map fold_line (event_lines dt fresh now ev))"

definition todo_lines :: "'d date_text_scheme \<Rightarrow> string \<Rightarrow> ts \<Rightarrow> CalendarTodo \<Rightarrow> string list" where
  "todo_lines dt fresh now td =
     calendar_open @ [''BEGIN:VTODO''] @ uid_dtstamp dt fresh now (td_uid td) @
     [''SUMMARY:'' @ escape_text (td_summary td)] @ date_line dt ''DUE:'' (td_due td) @
     (case td_completed td of None \<Rightarrow> []
      | Some t \<Rightarrow> [''COMPLETED:'' @ show_dt dt t, ''STATUS:COMPLETED'', ''PERCENT-COMPLETE:100'']) @
     opt_line ''DESCRIPTION:'' (td_description td) @ td_extra td @ [''END:VTODO'', ''END:VCALENDAR'']"

definition todo_to_ics :: "'d date_text_scheme \<Rightarrow> string \<Rightarrow> ts \<Rightarrow> CalendarTodo \<Rightarrow> string" where
  "todo_to_ics dt fresh now td = concat (map fold_line (todo_lines dt fresh now td))"

text \<open>The components of a kind, each as the lines between its begin and its end.\<close>

fun split_loop :: "string \<Rightarrow> string list \<Rightarrow> string list option \<Rightarrow> string list list \<Rightarrow> string list list" where
  "split_loop kind [] current out = out @ (case current of None \<Rightarrow> [] | Some lines \<Rightarrow> [lines])"
| "split_loop kind (line # rest) current out = (case split_prop line of
     None \<Rightarrow> split_loop kind rest current out
   | Some (name, value) \<Rightarrow>
       if name = ''BEGIN'' \<and> eq_ignore_ascii_case value kind then split_loop kind rest (Some []) out
       else if name = ''END'' \<and> eq_ignore_ascii_case value kind
       then split_loop kind rest None (out @ (case current of None \<Rightarrow> [] | Some lines \<Rightarrow> [lines]))
       else split_loop kind rest (map_option (\<lambda>lines. lines @ [line]) current) out)"

definition split_components :: "string \<Rightarrow> string \<Rightarrow> string list list" where
  "split_components input kind = split_loop kind (unfold_text input) None []"

definition parse_component_lines :: "(string \<Rightarrow> string \<Rightarrow> string \<Rightarrow> 'c \<Rightarrow> 'c) \<Rightarrow> string list \<Rightarrow> 'c \<Rightarrow> 'c" where
  "parse_component_lines f = fold (\<lambda>line c. case split_prop line of None \<Rightarrow> c | Some (name, value) \<Rightarrow> f name value line c)"

definition default_event :: CalendarEvent where
  "default_event = \<lparr>ev_uid = [], ev_summary = [], ev_start = None, ev_end = None, ev_location = None,
     ev_description = None, ev_extra = []\<rparr>"

definition default_todo :: CalendarTodo where
  "default_todo = \<lparr>td_uid = [], td_summary = [], td_due = None, td_completed = None, td_description = None, td_extra = []\<rparr>"

definition event_prop :: "'d date_text_scheme \<Rightarrow> string \<Rightarrow> string \<Rightarrow> string \<Rightarrow> CalendarEvent \<Rightarrow> CalendarEvent" where
  "event_prop dt name value line ev =
    (if name = ''UID'' then ev\<lparr>ev_uid := unescape_text value\<rparr>
     else if name = ''SUMMARY'' then ev\<lparr>ev_summary := unescape_text value\<rparr>
     else if name = ''DTSTART'' then ev\<lparr>ev_start := parse_dt dt value\<rparr>
     else if name = ''DTEND'' then ev\<lparr>ev_end := parse_dt dt value\<rparr>
     else if name = ''LOCATION'' then ev\<lparr>ev_location := Some (unescape_text value)\<rparr>
     else if name = ''DESCRIPTION'' then ev\<lparr>ev_description := Some (unescape_text value)\<rparr>
     else if name = ''DTSTAMP'' then ev
     else ev\<lparr>ev_extra := ev_extra ev @ [line]\<rparr>)"

definition todo_prop :: "'d date_text_scheme \<Rightarrow> string \<Rightarrow> string \<Rightarrow> string \<Rightarrow> CalendarTodo \<Rightarrow> CalendarTodo" where
  "todo_prop dt name value line td =
    (if name = ''UID'' then td\<lparr>td_uid := unescape_text value\<rparr>
     else if name = ''SUMMARY'' then td\<lparr>td_summary := unescape_text value\<rparr>
     else if name = ''DUE'' then td\<lparr>td_due := parse_dt dt value\<rparr>
     else if name = ''COMPLETED'' then td\<lparr>td_completed := parse_dt dt value\<rparr>
     else if name = ''DESCRIPTION'' then td\<lparr>td_description := Some (unescape_text value)\<rparr>
     else if name \<in> {''STATUS'', ''PERCENT-COMPLETE'', ''DTSTAMP''} then td
     else td\<lparr>td_extra := td_extra td @ [line]\<rparr>)"

definition events_from_ics :: "'d date_text_scheme \<Rightarrow> string \<Rightarrow> CalendarEvent list" where
  "events_from_ics dt input =
     map (\<lambda>lines. parse_component_lines (event_prop dt) lines default_event) (split_components input ''VEVENT'')"

definition todos_from_ics :: "'d date_text_scheme \<Rightarrow> string \<Rightarrow> CalendarTodo list" where
  "todos_from_ics dt input =
     map (\<lambda>lines. parse_component_lines (todo_prop dt) lines default_todo) (split_components input ''VTODO'')"

definition first_of :: "'x list \<Rightarrow> 'x option" where
  "first_of xs = (case xs of [] \<Rightarrow> None | x # _ \<Rightarrow> Some x)"

definition event_from_ics :: "'d date_text_scheme \<Rightarrow> string \<Rightarrow> CalendarEvent option" where
  "event_from_ics dt input = first_of (events_from_ics dt input)"

definition todo_from_ics :: "'d date_text_scheme \<Rightarrow> string \<Rightarrow> CalendarTodo option" where
  "todo_from_ics dt input = first_of (todos_from_ics dt input)"

definition todo_from_note :: "'u uuid_text_scheme \<Rightarrow> Note \<Rightarrow> CalendarTodo" where
  "todo_from_note ut n = \<lparr>td_uid = show_uuid ut (n_id n), td_summary = n_title n, td_due = n_todo_due n,
     td_completed = n_todo_completed n, td_description = non_empty (n_body n), td_extra = []\<rparr>"

definition apply_to_note :: "CalendarTodo \<Rightarrow> Note \<Rightarrow> Note" where
  "apply_to_note td n = n\<lparr>n_title := td_summary td, n_body := or_empty (td_description td), n_is_todo := True,
     n_todo_due := td_due td, n_todo_completed := td_completed td\<rparr>"

end
