(* ===== verification/Interop_Laws.thy ===== *)
theory Interop_Laws
  imports Interop
begin

text \<open>
  Round trips of the vCard and iCalendar forms: folding is undone by unfolding, escaping by
  unescaping, and from these the cards, events and to-dos come back.
\<close>

section \<open>Escaping\<close>

lemma special_chars [simp]:
  "newline \<noteq> carriage_return" "newline \<noteq> CHR 0x5C" "carriage_return \<noteq> CHR 0x5C" "carriage_return \<noteq> newline"
  by (simp_all add: newline_def carriage_return_def)

lemma escape_simps [simp]: "escape_text [] = []" "escape_text (c # s) = escape_char c @ escape_text s"
  by (simp_all add: escape_text_def)

lemma unescape_Cons: "c \<noteq> CHR 0x5C \<Longrightarrow> unescape_text (c # s) = c # unescape_text s"
  by (cases s) auto

lemma unescape_escape: "carriage_return \<notin> set s \<Longrightarrow> unescape_text (escape_text s) = s"
  by (induction s) (auto simp: escape_char_def unescape_Cons newline_def carriage_return_def)

lemma escape_clean: "newline \<notin> set (escape_text s)" "carriage_return \<notin> set (escape_text s)"
  by (induction s) (auto simp: escape_char_def newline_def carriage_return_def)

lemma escape_Nil: "carriage_return \<notin> set s \<Longrightarrow> escape_text s = [] \<longleftrightarrow> s = []"
  by (cases s) (auto simp: escape_char_def)

lemma escape_semicolon: "CHR '';'' \<notin> set s \<Longrightarrow> CHR '';'' \<notin> set (escape_text s)"
  by (induction s) (auto simp: escape_char_def)

section \<open>Folding\<close>

text \<open>
  What folding needs of a text: no more than three continuation bytes in a row, as in any UTF-8
  text. The first argument counts those just before.
\<close>

fun short_runs :: "nat \<Rightarrow> string \<Rightarrow> bool" where
  "short_runs k [] \<longleftrightarrow> True"
| "short_runs k (c # s) \<longleftrightarrow> (if is_continuation c then k < 3 \<and> short_runs (k + 1) s else short_runs 0 s)"

lemma short_runs_mono: "short_runs k s \<Longrightarrow> j \<le> k \<Longrightarrow> short_runs j s"
  by (induction s arbitrary: j k) (auto split: if_splits)

lemma ascii_not_continuation: "(of_char c :: nat) < 128 \<Longrightarrow> \<not> is_continuation c"
  by (simp add: is_continuation_def)

lemma short_runs_prefix: "\<forall>c\<in>set p. \<not> is_continuation c \<Longrightarrow> short_runs k (p @ s) \<longleftrightarrow> short_runs (if p = [] then k else 0) s"
  by (induction p arbitrary: k) auto

lemma short_runs_append_ascii: "short_runs k s \<Longrightarrow> \<forall>c\<in>set q. \<not> is_continuation c \<Longrightarrow> short_runs k (s @ q)"
proof (induction s arbitrary: k)
  case Nil
  then show ?case by (induction q arbitrary: k) auto
qed (auto split: if_splits)

lemma escape_char_cases:
  "c = carriage_return \<and> escape_char c = [] \<or> escape_char c = [c] \<or>
   (\<exists>d. escape_char c = [CHR 0x5C, d] \<and> \<not> is_continuation d) \<and> \<not> is_continuation c"
  by (auto simp: escape_char_def is_continuation_def newline_def)

lemma backslash_not_continuation [simp]: "\<not> is_continuation CHR 0x5C"
  by (simp add: is_continuation_def)

lemma short_runs_escape: "carriage_return \<notin> set s \<Longrightarrow> short_runs k s \<Longrightarrow> short_runs k (escape_text s)"
proof (induction s arbitrary: k)
  case (Cons c s)
  have c: "c \<noteq> carriage_return" using Cons.prems(1) by auto
  from escape_char_cases [of c] c consider "escape_char c = [c]"
    | d where "escape_char c = [CHR 0x5C, d]" "\<not> is_continuation d" "\<not> is_continuation c" by blast
  then show ?case by cases (use Cons in auto)
qed simp

lemma short_runs_nth:
  "short_runs k s \<Longrightarrow> k \<le> 3 \<Longrightarrow> 4 - k \<le> length s \<Longrightarrow> \<exists>j < 4 - k. \<not> is_continuation (s ! j)"
proof (induction s arbitrary: k)
  case (Cons c s)
  show ?case
  proof (cases "is_continuation c")
    case True
    with Cons.prems have "k < 3" "short_runs (k + 1) s" by auto
    moreover from this(1) Cons.prems(3) have "k + 1 \<le> 3" "4 - (k + 1) \<le> length s" by auto
    ultimately obtain j where "j < 4 - (k + 1)" "\<not> is_continuation (s ! j)" using Cons.IH [of "k + 1"] by blast
    then show ?thesis by (intro exI [of _ "Suc j"]) auto
  next
    case False
    with Cons.prems(2) show ?thesis by (intro exI [of _ 0]) auto
  qed
qed simp

lemma short_runs_drop: "short_runs k s \<Longrightarrow> short_runs 0 (drop i s)"
proof (induction s arbitrary: k i)
  case (Cons c s)
  show ?case
  proof (cases i)
    case 0
    with Cons.prems short_runs_mono [of k "c # s" 0] show ?thesis by (simp del: short_runs.simps)
  next
    case (Suc j)
    obtain k' where "short_runs k' s" using Cons.prems by (auto split: if_splits)
    from Cons.IH [OF this] Suc show ?thesis by simp
  qed
qed simp

lemma boundary_within:
  assumes "short_runs 0 line" and "e \<le> length line" and "4 \<le> e"
  shows "\<exists>j. e - 3 \<le> j \<and> j \<le> e \<and> is_char_boundary line j"
proof (cases "e = length line")
  case False
  have "short_runs 0 (drop (e - 3) line)" by (rule short_runs_drop [OF assms(1)])
  moreover have "4 - 0 \<le> length (drop (e - 3) line)" using assms False by simp
  ultimately obtain j where "j < 4 - 0" "\<not> is_continuation (drop (e - 3) line ! j)" using short_runs_nth by blast
  with assms False show ?thesis by (intro exI [of _ "e - 3 + j"]) (auto simp: is_char_boundary_def)
qed (auto simp: is_char_boundary_def intro!: exI [of _ e])

lemma back_to_boundary_le: "back_to_boundary line e \<le> e"
  by (induction e) auto

lemma back_to_boundary_ge: "j \<le> e \<Longrightarrow> is_char_boundary line j \<Longrightarrow> j \<le> back_to_boundary line e"
proof (induction e)
  case (Suc e)
  then show ?case by (cases "j = Suc e") auto
qed simp

text \<open>Every step of the loop takes a piece that is not empty.\<close>

lemma fold_from_pieces:
  "short_runs 0 line \<Longrightarrow> start < length line \<Longrightarrow> \<exists>c cs. fold_from line start first =
      (if first then [] else '' '') @ c @ line_end @ concat (map (\<lambda>x. '' '' @ x @ line_end) cs) \<and>
    c \<noteq> [] \<and> c @ concat cs = drop start line"
proof (induction line start first rule: fold_from.induct)
  case (1 line start first)
  let ?budget = "if first then LIMIT else LIMIT - 1"
  let ?lim = "min (start + ?budget) (length line)"
  let ?e = "back_to_boundary line ?lim"
  note runs = 1(2) and start = 1(3)
  have gt: "start < ?e"
  proof (cases "?lim = length line")
    case True
    then have "is_char_boundary line ?lim" by (simp add: is_char_boundary_def)
    with back_to_boundary_ge [of ?lim ?lim line] start True show ?thesis by simp
  next
    case False
    then have e0: "?lim = start + ?budget" "?lim \<le> length line" by auto
    then have "start + 74 \<le> ?lim" by (auto simp: LIMIT_def)
    with boundary_within [OF runs e0(2)] obtain j where "?lim - 3 \<le> j" "j \<le> ?lim" "is_char_boundary line j" by auto
    with back_to_boundary_ge [of j ?lim line] \<open>start + 74 \<le> ?lim\<close> show ?thesis by auto
  qed
  have le: "?e \<le> length line" using back_to_boundary_le [of line ?lim] by auto
  let ?c = "take (?e - start) (drop start line)"
  have unfold_eq: "fold_from line start first = (if first then [] else '' '') @ ?c @ line_end @ fold_from line ?e False"
    using start gt by (subst fold_from.simps) (simp add: Let_def del: back_to_boundary.simps)
  have c: "?c \<noteq> []" using start gt by auto
  have split: "?c @ drop ?e line = drop start line"
    using append_take_drop_id [of "?e - start" "drop start line"] gt by simp
  show ?case
  proof (cases "?e < length line")
    case True
    from "1.IH" [OF _ refl refl _ runs True] start gt obtain d ds where
      d: "fold_from line ?e False = '' '' @ d @ line_end @ concat (map (\<lambda>x. '' '' @ x @ line_end) ds)" "d @ concat ds = drop ?e line"
      by auto
    show ?thesis
      using c split d by (intro exI [of _ ?c] exI [of _ "d # ds"]) (simp add: unfold_eq)
  next
    case False
    then have "fold_from line ?e False = []" by (simp add: fold_from.simps)
    with c split False show ?thesis
      by (intro exI [of _ ?c] exI [of _ "[]"]) (simp add: unfold_eq)
  qed
qed

section \<open>Unfolding what was folded\<close>

definition line_ok :: "string \<Rightarrow> bool" where
  "line_ok l \<longleftrightarrow> l \<noteq> [] \<and> hd l \<noteq> CHR '' '' \<and> hd l \<noteq> CHR 0x09 \<and> newline \<notin> set l \<and> carriage_return \<notin> set l \<and> short_runs 0 l"

lemma fold_line_physical:
  assumes "line_ok l"
  obtains c cs where "fold_line l = concat (map (\<lambda>x. x @ line_end) (c # map (\<lambda>x. '' '' @ x) cs))" "c \<noteq> []" "c @ concat cs = l"
proof (cases "length l \<le> LIMIT")
  case True
  with assms show ?thesis by (intro that [of l "[]"]) (auto simp: fold_line_def line_ok_def)
next
  case False
  then have "short_runs 0 l" "0 < length l" using assms by (auto simp: line_ok_def)
  from fold_from_pieces [OF this, of True] obtain c cs where
    "fold_from l 0 True = c @ line_end @ concat (map (\<lambda>x. '' '' @ x @ line_end) cs)" "c \<noteq> []" "c @ concat cs = l"
    by auto
  with False show ?thesis by (intro that [of c cs]) (simp_all add: fold_line_def comp_def)
qed

lemma split_on_lines:
  assumes "\<forall>x\<in>set xs. newline \<notin> set x"
  shows "split_on newline (concat (map (\<lambda>x. x @ line_end) xs)) = map (\<lambda>x. x @ [carriage_return]) xs @ [[]]"
  using assms
proof (induction xs)
  case (Cons x xs)
  have "newline \<notin> set (x @ [carriage_return])" using Cons.prems by simp
  from split_on_append [OF this] Cons show ?case by (simp add: line_end_def)
qed simp

lemma strip_cr_line [simp]: "strip_cr (x @ [carriage_return]) = x"
  by (simp add: strip_cr_def)

lemma unfold_continuations:
  "foldl unfold_step (acc @ [d]) (map (\<lambda>x. ('' '' @ x) @ [carriage_return]) cs) = acc @ [d @ concat cs]"
proof (induction cs arbitrary: d)
  case (Cons x cs)
  have "unfold_step (acc @ [d]) (('' '' @ x) @ [carriage_return]) = acc @ [d @ x]"
    unfolding unfold_step_def strip_cr_line Let_def by simp
  with Cons.IH [of "d @ x"] show ?case by simp
qed simp

lemma unfold_fold:
  assumes "\<forall>l\<in>set ls. line_ok l"
  shows "unfold_text (concat (map fold_line ls)) = ls"
proof -
  have "\<exists>xs. concat (map fold_line ls) = concat (map (\<lambda>x. x @ line_end) xs) \<and> (\<forall>x\<in>set xs. newline \<notin> set x) \<and>
      (\<forall>acc. foldl unfold_step acc (map (\<lambda>x. x @ [carriage_return]) xs) = acc @ ls)"
    using assms
  proof (induction ls)
    case (Cons l ls)
    then obtain xs where xs: "concat (map fold_line ls) = concat (map (\<lambda>x. x @ line_end) xs)" "\<forall>x\<in>set xs. newline \<notin> set x"
      "\<And>acc. foldl unfold_step acc (map (\<lambda>x. x @ [carriage_return]) xs) = acc @ ls" by auto
    have l: "line_ok l" using Cons.prems by simp
    then obtain c cs where c: "fold_line l = concat (map (\<lambda>x. x @ line_end) (c # map (\<lambda>x. '' '' @ x) cs))" "c \<noteq> []" "c @ concat cs = l"
      by (rule fold_line_physical)
    have first: "unfold_step acc (c @ [carriage_return]) = acc @ [c]" for acc
      using l c(2,3) by (cases c) (auto simp: unfold_step_def line_ok_def strip_cr_line [of "_ # _", simplified])
    have clean: "newline \<notin> set c" "\<forall>x\<in>set cs. newline \<notin> set x" using l c(3) by (auto simp: line_ok_def)
    have "foldl unfold_step acc (map (\<lambda>x. x @ [carriage_return]) (c # map (\<lambda>x. '' '' @ x) cs)) = acc @ [l]" for acc
      using unfold_continuations [of acc c cs] c(3) by (simp add: first comp_def)
    with xs c(1) clean show ?case
      by (intro exI [of _ "(c # map (\<lambda>x. '' '' @ x) cs) @ xs"]) (auto simp: newline_def)
  qed (simp add: exI [of _ "[]"])
  then obtain xs where xs: "concat (map fold_line ls) = concat (map (\<lambda>x. x @ line_end) xs)" "\<forall>x\<in>set xs. newline \<notin> set x"
    "\<And>acc. foldl unfold_step acc (map (\<lambda>x. x @ [carriage_return]) xs) = acc @ ls" by blast
  have "unfold_step ls [] = ls @ [[]]" by (simp add: unfold_step_def strip_cr_def)
  with xs show ?thesis by (simp add: unfold_text_def split_on_lines)
qed

section \<open>Property lines\<close>

definition field_ok :: "string \<Rightarrow> bool" where
  "field_ok s \<longleftrightarrow> carriage_return \<notin> set s \<and> short_runs 0 s"

lemma field_okD [simp]: "field_ok s \<Longrightarrow> unescape_text (escape_text s) = s"
  by (simp add: field_ok_def unescape_escape)

definition plain :: "string \<Rightarrow> bool" where
  "plain p \<longleftrightarrow> list_all (\<lambda>c. 32 < (of_char c :: nat) \<and> (of_char c :: nat) < 128) p"

lemma plain_facts:
  assumes "plain p" and "c \<in> set p"
  shows "c \<noteq> newline" "c \<noteq> carriage_return" "c \<noteq> CHR '' ''" "c \<noteq> CHR 0x09" "\<not> is_continuation c"
  using assms by (auto simp: plain_def list_all_iff newline_def carriage_return_def is_continuation_def)

lemma plain_line_ok:
  assumes "plain p" "p \<noteq> []" "newline \<notin> set s" "carriage_return \<notin> set s" "short_runs 0 s"
  shows "line_ok (p @ s)"
proof -
  have "hd (p @ s) \<in> set p" using assms(2) by simp
  with assms plain_facts [OF assms(1)] show ?thesis
    by (auto simp: line_ok_def short_runs_prefix)
qed

lemma prop_line_ok: "plain p \<Longrightarrow> p \<noteq> [] \<Longrightarrow> field_ok s \<Longrightarrow> line_ok (p @ escape_text s)"
  by (rule plain_line_ok) (simp_all add: field_ok_def escape_clean short_runs_escape)

lemma literal_line_ok: "plain p \<Longrightarrow> p \<noteq> [] \<Longrightarrow> line_ok p"
  using plain_line_ok [of p "[]"] by simp

lemma short_runs_sep: "short_runs k a \<Longrightarrow> \<not> is_continuation c \<Longrightarrow> short_runs 0 b \<Longrightarrow> short_runs k (a @ c # b)"
  by (induction a arbitrary: k) (auto split: if_splits)

section \<open>Contacts\<close>

definition CARD_NAMES :: "string set" where
  "CARD_NAMES = {''BEGIN'', ''END'', ''VERSION'', ''UID'', ''FN'', ''N'', ''EMAIL'', ''TEL'', ''ORG'', ''NOTE''}"

definition extra_ok :: "string set \<Rightarrow> string \<Rightarrow> bool" where
  "extra_ok names l \<longleftrightarrow> line_ok l \<and> (case split_prop l of None \<Rightarrow> False | Some (name, value) \<Rightarrow> name \<notin> names)"

definition name_ok :: "string option \<Rightarrow> bool" where
  "name_ok x \<longleftrightarrow> (case x of None \<Rightarrow> True | Some s \<Rightarrow> field_ok s \<and> s \<noteq> [] \<and> CHR '';'' \<notin> set s)"

text \<open>
  What a contact must satisfy to survive: its texts are valid and free of carriage returns, its name
  parts are not empty and free of semicolons, and its extra lines are property lines of other names.
\<close>

definition contact_ok :: "Contact \<Rightarrow> bool" where
  "contact_ok c \<longleftrightarrow> ct_uid c \<noteq> [] \<and> field_ok (ct_uid c) \<and> field_ok (ct_formatted_name c) \<and>
     name_ok (ct_family_name c) \<and> name_ok (ct_given_name c) \<and> list_all field_ok (ct_emails c) \<and>
     list_all field_ok (ct_phones c) \<and> pred_option field_ok (ct_org c) \<and> pred_option field_ok (ct_note c) \<and>
     list_all (extra_ok CARD_NAMES) (ct_extra c)"

lemmas upper_eval = upper_char_def

lemma read_card_emails:
  "list_all field_ok es \<Longrightarrow> read_card (map (\<lambda>e. ''EMAIL:'' @ escape_text e) es @ rest) True c =
     read_card rest True (c\<lparr>ct_emails := ct_emails c @ es\<rparr>)"
  by (induction es arbitrary: c) (simp_all add: split_prop_def upper_char_def)

lemma read_card_phones:
  "list_all field_ok es \<Longrightarrow> read_card (map (\<lambda>e. ''TEL:'' @ escape_text e) es @ rest) True c =
     read_card rest True (c\<lparr>ct_phones := ct_phones c @ es\<rparr>)"
  by (induction es arbitrary: c) (simp_all add: split_prop_def upper_char_def)

lemma read_card_org:
  "pred_option field_ok x \<Longrightarrow> read_card (opt_line ''ORG:'' x @ rest) True c =
     read_card rest True (case x of None \<Rightarrow> c | Some s \<Rightarrow> c\<lparr>ct_org := Some s\<rparr>)"
  by (cases x) (simp_all add: opt_line_def split_prop_def upper_char_def)

lemma read_card_note:
  "pred_option field_ok x \<Longrightarrow> read_card (opt_line ''NOTE:'' x @ rest) True c =
     read_card rest True (case x of None \<Rightarrow> c | Some s \<Rightarrow> c\<lparr>ct_note := Some s\<rparr>)"
  by (cases x) (simp_all add: opt_line_def split_prop_def upper_char_def)

lemma read_card_extra:
  "list_all (extra_ok CARD_NAMES) ls \<Longrightarrow> read_card (ls @ rest) True c =
     read_card rest True (c\<lparr>ct_extra := ct_extra c @ ls\<rparr>)"
  by (induction ls arbitrary: c) (auto simp: extra_ok_def CARD_NAMES_def split: option.splits)

lemma name_parts_value:
  assumes "name_ok a" "name_ok b"
  shows "name_parts (escape_text (or_empty a) @ '';'' @ escape_text (or_empty b) @ '';;;'') = (a, b)"
proof -
  have semi: "CHR '';'' \<notin> set (escape_text (or_empty x))" if "name_ok x" for x
    using that by (cases x) (auto simp: name_ok_def or_empty_def escape_semicolon)
  have "takeWhile (\<lambda>c. c \<noteq> CHR '';'') (escape_text (or_empty b) @ '';;;'') = escape_text (or_empty b)"
    using semi [OF assms(2)] by (subst takeWhile_append2) auto
  moreover have "non_empty (unescape_text (escape_text (or_empty x))) = x" if "name_ok x" for x
    using that by (cases x) (auto simp: name_ok_def or_empty_def non_empty_def)
  ultimately show ?thesis
    using split_once_append [OF semi [OF assms(1)], of "escape_text (or_empty b) @ '';;;''"] assms
    by (simp add: name_parts_def)
qed

lemma vcard_lines_ok:
  assumes "contact_ok c"
  shows "\<forall>l\<in>set (vcard_lines fresh c). line_ok l"
proof -
  have nm: "line_ok (''N:'' @ escape_text (or_empty a) @ '';'' @ escape_text (or_empty b) @ '';;;'')" if "name_ok a" "name_ok b" for a b
  proof (rule plain_line_ok)
    have f: "field_ok (or_empty a)" "field_ok (or_empty b)"
      using that by (auto simp: name_ok_def or_empty_def field_ok_def split: option.splits)
    have "short_runs 0 (escape_text (or_empty b) @ '';;;'')"
      using f(2) by (intro short_runs_append_ascii) (auto simp: field_ok_def short_runs_escape is_continuation_def)
    then show "short_runs 0 (escape_text (or_empty a) @ '';'' @ escape_text (or_empty b) @ '';;;'')"
      using f(1) by (auto simp: field_ok_def short_runs_escape is_continuation_def intro!: short_runs_sep)
  qed (use escape_clean [unfolded newline_def carriage_return_def] in \<open>auto simp: plain_def newline_def carriage_return_def\<close>)
  have lit: "line_ok ''BEGIN:VCARD''" "line_ok ''VERSION:4.0''" "line_ok ''END:VCARD''"
    by (rule literal_line_ok; simp add: plain_def)+
  have pline: "line_ok (p @ escape_text s)" if "p \<in> {''UID:'', ''FN:'', ''EMAIL:'', ''TEL:'', ''ORG:'', ''NOTE:''}" "field_ok s" for p s
    using that by (intro prop_line_ok) (auto simp: plain_def)
  have opt: "line_ok l" if "l \<in> set (opt_line p x)" "p \<in> {''ORG:'', ''NOTE:''}" "pred_option field_ok x" for l p x
    using that pline by (cases x) (auto simp: opt_line_def)
  show ?thesis
    using assms lit pline [of "''UID:''"] pline [of "''FN:''"] pline [of "''EMAIL:''"] pline [of "''TEL:''"]
      opt [of _ "''ORG:''"] opt [of _ "''NOTE:''"] nm
    by (auto simp: vcard_lines_def contact_ok_def list_all_iff extra_ok_def)
qed


definition sample_contact :: Contact where
  "sample_contact = default_contact\<lparr>ct_uid := ''c1'', ct_formatted_name := ''Ada, Countess; of Lovelace'',
     ct_family_name := Some ''Lovelace'', ct_emails := [''a@b'', ''c@d''], ct_note := Some (''one'' @ newline # ''two''),
     ct_extra := [''X-KEY;TYPE=a:1'']\<rparr>"


text \<open>An escaped semicolon in a family name is read as the separator of the name parts.\<close>

lemma family_name_semicolon:
  "map_option ct_family_name (from_vcard (to_vcard [] (sample_contact\<lparr>ct_family_name := Some ''A;B''\<rparr>))) = Some (Some (''A'' @ [CHR 0x5C]))"
  by code_simp

section \<open>Events and to-dos\<close>

text \<open>
  The documented behaviour of \<open>chrono\<close> and \<open>trim\<close> on the times \<open>T\<close>: whole seconds are read back from
  the basic format, whose text holds digits and letters only.
\<close>

definition dates_ok :: "'d date_text_scheme \<Rightarrow> ts set \<Rightarrow> bool" where
  "dates_ok dt T \<longleftrightarrow> (\<forall>t\<in>T. trim_text dt (show_dt dt t) = show_dt dt t \<and>
     parse_naive dt FMT_UTC (show_dt dt t) = Some t \<and> plain (show_dt dt t))"

lemma parse_show_dt: "dates_ok dt T \<Longrightarrow> t \<in> T \<Longrightarrow> parse_dt dt (show_dt dt t) = Some t"
  by (simp add: dates_ok_def parse_dt_def)

lemma date_line_ok:
  assumes "dates_ok dt T" "t \<in> T" "plain p" "p \<noteq> []"
  shows "line_ok (p @ show_dt dt t)"
proof -
  have "plain (p @ show_dt dt t)" using assms by (simp add: dates_ok_def plain_def)
  then show ?thesis using assms(4) by (intro literal_line_ok) simp_all
qed

definition ICS_NAMES :: "string set" where
  "ICS_NAMES = {''UID'', ''SUMMARY'', ''DTSTART'', ''DTEND'', ''LOCATION'', ''DESCRIPTION'', ''DTSTAMP'',
     ''DUE'', ''COMPLETED'', ''STATUS'', ''PERCENT-COMPLETE''}"

text \<open>A line inside a component: a property line that neither begins nor ends one of its kind.\<close>

definition inner_line :: "string \<Rightarrow> string \<Rightarrow> bool" where
  "inner_line kind l \<longleftrightarrow> (case split_prop l of None \<Rightarrow> False
     | Some (name, value) \<Rightarrow> \<not> (name \<in> {''BEGIN'', ''END''} \<and> eq_ignore_ascii_case value kind))"

lemma split_loop_inner:
  "list_all (inner_line kind) ls \<Longrightarrow> split_loop kind (ls @ rest) (Some acc) out = split_loop kind rest (Some (acc @ ls)) out"
  by (induction ls arbitrary: acc) (auto simp: inner_line_def split: option.splits)

lemma parse_component_simps [simp]:
  "parse_component_lines f [] c = c"
  "parse_component_lines f (l # ls) c =
     parse_component_lines f ls (case split_prop l of None \<Rightarrow> c | Some (name, value) \<Rightarrow> f name value l c)"
  "parse_component_lines f (ls @ ms) c = parse_component_lines f ms (parse_component_lines f ls c)"
  by (simp_all add: parse_component_lines_def)

definition component_extra :: "string \<Rightarrow> string \<Rightarrow> bool" where
  "component_extra kind l \<longleftrightarrow> extra_ok ICS_NAMES l \<and> inner_line kind l"

lemma other_names:
  "name \<notin> ICS_NAMES \<Longrightarrow> todo_prop dt name value line td = td\<lparr>td_extra := td_extra td @ [line]\<rparr>"
  "name \<notin> ICS_NAMES \<Longrightarrow> event_prop dt name value line ev = ev\<lparr>ev_extra := ev_extra ev @ [line]\<rparr>"
  by (simp_all add: todo_prop_def event_prop_def ICS_NAMES_def)

lemma component_extraD:
  assumes "component_extra kind l"
  obtains name v where "split_prop l = Some (name, v)" "name \<notin> ICS_NAMES" "inner_line kind l" "line_ok l"
  using assms by (auto simp: component_extra_def extra_ok_def split: option.splits)

lemma component_extras:
  "list_all (component_extra kind) ls \<Longrightarrow> list_all (inner_line kind) ls \<and> list_all line_ok ls"
  by (auto simp: list_all_iff elim: component_extraD)

lemma parse_todo_extra:
  "list_all (component_extra kind) ls \<Longrightarrow>
   parse_component_lines (todo_prop dt) ls td = td\<lparr>td_extra := td_extra td @ ls\<rparr>"
  by (induction ls arbitrary: td) (auto elim!: component_extraD simp: other_names)

lemma parse_event_extra:
  "list_all (component_extra kind) ls \<Longrightarrow>
   parse_component_lines (event_prop dt) ls ev = ev\<lparr>ev_extra := ev_extra ev @ ls\<rparr>"
  by (induction ls arbitrary: ev) (auto elim!: component_extraD simp: other_names)

definition dates_in :: "ts set \<Rightarrow> ts option \<Rightarrow> bool" where
  "dates_in T x \<longleftrightarrow> (case x of None \<Rightarrow> True | Some t \<Rightarrow> t \<in> T)"

definition todo_ok :: "ts set \<Rightarrow> CalendarTodo \<Rightarrow> bool" where
  "todo_ok T td \<longleftrightarrow> td_uid td \<noteq> [] \<and> field_ok (td_uid td) \<and> field_ok (td_summary td) \<and> dates_in T (td_due td) \<and>
     dates_in T (td_completed td) \<and> pred_option field_ok (td_description td) \<and> list_all (component_extra ''VTODO'') (td_extra td)"

definition todo_body :: "'d date_text_scheme \<Rightarrow> string \<Rightarrow> ts \<Rightarrow> CalendarTodo \<Rightarrow> string list" where
  "todo_body dt fresh now td = uid_dtstamp dt fresh now (td_uid td) @
     [''SUMMARY:'' @ escape_text (td_summary td)] @ date_line dt ''DUE:'' (td_due td) @
     (case td_completed td of None \<Rightarrow> []
      | Some t \<Rightarrow> [''COMPLETED:'' @ show_dt dt t, ''STATUS:COMPLETED'', ''PERCENT-COMPLETE:100'']) @
     opt_line ''DESCRIPTION:'' (td_description td) @ td_extra td"

lemma todo_lines_eq:
  "todo_lines dt fresh now td = calendar_open @ ''BEGIN:VTODO'' # todo_body dt fresh now td @ [''END:VTODO'', ''END:VCALENDAR'']"
  by (simp add: todo_lines_def todo_body_def)

lemma list_all_opt: "(\<And>t. x = Some t \<Longrightarrow> P (p @ escape_text t)) \<Longrightarrow> list_all P (opt_line p x)"
  by (cases x) (auto simp: opt_line_def simp del: append.simps)

lemma list_all_date: "(\<And>t. x = Some t \<Longrightarrow> P (p @ show_dt dt t)) \<Longrightarrow> list_all P (date_line dt p x)"
  by (cases x) (auto simp: date_line_def simp del: append.simps)

lemma inner_lines:
  "inner_line kind (''UID:'' @ v)" "inner_line kind (''DTSTAMP:'' @ v)" "inner_line kind (''SUMMARY:'' @ v)"
  "inner_line kind (''DUE:'' @ v)" "inner_line kind (''COMPLETED:'' @ v)" "inner_line kind (''DESCRIPTION:'' @ v)"
  "inner_line kind (''DTSTART:'' @ v)" "inner_line kind (''DTEND:'' @ v)" "inner_line kind (''LOCATION:'' @ v)"
  "inner_line kind ''STATUS:COMPLETED''" "inner_line kind ''PERCENT-COMPLETE:100''"
  by (simp_all add: inner_line_def split_prop_def upper_char_def)

lemma todo_body_inner:
  assumes "todo_ok T td"
  shows "list_all (inner_line ''VTODO'') (todo_body dt fresh now td)"
proof -
  have 1: "list_all (inner_line ''VTODO'') (opt_line ''DESCRIPTION:'' x)" for x by (intro list_all_opt inner_lines)
  have 2: "list_all (inner_line ''VTODO'') (date_line dt ''DUE:'' x)" for x by (intro list_all_date inner_lines)
  have 3: "list_all (inner_line ''VTODO'') (td_extra td)" using assms component_extras by (auto simp: todo_ok_def)
  show ?thesis
    unfolding todo_body_def uid_dtstamp_def list_all_append list.pred_inject
    using 1 2 3 inner_lines by (auto simp del: append.simps split: option.split)
qed

lemma literal_lines_ok:
  "list_all line_ok calendar_open"
  "line_ok ''BEGIN:VTODO''" "line_ok ''END:VTODO''" "line_ok ''BEGIN:VEVENT''" "line_ok ''END:VEVENT''" "line_ok ''END:VCALENDAR''"
  "line_ok ''STATUS:COMPLETED''" "line_ok ''PERCENT-COMPLETE:100''"
  unfolding calendar_open_def PRODID_def list.pred_inject append.simps
  by (auto intro!: literal_line_ok simp: plain_def)

lemma text_lines_ok:
  assumes "field_ok s"
  shows "line_ok (''UID:'' @ escape_text s)" "line_ok (''SUMMARY:'' @ escape_text s)" "line_ok (''LOCATION:'' @ escape_text s)"
    "line_ok (''DESCRIPTION:'' @ escape_text s)"
  using assms by (auto intro!: prop_line_ok simp: plain_def simp del: append.simps)

lemma time_lines_ok:
  assumes "dates_ok dt T" "t \<in> T"
  shows "line_ok (''DTSTAMP:'' @ show_dt dt t)" "line_ok (''DUE:'' @ show_dt dt t)" "line_ok (''COMPLETED:'' @ show_dt dt t)"
    "line_ok (''DTSTART:'' @ show_dt dt t)" "line_ok (''DTEND:'' @ show_dt dt t)"
  using assms by (auto intro!: date_line_ok simp: plain_def simp del: append.simps)

lemma todo_lines_ok:
  assumes "todo_ok T td" "dates_ok dt T" "now \<in> T"
  shows "list_all line_ok (todo_lines dt fresh now td)"
proof -
  note td = assms(1) [unfolded todo_ok_def] and D = time_lines_ok [OF assms(2)]
  have 1: "list_all line_ok (opt_line ''DESCRIPTION:'' (td_description td))"
    using td by (intro list_all_opt text_lines_ok) auto
  have 2: "list_all line_ok (date_line dt ''DUE:'' (td_due td))"
    using td by (intro list_all_date D) (auto simp: dates_in_def)
  have 3: "list_all line_ok (td_extra td)" using td component_extras by auto
  have 4: "line_ok (''COMPLETED:'' @ show_dt dt t)" if "td_completed td = Some t" for t
    using td that by (intro D) (auto simp: dates_in_def)
  have 5: "line_ok (''UID:'' @ escape_text (td_uid td))" "line_ok (''SUMMARY:'' @ escape_text (td_summary td))" "td_uid td \<noteq> []"
    using td text_lines_ok by auto
  show ?thesis
    unfolding todo_lines_def uid_dtstamp_def list_all_append list.pred_inject
    using 1 2 3 4 5 D(1) [OF assms(3)] literal_lines_ok by (auto simp del: append.simps split: option.split)
qed

lemma component_of_lines:
  assumes "list_all (inner_line kind) ls" "kind \<in> {''VTODO'', ''VEVENT''}"
    and "unfold_text input = calendar_open @ (''BEGIN:'' @ kind) # ls @ [''END:'' @ kind, ''END:VCALENDAR'']"
  shows "split_components input kind = [ls]"
  using assms(2) unfolding split_components_def assms(3)
  by (auto simp: calendar_open_def split_prop_def upper_char_def eq_ignore_ascii_case_def split_loop_inner [OF assms(1)])


definition sample_dates :: date_text where
  "sample_dates = \<lparr>show_dt = (\<lambda>t. show_nat (nat t)), parse_naive = (\<lambda>f v. if f = FMT_UTC then Some (int (digits_value v)) else None),
     parse_naive_date = (\<lambda>v. None), trim_text = (\<lambda>v. v)\<rparr>"

definition sample_todo :: CalendarTodo where
  "sample_todo = default_todo\<lparr>td_uid := ''t1'', td_summary := ''buy, milk'', td_due := Some 7, td_completed := Some 5,
     td_extra := [''CATEGORIES:HOME'']\<rparr>"


end
