(* ===== verification/Db_Contents.thy ===== *)
theory Db_Contents
  imports Db_Backend
begin

text \<open>
  The SQL store does not look at the contents it keeps: texts and payloads. A handling of contents
  is a map on each kind of record with the records it understands; when it leaves the fields the
  store works with alone, every repository operation commutes with mapping all contents, and keeps
  all rows understood. The contract is the locale \<open>content_map\<close>.
\<close>

record handling =
  on_note :: "Note \<Rightarrow> Note"
  on_notebook :: "Notebook \<Rightarrow> Notebook"
  on_tag :: "Tag \<Rightarrow> Tag"
  on_resource :: "Resource \<Rightarrow> Resource"
  on_data :: "u8 list \<Rightarrow> u8 list"
  ok_note :: "Note \<Rightarrow> bool"
  ok_notebook :: "Notebook \<Rightarrow> bool"
  ok_tag :: "Tag \<Rightarrow> bool"
  ok_resource :: "Resource \<Rightarrow> bool"
  ok_data :: "u8 list \<Rightarrow> bool"

definition on_row :: "handling \<Rightarrow> ResRow \<Rightarrow> ResRow" where
  "on_row f row = row\<lparr>rr_resource := on_resource f (rr_resource row), rr_data := map_option (on_data f) (rr_data row)\<rparr>"

definition on_journal :: "handling \<Rightarrow> JData \<Rightarrow> JData" where
  "on_journal f d = (case d of JNote n \<Rightarrow> JNote (on_note f n) | JNotebook nb \<Rightarrow> JNotebook (on_notebook f nb)
     | JTag t \<Rightarrow> JTag (on_tag f t) | JResource r data \<Rightarrow> JResource (on_resource f r) (on_data f data) | _ \<Rightarrow> d)"

definition map_db :: "handling \<Rightarrow> Db \<Rightarrow> Db" where
  "map_db f s = s\<lparr>db_notes := fmmap (on_note f) (db_notes s), db_notebooks := fmmap (on_notebook f) (db_notebooks s),
     db_tags := fmmap (on_tag f) (db_tags s), db_resources := fmmap (on_row f) (db_resources s),
     db_entity_changes := map (\<lambda>c. c\<lparr>cr_data := on_journal f (cr_data c)\<rparr>) (db_entity_changes s)\<rparr>"

definition row_ok :: "handling \<Rightarrow> ResRow \<Rightarrow> bool" where
  "row_ok f row \<longleftrightarrow> ok_resource f (rr_resource row) \<and> pred_option (ok_data f) (rr_data row)"

definition db_ok :: "handling \<Rightarrow> Db \<Rightarrow> bool" where
  "db_ok f s \<longleftrightarrow> fmpred (\<lambda>_. ok_note f) (db_notes s) \<and> fmpred (\<lambda>_. ok_notebook f) (db_notebooks s) \<and>
     fmpred (\<lambda>_. ok_tag f) (db_tags s) \<and> fmpred (\<lambda>_. row_ok f) (db_resources s)"

text \<open>
  An operation on understood rows keeps them understood, returns what is understood, and does on the
  mapped store what the other operation does.
\<close>

definition carried :: "handling \<Rightarrow> ('a \<Rightarrow> 'b) \<Rightarrow> ('a \<Rightarrow> bool) \<Rightarrow> 'a db_act \<Rightarrow> 'b db_act \<Rightarrow> bool" where
  "carried f g P act act' \<longleftrightarrow> (\<forall>s. db_ok f s \<longrightarrow>
     db_ok f (snd (act s)) \<and> act' (map_db f s) = map_prod (map_sum id g) (map_db f) (act s) \<and>
     (\<forall>x. fst (act s) = Inr x \<longrightarrow> P x))"

lemma map_db_simps [simp]:
  "db_device_id (map_db f s) = db_device_id s" "db_note_tags (map_db f s) = db_note_tags s"
  "db_note_links (map_db f s) = db_note_links s" "db_clock (map_db f s) = db_clock s" "db_ticks (map_db f s) = db_ticks s"
  "db_notes (map_db f s) = fmmap (on_note f) (db_notes s)" "db_notebooks (map_db f s) = fmmap (on_notebook f) (db_notebooks s)"
  "db_tags (map_db f s) = fmmap (on_tag f) (db_tags s)" "db_resources (map_db f s) = fmmap (on_row f) (db_resources s)"
  by (simp_all add: map_db_def)

lemma on_row_simps [simp]:
  "rr_resource (on_row f row) = on_resource f (rr_resource row)" "rr_data (on_row f row) = map_option (on_data f) (rr_data row)"
  by (simp_all add: on_row_def)

text \<open>Updates of the tables, seen through the map.\<close>

lemma map_db_updates:
  "(map_db f s)\<lparr>db_ticks := k\<rparr> = map_db f (s\<lparr>db_ticks := k\<rparr>)"
  "(map_db f s)\<lparr>db_note_links := l\<rparr> = map_db f (s\<lparr>db_note_links := l\<rparr>)"
  "(map_db f s)\<lparr>db_note_tags := a\<rparr> = map_db f (s\<lparr>db_note_tags := a\<rparr>)"
  "(map_db f s)\<lparr>db_notes := fmupd i (on_note f n) (fmmap (on_note f) t)\<rparr> = map_db f (s\<lparr>db_notes := fmupd i n t\<rparr>)"
  "(map_db f s)\<lparr>db_notebooks := fmupd i (on_notebook f nb) (fmmap (on_notebook f) u)\<rparr> = map_db f (s\<lparr>db_notebooks := fmupd i nb u\<rparr>)"
  "(map_db f s)\<lparr>db_tags := fmupd i (on_tag f g) (fmmap (on_tag f) v)\<rparr> = map_db f (s\<lparr>db_tags := fmupd i g v\<rparr>)"
  "(map_db f s)\<lparr>db_resources := fmupd i (on_row f r) (fmmap (on_row f) w)\<rparr> = map_db f (s\<lparr>db_resources := fmupd i r w\<rparr>)"
  "(map_db f s)\<lparr>db_resources := fmmap (on_row f) w\<rparr> = map_db f (s\<lparr>db_resources := w\<rparr>)"
  by (simp_all add: map_db_def fmmap_fmupd)

lemma map_db_now: "db_now (map_db f s) = map_prod id (map_db f) (db_now s)"
  by (simp add: db_now_def map_db_updates)

lemma map_db_record: "record_change ty i oper (on_journal f d) (map_db f s) = map_db f (record_change ty i oper d s)"
  by (simp add: record_change_def db_now_def Let_def) (simp add: map_db_def)

lemma carried_transaction: "carried f g P body body' \<Longrightarrow> carried f g P (transaction body) (transaction body')"
  unfolding carried_def transaction_def
  by (auto simp: db_ok_def map_db_updates split: prod.splits sum.splits)

section \<open>Pages of mapped rows\<close>

lemma sort_key_mapped: "sort_key k (map g xs) = map g (sort_key (\<lambda>x. k (g x)) xs)"
proof (induction xs)
  case (Cons x xs)
  have "insort_key k (g x) (map g ys) = map g (insort_key (\<lambda>x. k (g x)) x ys)" for ys by (induction ys) simp_all
  with Cons show ?case by simp
qed simp

lemma build_page_map: "build_page (map g xs) n tok = map_prod (map g) id (build_page xs n (\<lambda>x. tok (g x)))"
  by (auto simp: build_page_def Let_def take_map last_map)

lemma sql_page_map: "sql_page z t k (map g xs) = map_prod (map g) id (sql_page z t (\<lambda>x. k (g x)) xs)"
  by (simp add: sql_page_def Let_def filter_map comp_def sort_key_mapped take_map build_page_map)

lemma build_page_in: "x \<in> set (fst (build_page xs n tok)) \<Longrightarrow> x \<in> set xs"
  by (auto simp: build_page_def Let_def split: if_splits dest: in_set_takeD)

lemma sql_page_in: "x \<in> set (fst (sql_page z t k xs)) \<Longrightarrow> x \<in> set xs"
  by (auto simp: sql_page_def Let_def dest!: build_page_in in_set_takeD)

lemma rows_of_ok: "x \<in> set (rows_of m) \<Longrightarrow> fmpred (\<lambda>_. P) m \<Longrightarrow> P x"
  unfolding rows_of_mem by (auto simp: fmpred_iff)

section \<open>The contract and its operations\<close>

locale content_map =
  fixes f :: handling
  assumes note_keys: "n_id (on_note f n) = n_id n" "n_vv (on_note f n) = n_vv n" "n_updated_at (on_note f n) = n_updated_at n"
      "n_last_writer (on_note f n) = n_last_writer n" "n_deleted_at (on_note f n) = n_deleted_at n"
      "n_created_at (on_note f n) = n_created_at n" "n_notebook_id (on_note f n) = n_notebook_id n"
      "n_is_starred (on_note f n) = n_is_starred n" "n_sort_key (on_note f n) = n_sort_key n"
      "map l_target_note_id (n_links (on_note f n)) = map l_target_note_id (n_links n)"
    and note_stamps: "on_note f (n\<lparr>n_vv := v\<rparr>) = (on_note f n)\<lparr>n_vv := v\<rparr>"
      "on_note f (n\<lparr>n_last_writer := w\<rparr>) = (on_note f n)\<lparr>n_last_writer := w\<rparr>"
      "on_note f (n\<lparr>n_created_at := t\<rparr>) = (on_note f n)\<lparr>n_created_at := t\<rparr>"
      "on_note f (n\<lparr>n_updated_at := t\<rparr>) = (on_note f n)\<lparr>n_updated_at := t\<rparr>"
      "on_note f (n\<lparr>n_deleted_at := d\<rparr>) = (on_note f n)\<lparr>n_deleted_at := d\<rparr>"
    and note_ok: "ok_note f (n\<lparr>n_vv := v\<rparr>) = ok_note f n" "ok_note f (n\<lparr>n_last_writer := w\<rparr>) = ok_note f n"
      "ok_note f (n\<lparr>n_created_at := t\<rparr>) = ok_note f n" "ok_note f (n\<lparr>n_updated_at := t\<rparr>) = ok_note f n"
      "ok_note f (n\<lparr>n_deleted_at := d\<rparr>) = ok_note f n"
    and notebook_keys: "nb_id (on_notebook f nb) = nb_id nb" "nb_vv (on_notebook f nb) = nb_vv nb"
      "nb_updated_at (on_notebook f nb) = nb_updated_at nb" "nb_last_writer (on_notebook f nb) = nb_last_writer nb"
      "nb_deleted_at (on_notebook f nb) = nb_deleted_at nb" "nb_created_at (on_notebook f nb) = nb_created_at nb"
    and notebook_stamps: "on_notebook f (nb\<lparr>nb_vv := v\<rparr>) = (on_notebook f nb)\<lparr>nb_vv := v\<rparr>"
      "on_notebook f (nb\<lparr>nb_last_writer := w\<rparr>) = (on_notebook f nb)\<lparr>nb_last_writer := w\<rparr>"
      "on_notebook f (nb\<lparr>nb_created_at := t\<rparr>) = (on_notebook f nb)\<lparr>nb_created_at := t\<rparr>"
      "on_notebook f (nb\<lparr>nb_updated_at := t\<rparr>) = (on_notebook f nb)\<lparr>nb_updated_at := t\<rparr>"
      "on_notebook f (nb\<lparr>nb_deleted_at := d\<rparr>) = (on_notebook f nb)\<lparr>nb_deleted_at := d\<rparr>"
    and notebook_ok: "ok_notebook f (nb\<lparr>nb_vv := v\<rparr>) = ok_notebook f nb" "ok_notebook f (nb\<lparr>nb_last_writer := w\<rparr>) = ok_notebook f nb"
      "ok_notebook f (nb\<lparr>nb_created_at := t\<rparr>) = ok_notebook f nb" "ok_notebook f (nb\<lparr>nb_updated_at := t\<rparr>) = ok_notebook f nb"
      "ok_notebook f (nb\<lparr>nb_deleted_at := d\<rparr>) = ok_notebook f nb"
    and tag_keys: "t_id (on_tag f g) = t_id g" "t_vv (on_tag f g) = t_vv g" "t_updated_at (on_tag f g) = t_updated_at g"
      "t_last_writer (on_tag f g) = t_last_writer g" "t_deleted_at (on_tag f g) = t_deleted_at g" "t_created_at (on_tag f g) = t_created_at g"
    and tag_stamps: "on_tag f (g\<lparr>t_vv := v\<rparr>) = (on_tag f g)\<lparr>t_vv := v\<rparr>"
      "on_tag f (g\<lparr>t_last_writer := w\<rparr>) = (on_tag f g)\<lparr>t_last_writer := w\<rparr>"
      "on_tag f (g\<lparr>t_created_at := t\<rparr>) = (on_tag f g)\<lparr>t_created_at := t\<rparr>"
      "on_tag f (g\<lparr>t_updated_at := t\<rparr>) = (on_tag f g)\<lparr>t_updated_at := t\<rparr>"
      "on_tag f (g\<lparr>t_deleted_at := d\<rparr>) = (on_tag f g)\<lparr>t_deleted_at := d\<rparr>"
    and tag_ok: "ok_tag f (g\<lparr>t_vv := v\<rparr>) = ok_tag f g" "ok_tag f (g\<lparr>t_last_writer := w\<rparr>) = ok_tag f g"
      "ok_tag f (g\<lparr>t_created_at := t\<rparr>) = ok_tag f g" "ok_tag f (g\<lparr>t_updated_at := t\<rparr>) = ok_tag f g"
      "ok_tag f (g\<lparr>t_deleted_at := d\<rparr>) = ok_tag f g"
    and resource_keys: "r_id (on_resource f r) = r_id r" "r_note_id (on_resource f r) = r_note_id r" "r_vv (on_resource f r) = r_vv r"
      "r_last_writer (on_resource f r) = r_last_writer r" "r_deleted_at (on_resource f r) = r_deleted_at r"
      "r_created_at (on_resource f r) = r_created_at r"
    and resource_stamps: "on_resource f (r\<lparr>r_vv := v\<rparr>) = (on_resource f r)\<lparr>r_vv := v\<rparr>"
      "on_resource f (r\<lparr>r_last_writer := w\<rparr>) = (on_resource f r)\<lparr>r_last_writer := w\<rparr>"
      "on_resource f (r\<lparr>r_deleted_at := d\<rparr>) = (on_resource f r)\<lparr>r_deleted_at := d\<rparr>"
    and resource_ok: "ok_resource f (r\<lparr>r_vv := v\<rparr>) = ok_resource f r" "ok_resource f (r\<lparr>r_last_writer := w\<rparr>) = ok_resource f r"
      "ok_resource f (r\<lparr>r_deleted_at := d\<rparr>) = ok_resource f r"
begin

lemmas content_laws [simp] = note_keys note_stamps [symmetric] note_ok notebook_keys notebook_stamps [symmetric] notebook_ok
  tag_keys tag_stamps [symmetric] tag_ok resource_keys resource_stamps [symmetric] resource_ok

lemma metas [simp]:
  "note_meta (map_db f s) i = note_meta s i" "notebook_meta (map_db f s) i = notebook_meta s i"
  "tag_meta (map_db f s) i = tag_meta s i" "assoc_meta (map_db f s) i j = assoc_meta s i j"
  "resource_meta (map_db f s) i = resource_meta s i" "prior_deleted (map_db f s) i = prior_deleted s i"
  "note_is_live (map_db f s) i = note_is_live s i" "tag_is_live (map_db f s) i = tag_is_live s i"
  by (simp_all add: note_meta_def notebook_meta_def tag_meta_def assoc_meta_def resource_meta_def prior_deleted_def
      note_is_live_def tag_is_live_def option.map_comp comp_def cong: option.case_cong split: option.split)

lemma links: "refresh_note_links (on_note f n) (map_db f s) = map_db f (refresh_note_links n s)"
proof -
  have eq: "fold (\<lambda>l links. case l_target_note_id l of None \<Rightarrow> links | Some t \<Rightarrow> finsert (n_id n, t) links) ls acc =
      fold (\<lambda>x links. case x of None \<Rightarrow> links | Some t \<Rightarrow> finsert (n_id n, t) links) (map l_target_note_id ls) acc" for ls acc
    by (induction ls arbitrary: acc) simp_all
  show ?thesis by (simp only: refresh_note_links_def eq content_laws map_db_simps map_db_updates)
qed

lemma cascades:
  "undelete_resources i t (map_db f s) = map_db f (undelete_resources i t s)"
  "delete_resources_of i t (map_db f s) = map_db f (delete_resources_of i t s)"
  "restore_after_undelete (on_note f n) d (map_db f s) = map_db f (restore_after_undelete n d s)"
proof -
  have eq: "fmmap (\<lambda>row. if r_note_id (rr_resource row) = i \<and> r_deleted_at (rr_resource row) = a
        then row\<lparr>rr_resource := (rr_resource row)\<lparr>r_deleted_at := b\<rparr>\<rparr> else row) (fmmap (on_row f) m) =
      fmmap (on_row f) (fmmap (\<lambda>row. if r_note_id (rr_resource row) = i \<and> r_deleted_at (rr_resource row) = a
        then row\<lparr>rr_resource := (rr_resource row)\<lparr>r_deleted_at := b\<rparr>\<rparr> else row) m)" for a b i m
    by (rule fmap_ext) (auto simp: option.map_comp comp_def on_row_def intro: option.map_cong)
  show u: "undelete_resources i t (map_db f s) = map_db f (undelete_resources i t s)" for i t
    by (simp add: undelete_resources_def eq map_db_updates)
  show "delete_resources_of i t (map_db f s) = map_db f (delete_resources_of i t s)"
    by (simp add: delete_resources_of_def eq map_db_updates)
  show "restore_after_undelete (on_note f n) d (map_db f s) = map_db f (restore_after_undelete n d s)"
    by (simp add: restore_after_undelete_def u split: option.split)
qed

text \<open>The rows of the journal, and tombstones.\<close>

lemma records:
  "record_change ty i oper (JNote (on_note f n)) (map_db f s) = map_db f (record_change ty i oper (JNote n) s)"
  "record_change ty i oper (JNotebook (on_notebook f nb)) (map_db f s) = map_db f (record_change ty i oper (JNotebook nb) s)"
  "record_change ty i oper (JTag (on_tag f g)) (map_db f s) = map_db f (record_change ty i oper (JTag g) s)"
  "record_change ty i oper (JResource (on_resource f r) (on_data f d)) (map_db f s) = map_db f (record_change ty i oper (JResource r d) s)"
  "record_change ty i oper (JTombstone t v w) (map_db f s) = map_db f (record_change ty i oper (JTombstone t v w) s)"
  "record_change ty i oper (JAssoc j t v w) (map_db f s) = map_db f (record_change ty i oper (JAssoc j t v w) s)"
  using map_db_record [of ty i oper f _ s] by (simp_all flip: map_db_record add: on_journal_def)

lemma tombstones:
  "note_tombstone (on_note f n) t v w = on_note f (note_tombstone n t v w)"
  "notebook_tombstone (on_notebook f nb) t v w = on_notebook f (notebook_tombstone nb t v w)"
  "tag_tombstone (on_tag f g) t v w = on_tag f (tag_tombstone g t v w)"
  "resource_tombstone (on_row f row) t v w = on_row f (resource_tombstone row t v w)"
  "\<lparr>rr_resource = on_resource f r, rr_data = Some (on_data f d)\<rparr> = on_row f \<lparr>rr_resource = r, rr_data = Some d\<rparr>"
  by (simp_all add: note_tombstone_def notebook_tombstone_def tag_tombstone_def resource_tombstone_def on_row_def)

lemma tombstones_ok:
  "ok_note f n \<Longrightarrow> ok_note f (note_tombstone n t v w)" "ok_notebook f nb \<Longrightarrow> ok_notebook f (notebook_tombstone nb t v w)"
  "ok_tag f g \<Longrightarrow> ok_tag f (tag_tombstone g t v w)" "row_ok f row \<Longrightarrow> row_ok f (resource_tombstone row t v w)"
  by (simp_all add: note_tombstone_def notebook_tombstone_def tag_tombstone_def resource_tombstone_def row_ok_def)

lemma kept_ok [simp]:
  "db_ok f (record_change ty i oper d s) = db_ok f s" "db_ok f (refresh_note_links n s) = db_ok f s"
  "db_ok f (s\<lparr>db_ticks := k\<rparr>) = db_ok f s" "db_ok f (upsert_assoc i j t dd v w s) = db_ok f s"
  by (simp_all add: db_ok_def record_change_def db_now_def refresh_note_links_def upsert_assoc_def Let_def)

lemma tables_ok:
  "db_ok f s \<Longrightarrow> fmpred (\<lambda>_. ok_note f) (db_notes s)" "db_ok f s \<Longrightarrow> fmpred (\<lambda>_. ok_notebook f) (db_notebooks s)"
  "db_ok f s \<Longrightarrow> fmpred (\<lambda>_. ok_tag f) (db_tags s)" "db_ok f s \<Longrightarrow> fmpred (\<lambda>_. row_ok f) (db_resources s)"
  by (simp_all add: db_ok_def)

lemma put_ok:
  "db_ok f s \<Longrightarrow> fmpred (\<lambda>_. ok_note f) tn \<Longrightarrow> ok_note f n \<Longrightarrow> db_ok f (s\<lparr>db_notes := fmupd i n tn\<rparr>)"
  "db_ok f s \<Longrightarrow> fmpred (\<lambda>_. ok_notebook f) tb \<Longrightarrow> ok_notebook f nb \<Longrightarrow> db_ok f (s\<lparr>db_notebooks := fmupd i nb tb\<rparr>)"
  "db_ok f s \<Longrightarrow> fmpred (\<lambda>_. ok_tag f) tg \<Longrightarrow> ok_tag f g \<Longrightarrow> db_ok f (s\<lparr>db_tags := fmupd i g tg\<rparr>)"
  "db_ok f s \<Longrightarrow> fmpred (\<lambda>_. row_ok f) tr \<Longrightarrow> row_ok f row \<Longrightarrow> db_ok f (s\<lparr>db_resources := fmupd i row tr\<rparr>)"
  by (auto simp: db_ok_def)

lemma cascade_ok:
  "db_ok f s \<Longrightarrow> db_ok f (delete_resources_of i t s)" "db_ok f s \<Longrightarrow> db_ok f (restore_after_undelete n d s)"
  by (auto simp: db_ok_def delete_resources_of_def restore_after_undelete_def undelete_resources_def row_ok_def fmpred_iff
      split: option.splits)

lemma got_ok:
  "db_ok f s \<Longrightarrow> fmlookup (db_notes s) i = Some n \<Longrightarrow> ok_note f n"
  "db_ok f s \<Longrightarrow> fmlookup (db_notebooks s) i = Some nb \<Longrightarrow> ok_notebook f nb"
  "db_ok f s \<Longrightarrow> fmlookup (db_tags s) i = Some g \<Longrightarrow> ok_tag f g"
  "db_ok f s \<Longrightarrow> fmlookup (db_resources s) i = Some row \<Longrightarrow> row_ok f row"
  by (auto simp: db_ok_def fmpred_iff)

lemma put_tombstone:
  "db_ok f s \<Longrightarrow> fmlookup (db_notes s) i = Some n \<Longrightarrow>
     db_ok f (s\<lparr>db_ticks := k, db_notes := fmupd i (note_tombstone n t v w) (db_notes s)\<rparr>)"
  "db_ok f s \<Longrightarrow> fmlookup (db_notebooks s) i = Some nb \<Longrightarrow>
     db_ok f (s\<lparr>db_ticks := k, db_notebooks := fmupd i (notebook_tombstone nb t v w) (db_notebooks s)\<rparr>)"
  "db_ok f s \<Longrightarrow> fmlookup (db_tags s) i = Some g \<Longrightarrow>
     db_ok f (s\<lparr>db_ticks := k, db_tags := fmupd i (tag_tombstone g t v w) (db_tags s)\<rparr>)"
  "db_ok f s \<Longrightarrow> fmlookup (db_resources s) i = Some row \<Longrightarrow>
     db_ok f (s\<lparr>db_ticks := k, db_resources := fmupd i (resource_tombstone row t v w) (db_resources s)\<rparr>)"
  using got_ok [of s i] by (simp_all add: put_ok tables_ok tombstones_ok)

lemmas carry = map_db_updates map_db_now links cascades records tombstones tombstones_ok tables_ok put_ok cascade_ok put_tombstone

lemma create_note:
  "ok_note f n \<Longrightarrow> carried f (on_note f) (ok_note f) (db_create_note n) (db_create_note (on_note f n))"
  unfolding db_create_note_def
  by (rule carried_transaction) (auto simp: carried_def Let_def carry)

lemma update_note:
  "ok_note f n \<Longrightarrow> carried f (on_note f) (ok_note f) (db_update_note n) (db_update_note (on_note f n))"
  unfolding db_update_note_def
  by (rule carried_transaction) (auto simp: carried_def Let_def carry split: option.splits)

lemma delete_note: "carried f id (\<lambda>_. True) (db_delete_note i) (db_delete_note i)"
  unfolding db_delete_note_def
  by (rule carried_transaction) (auto simp: carried_def Let_def carry db_now_def split: option.splits)

lemma read_note: "carried f (on_note f) (ok_note f) (db_read_note i) (db_read_note i)"
  by (auto simp: carried_def db_read_note_def intro: got_ok split: option.splits)

lemma create_notebook:
  "ok_notebook f nb \<Longrightarrow> carried f (on_notebook f) (ok_notebook f) (db_create_notebook nb) (db_create_notebook (on_notebook f nb))"
  unfolding db_create_notebook_def
  by (rule carried_transaction) (auto simp: carried_def Let_def carry)

lemma update_notebook:
  "ok_notebook f nb \<Longrightarrow> carried f (on_notebook f) (ok_notebook f) (db_update_notebook nb) (db_update_notebook (on_notebook f nb))"
  unfolding db_update_notebook_def
  by (rule carried_transaction) (auto simp: carried_def Let_def carry split: option.splits)

lemma delete_notebook: "carried f id (\<lambda>_. True) (db_delete_notebook i) (db_delete_notebook i)"
  unfolding db_delete_notebook_def
  by (rule carried_transaction) (auto simp: carried_def Let_def carry db_now_def split: option.splits)

lemma read_notebook: "carried f (on_notebook f) (ok_notebook f) (db_read_notebook i) (db_read_notebook i)"
  by (auto simp: carried_def db_read_notebook_def intro: got_ok split: option.splits)

lemma create_tag:
  "ok_tag f g \<Longrightarrow> carried f (on_tag f) (ok_tag f) (db_create_tag g) (db_create_tag (on_tag f g))"
  unfolding db_create_tag_def
  by (rule carried_transaction) (auto simp: carried_def Let_def carry)

lemma update_tag:
  "ok_tag f g \<Longrightarrow> carried f (on_tag f) (ok_tag f) (db_update_tag g) (db_update_tag (on_tag f g))"
  unfolding db_update_tag_def
  by (rule carried_transaction) (auto simp: carried_def Let_def carry split: option.splits)

lemma delete_tag: "carried f id (\<lambda>_. True) (db_delete_tag i) (db_delete_tag i)"
  unfolding db_delete_tag_def
  by (rule carried_transaction) (auto simp: carried_def Let_def carry db_now_def split: option.splits)

lemma read_tag: "carried f (on_tag f) (ok_tag f) (db_read_tag i) (db_read_tag i)"
  by (auto simp: carried_def db_read_tag_def intro: got_ok split: option.splits)

lemma assoc: "upsert_assoc i j t d v w (map_db f s) = map_db f (upsert_assoc i j t d v w s)"
  by (simp add: upsert_assoc_def map_db_updates)

lemma add_note_tag: "carried f id (\<lambda>_. True) (db_add_note_tag nt) (db_add_note_tag nt)"
  unfolding db_add_note_tag_def
  by (rule carried_transaction) (auto simp: carried_def Let_def carry assoc db_now_def)

lemma remove_note_tag: "carried f id (\<lambda>_. True) (db_remove_note_tag i j) (db_remove_note_tag i j)"
  unfolding db_remove_note_tag_def
  by (rule carried_transaction) (auto simp: carried_def Let_def carry assoc db_now_def)

lemma create_resource:
  "ok_resource f r \<Longrightarrow> ok_data f data \<Longrightarrow>
     carried f (on_resource f) (ok_resource f) (db_create_resource r data) (db_create_resource (on_resource f r) (on_data f data))"
  unfolding db_create_resource_def
  by (rule carried_transaction) (auto simp: carried_def Let_def carry row_ok_def)

lemma delete_resource: "carried f id (\<lambda>_. True) (db_delete_resource i) (db_delete_resource i)"
  unfolding db_delete_resource_def
  by (rule carried_transaction) (auto simp: carried_def Let_def carry db_now_def split: option.splits)

lemma read_resource:
  "carried f (map_prod (on_resource f) (on_data f)) (\<lambda>(r, d). ok_resource f r \<and> ok_data f d) (db_read_resource i) (db_read_resource i)"
  by (auto simp: carried_def db_read_resource_def row_ok_def dest: got_ok(4) split: option.splits)

lemma purge: "carried f id (\<lambda>_. True) (db_purge_deleted_resources t) (db_purge_deleted_resources t)"
proof -
  have p: "purgeable t (on_row f row) = purgeable t row" for row
    by (simp add: purgeable_def split: option.split)
  have n: "(on_row f row)\<lparr>rr_data := None\<rparr> = on_row f (row\<lparr>rr_data := None\<rparr>)" for row
    by (simp add: on_row_def)
  have m: "fmmap (\<lambda>row. if purgeable t row then row\<lparr>rr_data := None\<rparr> else row) (fmmap (on_row f) m) =
      fmmap (on_row f) (fmmap (\<lambda>row. if purgeable t row then row\<lparr>rr_data := None\<rparr> else row) m)" for m
  proof (rule fmap_ext)
    show "fmlookup (fmmap (\<lambda>row. if purgeable t row then row\<lparr>rr_data := None\<rparr> else row) (fmmap (on_row f) m)) i =
        fmlookup (fmmap (on_row f) (fmmap (\<lambda>row. if purgeable t row then row\<lparr>rr_data := None\<rparr> else row) m)) i" for i
      using n by (cases "fmlookup m i") (auto simp: p)
  qed
  show ?thesis
    by (auto simp: carried_def db_purge_deleted_resources_def rows_of_fmmap filter_map comp_def p m map_db_updates
        db_ok_def fmpred_iff row_ok_def split: if_splits)
qed

text \<open>The listings choose and order by fields that the map leaves alone.\<close>

lemma listing:
  assumes "\<And>s. act s = (Inr (sql_page z t k (rows s)), s)" and "\<And>x. k (g x) = k x"
    and "\<And>s. rows (map_db f s) = map g (rows s)" and "\<And>s. db_ok f s \<Longrightarrow> list_all P (rows s)"
  shows "carried f (map_prod (map g) id) (\<lambda>p. list_all P (fst p)) act act"
  unfolding carried_def assms(1,3) sql_page_map assms(2) using assms(4) by (auto simp: list_all_iff dest!: sql_page_in)

lemma kept_rows:
  "db_ok f s \<Longrightarrow> list_all (ok_note f) (filter Pn (rows_of (db_notes s)))"
  "db_ok f s \<Longrightarrow> list_all (ok_notebook f) (filter Pb (rows_of (db_notebooks s)))"
  "db_ok f s \<Longrightarrow> list_all (ok_tag f) (filter Pt (rows_of (db_tags s)))"
  "db_ok f s \<Longrightarrow> list_all (ok_resource f) (filter Pr (map rr_resource (rows_of (db_resources s))))"
  by (auto simp: list_all_iff db_ok_def row_ok_def dest: rows_of_ok)

lemmas mapped_rows = rows_of_fmmap filter_map comp_def

lemma list_notes: "carried f (map_prod (map (on_note f)) id) (\<lambda>p. list_all (ok_note f) (fst p)) (db_list_notes tc z tok) (db_list_notes tc z tok)"
  by (rule listing [OF db_list_notes_def]) (simp_all add: mapped_rows kept_rows)

lemma list_starred_notes:
  "carried f (map_prod (map (on_note f)) id) (\<lambda>p. list_all (ok_note f) (fst p)) (db_list_starred_notes tc z tok) (db_list_starred_notes tc z tok)"
  by (rule listing [OF db_list_starred_notes_def]) (simp_all add: mapped_rows kept_rows)

lemma note_backlinks:
  "carried f (map_prod (map (on_note f)) id) (\<lambda>p. list_all (ok_note f) (fst p)) (db_note_backlinks tc i z tok) (db_note_backlinks tc i z tok)"
  by (rule listing [OF db_note_backlinks_def]) (simp_all add: mapped_rows kept_rows)

lemma list_notebooks:
  "carried f (map_prod (map (on_notebook f)) id) (\<lambda>p. list_all (ok_notebook f) (fst p)) (db_list_notebooks tc z tok) (db_list_notebooks tc z tok)"
  by (rule listing [OF db_list_notebooks_def]) (simp_all add: mapped_rows kept_rows)

lemma list_tags: "carried f (map_prod (map (on_tag f)) id) (\<lambda>p. list_all (ok_tag f) (fst p)) (db_list_tags tc z tok) (db_list_tags tc z tok)"
  by (rule listing [OF db_list_tags_def]) (simp_all add: mapped_rows kept_rows)

lemma list_note_tags:
  "carried f (map_prod (map (on_tag f)) id) (\<lambda>p. list_all (ok_tag f) (fst p)) (db_list_note_tags tc i z tok) (db_list_note_tags tc i z tok)"
  by (rule listing [OF db_list_note_tags_def]) (simp_all add: mapped_rows kept_rows)

lemma list_resources:
  "carried f (map_prod (map (on_resource f)) id) (\<lambda>p. list_all (ok_resource f) (fst p)) (db_list_resources tc z tok) (db_list_resources tc z tok)"
proof (rule listing [OF db_list_resources_def])
  show "db_ok f s \<Longrightarrow> list_all (ok_resource f) (filter (\<lambda>r. r_deleted_at r = None) (map rr_resource (rows_of (db_resources s))))" for s
    by (rule kept_rows)
qed (simp_all add: mapped_rows)

lemma list_notes_in_notebook:
  "carried f (map_prod (map (on_note f)) id) (\<lambda>p. list_all (ok_note f) (fst p))
     (db_list_notes_in_notebook tc i z tok) (db_list_notes_in_notebook tc i z tok)"
proof -
  have pos: "sort_pos tc (on_note f n) = sort_pos tc n" "effective_sort_key (on_note f n) = effective_sort_key n" for n
    by (simp_all add: sort_pos_def effective_sort_key_def)
  have ok: "list_all (ok_note f) (fst (build_page (take l (sort_key k (filter P (rows_of (db_notes s))))) m t))" if "db_ok f s" for l k P s m t
    using kept_rows(1) [OF that, of P] by (auto simp: list_all_iff dest!: build_page_in in_set_takeD)
  obtain c j where c: "parse_cursor tok = (c, j)" by (cases "parse_cursor tok")
  show ?thesis
    unfolding carried_def db_list_notes_in_notebook_def Let_def c prod.case
  proof (intro allI impI conjI)
    fix s p
    assume s: "db_ok f s" and p: "fst (Inr (build_page (take (unat (effective_page_size z) + 1) (sort_key (sort_pos tc)
        (filter (\<lambda>n. n_notebook_id n = i \<and> n_deleted_at n = None \<and>
           (c = [] \<or> cast_integer c < unat (effective_sort_key n) \<or>
            unat (effective_sort_key n) = cast_integer c \<and> j < show_uuid tc (n_id n))) (rows_of (db_notes s)))))
        (unat (effective_page_size z)) (\<lambda>n. show_nat (unat (effective_sort_key n)) @ bar # show_uuid tc (n_id n))), s) = Inr p"
    show "list_all (ok_note f) (fst p)" using p ok [OF s] by (simp only: fst_conv sum.inject) blast
  qed (simp_all add: mapped_rows sort_key_mapped take_map build_page_map pos)
qed

lemma sort_profile: "carried f id (\<lambda>_. True) (db_notebook_sort_profile i) (db_notebook_sort_profile i)"
  by (auto simp: carried_def db_notebook_sort_profile_def rows_of_fmmap filter_map comp_def cong: if_cong)

end

end
