(* ===== verification/Utf8.thy ===== *)
theory Utf8
  imports Prelude
begin

text \<open>
  Texts and bytes: \<open>String::into_bytes\<close>, \<open>String::from_utf8\<close> and \<open>String::from_utf8_lossy\<close> of the
  standard library.
\<close>

definition bytes_of :: "string \<Rightarrow> u8 list" where
  "bytes_of s = map of_char s"

definition text_of :: "u8 list \<Rightarrow> string" where
  "text_of bs = map (\<lambda>b. char_of (unat b)) bs"

text \<open>
  \<open>String::from_utf8_lossy\<close>: the longest valid beginning of an ill-formed sequence becomes one
  replacement character.
\<close>

definition REPLACEMENT :: string where
  "REPLACEMENT = [CHR 0xEF, CHR 0xBF, CHR 0xBD]"

definition utf8_need :: "u8 \<Rightarrow> nat option" where
  "utf8_need b = (if b < 0x80 then Some 0 else if 0xC2 \<le> b \<and> b \<le> 0xDF then Some 1
     else if 0xE0 \<le> b \<and> b \<le> 0xEF then Some 2 else if 0xF0 \<le> b \<and> b \<le> 0xF4 then Some 3 else None)"

definition utf8_second :: "u8 \<Rightarrow> u8 \<Rightarrow> bool" where
  "utf8_second b c = (if b = 0xE0 then 0xA0 \<le> c \<and> c \<le> 0xBF else if b = 0xED then 0x80 \<le> c \<and> c \<le> 0x9F
     else if b = 0xF0 then 0x90 \<le> c \<and> c \<le> 0xBF else if b = 0xF4 then 0x80 \<le> c \<and> c \<le> 0x8F
     else 0x80 \<le> c \<and> c \<le> 0xBF)"

definition utf8_tail :: "u8 \<Rightarrow> nat \<Rightarrow> u8 list \<Rightarrow> nat" where
  "utf8_tail b need rest = (case rest of
     [] \<Rightarrow> 0
   | c # more_bytes \<Rightarrow>
       if 0 < need \<and> utf8_second b c
       then 1 + length (takeWhile (\<lambda>c. 0x80 \<le> c \<and> c \<le> 0xBF) (take (need - 1) more_bytes)) else 0)"

function from_utf8_lossy :: "u8 list \<Rightarrow> string" where
  "from_utf8_lossy [] = []"
| "from_utf8_lossy (b # rest) = (case utf8_need b of
     None \<Rightarrow> REPLACEMENT @ from_utf8_lossy rest
   | Some need \<Rightarrow>
       let n = utf8_tail b need rest
       in (if n = need then text_of (b # take n rest) else REPLACEMENT) @ from_utf8_lossy (drop n rest))"
  by pat_completeness auto
termination by (relation "measure length") auto

text \<open>\<open>String::from_utf8\<close> fails on any ill-formed sequence; a Rust \<open>String\<close> is never ill-formed.\<close>

function from_utf8 :: "u8 list \<Rightarrow> string option" where
  "from_utf8 [] = Some []"
| "from_utf8 (b # rest) = (case utf8_need b of
     None \<Rightarrow> None
   | Some need \<Rightarrow>
       if utf8_tail b need rest = need
       then map_option ((@) (text_of (b # take need rest))) (from_utf8 (drop need rest)) else None)"
  by pat_completeness auto
termination by (relation "measure length") auto

definition rust_string :: "string \<Rightarrow> bool" where
  "rust_string s \<longleftrightarrow> from_utf8 (bytes_of s) = Some s"

lemma utf8_tail_le: "utf8_tail b need rest \<le> length rest"
  by (cases rest) (auto simp: utf8_tail_def intro: le_trans [OF length_takeWhile_le])

lemma byte_char [simp]: "(of_char (char_of (unat b)) :: u8) = b"
proof -
  have "unat b < 256" using unsigned_less [of b, where ?'a = nat] by simp
  then have "(of_char (char_of (unat b)) :: nat) = unat b" by (simp add: of_char_of take_bit_eq_mod)
  then have "(of_nat (of_char (char_of (unat b))) :: u8) = b" by simp
  then show ?thesis by (simp only: of_nat_of_char)
qed

lemma text_of_bytes [simp]: "bytes_of (text_of bs) = bs"
  by (simp add: bytes_of_def text_of_def comp_def)

lemma from_utf8_text: "from_utf8 bs = Some s \<Longrightarrow> s = text_of bs \<and> from_utf8_lossy bs = s"
proof (induction bs arbitrary: s rule: from_utf8.induct)
  case (2 b rest)
  from 2(2) obtain need t where need: "utf8_need b = Some need" "utf8_tail b need rest = need"
    "from_utf8 (drop need rest) = Some t" "s = text_of (b # take need rest) @ t"
    by (auto split: option.splits if_splits)
  with 2(1) [OF need(1,2), of t] have "t = text_of (drop need rest)" "from_utf8_lossy (drop need rest) = t" by simp_all
  with need show ?case by (simp add: Let_def text_of_def flip: map_append)
qed (simp add: text_of_def)

lemma from_utf8_string: "from_utf8 bs = Some s \<Longrightarrow> rust_string s"
  using from_utf8_text [of bs s] by (simp add: rust_string_def)

end
