(* ===== verification/Encryption.thy ===== *)
theory Encryption
  imports Utf8 Storage
begin

text \<open>
  The encrypting backend, \<open>keeplin-core/src/encryption.rs\<close>: titles, bodies, aliases, bookmarks, link
  texts and payloads are sealed before they reach the backend inside and opened when they come back.
  The cipher (AES-GCM), base64 and the random nonces are parameters; the state of the wrapper is the
  number of nonces drawn so far with the state of the backend inside. Deriving the key from the
  password (Argon2) is part of the cipher.
\<close>

record cipher =
  ci_nonce :: "nat \<Rightarrow> u8 list"
  ci_encrypt :: "u8 list \<Rightarrow> u8 list \<Rightarrow> u8 list option"
  ci_decrypt :: "u8 list \<Rightarrow> u8 list \<Rightarrow> u8 list option"
  b64_encode :: "u8 list \<Rightarrow> string"
  b64_decode :: "string \<Rightarrow> u8 list option"

definition NONCE_LEN :: nat where
  "NONCE_LEN = 12"

section \<open>Texts and payloads\<close>

definition encrypt_bytes :: "cipher \<Rightarrow> u8 list \<Rightarrow> (u8 list, nat) act" where
  "encrypt_bytes ci data k = (case ci_encrypt ci (ci_nonce ci k) data of
     None \<Rightarrow> (Inl InvalidState, k + 1) | Some ct \<Rightarrow> (Inr (ci_nonce ci k @ ct), k + 1))"

definition decrypt_bytes :: "cipher \<Rightarrow> u8 list \<Rightarrow> u8 list res" where
  "decrypt_bytes ci data =
    (if length data < NONCE_LEN then Inl CorruptedData
     else case ci_decrypt ci (take NONCE_LEN data) (drop NONCE_LEN data) of
       None \<Rightarrow> Inl CorruptedData | Some plain \<Rightarrow> Inr plain)"

definition encrypt_str :: "cipher \<Rightarrow> string \<Rightarrow> (string, nat) act" where
  "encrypt_str ci plaintext k = (case ci_encrypt ci (ci_nonce ci k) (bytes_of plaintext) of
     None \<Rightarrow> (Inl InvalidState, k + 1) | Some ct \<Rightarrow> (Inr (b64_encode ci (ci_nonce ci k @ ct)), k + 1))"

definition decrypt_str :: "cipher \<Rightarrow> string \<Rightarrow> string res" where
  "decrypt_str ci encoded = (case b64_decode ci encoded of
     None \<Rightarrow> Inl CorruptedData
   | Some combined \<Rightarrow>
       if length combined < NONCE_LEN then Inl CorruptedData
       else (case ci_decrypt ci (take NONCE_LEN combined) (drop NONCE_LEN combined) of
           None \<Rightarrow> Inl CorruptedData
         | Some plain \<Rightarrow> (case from_utf8 plain of None \<Rightarrow> Inl CorruptedData | Some s \<Rightarrow> Inr s)))"

text \<open>The \<open>map ... transpose\<close> of an optional field and the loops over bookmarks and links.\<close>

fun enc_opt :: "cipher \<Rightarrow> string option \<Rightarrow> (string option, nat) act" where
  "enc_opt ci None k = (Inr None, k)"
| "enc_opt ci (Some a) k = and_then (encrypt_str ci a k) (\<lambda>a k. (Inr (Some a), k))"

fun dec_opt :: "cipher \<Rightarrow> string option \<Rightarrow> string option res" where
  "dec_opt ci None = Inr None"
| "dec_opt ci (Some a) = try_then (decrypt_str ci a) (\<lambda>a. Inr (Some a))"

fun enc_each :: "('x \<Rightarrow> ('x, nat) act) \<Rightarrow> 'x list \<Rightarrow> ('x list, nat) act" where
  "enc_each f [] k = (Inr [], k)"
| "enc_each f (x # xs) k = and_then (f x k) (\<lambda>y k. and_then (enc_each f xs k) (\<lambda>ys k. (Inr (y # ys), k)))"

fun dec_each :: "('x \<Rightarrow> 'y res) \<Rightarrow> 'x list \<Rightarrow> 'y list res" where
  "dec_each f [] = Inr []"
| "dec_each f (x # xs) = try_then (f x) (\<lambda>y. try_then (dec_each f xs) (\<lambda>ys. Inr (y # ys)))"

definition enc_bookmark :: "cipher \<Rightarrow> Bookmark \<Rightarrow> (Bookmark, nat) act" where
  "enc_bookmark ci b k = and_then (encrypt_str ci (bm_text b) k) (\<lambda>t k.
     and_then (encrypt_str ci (bm_alias b) k) (\<lambda>a k. (Inr (b\<lparr>bm_text := t, bm_alias := a\<rparr>), k)))"

definition dec_bookmark :: "cipher \<Rightarrow> Bookmark \<Rightarrow> Bookmark res" where
  "dec_bookmark ci b = try_then (decrypt_str ci (bm_text b)) (\<lambda>t.
     try_then (decrypt_str ci (bm_alias b)) (\<lambda>a. Inr (b\<lparr>bm_text := t, bm_alias := a\<rparr>)))"

definition enc_link :: "cipher \<Rightarrow> NoteLink \<Rightarrow> (NoteLink, nat) act" where
  "enc_link ci l k = and_then (encrypt_str ci (l_raw l) k) (\<lambda>r k. (Inr (l\<lparr>l_raw := r\<rparr>), k))"

definition dec_link :: "cipher \<Rightarrow> NoteLink \<Rightarrow> NoteLink res" where
  "dec_link ci l = try_then (decrypt_str ci (l_raw l)) (\<lambda>r. Inr (l\<lparr>l_raw := r\<rparr>))"

section \<open>Records\<close>

definition enc_note :: "cipher \<Rightarrow> Note \<Rightarrow> (Note, nat) act" where
  "enc_note ci n k =
     and_then (encrypt_str ci (n_title n) k) (\<lambda>title k.
     and_then (encrypt_str ci (n_body n) k) (\<lambda>body k.
     and_then (enc_opt ci (n_alias n) k) (\<lambda>al k.
     and_then (enc_each (enc_bookmark ci) (n_bookmarks n) k) (\<lambda>bs k.
     and_then (enc_each (enc_link ci) (n_links n) k) (\<lambda>ls k.
       (Inr (n\<lparr>n_title := title, n_body := body, n_alias := al, n_bookmarks := bs, n_links := ls\<rparr>), k))))))"

definition dec_note :: "cipher \<Rightarrow> Note \<Rightarrow> Note res" where
  "dec_note ci n =
     try_then (decrypt_str ci (n_title n)) (\<lambda>title.
     try_then (decrypt_str ci (n_body n)) (\<lambda>body.
     try_then (dec_opt ci (n_alias n)) (\<lambda>al.
     try_then (dec_each (dec_bookmark ci) (n_bookmarks n)) (\<lambda>bs.
     try_then (dec_each (dec_link ci) (n_links n)) (\<lambda>ls.
       Inr (n\<lparr>n_title := title, n_body := body, n_alias := al, n_bookmarks := bs, n_links := ls\<rparr>))))))"

definition enc_notebook :: "cipher \<Rightarrow> Notebook \<Rightarrow> (Notebook, nat) act" where
  "enc_notebook ci nb k = and_then (encrypt_str ci (nb_title nb) k) (\<lambda>title k.
     and_then (enc_opt ci (nb_alias nb) k) (\<lambda>al k. (Inr (nb\<lparr>nb_title := title, nb_alias := al\<rparr>), k)))"

definition dec_notebook :: "cipher \<Rightarrow> Notebook \<Rightarrow> Notebook res" where
  "dec_notebook ci nb = try_then (decrypt_str ci (nb_title nb)) (\<lambda>title.
     try_then (dec_opt ci (nb_alias nb)) (\<lambda>al. Inr (nb\<lparr>nb_title := title, nb_alias := al\<rparr>)))"

definition enc_tag :: "cipher \<Rightarrow> Tag \<Rightarrow> (Tag, nat) act" where
  "enc_tag ci t k = and_then (encrypt_str ci (t_title t) k) (\<lambda>title k. (Inr (t\<lparr>t_title := title\<rparr>), k))"

definition dec_tag :: "cipher \<Rightarrow> Tag \<Rightarrow> Tag res" where
  "dec_tag ci t = try_then (decrypt_str ci (t_title t)) (\<lambda>title. Inr (t\<lparr>t_title := title\<rparr>))"

definition enc_resource :: "cipher \<Rightarrow> Resource \<Rightarrow> (Resource, nat) act" where
  "enc_resource ci r k = and_then (encrypt_str ci (r_title r) k) (\<lambda>title k.
     and_then (encrypt_str ci (r_mime_type r) k) (\<lambda>mime k.
     and_then (encrypt_str ci (r_file_name r) k) (\<lambda>name k.
       (Inr (r\<lparr>r_title := title, r_mime_type := mime, r_file_name := name\<rparr>), k))))"

definition dec_resource :: "cipher \<Rightarrow> Resource \<Rightarrow> Resource res" where
  "dec_resource ci r = try_then (decrypt_str ci (r_title r)) (\<lambda>title.
     try_then (decrypt_str ci (r_mime_type r)) (\<lambda>mime.
     try_then (decrypt_str ci (r_file_name r)) (\<lambda>name.
       Inr (r\<lparr>r_title := title, r_mime_type := mime, r_file_name := name\<rparr>))))"

section \<open>The backend\<close>

text \<open>Sealing draws nonces; the backend inside does not see them. Opening is pure.\<close>

definition sealing :: "('a, nat) act \<Rightarrow> ('a, nat \<times> 's) act" where
  "sealing f ks = (case f (fst ks) of (r, k) \<Rightarrow> (r, (k, snd ks)))"

definition inside :: "('a, 's) act \<Rightarrow> ('a, nat \<times> 's) act" where
  "inside f ks = (case f (snd ks) of (r, s) \<Rightarrow> (r, (fst ks, s)))"

definition opened :: "('a \<Rightarrow> 'b res) \<Rightarrow> ('a, 's) act \<Rightarrow> ('b, 's) act" where
  "opened f act s = and_then (act s) (\<lambda>x s. (f x, s))"

definition dec_page :: "('x \<Rightarrow> 'x res) \<Rightarrow> 'x list \<times> string option \<Rightarrow> ('x list \<times> string option) res" where
  "dec_page f p = try_then (dec_each f (fst p)) (\<lambda>xs. Inr (xs, snd p))"

definition sealed_write :: "('x \<Rightarrow> ('x, nat) act) \<Rightarrow> ('x \<Rightarrow> 'x res) \<Rightarrow> ('x \<Rightarrow> ('x, 's) act) \<Rightarrow> 'x \<Rightarrow> ('x, nat \<times> 's) act" where
  "sealed_write enc dec write x ks = and_then (sealing (enc x) ks) (\<lambda>x. opened dec (inside (write x)))"

definition enc_create_note :: "cipher \<Rightarrow> 's backend \<Rightarrow> Note \<Rightarrow> (Note, nat \<times> 's) act" where
  "enc_create_note ci be = sealed_write (enc_note ci) (dec_note ci) (create_note be)"

definition enc_update_note :: "cipher \<Rightarrow> 's backend \<Rightarrow> Note \<Rightarrow> (Note, nat \<times> 's) act" where
  "enc_update_note ci be = sealed_write (enc_note ci) (dec_note ci) (update_note be)"

definition enc_read_note :: "cipher \<Rightarrow> 's backend \<Rightarrow> uuid \<Rightarrow> (Note, nat \<times> 's) act" where
  "enc_read_note ci be i = opened (dec_note ci) (inside (read_note be i))"

definition enc_delete_note :: "cipher \<Rightarrow> 's backend \<Rightarrow> uuid \<Rightarrow> (unit, nat \<times> 's) act" where
  "enc_delete_note ci be i = inside (delete_note be i)"

definition enc_list_notes :: "cipher \<Rightarrow> 's backend \<Rightarrow> (Note, nat \<times> 's) pages" where
  "enc_list_notes ci be page_size token = opened (dec_page (dec_note ci)) (inside (list_notes be page_size token))"

definition enc_note_backlinks :: "cipher \<Rightarrow> 's backend \<Rightarrow> uuid \<Rightarrow> (Note, nat \<times> 's) pages" where
  "enc_note_backlinks ci be i page_size token = opened (dec_page (dec_note ci)) (inside (note_backlinks be i page_size token))"

definition enc_list_notes_in_notebook :: "cipher \<Rightarrow> 's backend \<Rightarrow> uuid \<Rightarrow> (Note, nat \<times> 's) pages" where
  "enc_list_notes_in_notebook ci be i page_size token = opened (dec_page (dec_note ci)) (inside (list_notes_in_notebook be i page_size token))"

definition enc_list_starred_notes :: "cipher \<Rightarrow> 's backend \<Rightarrow> (Note, nat \<times> 's) pages" where
  "enc_list_starred_notes ci be page_size token = opened (dec_page (dec_note ci)) (inside (list_starred_notes be page_size token))"

definition enc_notebook_sort_profile :: "cipher \<Rightarrow> 's backend \<Rightarrow> uuid \<Rightarrow> (NotebookSortProfile, nat \<times> 's) act" where
  "enc_notebook_sort_profile ci be i = inside (notebook_sort_profile be i)"

definition enc_create_notebook :: "cipher \<Rightarrow> 's backend \<Rightarrow> Notebook \<Rightarrow> (Notebook, nat \<times> 's) act" where
  "enc_create_notebook ci be = sealed_write (enc_notebook ci) (dec_notebook ci) (create_notebook be)"

definition enc_update_notebook :: "cipher \<Rightarrow> 's backend \<Rightarrow> Notebook \<Rightarrow> (Notebook, nat \<times> 's) act" where
  "enc_update_notebook ci be = sealed_write (enc_notebook ci) (dec_notebook ci) (update_notebook be)"

definition enc_read_notebook :: "cipher \<Rightarrow> 's backend \<Rightarrow> uuid \<Rightarrow> (Notebook, nat \<times> 's) act" where
  "enc_read_notebook ci be i = opened (dec_notebook ci) (inside (read_notebook be i))"

definition enc_delete_notebook :: "cipher \<Rightarrow> 's backend \<Rightarrow> uuid \<Rightarrow> (unit, nat \<times> 's) act" where
  "enc_delete_notebook ci be i = inside (delete_notebook be i)"

definition enc_list_notebooks :: "cipher \<Rightarrow> 's backend \<Rightarrow> (Notebook, nat \<times> 's) pages" where
  "enc_list_notebooks ci be page_size token = opened (dec_page (dec_notebook ci)) (inside (list_notebooks be page_size token))"

definition enc_create_tag :: "cipher \<Rightarrow> 's backend \<Rightarrow> Tag \<Rightarrow> (Tag, nat \<times> 's) act" where
  "enc_create_tag ci be = sealed_write (enc_tag ci) (dec_tag ci) (create_tag be)"

definition enc_update_tag :: "cipher \<Rightarrow> 's backend \<Rightarrow> Tag \<Rightarrow> (Tag, nat \<times> 's) act" where
  "enc_update_tag ci be = sealed_write (enc_tag ci) (dec_tag ci) (update_tag be)"

definition enc_read_tag :: "cipher \<Rightarrow> 's backend \<Rightarrow> uuid \<Rightarrow> (Tag, nat \<times> 's) act" where
  "enc_read_tag ci be i = opened (dec_tag ci) (inside (read_tag be i))"

definition enc_delete_tag :: "cipher \<Rightarrow> 's backend \<Rightarrow> uuid \<Rightarrow> (unit, nat \<times> 's) act" where
  "enc_delete_tag ci be i = inside (delete_tag be i)"

definition enc_list_tags :: "cipher \<Rightarrow> 's backend \<Rightarrow> (Tag, nat \<times> 's) pages" where
  "enc_list_tags ci be page_size token = opened (dec_page (dec_tag ci)) (inside (list_tags be page_size token))"

definition enc_add_note_tag :: "cipher \<Rightarrow> 's backend \<Rightarrow> NoteTag \<Rightarrow> (unit, nat \<times> 's) act" where
  "enc_add_note_tag ci be nt = inside (add_note_tag be nt)"

definition enc_remove_note_tag :: "cipher \<Rightarrow> 's backend \<Rightarrow> uuid \<Rightarrow> uuid \<Rightarrow> (unit, nat \<times> 's) act" where
  "enc_remove_note_tag ci be n t = inside (remove_note_tag be n t)"

definition enc_list_note_tags :: "cipher \<Rightarrow> 's backend \<Rightarrow> uuid \<Rightarrow> (Tag, nat \<times> 's) pages" where
  "enc_list_note_tags ci be i page_size token = opened (dec_page (dec_tag ci)) (inside (list_note_tags be i page_size token))"

definition enc_create_resource :: "cipher \<Rightarrow> 's backend \<Rightarrow> Resource \<Rightarrow> u8 list \<Rightarrow> (Resource, nat \<times> 's) act" where
  "enc_create_resource ci be r data ks =
     and_then (sealing (encrypt_bytes ci data) ks) (\<lambda>enc_data ks.
     and_then (sealing (enc_resource ci r) ks) (\<lambda>r.
       opened (dec_resource ci) (inside (create_resource be r enc_data))))"

definition dec_pair :: "cipher \<Rightarrow> Resource \<times> u8 list \<Rightarrow> (Resource \<times> u8 list) res" where
  "dec_pair ci p = try_then (decrypt_bytes ci (snd p)) (\<lambda>data. try_then (dec_resource ci (fst p)) (\<lambda>r. Inr (r, data)))"

definition enc_read_resource :: "cipher \<Rightarrow> 's backend \<Rightarrow> uuid \<Rightarrow> (Resource \<times> u8 list, nat \<times> 's) act" where
  "enc_read_resource ci be i = opened (dec_pair ci) (inside (read_resource be i))"

definition enc_delete_resource :: "cipher \<Rightarrow> 's backend \<Rightarrow> uuid \<Rightarrow> (unit, nat \<times> 's) act" where
  "enc_delete_resource ci be i = inside (delete_resource be i)"

definition enc_list_resources :: "cipher \<Rightarrow> 's backend \<Rightarrow> (Resource, nat \<times> 's) pages" where
  "enc_list_resources ci be page_size token = opened (dec_page (dec_resource ci)) (inside (list_resources be page_size token))"

definition enc_purge_deleted_resources :: "cipher \<Rightarrow> 's backend \<Rightarrow> ts \<Rightarrow> (nat, nat \<times> 's) act" where
  "enc_purge_deleted_resources ci be older_than = inside (purge_deleted_resources be older_than)"

definition enc_get_changes_since :: "cipher \<Rightarrow> 's backend \<Rightarrow> ts \<Rightarrow> (Change list, nat \<times> 's) act" where
  "enc_get_changes_since ci be since = inside (get_changes_since be since)"

definition enc_apply_change :: "cipher \<Rightarrow> 's backend \<Rightarrow> Change \<Rightarrow> (unit, nat \<times> 's) act" where
  "enc_apply_change ci be change = inside (apply_change be change)"

definition enc_get_last_sync_time :: "cipher \<Rightarrow> 's backend \<Rightarrow> (ts, nat \<times> 's) act" where
  "enc_get_last_sync_time ci be = inside (get_last_sync_time be)"

definition enc_update_sync_time :: "cipher \<Rightarrow> 's backend \<Rightarrow> ts \<Rightarrow> (unit, nat \<times> 's) act" where
  "enc_update_sync_time ci be t = inside (update_sync_time be t)"

definition enc_send_changes :: "cipher \<Rightarrow> 's backend \<Rightarrow> Change list \<Rightarrow> (unit, nat \<times> 's) act" where
  "enc_send_changes ci be changes = inside (send_changes be changes)"

definition enc_receive_changes :: "cipher \<Rightarrow> 's backend \<Rightarrow> (Change list, nat \<times> 's) act" where
  "enc_receive_changes ci be = inside (receive_changes be)"

definition enc_get_device_id :: "cipher \<Rightarrow> 's backend \<Rightarrow> (string, nat \<times> 's) act" where
  "enc_get_device_id ci be = inside (get_device_id be)"

definition enc_prune_change_journal :: "cipher \<Rightarrow> 's backend \<Rightarrow> ts \<Rightarrow> (nat, nat \<times> 's) act" where
  "enc_prune_change_journal ci be older_than = inside (prune_change_journal be older_than)"

definition dec_version :: "('x \<Rightarrow> 'x res) \<Rightarrow> 'x EntityVersion \<Rightarrow> 'x EntityVersion res" where
  "dec_version dec v = (case ev_entity v of
     None \<Rightarrow> Inr v
   | Some x \<Rightarrow> try_then (dec x) (\<lambda>x. Inr (v\<lparr>ev_entity := Some x\<rparr>)))"

definition enc_note_history :: "cipher \<Rightarrow> 's backend \<Rightarrow> uuid \<Rightarrow> u32 \<Rightarrow> (Note EntityVersion list, nat \<times> 's) act" where
  "enc_note_history ci be i limit = opened (dec_each (dec_version (dec_note ci))) (inside (note_history be i limit))"

definition enc_notebook_history :: "cipher \<Rightarrow> 's backend \<Rightarrow> uuid \<Rightarrow> u32 \<Rightarrow> (Notebook EntityVersion list, nat \<times> 's) act" where
  "enc_notebook_history ci be i limit = opened (dec_each (dec_version (dec_notebook ci))) (inside (notebook_history be i limit))"

text \<open>Every operation the wrapper defines itself.\<close>

definition encrypted_base :: "cipher \<Rightarrow> 's backend \<Rightarrow> (nat \<times> 's) backend" where
  "encrypted_base ci be =
     \<lparr>create_note = enc_create_note ci be,
      read_note = enc_read_note ci be,
      update_note = enc_update_note ci be,
      delete_note = enc_delete_note ci be,
      list_notes = enc_list_notes ci be,
      list_notes_in_notebook = enc_list_notes_in_notebook ci be,
      list_starred_notes = enc_list_starred_notes ci be,
      notebook_sort_profile = enc_notebook_sort_profile ci be,
      note_backlinks = enc_note_backlinks ci be,
      create_notebook = enc_create_notebook ci be,
      read_notebook = enc_read_notebook ci be,
      update_notebook = enc_update_notebook ci be,
      delete_notebook = enc_delete_notebook ci be,
      list_notebooks = enc_list_notebooks ci be,
      create_tag = enc_create_tag ci be,
      read_tag = enc_read_tag ci be,
      update_tag = enc_update_tag ci be,
      delete_tag = enc_delete_tag ci be,
      list_tags = enc_list_tags ci be,
      add_note_tag = enc_add_note_tag ci be,
      remove_note_tag = enc_remove_note_tag ci be,
      list_note_tags = enc_list_note_tags ci be,
      create_resource = enc_create_resource ci be,
      read_resource = enc_read_resource ci be,
      delete_resource = enc_delete_resource ci be,
      list_resources = enc_list_resources ci be,
      list_resources_for_note = (\<lambda>_ _ _ s. (Inl Panic, s)),
      purge_deleted_resources = enc_purge_deleted_resources ci be,
      get_changes_since = enc_get_changes_since ci be,
      apply_change = enc_apply_change ci be,
      get_last_sync_time = enc_get_last_sync_time ci be,
      update_sync_time = enc_update_sync_time ci be,
      send_changes = enc_send_changes ci be,
      receive_changes = enc_receive_changes ci be,
      prune_change_journal = enc_prune_change_journal ci be,
      get_device_id = enc_get_device_id ci be,
      note_history = enc_note_history ci be,
      notebook_history = enc_notebook_history ci be\<rparr>"

text \<open>
  \<open>list_resources_for_note\<close> is the provided method of the trait, over the wrapper's own listing; when
  its fuel ends the result is \<open>Panic\<close>.
\<close>

definition encrypted_backend :: "'c text_codec_scheme \<Rightarrow> nat \<Rightarrow> cipher \<Rightarrow> 's backend \<Rightarrow> (nat \<times> 's) backend" where
  "encrypted_backend tc fuel ci be = (encrypted_base ci be)\<lparr>list_resources_for_note := (\<lambda>note_id page_size token s.
     case default_list_resources_for_note tc fuel (encrypted_base ci be) note_id page_size token s of
       None \<Rightarrow> (Inl Panic, s) | Some r \<Rightarrow> r)\<rparr>"

end
