(* ===== verification/Db_Encryption.thy ===== *)
theory Db_Encryption
  imports Db_Contents Encryption
begin

text \<open>
  The encrypting backend over the SQL backend: to its user it is the SQL backend on the opened
  contents. The laws of the cipher are those AES-GCM and base64 document.
\<close>

section \<open>Opening what is stored\<close>

definition open_str :: "cipher \<Rightarrow> string \<Rightarrow> string" where
  "open_str ci t = (case decrypt_str ci t of Inr s \<Rightarrow> s | Inl _ \<Rightarrow> [])"

definition open_data :: "cipher \<Rightarrow> u8 list \<Rightarrow> u8 list" where
  "open_data ci d = (case decrypt_bytes ci d of Inr b \<Rightarrow> b | Inl _ \<Rightarrow> [])"

definition open_bookmark :: "cipher \<Rightarrow> Bookmark \<Rightarrow> Bookmark" where
  "open_bookmark ci b = b\<lparr>bm_text := open_str ci (bm_text b), bm_alias := open_str ci (bm_alias b)\<rparr>"

definition open_link :: "cipher \<Rightarrow> NoteLink \<Rightarrow> NoteLink" where
  "open_link ci l = l\<lparr>l_raw := open_str ci (l_raw l)\<rparr>"

definition open_note :: "cipher \<Rightarrow> Note \<Rightarrow> Note" where
  "open_note ci n = n\<lparr>n_title := open_str ci (n_title n), n_body := open_str ci (n_body n),
     n_alias := map_option (open_str ci) (n_alias n), n_bookmarks := map (open_bookmark ci) (n_bookmarks n),
     n_links := map (open_link ci) (n_links n)\<rparr>"

definition open_notebook :: "cipher \<Rightarrow> Notebook \<Rightarrow> Notebook" where
  "open_notebook ci nb = nb\<lparr>nb_title := open_str ci (nb_title nb), nb_alias := map_option (open_str ci) (nb_alias nb)\<rparr>"

definition open_tag :: "cipher \<Rightarrow> Tag \<Rightarrow> Tag" where
  "open_tag ci t = t\<lparr>t_title := open_str ci (t_title t)\<rparr>"

definition open_resource :: "cipher \<Rightarrow> Resource \<Rightarrow> Resource" where
  "open_resource ci r = r\<lparr>r_title := open_str ci (r_title r), r_mime_type := open_str ci (r_mime_type r),
     r_file_name := open_str ci (r_file_name r)\<rparr>"

definition sealed :: "cipher \<Rightarrow> string \<Rightarrow> bool" where
  "sealed ci t \<longleftrightarrow> decrypt_str ci t = Inr (open_str ci t)"

definition note_sealed :: "cipher \<Rightarrow> Note \<Rightarrow> bool" where
  "note_sealed ci n \<longleftrightarrow> sealed ci (n_title n) \<and> sealed ci (n_body n) \<and> pred_option (sealed ci) (n_alias n) \<and>
     list_all (\<lambda>b. sealed ci (bm_text b) \<and> sealed ci (bm_alias b)) (n_bookmarks n) \<and> list_all (\<lambda>l. sealed ci (l_raw l)) (n_links n)"

definition notebook_sealed :: "cipher \<Rightarrow> Notebook \<Rightarrow> bool" where
  "notebook_sealed ci nb \<longleftrightarrow> sealed ci (nb_title nb) \<and> pred_option (sealed ci) (nb_alias nb)"

definition tag_sealed :: "cipher \<Rightarrow> Tag \<Rightarrow> bool" where
  "tag_sealed ci t \<longleftrightarrow> sealed ci (t_title t)"

definition resource_sealed :: "cipher \<Rightarrow> Resource \<Rightarrow> bool" where
  "resource_sealed ci r \<longleftrightarrow> sealed ci (r_title r) \<and> sealed ci (r_mime_type r) \<and> sealed ci (r_file_name r)"

definition data_sealed :: "cipher \<Rightarrow> u8 list \<Rightarrow> bool" where
  "data_sealed ci d \<longleftrightarrow> decrypt_bytes ci d = Inr (open_data ci d)"

definition opened_by :: "cipher \<Rightarrow> handling" where
  "opened_by ci = \<lparr>on_note = open_note ci, on_notebook = open_notebook ci, on_tag = open_tag ci, on_resource = open_resource ci,
     on_data = open_data ci, ok_note = note_sealed ci, ok_notebook = notebook_sealed ci, ok_tag = tag_sealed ci,
     ok_resource = resource_sealed ci, ok_data = data_sealed ci\<rparr>"

lemma opened_by_simps [simp]:
  "on_note (opened_by ci) = open_note ci" "on_notebook (opened_by ci) = open_notebook ci" "on_tag (opened_by ci) = open_tag ci"
  "on_resource (opened_by ci) = open_resource ci" "on_data (opened_by ci) = open_data ci"
  "ok_note (opened_by ci) = note_sealed ci" "ok_notebook (opened_by ci) = notebook_sealed ci" "ok_tag (opened_by ci) = tag_sealed ci"
  "ok_resource (opened_by ci) = resource_sealed ci" "ok_data (opened_by ci) = data_sealed ci"
  by (simp_all add: opened_by_def)

interpretation oc: content_map "opened_by ci" for ci
  by unfold_locales
    (simp_all add: open_note_def open_notebook_def open_tag_def open_resource_def open_link_def comp_def
      note_sealed_def notebook_sealed_def tag_sealed_def resource_sealed_def)

lemma dec_each_map: "(\<And>x. x \<in> set xs \<Longrightarrow> f x = Inr (g x)) \<Longrightarrow> dec_each f xs = Inr (map g xs)"
  by (induction xs) simp_all

lemma dec_opt_open: "pred_option (sealed ci) a \<Longrightarrow> dec_opt ci a = Inr (map_option (open_str ci) a)"
  by (cases a) (simp_all add: sealed_def)

lemma dec_note_open: "note_sealed ci n \<Longrightarrow> dec_note ci n = Inr (open_note ci n)"
  using dec_each_map [of "n_bookmarks n" "dec_bookmark ci" "open_bookmark ci"] dec_each_map [of "n_links n" "dec_link ci" "open_link ci"]
  by (auto simp: note_sealed_def dec_note_def open_note_def sealed_def [of ci "n_title n"] sealed_def [of ci "n_body n"] dec_opt_open
      list_all_iff dec_bookmark_def dec_link_def open_bookmark_def open_link_def sealed_def)

lemma dec_notebook_open: "notebook_sealed ci nb \<Longrightarrow> dec_notebook ci nb = Inr (open_notebook ci nb)"
  by (simp add: notebook_sealed_def dec_notebook_def open_notebook_def dec_opt_open sealed_def [of ci "nb_title nb"])

lemma dec_tag_open: "tag_sealed ci t \<Longrightarrow> dec_tag ci t = Inr (open_tag ci t)"
  by (simp add: tag_sealed_def dec_tag_def open_tag_def sealed_def)

lemma dec_resource_open: "resource_sealed ci r \<Longrightarrow> dec_resource ci r = Inr (open_resource ci r)"
  by (simp add: resource_sealed_def dec_resource_def open_resource_def sealed_def)

lemma dec_pair_open:
  "resource_sealed ci (fst p) \<Longrightarrow> data_sealed ci (snd p) \<Longrightarrow> dec_pair ci p = Inr (map_prod (open_resource ci) (open_data ci) p)"
  by (cases p) (simp add: dec_pair_def dec_resource_open data_sealed_def)

section \<open>Sealing\<close>

text \<open>
  The laws of the cipher: nonces have their length, messages up to the limit of AES-GCM (\<open>P_MAX\<close> of
  the crate) are encrypted, decryption inverts encryption, decoding inverts encoding.
\<close>

definition P_MAX :: nat where
  "P_MAX = 2 ^ 36"

definition cipher_ok :: "cipher \<Rightarrow> bool" where
  "cipher_ok ci \<longleftrightarrow> (\<forall>k. length (ci_nonce ci k) = NONCE_LEN) \<and>
     (\<forall>nonce data. length data \<le> P_MAX \<longrightarrow> ci_encrypt ci nonce data \<noteq> None) \<and>
     (\<forall>nonce data ct. ci_encrypt ci nonce data = Some ct \<longrightarrow> ci_decrypt ci nonce ct = Some data) \<and>
     (\<forall>bytes. b64_decode ci (b64_encode ci bytes) = Some bytes)"

definition text_fits :: "string \<Rightarrow> bool" where
  "text_fits s \<longleftrightarrow> rust_string s \<and> length s \<le> P_MAX"

definition note_fits :: "Note \<Rightarrow> bool" where
  "note_fits n \<longleftrightarrow> text_fits (n_title n) \<and> text_fits (n_body n) \<and> pred_option text_fits (n_alias n) \<and>
     list_all (\<lambda>b. text_fits (bm_text b) \<and> text_fits (bm_alias b)) (n_bookmarks n) \<and> list_all (\<lambda>l. text_fits (l_raw l)) (n_links n)"

definition notebook_fits :: "Notebook \<Rightarrow> bool" where
  "notebook_fits nb \<longleftrightarrow> text_fits (nb_title nb) \<and> pred_option text_fits (nb_alias nb)"

definition resource_fits :: "Resource \<Rightarrow> bool" where
  "resource_fits r \<longleftrightarrow> text_fits (r_title r) \<and> text_fits (r_mime_type r) \<and> text_fits (r_file_name r)"

text \<open>A sealing succeeds with something that opens to what was sealed.\<close>

definition seals :: "('x \<Rightarrow> bool) \<Rightarrow> ('x \<Rightarrow> 'x) \<Rightarrow> ('x, nat) act \<Rightarrow> 'x \<Rightarrow> bool" where
  "seals ok opn f x \<longleftrightarrow> (\<forall>k. \<exists>y k'. f k = (Inr y, k') \<and> ok y \<and> opn y = x)"

lemma sealsE:
  assumes "seals ok opn f x" obtains y k' where "f k = (Inr y, k')" "ok y" "opn y = x"
  using assms unfolding seals_def by blast

lemma cipher_encrypts:
  assumes "cipher_ok ci" "length d \<le> P_MAX"
  obtains ct where "ci_encrypt ci n d = Some ct" "ci_decrypt ci n ct = Some d"
  using assms unfolding cipher_ok_def by (meson not_None_eq)

lemma cipher_simps:
  assumes "cipher_ok ci"
  shows "length (ci_nonce ci k) = NONCE_LEN" "b64_decode ci (b64_encode ci bs) = Some bs"
  using assms by (simp_all add: cipher_ok_def)

lemma seals_bytes:
  assumes "cipher_ok ci" "length d \<le> P_MAX"
  shows "seals (data_sealed ci) (open_data ci) (encrypt_bytes ci d) d"
  unfolding seals_def
proof
  fix k
  obtain ct where ct: "ci_encrypt ci (ci_nonce ci k) d = Some ct" "ci_decrypt ci (ci_nonce ci k) ct = Some d"
    by (rule cipher_encrypts [OF assms])
  then have "decrypt_bytes ci (ci_nonce ci k @ ct) = Inr d"
    by (simp add: decrypt_bytes_def cipher_simps [OF assms(1)])
  with ct show "\<exists>y k'. encrypt_bytes ci d k = (Inr y, k') \<and> data_sealed ci y \<and> open_data ci y = d"
    by (simp add: encrypt_bytes_def data_sealed_def open_data_def)
qed

lemma seals_str:
  assumes "cipher_ok ci" "text_fits s"
  shows "seals (sealed ci) (open_str ci) (encrypt_str ci s) s"
  unfolding seals_def
proof
  fix k
  have "length (bytes_of s) \<le> P_MAX" using assms(2) by (simp add: text_fits_def bytes_of_def)
  from cipher_encrypts [OF assms(1) this] obtain ct
    where ct: "ci_encrypt ci (ci_nonce ci k) (bytes_of s) = Some ct" "ci_decrypt ci (ci_nonce ci k) ct = Some (bytes_of s)" by blast
  then have "decrypt_str ci (b64_encode ci (ci_nonce ci k @ ct)) = Inr s"
    using assms(2) by (simp add: decrypt_str_def cipher_simps [OF assms(1)] text_fits_def rust_string_def)
  with ct show "\<exists>y k'. encrypt_str ci s k = (Inr y, k') \<and> sealed ci y \<and> open_str ci y = s"
    by (simp add: encrypt_str_def sealed_def open_str_def)
qed

lemma seals_opt:
  assumes "cipher_ok ci" "pred_option text_fits a"
  shows "seals (pred_option (sealed ci)) (map_option (open_str ci)) (enc_opt ci a) a"
  unfolding seals_def
proof
  fix k
  show "\<exists>y k'. enc_opt ci a k = (Inr y, k') \<and> pred_option (sealed ci) y \<and> map_option (open_str ci) y = a"
  proof (cases a)
    case (Some s)
    with assms have "seals (sealed ci) (open_str ci) (encrypt_str ci s) s" by (intro seals_str) simp_all
    then obtain y k' where "encrypt_str ci s k = (Inr y, k')" "sealed ci y" "open_str ci y = s" by (rule sealsE)
    with Some show ?thesis by (intro exI [of _ "Some y"] exI [of _ k']) simp
  qed simp
qed

lemma seals_each:
  assumes "\<And>x. x \<in> set xs \<Longrightarrow> seals ok opn (f x) x"
  shows "seals (list_all ok) (map opn) (enc_each f xs) xs"
  using assms
proof (induction xs)
  case (Cons x xs)
  show ?case unfolding seals_def
  proof
    fix k
    have "seals ok opn (f x) x" using Cons.prems by simp
    then obtain y k1 where 1: "f x k = (Inr y, k1)" "ok y" "opn y = x" by (rule sealsE)
    from Cons have "seals (list_all ok) (map opn) (enc_each f xs) xs" by simp
    then obtain ys k2 where "enc_each f xs k1 = (Inr ys, k2)" "list_all ok ys" "map opn ys = xs" by (rule sealsE)
    with 1 show "\<exists>ys k'. enc_each f (x # xs) k = (Inr ys, k') \<and> list_all ok ys \<and> map opn ys = x # xs" by auto
  qed
qed (simp add: seals_def)

text \<open>Sealing the records, field by field in the order of the code.\<close>

lemma seals_note:
  assumes "cipher_ok ci" "note_fits n"
  shows "seals (note_sealed ci) (open_note ci) (enc_note ci n) n"
  unfolding seals_def
proof
  fix k
  have fits: "text_fits (n_title n)" "text_fits (n_body n)" "pred_option text_fits (n_alias n)"
    using assms(2) by (simp_all add: note_fits_def)
  have bookmark: "seals (\<lambda>b. sealed ci (bm_text b) \<and> sealed ci (bm_alias b)) (open_bookmark ci) (enc_bookmark ci b) b"
    if "b \<in> set (n_bookmarks n)" for b
  proof -
    have "text_fits (bm_text b)" "text_fits (bm_alias b)" using assms(2) that by (simp_all add: note_fits_def list_all_iff)
    then have s: "seals (sealed ci) (open_str ci) (encrypt_str ci (bm_text b)) (bm_text b)"
      "seals (sealed ci) (open_str ci) (encrypt_str ci (bm_alias b)) (bm_alias b)" by (simp_all add: seals_str assms(1))
    show ?thesis unfolding seals_def
    proof
      fix k
      obtain t k1 where 1: "encrypt_str ci (bm_text b) k = (Inr t, k1)" "sealed ci t" "open_str ci t = bm_text b" by (rule sealsE [OF s(1)])
      obtain a k2 where 2: "encrypt_str ci (bm_alias b) k1 = (Inr a, k2)" "sealed ci a" "open_str ci a = bm_alias b" by (rule sealsE [OF s(2)])
      show "\<exists>y k'. enc_bookmark ci b k = (Inr y, k') \<and> (sealed ci (bm_text y) \<and> sealed ci (bm_alias y)) \<and> open_bookmark ci y = b"
        by (intro exI [of _ "b\<lparr>bm_text := t, bm_alias := a\<rparr>"] exI [of _ k2]) (simp add: enc_bookmark_def open_bookmark_def 1 2)
    qed
  qed
  have link: "seals (\<lambda>l. sealed ci (l_raw l)) (open_link ci) (enc_link ci l) l" if "l \<in> set (n_links n)" for l
    unfolding seals_def
  proof
    fix k
    have "text_fits (l_raw l)" using assms(2) that by (simp add: note_fits_def list_all_iff)
    from sealsE [OF seals_str [OF assms(1) this], of k] obtain r k1
      where "encrypt_str ci (l_raw l) k = (Inr r, k1)" "sealed ci r" "open_str ci r = l_raw l" by blast
    then show "\<exists>y k'. enc_link ci l k = (Inr y, k') \<and> sealed ci (l_raw y) \<and> open_link ci y = l"
      by (intro exI [of _ "l\<lparr>l_raw := r\<rparr>"] exI [of _ k1]) (simp add: enc_link_def open_link_def)
  qed
  obtain t k1 where 1: "encrypt_str ci (n_title n) k = (Inr t, k1)" "sealed ci t" "open_str ci t = n_title n"
    by (rule sealsE [OF seals_str [OF assms(1) fits(1)]])
  obtain b k2 where 2: "encrypt_str ci (n_body n) k1 = (Inr b, k2)" "sealed ci b" "open_str ci b = n_body n"
    by (rule sealsE [OF seals_str [OF assms(1) fits(2)]])
  obtain a k3 where 3: "enc_opt ci (n_alias n) k2 = (Inr a, k3)" "pred_option (sealed ci) a" "map_option (open_str ci) a = n_alias n"
    by (rule sealsE [OF seals_opt [OF assms(1) fits(3)]])
  obtain bs k4 where 4: "enc_each (enc_bookmark ci) (n_bookmarks n) k3 = (Inr bs, k4)"
    "list_all (\<lambda>b. sealed ci (bm_text b) \<and> sealed ci (bm_alias b)) bs" "map (open_bookmark ci) bs = n_bookmarks n"
    by (rule sealsE [OF seals_each [OF bookmark]])
  obtain ls k5 where 5: "enc_each (enc_link ci) (n_links n) k4 = (Inr ls, k5)"
    "list_all (\<lambda>l. sealed ci (l_raw l)) ls" "map (open_link ci) ls = n_links n"
    by (rule sealsE [OF seals_each [OF link]])
  show "\<exists>y k'. enc_note ci n k = (Inr y, k') \<and> note_sealed ci y \<and> open_note ci y = n"
    by (intro exI [of _ "n\<lparr>n_title := t, n_body := b, n_alias := a, n_bookmarks := bs, n_links := ls\<rparr>"] exI [of _ k5])
      (simp add: enc_note_def note_sealed_def open_note_def 1 2 3 4 5)
qed

lemma seals_notebook:
  assumes "cipher_ok ci" "notebook_fits nb"
  shows "seals (notebook_sealed ci) (open_notebook ci) (enc_notebook ci nb) nb"
  unfolding seals_def
proof
  fix k
  have fits: "text_fits (nb_title nb)" "pred_option text_fits (nb_alias nb)" using assms(2) by (simp_all add: notebook_fits_def)
  obtain t k1 where 1: "encrypt_str ci (nb_title nb) k = (Inr t, k1)" "sealed ci t" "open_str ci t = nb_title nb"
    by (rule sealsE [OF seals_str [OF assms(1) fits(1)]])
  obtain a k2 where 2: "enc_opt ci (nb_alias nb) k1 = (Inr a, k2)" "pred_option (sealed ci) a" "map_option (open_str ci) a = nb_alias nb"
    by (rule sealsE [OF seals_opt [OF assms(1) fits(2)]])
  show "\<exists>y k'. enc_notebook ci nb k = (Inr y, k') \<and> notebook_sealed ci y \<and> open_notebook ci y = nb"
    by (intro exI [of _ "nb\<lparr>nb_title := t, nb_alias := a\<rparr>"] exI [of _ k2]) (simp add: enc_notebook_def notebook_sealed_def open_notebook_def 1 2)
qed

lemma seals_tag:
  assumes "cipher_ok ci" "text_fits (t_title g)"
  shows "seals (tag_sealed ci) (open_tag ci) (enc_tag ci g) g"
  unfolding seals_def
proof
  fix k
  obtain t k1 where 1: "encrypt_str ci (t_title g) k = (Inr t, k1)" "sealed ci t" "open_str ci t = t_title g"
    by (rule sealsE [OF seals_str [OF assms]])
  show "\<exists>y k'. enc_tag ci g k = (Inr y, k') \<and> tag_sealed ci y \<and> open_tag ci y = g"
    by (intro exI [of _ "g\<lparr>t_title := t\<rparr>"] exI [of _ k1]) (simp add: enc_tag_def tag_sealed_def open_tag_def 1)
qed

lemma seals_resource:
  assumes "cipher_ok ci" "resource_fits r"
  shows "seals (resource_sealed ci) (open_resource ci) (enc_resource ci r) r"
  unfolding seals_def
proof
  fix k
  have fits: "text_fits (r_title r)" "text_fits (r_mime_type r)" "text_fits (r_file_name r)" using assms(2) by (simp_all add: resource_fits_def)
  obtain t k1 where 1: "encrypt_str ci (r_title r) k = (Inr t, k1)" "sealed ci t" "open_str ci t = r_title r"
    by (rule sealsE [OF seals_str [OF assms(1) fits(1)]])
  obtain m k2 where 2: "encrypt_str ci (r_mime_type r) k1 = (Inr m, k2)" "sealed ci m" "open_str ci m = r_mime_type r"
    by (rule sealsE [OF seals_str [OF assms(1) fits(2)]])
  obtain a k3 where 3: "encrypt_str ci (r_file_name r) k2 = (Inr a, k3)" "sealed ci a" "open_str ci a = r_file_name r"
    by (rule sealsE [OF seals_str [OF assms(1) fits(3)]])
  show "\<exists>y k'. enc_resource ci r k = (Inr y, k') \<and> resource_sealed ci y \<and> open_resource ci y = r"
    by (intro exI [of _ "r\<lparr>r_title := t, r_mime_type := m, r_file_name := a\<rparr>"] exI [of _ k3])
      (simp add: enc_resource_def resource_sealed_def open_resource_def 1 2 3)
qed

section \<open>Refinement\<close>

text \<open>
  Opening every content of the store inside turns a run of the wrapper's operation into a run of the
  plain operation, with the same result, and stored contents stay sealed.
\<close>

definition store_opened :: "cipher \<Rightarrow> Db \<Rightarrow> Db" where
  "store_opened ci s = map_db (opened_by ci) s"

definition store_sealed :: "cipher \<Rightarrow> Db \<Rightarrow> bool" where
  "store_sealed ci s = db_ok (opened_by ci) s"

definition refines :: "cipher \<Rightarrow> ('a, nat \<times> Db) act \<Rightarrow> 'a db_act \<Rightarrow> bool" where
  "refines ci act act' \<longleftrightarrow> (\<forall>k s. store_sealed ci s \<longrightarrow> (\<exists>k' s'. store_sealed ci s' \<and>
     act (k, s) = (fst (act' (store_opened ci s)), (k', s')) \<and> store_opened ci s' = snd (act' (store_opened ci s))))"

lemma carriedD:
  assumes "carried (opened_by ci) g P act act'" "store_sealed ci s"
  shows "store_sealed ci (snd (act s))" "fst (act' (store_opened ci s)) = map_sum id g (fst (act s))"
    "store_opened ci (snd (act s)) = snd (act' (store_opened ci s))" "fst (act s) = Inr x \<Longrightarrow> P x"
  using assms by (auto simp: carried_def store_sealed_def store_opened_def)

lemma refines_inside:
  assumes "carried (opened_by ci) id P act act'"
  shows "refines ci (inside act) act'"
  unfolding refines_def
proof (intro allI impI)
  fix k s assume s: "store_sealed ci s"
  note d = carriedD [OF assms s]
  show "\<exists>k' s'. store_sealed ci s' \<and> inside act (k, s) = (fst (act' (store_opened ci s)), k', s') \<and>
      store_opened ci s' = snd (act' (store_opened ci s))"
    by (intro exI [of _ k] exI [of _ "snd (act s)"]) (simp add: d inside_def map_sum.id split: prod.split)
qed

lemma refines_opened:
  assumes "carried (opened_by ci) g P act act'" and "\<And>x. P x \<Longrightarrow> dec x = Inr (g x)"
  shows "refines ci (opened dec (inside act)) act'"
  unfolding refines_def
proof (intro allI impI)
  fix k s assume s: "store_sealed ci s"
  note d = carriedD [OF assms(1) s]
  have "opened dec (inside act) (k, s) = (fst (act' (store_opened ci s)), k, snd (act s))"
    using assms(2) [OF d(4)] d(2) by (cases "act s"; cases "fst (act s)") (auto simp: opened_def inside_def)
  with d show "\<exists>k' s'. store_sealed ci s' \<and> opened dec (inside act) (k, s) = (fst (act' (store_opened ci s)), k', s') \<and>
      store_opened ci s' = snd (act' (store_opened ci s))"
    by (intro exI [of _ k] exI [of _ "snd (act s)"]) simp
qed

lemma refines_write:
  assumes "seals ok opn (enc x) x" and "\<And>y. ok y \<Longrightarrow> carried (opened_by ci) opn ok (write y) (write (opn y))"
    and "\<And>y. ok y \<Longrightarrow> dec y = Inr (opn y)"
  shows "refines ci (sealed_write enc dec write x) (write x)"
  unfolding refines_def
proof (intro allI impI)
  fix k s assume s: "store_sealed ci s"
  obtain y k1 where y: "enc x k = (Inr y, k1)" "ok y" "opn y = x" by (rule sealsE [OF assms(1)])
  have "refines ci (opened dec (inside (write y))) (write x)"
    using refines_opened [OF assms(2) [OF y(2)] assms(3)] y(3) by simp
  moreover have "sealed_write enc dec write x (k, s) = opened dec (inside (write y)) (k1, s)"
    by (simp add: sealed_write_def sealing_def y)
  ultimately show "\<exists>k' s'. store_sealed ci s' \<and> sealed_write enc dec write x (k, s) = (fst (write x (store_opened ci s)), k', s') \<and>
      store_opened ci s' = snd (write x (store_opened ci s))"
    using s unfolding refines_def by metis
qed

lemma refines_create_resource:
  assumes "cipher_ok ci" "resource_fits r" "length data \<le> P_MAX"
  shows "refines ci (enc_create_resource ci (db_backend tc rm) r data) (db_create_resource r data)"
  unfolding refines_def
proof (intro allI impI)
  fix k s assume s: "store_sealed ci s"
  obtain d k1 where d: "encrypt_bytes ci data k = (Inr d, k1)" "data_sealed ci d" "open_data ci d = data"
    by (rule sealsE [OF seals_bytes [OF assms(1,3)]])
  obtain q k2 where q: "enc_resource ci r k1 = (Inr q, k2)" "resource_sealed ci q" "open_resource ci q = r"
    by (rule sealsE [OF seals_resource [OF assms(1,2)]])
  have "refines ci (opened (dec_resource ci) (inside (db_create_resource q d))) (db_create_resource r data)"
    using refines_opened [OF oc.create_resource [of ci q d]] d q by (simp add: dec_resource_open)
  moreover have "enc_create_resource ci (db_backend tc rm) r data (k, s) = opened (dec_resource ci) (inside (db_create_resource q d)) (k2, s)"
    by (simp add: enc_create_resource_def sealing_def d q db_backend_def)
  ultimately show "\<exists>k' s'. store_sealed ci s' \<and> enc_create_resource ci (db_backend tc rm) r data (k, s) =
      (fst (db_create_resource r data (store_opened ci s)), k', s') \<and> store_opened ci s' = snd (db_create_resource r data (store_opened ci s))"
    using s unfolding refines_def by metis
qed

lemma dec_pages:
  "list_all (note_sealed ci) (fst p) \<Longrightarrow> dec_page (dec_note ci) p = Inr (map_prod (map (open_note ci)) id p)"
  "list_all (notebook_sealed ci) (fst pb) \<Longrightarrow> dec_page (dec_notebook ci) pb = Inr (map_prod (map (open_notebook ci)) id pb)"
  "list_all (tag_sealed ci) (fst pt) \<Longrightarrow> dec_page (dec_tag ci) pt = Inr (map_prod (map (open_tag ci)) id pt)"
  "list_all (resource_sealed ci) (fst pr) \<Longrightarrow> dec_page (dec_resource ci) pr = Inr (map_prod (map (open_resource ci)) id pr)"
  by (cases p; cases pb; cases pt; cases pr;
      simp add: dec_page_def list_all_iff dec_each_map dec_note_open dec_notebook_open dec_tag_open dec_resource_open)+

lemmas encrypted_ops = encrypted_backend_def encrypted_base_def db_backend_def enc_create_note_def enc_read_note_def enc_update_note_def
  enc_delete_note_def enc_list_notes_def enc_list_notes_in_notebook_def enc_list_starred_notes_def enc_notebook_sort_profile_def
  enc_note_backlinks_def enc_create_notebook_def enc_read_notebook_def enc_update_notebook_def enc_delete_notebook_def
  enc_list_notebooks_def enc_create_tag_def enc_read_tag_def enc_update_tag_def enc_delete_tag_def enc_list_tags_def
  enc_add_note_tag_def enc_remove_note_tag_def enc_list_note_tags_def enc_read_resource_def enc_delete_resource_def
  enc_list_resources_def enc_purge_deleted_resources_def

text \<open>The calls a user of a backend makes on its contents, and what they answer.\<close>

datatype call =
    CreateNote Note | ReadNote uuid | UpdateNote Note | DeleteNote uuid | ListNotes u32 "string option"
  | ListNotebookNotes uuid u32 "string option" | ListStarred u32 "string option" | Backlinks uuid u32 "string option" | SortProfile uuid
  | CreateNotebook Notebook | ReadNotebook uuid | UpdateNotebook Notebook | DeleteNotebook uuid | ListNotebooks u32 "string option"
  | CreateTag Tag | ReadTag uuid | UpdateTag Tag | DeleteTag uuid | ListTags u32 "string option"
  | AddNoteTag NoteTag | RemoveNoteTag uuid uuid | ListNoteTags uuid u32 "string option"
  | CreateResource Resource "u8 list" | ReadResource uuid | DeleteResource uuid | ListResources u32 "string option" | Purge ts

datatype reply =
    Done | OneNote Note | Notes "Note list \<times> string option" | Profile NotebookSortProfile
  | OneNotebook Notebook | Notebooks "Notebook list \<times> string option" | OneTag Tag | Tags "Tag list \<times> string option"
  | OneResource Resource | Payload "Resource \<times> u8 list" | Resources "Resource list \<times> string option" | Purged nat

definition answer :: "('a \<Rightarrow> reply) \<Rightarrow> ('a, 's) act \<Rightarrow> (reply, 's) act" where
  "answer c act s = (map_sum id c (fst (act s)), snd (act s))"

fun run :: "'s backend \<Rightarrow> call \<Rightarrow> (reply, 's) act" where
  "run be (CreateNote n) = answer OneNote (create_note be n)"
| "run be (ReadNote i) = answer OneNote (read_note be i)"
| "run be (UpdateNote n) = answer OneNote (update_note be n)"
| "run be (DeleteNote i) = answer (\<lambda>_. Done) (delete_note be i)"
| "run be (ListNotes z tok) = answer Notes (list_notes be z tok)"
| "run be (ListNotebookNotes i z tok) = answer Notes (list_notes_in_notebook be i z tok)"
| "run be (ListStarred z tok) = answer Notes (list_starred_notes be z tok)"
| "run be (Backlinks i z tok) = answer Notes (note_backlinks be i z tok)"
| "run be (SortProfile i) = answer Profile (notebook_sort_profile be i)"
| "run be (CreateNotebook nb) = answer OneNotebook (create_notebook be nb)"
| "run be (ReadNotebook i) = answer OneNotebook (read_notebook be i)"
| "run be (UpdateNotebook nb) = answer OneNotebook (update_notebook be nb)"
| "run be (DeleteNotebook i) = answer (\<lambda>_. Done) (delete_notebook be i)"
| "run be (ListNotebooks z tok) = answer Notebooks (list_notebooks be z tok)"
| "run be (CreateTag g) = answer OneTag (create_tag be g)"
| "run be (ReadTag i) = answer OneTag (read_tag be i)"
| "run be (UpdateTag g) = answer OneTag (update_tag be g)"
| "run be (DeleteTag i) = answer (\<lambda>_. Done) (delete_tag be i)"
| "run be (ListTags z tok) = answer Tags (list_tags be z tok)"
| "run be (AddNoteTag nt) = answer (\<lambda>_. Done) (add_note_tag be nt)"
| "run be (RemoveNoteTag i j) = answer (\<lambda>_. Done) (remove_note_tag be i j)"
| "run be (ListNoteTags i z tok) = answer Tags (list_note_tags be i z tok)"
| "run be (CreateResource r data) = answer OneResource (create_resource be r data)"
| "run be (ReadResource i) = answer Payload (read_resource be i)"
| "run be (DeleteResource i) = answer (\<lambda>_. Done) (delete_resource be i)"
| "run be (ListResources z tok) = answer Resources (list_resources be z tok)"
| "run be (Purge t) = answer Purged (purge_deleted_resources be t)"

fun run_all :: "'s backend \<Rightarrow> call list \<Rightarrow> 's \<Rightarrow> reply res list \<times> 's" where
  "run_all be [] s = ([], s)"
| "run_all be (c # cs) s = (let (r, s) = run be c s; (rs, s) = run_all be cs s in (r # rs, s))"

fun call_fits :: "call \<Rightarrow> bool" where
  "call_fits (CreateNote n) = note_fits n"
| "call_fits (UpdateNote n) = note_fits n"
| "call_fits (CreateNotebook nb) = notebook_fits nb"
| "call_fits (UpdateNotebook nb) = notebook_fits nb"
| "call_fits (CreateTag g) = text_fits (t_title g)"
| "call_fits (UpdateTag g) = text_fits (t_title g)"
| "call_fits (CreateResource r data) = (resource_fits r \<and> length data \<le> P_MAX)"
| "call_fits _ = True"

lemma refines_answer: "refines ci act act' \<Longrightarrow> refines ci (answer c act) (answer c act')"
  unfolding refines_def answer_def by (metis fst_conv snd_conv)

lemmas carried_ops = oc.create_note [unfolded opened_by_simps] oc.update_note [unfolded opened_by_simps]
  oc.create_notebook [unfolded opened_by_simps] oc.update_notebook [unfolded opened_by_simps]
  oc.create_tag [unfolded opened_by_simps] oc.update_tag [unfolded opened_by_simps]

lemma refines_reads:
  "refines ci (opened (dec_note ci) (inside (db_read_note i))) (db_read_note i)"
  "refines ci (opened (dec_notebook ci) (inside (db_read_notebook i))) (db_read_notebook i)"
  "refines ci (opened (dec_tag ci) (inside (db_read_tag i))) (db_read_tag i)"
  "refines ci (opened (dec_pair ci) (inside (db_read_resource i))) (db_read_resource i)"
  "refines ci (opened (dec_page (dec_note ci)) (inside (db_list_notes tc z tok))) (db_list_notes tc z tok)"
  "refines ci (opened (dec_page (dec_note ci)) (inside (db_list_notes_in_notebook tc i z tok))) (db_list_notes_in_notebook tc i z tok)"
  "refines ci (opened (dec_page (dec_note ci)) (inside (db_list_starred_notes tc z tok))) (db_list_starred_notes tc z tok)"
  "refines ci (opened (dec_page (dec_note ci)) (inside (db_note_backlinks tc i z tok))) (db_note_backlinks tc i z tok)"
  "refines ci (opened (dec_page (dec_notebook ci)) (inside (db_list_notebooks tc z tok))) (db_list_notebooks tc z tok)"
  "refines ci (opened (dec_page (dec_tag ci)) (inside (db_list_tags tc z tok))) (db_list_tags tc z tok)"
  "refines ci (opened (dec_page (dec_tag ci)) (inside (db_list_note_tags tc i z tok))) (db_list_note_tags tc i z tok)"
  "refines ci (opened (dec_page (dec_resource ci)) (inside (db_list_resources tc z tok))) (db_list_resources tc z tok)"
  by (rule refines_opened, rule oc.read_note oc.read_notebook oc.read_tag oc.read_resource oc.list_notes oc.list_notes_in_notebook
      oc.list_starred_notes oc.note_backlinks oc.list_notebooks oc.list_tags oc.list_note_tags oc.list_resources,
      simp add: dec_note_open dec_notebook_open dec_tag_open dec_pair_open dec_pages split: prod.splits)+

lemma refines_writes:
  assumes "cipher_ok ci"
  shows "note_fits n \<Longrightarrow> refines ci (sealed_write (enc_note ci) (dec_note ci) db_create_note n) (db_create_note n)"
    "note_fits n \<Longrightarrow> refines ci (sealed_write (enc_note ci) (dec_note ci) db_update_note n) (db_update_note n)"
    "notebook_fits nb \<Longrightarrow> refines ci (sealed_write (enc_notebook ci) (dec_notebook ci) db_create_notebook nb) (db_create_notebook nb)"
    "notebook_fits nb \<Longrightarrow> refines ci (sealed_write (enc_notebook ci) (dec_notebook ci) db_update_notebook nb) (db_update_notebook nb)"
    "text_fits (t_title g) \<Longrightarrow> refines ci (sealed_write (enc_tag ci) (dec_tag ci) db_create_tag g) (db_create_tag g)"
    "text_fits (t_title g) \<Longrightarrow> refines ci (sealed_write (enc_tag ci) (dec_tag ci) db_update_tag g) (db_update_tag g)"
  by (rule refines_write, (rule seals_note seals_notebook seals_tag, rule assms, assumption), (rule carried_ops, assumption),
      (rule dec_note_open dec_notebook_open dec_tag_open, assumption))+

lemma refines_run:
  assumes "cipher_ok ci" "call_fits c"
  shows "refines ci (run (encrypted_backend tc fuel ci (db_backend tc rm)) c) (run (db_backend tc rm) c)"
proof -
  show ?thesis
  proof (cases c)
    case (CreateResource r data)
    with assms refines_create_resource [of ci r data tc rm] show ?thesis
      by (simp add: encrypted_backend_def encrypted_base_def refines_answer) (simp add: db_backend_def refines_answer)
  qed (use assms in \<open>simp_all add: encrypted_ops refines_answer refines_writes refines_reads refines_inside [OF oc.delete_note]
      refines_inside [OF oc.delete_notebook] refines_inside [OF oc.delete_tag] refines_inside [OF oc.delete_resource]
      refines_inside [OF oc.add_note_tag] refines_inside [OF oc.remove_note_tag] refines_inside [OF oc.purge]
      refines_inside [OF oc.sort_profile]\<close>)
qed

text \<open>
  C30. The encrypting backend over the SQL backend cannot be told from the SQL backend: on a store whose
  contents are sealed, any sequence of calls on notes, notebooks, tags, associations and resources
  gets the answers, errors included, that the plain backend gives on the opened store, and leaves a
  store that opens to the plain one and whose contents are sealed. The texts written must be valid
  and within the limit of the cipher.
\<close>

theorem encrypted_refines_plain:
  assumes "cipher_ok ci" "list_all call_fits cs" "store_sealed ci s"
  shows "\<exists>k' s'. run_all (encrypted_backend tc fuel ci (db_backend tc rm)) cs (k, s) =
      (fst (run_all (db_backend tc rm) cs (store_opened ci s)), (k', s')) \<and>
    store_opened ci s' = snd (run_all (db_backend tc rm) cs (store_opened ci s)) \<and> store_sealed ci s'"
  using assms(2,3)
proof (induction cs arbitrary: k s)
  case (Cons c cs)
  let ?E = "encrypted_backend tc fuel ci (db_backend tc rm)" and ?B = "db_backend tc rm"
  from refines_run [OF assms(1), of c tc fuel rm] Cons.prems have "refines ci (run ?E c) (run ?B c)" by simp
  with Cons.prems(2) obtain k1 s1 where
    1: "run ?E c (k, s) = (fst (run ?B c (store_opened ci s)), (k1, s1))" "store_opened ci s1 = snd (run ?B c (store_opened ci s))" "store_sealed ci s1"
    unfolding refines_def by metis
  from Cons.IH [OF _ 1(3), of k1] Cons.prems(1) obtain k2 s2 where
    "run_all ?E cs (k1, s1) = (fst (run_all ?B cs (store_opened ci s1)), (k2, s2))"
    "store_opened ci s2 = snd (run_all ?B cs (store_opened ci s1))" "store_sealed ci s2" by auto
  with 1 show ?case by (simp add: Let_def split: prod.split)
qed simp

definition plain_cipher :: cipher where
  "plain_cipher = \<lparr>ci_nonce = (\<lambda>k. replicate NONCE_LEN (of_nat k)), ci_encrypt = (\<lambda>_. Some), ci_decrypt = (\<lambda>_. Some),
     b64_encode = text_of, b64_decode = (\<lambda>t. Some (bytes_of t))\<rparr>"

lemma plain_cipher_ok: "cipher_ok plain_cipher"
  by (simp add: cipher_ok_def plain_cipher_def)

definition two_calls :: "call list" where
  "two_calls = [CreateNote (new_note 5 3 ''Title'' ''body''), ReadNote 5]"

lemma two_calls_fit: "list_all call_fits two_calls"
  by (simp add: two_calls_def note_fits_def new_note_def text_fits_def P_MAX_def) code_simp

theorem encrypted_refines_plain_witness:
  "\<exists>k' s'. run_all (encrypted_backend unary_codec 1 plain_cipher (db_backend unary_codec offline)) two_calls (0, empty_db ''A'') =
      (fst (run_all (db_backend unary_codec offline) two_calls (store_opened plain_cipher (empty_db ''A''))), (k', s')) \<and>
    store_opened plain_cipher s' = snd (run_all (db_backend unary_codec offline) two_calls (store_opened plain_cipher (empty_db ''A''))) \<and>
    store_sealed plain_cipher s'"
  by (rule encrypted_refines_plain [OF plain_cipher_ok two_calls_fit]) (simp add: store_sealed_def db_ok_def empty_db_def)

text \<open>
  A deletion received for a note the device never had leaves a row with empty texts, which are no sealed
  texts: the SQL backend reads the row, the wrapper reports corrupted data.
\<close>

lemma received_deletion_unreadable:
  assumes "cipher_ok ci" "b64_encode ci [] = []" "fmlookup (db_notes s) i = None"
  shows "fst (read_note (encrypted_backend tc fuel ci (db_backend tc rm)) i (k, db_apply (NoteDelete i t v w) s)) = Inl CorruptedData"
    and "\<exists>n. fst (read_note (db_backend tc rm) i (db_apply (NoteDelete i t v w) s)) = Inr n"
proof -
  have "b64_decode ci [] = Some []" using cipher_simps(2) [OF assms(1), of "[]"] assms(2) by simp
  then have d: "decrypt_str ci [] = Inl CorruptedData" by (simp add: decrypt_str_def NONCE_LEN_def)
  have "fmlookup (db_notes (db_apply (NoteDelete i t v w) s)) i = Some (note_stub i t v w)"
    using assms(3) by (simp add: db_apply_note_delete_def note_meta_def incoming_wins_def Let_def)
  then show "fst (read_note (encrypted_backend tc fuel ci (db_backend tc rm)) i (k, db_apply (NoteDelete i t v w) s)) = Inl CorruptedData"
    and "\<exists>n. fst (read_note (db_backend tc rm) i (db_apply (NoteDelete i t v w) s)) = Inr n"
    by (simp_all add: encrypted_ops opened_def inside_def db_read_note_def dec_note_def note_stub_def d)
qed

end
