(* ===== verification/Collab_Client.thy ===== *)
theory Collab_Client
  imports Collab_State Storage
begin

text \<open>
  The client of the collaborative channel: \<open>keeplin-core/src/compat.rs\<close> (the version handshake), the
  messages of \<open>collab/protocol.rs\<close> and \<open>collab/mod.rs\<close>, a backend around another one that sends note
  edits to the server as line operations and writes what the server sends through the whole stack
  of decorators. The outcomes of the HTTP requests, the readings of the clock and the fresh identifiers are
  parameters, each taken in the order of use; requests and queued messages are recorded.
\<close>

section \<open>The version handshake\<close>

definition PROTOCOL_VERSION :: u32 where
  "PROTOCOL_VERSION = 1"

definition compatible_with :: "u32 \<Rightarrow> bool" where
  "compatible_with server_protocol = (server_protocol = PROTOCOL_VERSION)"

record ServerInfo =
  si_name :: string
  si_version :: string
  si_protocol_version :: u32
  si_capabilities :: "string list"

datatype Handshake = Compatible ServerInfo | Incompatible ServerInfo | Unavailable

text \<open>The answer to \<open>GET /version\<close>: none, or not successful, or not readable, or the server's info.\<close>

datatype version_reply = NoReply | BadStatus | NotJson | GotInfo ServerInfo

definition negotiate :: "version_reply \<Rightarrow> Handshake" where
  "negotiate reply = (case reply of
     GotInfo info \<Rightarrow> if compatible_with (si_protocol_version info) then Compatible info else Incompatible info
   | _ \<Rightarrow> Unavailable)"

text \<open>The text of the error of \<open>start\<close>.\<close>

definition incompatible_message :: "ServerInfo \<Rightarrow> string" where
  "incompatible_message info =
    (let direction = (if PROTOCOL_VERSION < si_protocol_version info
           then ''The server is newer: upgrade this keeplin client/daemon to a release '' @
                ''that speaks the server's protocol.''
           else ''The client is newer: upgrade keeplin-srv (its Cargo.toml pins a '' @
                ''keeplin-core rev; bump it to a matching release and run its test '' @
                ''suite), or downgrade this client.'')
     in ''incompatible sync server: '' @ (if si_name info = [] then ''server'' else si_name info) @ '' '' @
        (if si_version info = [] then ''(unknown version)'' else si_version info) @ '' speaks protocol '' @
        show_nat (unat (si_protocol_version info)) @ '' but this client speaks protocol '' @
        show_nat (unat PROTOCOL_VERSION) @ ''. '' @ direction @ '' Sync is disabled until the versions match.'')"

section \<open>Messages\<close>

record Cursor =
  cu_line_id :: uuid
  cu_column :: nat

record PresenceInfo =
  pi_user_id :: string
  pi_display_name :: string
  pi_cursor :: "Cursor option"

datatype CollabClientMsg =
    Join uuid | Leave uuid | ClientOp uuid "LineOp list" | MoveCursor uuid Cursor | Ack u64

text \<open>Arguments in the order of the fields; the text of an error is dropped.\<close>

datatype CollabServerMsg =
    Welcome uuid NoteLinesSnapshot
  | ServerOp u64 uuid string "LineOp list"
  | Presence uuid "PresenceInfo list"
  | ServerError string "uuid option"

text \<open>\<open>token.split('.').nth(1)\<close>, decoded by base64 and JSON to the claim \<open>device_id\<close>.\<close>

definition device_id_from_token :: "(string \<Rightarrow> string option) \<Rightarrow> string \<Rightarrow> string option" where
  "device_id_from_token claim token = (case split_on CHR ''.'' token of
     _ # payload # _ \<Rightarrow> claim payload | _ \<Rightarrow> None)"

section \<open>State\<close>

datatype http_call =
    PostNote uuid string
  | PatchNote uuid string uuid bool "ts option" "ts option"
  | DeleteNote uuid
  | PutBlob uuid "u8 list"
  | GetBlob uuid

datatype http_result = HttpFailed | HttpRefused | HttpOk "u8 list option"

record collab_env =
  ce_device_id :: string
  ce_http :: "nat \<Rightarrow> http_result"
  ce_now :: "nat \<Rightarrow> ts"
  ce_ids :: "nat \<Rightarrow> nat \<Rightarrow> uuid"

text \<open>
  What \<open>Shared\<close> holds, with the backend inside: the requests made, the messages queued, and how many
  times the clock has been read (a reading comes with a supply of fresh identifiers).
\<close>

record 's Co =
  co_inner :: 's
  co_notes :: "(uuid, NoteLines) fmap"
  co_suppress :: "uuid fset"
  co_presence :: "(uuid, PresenceInfo list) fmap"
  co_out :: "CollabClientMsg list"
  co_pending :: "uuid fset"
  co_calls :: "http_call list"
  co_ticks :: nat

definition http :: "collab_env \<Rightarrow> http_call \<Rightarrow> 's Co \<Rightarrow> http_result \<times> 's Co" where
  "http e call s = (ce_http e (length (co_calls s)), s\<lparr>co_calls := co_calls s @ [call]\<rparr>)"

definition enqueue :: "CollabClientMsg \<Rightarrow> 's Co \<Rightarrow> 's Co" where
  "enqueue msg s = s\<lparr>co_out := co_out s @ [msg]\<rparr>"

definition within :: "('a, 's) act \<Rightarrow> ('a, 's Co) act" where
  "within f s = (case f (co_inner s) of (r, t) \<Rightarrow> (r, s\<lparr>co_inner := t\<rparr>))"

definition no_lines :: NoteLines where
  "no_lines = \<lparr>nl_order = [], nl_lines = fmempty, nl_vv = fmempty\<rparr>"

section \<open>The handle\<close>

definition presence :: "uuid \<Rightarrow> 's Co \<Rightarrow> PresenceInfo list" where
  "presence note_id s = (case fmlookup (co_presence s) note_id of None \<Rightarrow> [] | Some users \<Rightarrow> users)"

definition send_cursor :: "uuid \<Rightarrow> Cursor \<Rightarrow> 's Co \<Rightarrow> 's Co" where
  "send_cursor note_id cursor s = enqueue (MoveCursor note_id cursor) s"

section \<open>Local edits\<close>

definition suppressed :: "uuid \<Rightarrow> 's Co \<Rightarrow> bool" where
  "suppressed i s = (i |\<in>| co_suppress s)"

definition push_local_edit :: "collab_env \<Rightarrow> Note \<Rightarrow> 's Co \<Rightarrow> 's Co" where
  "push_local_edit e note s =
    (let lines = (case fmlookup (co_notes s) (n_id note) of None \<Rightarrow> no_lines | Some lines \<Rightarrow> lines);
         (ops, lines) = diff_body (n_body note) (ce_device_id e) (ce_now e (co_ticks s)) (ce_ids e (co_ticks s)) lines;
         s = s\<lparr>co_notes := fmupd (n_id note) lines (co_notes s), co_ticks := co_ticks s + 1\<rparr>
     in case ops of
          Inl violation \<Rightarrow> s
        | Inr ops \<Rightarrow> if ops = [] then s else enqueue (ClientOp (n_id note) ops) s)"

definition patch_meta :: "collab_env \<Rightarrow> Note \<Rightarrow> 's Co \<Rightarrow> 's Co" where
  "patch_meta e note s = snd (http e (PatchNote (n_id note) (n_title note) (n_notebook_id note) (n_is_todo note)
     (n_todo_due note) (n_todo_completed note)) s)"

text \<open>\<open>upload_blob\<close>: at most five attempts, while the server does not accept the payload yet.\<close>

fun upload_attempts :: "nat \<Rightarrow> collab_env \<Rightarrow> uuid \<Rightarrow> u8 list \<Rightarrow> 's Co \<Rightarrow> 's Co" where
  "upload_attempts 0 e i data s = s"
| "upload_attempts (Suc k) e i data s = (case http e (PutBlob i data) s of
     (HttpOk _, s) \<Rightarrow> s
   | (HttpRefused, s) \<Rightarrow> upload_attempts k e i data s
   | (HttpFailed, s) \<Rightarrow> s)"

definition upload_blob :: "collab_env \<Rightarrow> uuid \<Rightarrow> u8 list \<Rightarrow> 's Co \<Rightarrow> 's Co" where
  "upload_blob = upload_attempts 5"

definition download_blob :: "collab_env \<Rightarrow> uuid \<Rightarrow> 's Co \<Rightarrow> u8 list option \<times> 's Co" where
  "download_blob e i s = (case http e (GetBlob i) s of (HttpOk bytes, s) \<Rightarrow> (bytes, s) | (_, s) \<Rightarrow> (None, s))"

section \<open>The backend\<close>

definition body_gate :: "Note \<Rightarrow> (unit, 's Co) act" where
  "body_gate note s = (if suppressed (n_id note) s then (Inr (), s)
     else case check_body (n_body note) of Inl v \<Rightarrow> (Inl (storage_error_of v), s) | Inr _ \<Rightarrow> (Inr (), s))"

definition co_create_note :: "collab_env \<Rightarrow> 's backend \<Rightarrow> Note \<Rightarrow> (Note, 's Co) act" where
  "co_create_note e be note s =
     and_then (body_gate note s) (\<lambda>_ s.
     and_then (within (create_note be note) s) (\<lambda>created s.
       if suppressed (n_id created) s then (Inr created, s)
       else let s = s\<lparr>co_pending := finsert (n_id created) (co_pending s)\<rparr>;
                s = snd (http e (PostNote (n_id created) (n_title created)) s);
                s = patch_meta e created s;
                s = enqueue (Join (n_id created)) s
            in (Inr created, s)))"

definition co_read_note :: "'s backend \<Rightarrow> uuid \<Rightarrow> (Note, 's Co) act" where
  "co_read_note be i = within (read_note be i)"

definition meta_changed :: "StorageError + Note \<Rightarrow> Note \<Rightarrow> bool" where
  "meta_changed previous updated = (case previous of
     Inl _ \<Rightarrow> True
   | Inr p \<Rightarrow> n_title p \<noteq> n_title updated \<or> n_notebook_id p \<noteq> n_notebook_id updated \<or> n_is_todo p \<noteq> n_is_todo updated \<or>
       n_todo_due p \<noteq> n_todo_due updated \<or> n_todo_completed p \<noteq> n_todo_completed updated)"

definition co_update_note :: "collab_env \<Rightarrow> 's backend \<Rightarrow> Note \<Rightarrow> (Note, 's Co) act" where
  "co_update_note e be note s =
     and_then (body_gate note s) (\<lambda>_ s.
       let (previous, s) = within (read_note be (n_id note)) s in
       and_then (within (update_note be note) s) (\<lambda>updated s.
         if suppressed (n_id updated) s then (Inr updated, s)
         else let s = (if meta_changed previous updated then patch_meta e updated s else s);
                  s = (if n_id updated |\<in>| co_pending s then s else push_local_edit e updated s)
              in (Inr updated, s)))"

definition co_delete_note :: "collab_env \<Rightarrow> 's backend \<Rightarrow> uuid \<Rightarrow> (unit, 's Co) act" where
  "co_delete_note e be i s =
     and_then (within (delete_note be i) s) (\<lambda>_ s.
       if suppressed i s then (Inr (), s)
       else let s = snd (http e (DeleteNote i) s)
            in (Inr (), s\<lparr>co_notes := fmdrop i (co_notes s)\<rparr>))"

definition co_create_resource :: "collab_env \<Rightarrow> 's backend \<Rightarrow> Resource \<Rightarrow> u8 list \<Rightarrow> (Resource, 's Co) act" where
  "co_create_resource e be resource data s =
     and_then (within (create_resource be resource data) s) (\<lambda>created s.
       let s = snd (within (send_changes be [ResourceCreate created None]) s)
       in (Inr created, upload_blob e (r_id created) data s))"

definition co_read_resource :: "collab_env \<Rightarrow> 's backend \<Rightarrow> uuid \<Rightarrow> (Resource \<times> u8 list, 's Co) act" where
  "co_read_resource e be i s =
     and_then (within (read_resource be i) s) (\<lambda>(resource, data) s.
       if data = [] \<and> 0 < r_size resource
       then (case download_blob e i s of
               (Some bytes, s) \<Rightarrow> (Inr (resource, bytes), s)
             | (None, s) \<Rightarrow> (Inr (resource, data), s))
       else (Inr (resource, data), s))"

fun is_note_change :: "Change \<Rightarrow> bool" where
  "is_note_change (NoteCreate _) = True"
| "is_note_change (NoteUpdate _) = True"
| "is_note_change (NoteDelete _ _ _ _) = True"
| "is_note_change _ = False"

fun strip_resource_blob :: "Change \<Rightarrow> Change" where
  "strip_resource_blob (ResourceCreate resource _) = ResourceCreate resource None"
| "strip_resource_blob other = other"

definition co_get_changes_since :: "'s backend \<Rightarrow> ts \<Rightarrow> (Change list, 's Co) act" where
  "co_get_changes_since be since s =
     and_then (within (get_changes_since be since) s) (\<lambda>changes s.
       (Inr (map strip_resource_blob (filter (\<lambda>c. \<not> is_note_change c) changes)), s))"

definition co_apply_change :: "'s backend \<Rightarrow> Change \<Rightarrow> (unit, 's Co) act" where
  "co_apply_change be change s = (if is_note_change change then (Inr (), s) else within (apply_change be change) s)"

text \<open>The other operations go to the backend inside.\<close>

definition collab_base :: "collab_env \<Rightarrow> 's backend \<Rightarrow> 's Co backend" where
  "collab_base e be =
     \<lparr>create_note = co_create_note e be, read_note = co_read_note be, update_note = co_update_note e be,
      delete_note = co_delete_note e be,
      list_notes = (\<lambda>z tok. within (list_notes be z tok)),
      list_notes_in_notebook = (\<lambda>i z tok. within (list_notes_in_notebook be i z tok)),
      list_starred_notes = (\<lambda>z tok. within (list_starred_notes be z tok)),
      notebook_sort_profile = (\<lambda>i. within (notebook_sort_profile be i)),
      note_backlinks = (\<lambda>i z tok. within (note_backlinks be i z tok)),
      create_notebook = (\<lambda>nb. within (create_notebook be nb)), read_notebook = (\<lambda>i. within (read_notebook be i)),
      update_notebook = (\<lambda>nb. within (update_notebook be nb)), delete_notebook = (\<lambda>i. within (delete_notebook be i)),
      list_notebooks = (\<lambda>z tok. within (list_notebooks be z tok)),
      create_tag = (\<lambda>t. within (create_tag be t)), read_tag = (\<lambda>i. within (read_tag be i)),
      update_tag = (\<lambda>t. within (update_tag be t)), delete_tag = (\<lambda>i. within (delete_tag be i)),
      list_tags = (\<lambda>z tok. within (list_tags be z tok)), add_note_tag = (\<lambda>nt. within (add_note_tag be nt)),
      remove_note_tag = (\<lambda>i j. within (remove_note_tag be i j)), list_note_tags = (\<lambda>i z tok. within (list_note_tags be i z tok)),
      create_resource = co_create_resource e be, read_resource = co_read_resource e be,
      delete_resource = (\<lambda>i. within (delete_resource be i)), list_resources = (\<lambda>z tok. within (list_resources be z tok)),
      list_resources_for_note = (\<lambda>_ _ _ s. (Inl Panic, s)),
      purge_deleted_resources = (\<lambda>t. within (purge_deleted_resources be t)),
      get_changes_since = co_get_changes_since be, apply_change = co_apply_change be,
      get_last_sync_time = within (get_last_sync_time be), update_sync_time = (\<lambda>t. within (update_sync_time be t)),
      send_changes = (\<lambda>cs. within (send_changes be cs)), receive_changes = within (receive_changes be),
      prune_change_journal = (\<lambda>t. within (prune_change_journal be t)), get_device_id = within (get_device_id be),
      note_history = (\<lambda>i l. within (note_history be i l)), notebook_history = (\<lambda>i l. within (notebook_history be i l))\<rparr>"

text \<open>\<open>list_resources_for_note\<close> is the provided method over the wrapper; \<open>Panic\<close> when its fuel ends.\<close>

definition collab_backend :: "'c text_codec_scheme \<Rightarrow> nat \<Rightarrow> collab_env \<Rightarrow> 's backend \<Rightarrow> 's Co backend" where
  "collab_backend tc fuel e be = (collab_base e be)\<lparr>list_resources_for_note := (\<lambda>note_id page_size token s.
     case default_list_resources_for_note tc fuel (collab_base e be) note_id page_size token s of
       None \<Rightarrow> (Inl Panic, s) | Some r \<Rightarrow> r)\<rparr>"

section \<open>What the server sends\<close>

text \<open>
  \<open>stack\<close> is the backend at the top of the stack, set by \<open>start\<close>. A write of the server's content is
  made with the note suppressed; its failure is logged.
\<close>

definition apply_from_server :: "'s Co backend \<Rightarrow> Note \<Rightarrow> bool \<Rightarrow> (unit, 's Co) act" where
  "apply_from_server stack note create s =
    (let s = s\<lparr>co_suppress := finsert (n_id note) (co_suppress s)\<rparr>;
         (result, s) = (if create then create_note stack note s else update_note stack note s);
         s = s\<lparr>co_suppress := co_suppress s |-| {|n_id note|}\<rparr>
     in (map_sum id (\<lambda>_. ()) result, s))"

definition tick :: "collab_env \<Rightarrow> 's Co \<Rightarrow> ts \<times> 's Co" where
  "tick e s = (ce_now e (co_ticks s), s\<lparr>co_ticks := co_ticks s + 1\<rparr>)"

definition write_body :: "collab_env \<Rightarrow> 's Co backend \<Rightarrow> uuid \<Rightarrow> string \<Rightarrow> 's Co \<Rightarrow> 's Co" where
  "write_body e stack note_id body s = (case read_note stack note_id s of
     (Inr note, s) \<Rightarrow>
       if n_body note \<noteq> body
       then let (now, s) = tick e s
            in snd (apply_from_server stack (note\<lparr>n_body := body, n_updated_at := now\<rparr>) False s)
       else s
   | (Inl _, s) \<Rightarrow>
       let (now, s) = tick e s
       in snd (apply_from_server stack (new_note note_id now [] body) True s))"

definition resync_note :: "uuid \<Rightarrow> 's Co \<Rightarrow> 's Co" where
  "resync_note note_id s =
     enqueue (Join note_id) (enqueue (Leave note_id)
       (s\<lparr>co_notes := fmdrop note_id (co_notes s), co_pending := co_pending s |-| {|note_id|}\<rparr>))"

definition adopt :: "collab_env \<Rightarrow> 's Co backend \<Rightarrow> uuid \<Rightarrow> NoteLines \<Rightarrow> 's Co \<Rightarrow> 's Co" where
  "adopt e stack note_id lines s =
     write_body e stack note_id (materialize lines) (s\<lparr>co_notes := fmupd note_id lines (co_notes s)\<rparr>)"

fun handle_server_msg :: "collab_env \<Rightarrow> 's Co backend \<Rightarrow> CollabServerMsg \<Rightarrow> 's Co \<Rightarrow> 's Co" where
  "handle_server_msg e stack (Welcome note_id snapshot) s =
    (let lines = from_snapshot snapshot in
     if note_id |\<in>| co_pending s
     then let s = s\<lparr>co_pending := co_pending s |-| {|note_id|}\<rparr>;
              (read, s) = read_note stack note_id s;
              local_body = (case read of Inl _ \<Rightarrow> [] | Inr n \<Rightarrow> n_body n);
              (ops, lines) = diff_body local_body (ce_device_id e) (ce_now e (co_ticks s)) (ce_ids e (co_ticks s)) lines;
              s = s\<lparr>co_ticks := co_ticks s + 1\<rparr>
          in (case ops of
                Inr ops \<Rightarrow>
                  let s = s\<lparr>co_notes := fmupd note_id lines (co_notes s)\<rparr>
                  in if ops = [] then s else enqueue (ClientOp note_id ops) s
              | Inl violation \<Rightarrow> adopt e stack note_id lines s)
     else adopt e stack note_id lines s)"
| "handle_server_msg e stack (ServerOp server_seq note_id user_id ops) s =
    (case fmlookup (co_notes s) note_id of
       None \<Rightarrow> s
     | Some lines \<Rightarrow> adopt e stack note_id (fold apply_line_op ops lines) s)"
| "handle_server_msg e stack (ServerError c note_id) s =
    (case note_id of
       Some note_id \<Rightarrow> if is_limit_code c then resync_note note_id s else s
     | None \<Rightarrow> s)"
| "handle_server_msg e stack (Presence note_id users) s = s\<lparr>co_presence := fmupd note_id users (co_presence s)\<rparr>"

section \<open>The connection\<close>

record ServerNote =
  sv_id :: uuid
  sv_title :: string
  sv_notebook_id :: "uuid option"
  sv_is_todo :: bool
  sv_todo_due :: "ts option"
  sv_todo_completed :: "ts option"
  sv_created_at :: ts
  sv_updated_at :: ts

definition ensure_local :: "'s Co backend \<Rightarrow> ServerNote \<Rightarrow> 's Co \<Rightarrow> 's Co" where
  "ensure_local stack server_note s = (case read_note stack (sv_id server_note) s of
     (Inr _, s) \<Rightarrow> s
   | (Inl _, s) \<Rightarrow>
       let note = (new_note (sv_id server_note) (sv_created_at server_note) (sv_title server_note) [])
             \<lparr>n_notebook_id := (case sv_notebook_id server_note of None \<Rightarrow> uuid_nil | Some i \<Rightarrow> i),
              n_is_todo := sv_is_todo server_note, n_todo_due := sv_todo_due server_note,
              n_todo_completed := sv_todo_completed server_note, n_updated_at := sv_updated_at server_note\<rparr>
       in snd (apply_from_server stack note True s))"

text \<open>
  One connection: the notes joined on it, the frames sent, and whether it still runs. \<open>ws k\<close> says whether
  the send after \<open>k\<close> sent frames succeeds; one that fails ends the connection. A page of the server's
  note list is a list of notes, or none when the request fails.
\<close>

record conn =
  cn_joined :: "uuid fset"
  cn_sent :: "CollabClientMsg list"
  cn_open :: bool

definition conn_send :: "(nat \<Rightarrow> bool) \<Rightarrow> CollabClientMsg \<Rightarrow> conn \<Rightarrow> conn" where
  "conn_send ws msg c = (if ws (length (cn_sent c)) then c\<lparr>cn_sent := cn_sent c @ [msg]\<rparr> else c\<lparr>cn_open := False\<rparr>)"

definition join_listed :: "(nat \<Rightarrow> bool) \<Rightarrow> 's Co backend \<Rightarrow> ServerNote \<Rightarrow> 's Co \<times> conn \<Rightarrow> 's Co \<times> conn" where
  "join_listed ws stack server_note = (\<lambda>(s, c).
     if \<not> cn_open c \<or> sv_id server_note |\<in>| cn_joined c then (s, c)
     else let s = ensure_local stack server_note s;
              c = conn_send ws (Join (sv_id server_note)) c
          in (s, if cn_open c then c\<lparr>cn_joined := finsert (sv_id server_note) (cn_joined c)\<rparr> else c))"

fun discover_and_join :: "(nat \<Rightarrow> bool) \<Rightarrow> 's Co backend \<Rightarrow> ServerNote list option list \<Rightarrow> 's Co \<times> conn \<Rightarrow> 's Co \<times> conn" where
  "discover_and_join ws stack [] sc = sc"
| "discover_and_join ws stack (None # pages) (s, c) = (s, c\<lparr>cn_open := False\<rparr>)"
| "discover_and_join ws stack (Some listing # pages) sc =
     (let sc = fold (join_listed ws stack) listing sc
      in if cn_open (snd sc) then discover_and_join ws stack pages sc else sc)"

datatype conn_event = Queued | Frame "CollabServerMsg option" | Closed | Rediscover "ServerNote list option list"

text \<open>
  One turn of the loop of \<open>connect_once\<close>: a queued message, a frame (which may not decode), the end of
  the socket, the timer.
\<close>

fun conn_turn :: "collab_env \<Rightarrow> (nat \<Rightarrow> bool) \<Rightarrow> 's Co backend \<Rightarrow> conn_event \<Rightarrow> 's Co \<times> conn \<Rightarrow> 's Co \<times> conn" where
  "conn_turn e ws stack Queued (s, c) = (case co_out s of
     [] \<Rightarrow> (s, c)
   | msg # rest \<Rightarrow>
       let s = s\<lparr>co_out := rest\<rparr> in
       (case msg of
          Join note_id \<Rightarrow>
            if note_id |\<in>| cn_joined c then (s, c)
            else (s, conn_send ws msg (c\<lparr>cn_joined := finsert note_id (cn_joined c)\<rparr>))
        | Leave note_id \<Rightarrow> (s, conn_send ws msg (c\<lparr>cn_joined := cn_joined c |-| {|note_id|}\<rparr>))
        | _ \<Rightarrow> (s, conn_send ws msg c)))"
| "conn_turn e ws stack (Frame frame) (s, c) = (case frame of
     None \<Rightarrow> (s, c) | Some msg \<Rightarrow> (handle_server_msg e stack msg s, c))"
| "conn_turn e ws stack Closed (s, c) = (s, c\<lparr>cn_open := False\<rparr>)"
| "conn_turn e ws stack (Rediscover pages) sc = discover_and_join ws stack pages sc"

fun conn_loop :: "collab_env \<Rightarrow> (nat \<Rightarrow> bool) \<Rightarrow> 's Co backend \<Rightarrow> conn_event list \<Rightarrow> 's Co \<times> conn \<Rightarrow> 's Co \<times> conn" where
  "conn_loop e ws stack [] sc = sc"
| "conn_loop e ws stack (event # events) sc =
     (if cn_open (snd sc) then conn_loop e ws stack events (conn_turn e ws stack event sc) else sc)"

definition connect_once :: "collab_env \<Rightarrow> (nat \<Rightarrow> bool) \<Rightarrow> 's Co backend \<Rightarrow> ServerNote list option list \<Rightarrow> conn_event list \<Rightarrow>
    's Co \<Rightarrow> 's Co \<times> conn" where
  "connect_once e ws stack pages events s =
     conn_loop e ws stack events (discover_and_join ws stack pages (s, \<lparr>cn_joined = {||}, cn_sent = [], cn_open = True\<rparr>))"

text \<open>
  \<open>run_connection\<close> connects again and again; the state after some connections, each given by its sends,
  its first pages and its events. An attempt that does not get through changes nothing.
\<close>

definition run_connection :: "collab_env \<Rightarrow> 's Co backend \<Rightarrow>
    ((nat \<Rightarrow> bool) \<times> ServerNote list option list \<times> conn_event list) list \<Rightarrow> 's Co \<Rightarrow> 's Co" where
  "run_connection e stack conns s = fold (\<lambda>(ws, pages, events) s. fst (connect_once e ws stack pages events s)) conns s"

text \<open>\<open>start\<close>: no connection to a server of another protocol.\<close>

definition start :: "version_reply \<Rightarrow> unit res" where
  "start reply = (case negotiate reply of Incompatible info \<Rightarrow> Inl InvalidState | _ \<Rightarrow> Inr ())"

end
