(* ===== verification/Collab_Laws.thy ===== *)
theory Collab_Laws
  imports Collab_Client Ordering
begin

text \<open>
  The collaborative client keeps the stored body of a note equal to its lines: over any store of notes
  with the contract \<open>body_store\<close>. The server's part is stated where it is used: snapshots list a line
  once, and its operations name lines the way \<open>ops_ok\<close> says.
\<close>

section \<open>Operations that keep the order of lines\<close>

fun op_ok :: "LineOp \<Rightarrow> NoteLines \<Rightarrow> bool" where
  "op_ok (Insert a i c v w t) nl = (i \<notin> set (nl_order nl))"
| "op_ok (Move ls a v w t) nl = distinct ls"
| "op_ok _ nl = True"

fun ops_ok :: "LineOp list \<Rightarrow> NoteLines \<Rightarrow> bool" where
  "ops_ok [] nl = True"
| "ops_ok (c # ops) nl = (op_ok c nl \<and> ops_ok ops (apply_line_op c nl))"

lemma distinct_step: "op_ok c nl \<Longrightarrow> distinct (nl_order nl) \<Longrightarrow> distinct (nl_order (apply_line_op c nl))"
proof (cases c)
  case (Insert a i x v w t)
  assume "op_ok c nl" "distinct (nl_order nl)"
  with Insert have d: "distinct (i # take k (nl_order nl) @ drop k (nl_order nl))" for k by simp
  have "distinct (take k (nl_order nl) @ i # drop k (nl_order nl))" for k
    using d [of k] by (simp only: distinct.simps distinct_append set_append list.set) blast
  with Insert show ?thesis by (simp add: insert_at_def)
next
  case (Move ls a v w t)
  assume "op_ok c nl" "distinct (nl_order nl)"
  with Move have d: "distinct (ls @ take k xs @ drop k xs)" if "xs = filter (\<lambda>i. i \<notin> set ls) (nl_order nl)" for k xs
    using that by auto
  have "distinct (take k xs @ ls @ drop k xs)" if "xs = filter (\<lambda>i. i \<notin> set ls) (nl_order nl)" for k xs
    using d [OF that, of k] by (simp only: distinct_append set_append) blast
  with Move show ?thesis by (simp add: Let_def)
qed (simp_all del: apply_line_op.simps)

lemma distinct_ops: "ops_ok ops nl \<Longrightarrow> distinct (nl_order nl) \<Longrightarrow> distinct (nl_order (fold apply_line_op ops nl))"
  by (induction ops arbitrary: nl) (simp_all del: apply_line_op.simps add: distinct_step)

lemma ops_ok_append: "ops_ok (xs @ ys) nl \<longleftrightarrow> ops_ok xs nl \<and> ops_ok ys (fold apply_line_op xs nl)"
  by (induction xs arbitrary: nl) (simp_all del: apply_line_op.simps)

text \<open>The operations a difference yields are of this kind, for fresh identifiers.\<close>

lemma in_place_ok:
  assumes "\<forall>c\<in>set ops. (\<exists>u x v w t. c = Update u x v w t) \<or> (\<exists>u d v w t. c = Delete u d v w t)"
  shows "ops_ok ops nl \<and> nl_order (fold apply_line_op ops nl) = nl_order nl"
  using assms by (induction ops arbitrary: nl) (auto simp del: apply_line_op.simps)

text \<open>As many fresh identifiers as a note may have lines.\<close>

definition fresh_ids :: "(nat \<Rightarrow> uuid) \<Rightarrow> NoteLines \<Rightarrow> bool" where
  "fresh_ids fresh nl \<longleftrightarrow> inj_on fresh {..<MAX_LINES_PER_NOTE} \<and> (\<forall>j<MAX_LINES_PER_NOTE. fresh j \<notin> set (nl_order nl))"

lemma insert_ops_ok:
  assumes "inj_on fresh {..<N}" "i + length cs \<le> N" "\<forall>j<N. i \<le> j \<longrightarrow> fresh j \<notin> set (nl_order nl)"
  shows "ops_ok (insert_ops cs a v d t fresh i) nl"
  using assms(2,3)
proof (induction cs arbitrary: nl a v i)
  case (Cons c cs)
  let ?nl = "apply_line_op (Insert a (fresh i) c (bump v d) d t) nl"
  have "\<forall>j<N. i + 1 \<le> j \<longrightarrow> fresh j \<notin> set (nl_order ?nl)"
  proof (intro allI impI)
    fix j assume j: "j < N" "i + 1 \<le> j"
    then have "fresh j \<noteq> fresh i" using assms(1) by (auto dest: inj_onD)
    moreover have "fresh j \<notin> set (nl_order nl)" using Cons.prems j by simp
    ultimately show "fresh j \<notin> set (nl_order ?nl)" by (simp add: insert_at_def) (metis in_set_dropD in_set_takeD)
  qed
  then have "ops_ok (insert_ops cs (Some (fresh i)) (bump v d) d t fresh (i + 1)) ?nl" using Cons.prems(1) by (intro Cons.IH) simp_all
  with Cons.prems show ?case by (simp add: Let_def del: apply_line_op.simps)
qed simp

lemma diff_ops_ok:
  assumes "fresh_ids fresh nl" "length new \<le> MAX_LINES_PER_NOTE"
  shows "ops_ok (diff_ops nl new d t fresh) nl"
proof -
  obtain us cs a v where ops: "diff_ops nl new d t fresh = us @ insert_ops cs a v d t fresh 0" and len: "length cs \<le> length new"
    and us: "\<forall>c\<in>set us. (\<exists>u x v w t. c = Update u x v w t) \<or> (\<exists>u d v w t. c = Delete u d v w t)"
  proof -
    let ?P = "\<lambda>us. \<forall>c\<in>set us. (\<exists>u x v w t. c = Update u x v w t) \<or> (\<exists>u d v w t. c = Delete u d v w t)"
    have "\<exists>us cs a v. diff_ops nl new d t fresh = us @ insert_ops cs a v d t fresh 0 \<and> length cs \<le> length new \<and> ?P us"
      unfolding diff_ops_def Let_def append_assoc [symmetric]
      by (rule exI, rule exI, rule exI, rule exI, rule conjI, rule refl) (auto split: if_splits)
    with that show thesis by blast
  qed
  have "ops_ok (insert_ops cs a v d t fresh 0) (fold apply_line_op us nl)"
    by (rule insert_ops_ok [where N = MAX_LINES_PER_NOTE]) (use assms len in_place_ok [OF us, of nl] in \<open>simp_all add: fresh_ids_def\<close>)
  with in_place_ok [OF us, of nl] show ?thesis unfolding ops ops_ok_append by simp
qed

lemma diff_body_keeps:
  assumes "diff_body body d t fresh nl = (Inr ops, nl')" "distinct (nl_order nl)" "fresh_ids fresh nl"
  shows "distinct (nl_order nl') \<and> materialize nl' = body"
proof -
  have nl': "nl' = fold apply_line_op (diff_ops nl (body_lines body) d t fresh) nl" and ok: "check_body body = Inr ()"
    using assms(1) by (auto simp: diff_body_def Let_def split: sum.splits)
  have len: "length (body_lines body) \<le> MAX_LINES_PER_NOTE"
    using ok by (auto simp: check_body_def body_lines_def try_then_ok check_lines_ok check_line_count_def split: if_splits)
  then have "visible_lines nl' = body_lines body"
    unfolding nl' using assms(2,3) by (intro diff_visible) (auto simp: fresh_ids_def intro: inj_on_subset)
  then have "materialize nl' = body" by (simp add: materialize_visible body_lines_def)
  with distinct_ops [OF diff_ops_ok [OF assms(3) len] assms(2)] show ?thesis by (simp add: nl')
qed

section \<open>The contract of the store\<close>

locale body_store = note_repo be stored_notes inv
  for be :: "'s backend" and stored_notes :: "'s \<Rightarrow> (uuid, Note) fmap" and inv :: "'s \<Rightarrow> bool" +
  assumes create_new: "inv s \<Longrightarrow> fmlookup (stored_notes s) (n_id n) = None \<Longrightarrow>
      \<exists>n' s' st. create_note be n s = (Inr n', s') \<and> inv s' \<and> same_but_version n n' \<and> same_but_version n st \<and>
        stored_notes s' = fmupd (n_id n) st (stored_notes s)"
    and create_again: "inv s \<Longrightarrow> fmlookup (stored_notes s) (n_id n) = Some old \<Longrightarrow>
      \<exists>err s'. create_note be n s = (Inl err, s') \<and> inv s' \<and> stored_notes s' = stored_notes s"
    and update_none: "inv s \<Longrightarrow> fmlookup (stored_notes s) (n_id n) = None \<Longrightarrow>
      \<exists>err s'. update_note be n s = (Inl err, s') \<and> inv s' \<and> stored_notes s' = stored_notes s"
    and delete_law: "inv s \<Longrightarrow> \<exists>r s'. delete_note be i s = (r, s') \<and> inv s' \<and>
      (\<forall>j. map_option n_body (fmlookup (stored_notes s') j) = map_option n_body (fmlookup (stored_notes s) j))"
    and apply_law: "inv s \<Longrightarrow> \<not> is_note_change c \<Longrightarrow> \<exists>r s'. apply_change be c s = (r, s') \<and> inv s' \<and> stored_notes s' = stored_notes s"

text \<open>The bodies stored, and the client whose lines agree with them.\<close>

definition bodies :: "('s \<Rightarrow> (uuid, Note) fmap) \<Rightarrow> 's Co \<Rightarrow> uuid \<Rightarrow> string option" where
  "bodies stored s i = map_option n_body (fmlookup (stored (co_inner s)) i)"

definition mirrored :: "(uuid \<Rightarrow> string option) \<Rightarrow> 's Co \<Rightarrow> bool" where
  "mirrored B s \<longleftrightarrow> co_suppress s = {||} \<and> (\<forall>i. i |\<in>| co_pending s \<longrightarrow> B i \<noteq> None) \<and>
     (\<forall>i nl. fmlookup (co_notes s) i = Some nl \<longrightarrow> distinct (nl_order nl) \<and> (i |\<notin>| co_pending s \<longrightarrow> B i = Some (materialize nl)))"

definition lines_of :: "uuid \<Rightarrow> 's Co \<Rightarrow> NoteLines" where
  "lines_of i s = (case fmlookup (co_notes s) i of None \<Rightarrow> no_lines | Some nl \<Rightarrow> nl)"

text \<open>What the server is relied on for: snapshots without repeated lines, operations that name lines correctly.\<close>

fun msg_ok :: "collab_env \<Rightarrow> CollabServerMsg \<Rightarrow> 's Co \<Rightarrow> bool" where
  "msg_ok e (Welcome i snapshot) s = (distinct (sn_order snapshot) \<and> fresh_ids (ce_ids e (co_ticks s)) (from_snapshot snapshot))"
| "msg_ok e (ServerOp q i u ops) s = ops_ok ops (lines_of i s)"
| "msg_ok e _ s = True"

lemma same_but_version_ids:
  "same_but_version n n' \<Longrightarrow> n_id n' = n_id n" "same_but_version n n' \<Longrightarrow> n_body n' = n_body n"
  using same_but_versionD [of n n'] by simp_all

context body_store
begin

abbreviation stack :: "'c text_codec_scheme \<Rightarrow> nat \<Rightarrow> collab_env \<Rightarrow> 's Co backend" where
  "stack tc fuel e \<equiv> collab_backend tc fuel e be"

lemma stack_ops [simp]:
  "create_note (stack tc fuel e) = co_create_note e be" "read_note (stack tc fuel e) = co_read_note be"
  "update_note (stack tc fuel e) = co_update_note e be" "delete_note (stack tc fuel e) = co_delete_note e be"
  "apply_change (stack tc fuel e) = co_apply_change be"
  by (simp_all add: collab_backend_def collab_base_def)

lemma read_stack: "inv (co_inner s) \<Longrightarrow> co_read_note be i s =
    (case fmlookup (stored_notes (co_inner s)) i of None \<Rightarrow> (Inl NotFound, s) | Some n \<Rightarrow> (Inr n, s))"
  by (auto simp: co_read_note_def within_def read_law split: option.split)

lemma update_from_server:
  assumes "inv (co_inner s)" "co_suppress s = {||}" "fmlookup (stored_notes (co_inner s)) (n_id n) = Some old"
  shows "\<exists>t. apply_from_server (stack tc fuel e) n False s = (Inr (), s\<lparr>co_inner := t\<rparr>) \<and> inv t \<and>
    (\<exists>st. same_but_version n st \<and> stored_notes t = fmupd (n_id n) st (stored_notes (co_inner s)))"
proof -
  from update_law [OF assms(1,3)] obtain n' t st where u: "update_note be n (co_inner s) = (Inr n', t)" "inv t"
    "same_but_version n n'" "same_but_version n st" "stored_notes t = fmupd (n_id n) st (stored_notes (co_inner s))" by blast
  have r: "read_note be (n_id n) (co_inner s) = (Inr old, co_inner s)" using assms(1,3) by (simp add: read_law)
  have "apply_from_server (stack tc fuel e) n False s = (Inr (), s\<lparr>co_inner := t\<rparr>)"
    using assms(2) same_but_version_ids(1) [OF u(3)]
    by (simp add: apply_from_server_def co_update_note_def body_gate_def suppressed_def within_def r u(1) Let_def)
  with u show ?thesis by blast
qed

lemma create_from_server:
  assumes "inv (co_inner s)" "co_suppress s = {||}" "fmlookup (stored_notes (co_inner s)) (n_id n) = None"
  shows "\<exists>t. apply_from_server (stack tc fuel e) n True s = (Inr (), s\<lparr>co_inner := t\<rparr>) \<and> inv t \<and>
    (\<exists>st. same_but_version n st \<and> stored_notes t = fmupd (n_id n) st (stored_notes (co_inner s)))"
proof -
  from create_new [OF assms(1,3)] obtain n' t st where u: "create_note be n (co_inner s) = (Inr n', t)" "inv t"
    "same_but_version n n'" "same_but_version n st" "stored_notes t = fmupd (n_id n) st (stored_notes (co_inner s))" by blast
  have "apply_from_server (stack tc fuel e) n True s = (Inr (), s\<lparr>co_inner := t\<rparr>)"
    using assms(2) same_but_version_ids(1) [OF u(3)]
    by (simp add: apply_from_server_def co_create_note_def body_gate_def suppressed_def within_def u(1) Let_def)
  with u show ?thesis by blast
qed

text \<open>Writing a body of the server changes the stored body and the clock, nothing else.\<close>

lemma write_body_law:
  assumes "inv (co_inner s)" "co_suppress s = {||}"
  shows "\<exists>t k. write_body e (stack tc fuel e) i body s = s\<lparr>co_inner := t, co_ticks := k\<rparr> \<and> inv t \<and>
    bodies stored_notes (s\<lparr>co_inner := t\<rparr>) = (bodies stored_notes s)(i := Some body)"
proof (cases "fmlookup (stored_notes (co_inner s)) i")
  case None
  let ?s = "s\<lparr>co_ticks := co_ticks s + 1\<rparr>" and ?n = "new_note i (ce_now e (co_ticks s)) [] body"
  have "\<exists>t. apply_from_server (stack tc fuel e) ?n True ?s = (Inr (), ?s\<lparr>co_inner := t\<rparr>) \<and> inv t \<and>
      (\<exists>st. same_but_version ?n st \<and> stored_notes t = fmupd (n_id ?n) st (stored_notes (co_inner ?s)))"
    by (rule create_from_server) (use assms None in \<open>simp_all add: new_note_def\<close>)
  then obtain t st where t: "apply_from_server (stack tc fuel e) ?n True ?s = (Inr (), ?s\<lparr>co_inner := t\<rparr>)" "inv t"
    "same_but_version ?n st" "stored_notes t = fmupd i st (stored_notes (co_inner s))" by (auto simp: new_note_def)
  have "n_body st = body" using same_but_version_ids(2) [OF t(3)] by (simp add: new_note_def)
  then show ?thesis
    using t None assms(1) by (intro exI [of _ t] exI [of _ "co_ticks s + 1"])
      (auto simp: write_body_def read_stack tick_def Let_def bodies_def fun_eq_iff)
next
  case (Some n)
  have i: "n_id n = i" using keyed [OF assms(1) Some] .
  show ?thesis
  proof (cases "n_body n = body")
    case True
    then show ?thesis
      using Some assms(1) by (intro exI [of _ "co_inner s"] exI [of _ "co_ticks s"])
        (auto simp: write_body_def read_stack bodies_def fun_eq_iff)
  next
    case False
    let ?s = "s\<lparr>co_ticks := co_ticks s + 1\<rparr>" and ?n = "n\<lparr>n_body := body, n_updated_at := ce_now e (co_ticks s)\<rparr>"
    have "\<exists>t. apply_from_server (stack tc fuel e) ?n False ?s = (Inr (), ?s\<lparr>co_inner := t\<rparr>) \<and> inv t \<and>
        (\<exists>st. same_but_version ?n st \<and> stored_notes t = fmupd (n_id ?n) st (stored_notes (co_inner ?s)))"
      by (rule update_from_server) (use assms Some i in simp_all)
    then obtain t st where t: "apply_from_server (stack tc fuel e) ?n False ?s = (Inr (), ?s\<lparr>co_inner := t\<rparr>)" "inv t"
      "same_but_version ?n st" "stored_notes t = fmupd i st (stored_notes (co_inner s))" using i by auto
    have "n_body st = body" using same_but_version_ids(2) [OF t(3)] by simp
    then show ?thesis
      using t Some False assms(1) by (intro exI [of _ t] exI [of _ "co_ticks s + 1"])
        (auto simp: write_body_def read_stack tick_def Let_def bodies_def fun_eq_iff)
  qed
qed

abbreviation mirror :: "'s Co \<Rightarrow> bool" where
  "mirror s \<equiv> inv (co_inner s) \<and> mirrored (bodies stored_notes s) s"

text \<open>Taking over lines the server determines.\<close>

lemma adopt_law:
  assumes "inv (co_inner s)" "co_suppress s = {||}"
  shows "\<exists>t k. adopt e (stack tc fuel e) i nl s = s\<lparr>co_inner := t, co_ticks := k, co_notes := fmupd i nl (co_notes s)\<rparr> \<and> inv t \<and>
    bodies stored_notes (s\<lparr>co_inner := t\<rparr>) = (bodies stored_notes s)(i := Some (materialize nl))"
proof -
  let ?s = "s\<lparr>co_notes := fmupd i nl (co_notes s)\<rparr>"
  have "inv (co_inner ?s)" "co_suppress ?s = {||}" using assms by simp_all
  from write_body_law [OF this, where body = "materialize nl" and i = i and e = e and tc = tc and fuel = fuel] obtain t k
    where w: "write_body e (stack tc fuel e) i (materialize nl) ?s = ?s\<lparr>co_inner := t, co_ticks := k\<rparr>" "inv t"
    "bodies stored_notes (?s\<lparr>co_inner := t\<rparr>) = (bodies stored_notes ?s)(i := Some (materialize nl))" by blast
  have "bodies stored_notes (s\<lparr>co_inner := t\<rparr>) = bodies stored_notes (?s\<lparr>co_inner := t\<rparr>)" "bodies stored_notes ?s = bodies stored_notes s"
    by (simp_all add: bodies_def fun_eq_iff)
  with w show ?thesis
    by (intro exI [of _ t] exI [of _ k]) (simp add: adopt_def)
qed

lemma bodies_inner: "bodies stored_notes (s\<lparr>co_inner := t, co_ticks := k, co_notes := m\<rparr>) = bodies stored_notes (s\<lparr>co_inner := t\<rparr>)"
  by (simp add: bodies_def fun_eq_iff)

lemma adopt_mirror:
  assumes "mirror s" "distinct (nl_order nl)" "p |\<subseteq>| co_pending s" "co_pending s |\<subseteq>| finsert i p"
  shows "mirror (adopt e (stack tc fuel e) i nl (s\<lparr>co_pending := p, co_ticks := k\<rparr>))"
proof -
  let ?s = "s\<lparr>co_pending := p, co_ticks := k\<rparr>"
  have "inv (co_inner ?s)" "co_suppress ?s = {||}" using assms(1) by (simp_all add: mirrored_def)
  from adopt_law [OF this, of e tc fuel i nl] obtain t l where
    a: "adopt e (stack tc fuel e) i nl ?s = ?s\<lparr>co_inner := t, co_ticks := l, co_notes := fmupd i nl (co_notes s)\<rparr>" "inv t"
    "bodies stored_notes (?s\<lparr>co_inner := t\<rparr>) = (bodies stored_notes ?s)(i := Some (materialize nl))" by auto
  let ?t = "?s\<lparr>co_inner := t, co_ticks := l, co_notes := fmupd i nl (co_notes s)\<rparr>"
  have b: "bodies stored_notes ?t = (bodies stored_notes s)(i := Some (materialize nl))"
    using a(3) by (simp add: bodies_def fun_eq_iff)
  have pend: "j |\<in>| p \<Longrightarrow> j |\<in>| co_pending s" "j |\<notin>| p \<Longrightarrow> j \<noteq> i \<Longrightarrow> j |\<notin>| co_pending s" for j
    using assms(3,4) by auto
  have "mirrored ((bodies stored_notes s)(i := Some (materialize nl))) ?t"
    using assms(1,2) pend by (auto simp: mirrored_def split: if_splits)
  with a(2) show ?thesis unfolding a(1) b by simp
qed

lemma mirror_frame:
  assumes "mirror s" "inv t" "\<And>i. bodies stored_notes s' i = bodies stored_notes s i" "co_inner s' = t" "co_suppress s' = co_suppress s"
    "co_notes s' = co_notes s" "co_pending s' = co_pending s"
  shows "mirror s'"
proof -
  have "bodies stored_notes s' = bodies stored_notes s" using assms(3) by blast
  with assms show ?thesis by (simp add: mirrored_def)
qed

lemma create_mirror:
  assumes "mirror s"
  shows "mirror (snd (co_create_note e be n s))"
proof (cases "check_body (n_body n)")
  case (Inl v)
  with assms show ?thesis by (simp add: co_create_note_def body_gate_def suppressed_def mirrored_def)
next
  case (Inr u)
  have sup: "co_suppress s = {||}" and inv: "inv (co_inner s)" using assms by (simp_all add: mirrored_def)
  show ?thesis
  proof (cases "fmlookup (stored_notes (co_inner s)) (n_id n)")
    case None
    from create_new [OF inv None] obtain n' t st where u: "create_note be n (co_inner s) = (Inr n', t)" "inv t"
      "same_but_version n n'" "same_but_version n st" "stored_notes t = fmupd (n_id n) st (stored_notes (co_inner s))" by blast
    have id: "n_id n' = n_id n" using same_but_version_ids(1) [OF u(3)] .
    let ?s = "snd (co_create_note e be n s)"
    have f: "co_inner ?s = t" "co_suppress ?s = {||}" "co_notes ?s = co_notes s" "co_pending ?s = finsert (n_id n) (co_pending s)"
      using sup by (simp_all add: co_create_note_def body_gate_def suppressed_def Inr within_def u(1) Let_def http_def patch_meta_def enqueue_def id)
    have b: "bodies stored_notes ?s = (bodies stored_notes s)(n_id n := Some (n_body st))"
      by (simp add: bodies_def fun_eq_iff f u(5))
    show ?thesis
      using assms u(2) unfolding b mirrored_def f by auto
  next
    case (Some old)
    from create_again [OF inv Some] obtain err t where u: "create_note be n (co_inner s) = (Inl err, t)" "inv t" "stored_notes t = stored_notes (co_inner s)" by blast
    show ?thesis
      by (rule mirror_frame [OF assms u(2)])
        (simp_all add: co_create_note_def body_gate_def suppressed_def sup Inr within_def u bodies_def)
  qed
qed

lemma push_mirror:
  assumes "inv (co_inner s)" "co_suppress s = {||}" "\<forall>i. i |\<in>| co_pending s \<longrightarrow> bodies stored_notes s i \<noteq> None"
    and "\<forall>i nl. fmlookup (co_notes s) i = Some nl \<longrightarrow> distinct (nl_order nl) \<and>
      (i |\<notin>| co_pending s \<longrightarrow> i \<noteq> n_id n \<longrightarrow> bodies stored_notes s i = Some (materialize nl))"
    and "check_body (n_body n) = Inr ()" "bodies stored_notes s (n_id n) = Some (n_body n)" "fresh_ids (ce_ids e (co_ticks s)) (lines_of (n_id n) s)"
  shows "mirror (push_local_edit e n s)"
proof -
  let ?nl = "lines_of (n_id n) s"
  have dist: "distinct (nl_order ?nl)" using assms(4) by (auto simp: lines_of_def no_lines_def split: option.split)
  obtain ops nl where d: "diff_body (n_body n) (ce_device_id e) (ce_now e (co_ticks s)) (ce_ids e (co_ticks s)) ?nl = (Inr ops, nl)"
    by (simp add: diff_body_def assms(5) Let_def)
  have nl: "distinct (nl_order nl)" "materialize nl = n_body n"
    using diff_body_keeps [OF d dist] assms(7) by blast+
  let ?s = "push_local_edit e n s"
  have f: "co_inner ?s = co_inner s" "co_suppress ?s = co_suppress s" "co_pending ?s = co_pending s" "co_notes ?s = fmupd (n_id n) nl (co_notes s)"
    using d by (simp_all add: push_local_edit_def lines_of_def [symmetric] Let_def enqueue_def)
  have b: "bodies stored_notes ?s = bodies stored_notes s" by (simp add: bodies_def fun_eq_iff f)
  show ?thesis using assms nl unfolding mirrored_def b f by (auto split: if_splits)
qed

lemma update_mirror:
  assumes "mirror s" "fresh_ids (ce_ids e (co_ticks s)) (lines_of (n_id n) s)"
  shows "mirror (snd (co_update_note e be n s))"
proof (cases "check_body (n_body n)")
  case (Inl v)
  with assms show ?thesis by (simp add: co_update_note_def body_gate_def suppressed_def mirrored_def)
next
  case (Inr u)
  have sup: "co_suppress s = {||}" and inv: "inv (co_inner s)" using assms by (simp_all add: mirrored_def)
  have read: "\<exists>r. read_note be (n_id n) (co_inner s) = (r, co_inner s)" using inv by (auto simp: read_law split: option.split)
  then obtain prev where prev: "read_note be (n_id n) (co_inner s) = (prev, co_inner s)" by blast
  show ?thesis
  proof (cases "fmlookup (stored_notes (co_inner s)) (n_id n)")
    case None
    from update_none [OF inv None] obtain err t where u: "update_note be n (co_inner s) = (Inl err, t)" "inv t" "stored_notes t = stored_notes (co_inner s)" by blast
    show ?thesis
      by (rule mirror_frame [OF assms(1) u(2)])
        (simp_all add: co_update_note_def body_gate_def suppressed_def sup Inr within_def prev u bodies_def)
  next
    case (Some old)
    from update_law [OF inv Some] obtain n' t st where u: "update_note be n (co_inner s) = (Inr n', t)" "inv t"
      "same_but_version n n'" "same_but_version n st" "stored_notes t = fmupd (n_id n) st (stored_notes (co_inner s))" by blast
    note id = same_but_version_ids [OF u(3)] and st = same_but_version_ids [OF u(4)]
    define s1 where "s1 = (if meta_changed prev n' then patch_meta e n' (s\<lparr>co_inner := t\<rparr>) else s\<lparr>co_inner := t\<rparr>)"
    have f: "co_inner s1 = t" "co_suppress s1 = {||}" "co_pending s1 = co_pending s" "co_notes s1 = co_notes s" "co_ticks s1 = co_ticks s"
      using sup by (simp_all add: s1_def patch_meta_def http_def)
    have b: "bodies stored_notes s1 = (bodies stored_notes s)(n_id n := Some (n_body n))"
      by (simp add: bodies_def fun_eq_iff f u(5) st)
    have run: "snd (co_update_note e be n s) = (if n_id n |\<in>| co_pending s then s1 else push_local_edit e n' s1)"
      using sup by (simp add: co_update_note_def body_gate_def suppressed_def Inr within_def prev u(1) Let_def id f(3) s1_def [symmetric])
    show ?thesis
    proof (cases "n_id n |\<in>| co_pending s")
      case True
      with assms(1) u(2) show ?thesis unfolding run if_P [OF True] mirrored_def b f by auto
    next
      case False
      have "mirror (push_local_edit e n' s1)"
        by (rule push_mirror) (use assms False u(2) Inr in \<open>auto simp: f b id mirrored_def lines_of_def split: if_splits\<close>)
      with False show ?thesis by (simp add: run)
    qed
  qed
qed

lemma delete_mirror:
  assumes "mirror s"
  shows "mirror (snd (co_delete_note e be i s))"
proof -
  have sup: "co_suppress s = {||}" and inv: "inv (co_inner s)" using assms by (simp_all add: mirrored_def)
  from delete_law [OF inv, of i] obtain r t where u: "delete_note be i (co_inner s) = (r, t)" "inv t"
    "\<forall>j. map_option n_body (fmlookup (stored_notes t) j) = map_option n_body (fmlookup (stored_notes (co_inner s)) j)" by blast
  let ?s = "snd (co_delete_note e be i s)"
  have f: "co_inner ?s = t" "co_suppress ?s = {||}" "co_pending ?s = co_pending s"
    "fmlookup (co_notes ?s) j = Some nl \<Longrightarrow> fmlookup (co_notes s) j = Some nl" for j nl
    using sup by (cases r; auto simp: co_delete_note_def within_def u(1) suppressed_def http_def Let_def split: if_splits)+
  have b: "bodies stored_notes ?s = bodies stored_notes s" by (simp add: bodies_def fun_eq_iff f(1) u(3))
  show ?thesis using assms u(2) f(4) unfolding mirrored_def b f(1-3) by blast
qed

lemma apply_mirror:
  assumes "mirror s"
  shows "mirror (snd (co_apply_change be c s))"
proof (cases "is_note_change c")
  case False
  from apply_law [OF _ this] assms obtain r t where u: "apply_change be c (co_inner s) = (r, t)" "inv t" "stored_notes t = stored_notes (co_inner s)" by blast
  show ?thesis
    by (rule mirror_frame [OF assms u(2)]) (simp_all add: co_apply_change_def False within_def u bodies_def)
qed (simp add: co_apply_change_def assms)

lemma ensure_mirror:
  assumes "mirror s"
  shows "mirror (ensure_local (stack tc fuel e) sn s)"
proof (cases "fmlookup (stored_notes (co_inner s)) (sv_id sn)")
  case (Some n)
  with assms show ?thesis by (simp add: ensure_local_def read_stack)
next
  case None
  have sup: "co_suppress s = {||}" and inv: "inv (co_inner s)" using assms by (simp_all add: mirrored_def)
  let ?n = "(new_note (sv_id sn) (sv_created_at sn) (sv_title sn) [])
             \<lparr>n_notebook_id := (case sv_notebook_id sn of None \<Rightarrow> uuid_nil | Some i \<Rightarrow> i),
              n_is_todo := sv_is_todo sn, n_todo_due := sv_todo_due sn,
              n_todo_completed := sv_todo_completed sn, n_updated_at := sv_updated_at sn\<rparr>"
  have "fmlookup (stored_notes (co_inner s)) (n_id ?n) = None" using None by (simp add: new_note_def)
  from create_from_server [OF inv sup this, of tc fuel e] obtain t st where
    t: "apply_from_server (stack tc fuel e) ?n True s = (Inr (), s\<lparr>co_inner := t\<rparr>)" "inv t" "stored_notes t = fmupd (n_id ?n) st (stored_notes (co_inner s))"
    by blast
  have "ensure_local (stack tc fuel e) sn s = s\<lparr>co_inner := t\<rparr>"
    using None inv by (simp add: ensure_local_def read_stack Let_def t(1))
  moreover have "bodies stored_notes (s\<lparr>co_inner := t\<rparr>) = (bodies stored_notes s)(sv_id sn := Some (n_body st))"
    by (simp add: bodies_def fun_eq_iff t(3) new_note_def)
  moreover have "bodies stored_notes s (sv_id sn) = None" using None by (simp add: bodies_def)
  then have "mirrored ((bodies stored_notes s)(sv_id sn := Some (n_body st))) (s\<lparr>co_inner := t\<rparr>)"
    using assms by (fastforce simp: mirrored_def)
  ultimately show ?thesis using t(2) by simp
qed

lemma message_mirror:
  assumes "mirror s" "msg_ok e msg s"
  shows "mirror (handle_server_msg e (stack tc fuel e) msg s)"
proof (cases msg)
  case (Welcome i sn)
  have inv: "inv (co_inner s)" using assms(1) by simp
  have ids: "distinct (nl_order (from_snapshot sn))" "fresh_ids (ce_ids e (co_ticks s)) (from_snapshot sn)"
    using assms(2) Welcome by (simp_all add: from_snapshot_def)
  show ?thesis
  proof (cases "i |\<in>| co_pending s")
    case False
    with Welcome show ?thesis using adopt_mirror [OF assms(1) ids(1), of "co_pending s" i e tc fuel "co_ticks s"] by (simp add: Let_def fsubset_finsertI)
  next
    case True
    let ?s = "s\<lparr>co_pending := co_pending s |-| {|i|}\<rparr>"
    from True assms(1) obtain n where n: "fmlookup (stored_notes (co_inner s)) i = Some n"
      by (auto simp: mirrored_def bodies_def)
    have read: "co_read_note be i ?s = (Inr n, ?s)" using read_stack [of ?s i] inv n by simp
    obtain ops nl where d: "diff_body (n_body n) (ce_device_id e) (ce_now e (co_ticks s)) (ce_ids e (co_ticks s)) (from_snapshot sn) = (ops, nl)"
      by (cases "diff_body (n_body n) (ce_device_id e) (ce_now e (co_ticks s)) (ce_ids e (co_ticks s)) (from_snapshot sn)")
    show ?thesis
    proof (cases ops)
      case (Inl v)
      with d have "nl = from_snapshot sn" by (auto simp: diff_body_reject)
      moreover have "mirror (adopt e (stack tc fuel e) i (from_snapshot sn) (s\<lparr>co_pending := co_pending s |-| {|i|}, co_ticks := co_ticks s + 1\<rparr>))"
        by (rule adopt_mirror [OF assms(1) ids(1)]) auto
      ultimately show ?thesis using d Inl True Welcome read by (simp add: Let_def)
    next
      case (Inr os)
      with diff_body_keeps [of "n_body n", OF _ ids(1)] d ids(2) have nl: "distinct (nl_order nl)" "materialize nl = n_body n"
        by blast+
      let ?t = "handle_server_msg e (stack tc fuel e) msg s"
      have f: "co_inner ?t = co_inner s" "co_suppress ?t = co_suppress s" "co_pending ?t = co_pending s |-| {|i|}"
        "co_notes ?t = fmupd i nl (co_notes s)"
        using Welcome True read d Inr by (simp_all add: Let_def enqueue_def)
      have b: "bodies stored_notes ?t = bodies stored_notes s" by (simp add: bodies_def fun_eq_iff f)
      have "bodies stored_notes s i = Some (n_body n)" using n by (simp add: bodies_def)
      then show ?thesis using assms(1) nl unfolding mirrored_def b f by (auto split: if_splits)
    qed
  qed
next
  case (ServerOp q i u ops)
  show ?thesis
  proof (cases "fmlookup (co_notes s) i")
    case (Some nl)
    with assms ServerOp have "distinct (nl_order (fold apply_line_op ops nl))"
      by (intro distinct_ops) (auto simp: mirrored_def lines_of_def)
    from adopt_mirror [OF assms(1) this, of "co_pending s" i e tc fuel "co_ticks s"] Some ServerOp show ?thesis by (simp add: fsubset_finsertI)
  qed (use assms(1) ServerOp in simp)
next
  case (ServerError c i)
  have "mirror (resync_note j s)" for j
    by (use assms(1) in \<open>auto simp: mirrored_def resync_note_def enqueue_def bodies_def split: if_splits\<close>)
  with assms(1) ServerError show ?thesis by (simp split: option.split)
next
  case (Presence i us)
  with assms(1) show ?thesis by (simp add: mirrored_def bodies_def)
qed

end

end
