(* ===== verification/Db_Collab.thy ===== *)
theory Db_Collab
  imports Collab_Laws Db_Backend
begin

text \<open>
  The collaborative client over the SQL backend: stored bodies follow the lines, and what the server
  sends is written once and not sent back.
\<close>

lemma transaction_error:
  assumes "\<And>s. \<exists>e s'. body s = (Inl e, s')"
  shows "\<exists>e s'. transaction body s = (Inl e, s') \<and> db_notes s' = db_notes s"
  using assms [of s] by (auto simp: transaction_def)

lemma db_apply_other: "\<not> is_note_change c \<Longrightarrow> db_notes (db_apply c s) = db_notes s"
  by (cases c) (auto simp: db_apply_notebook_upsert_def db_apply_notebook_delete_def db_apply_tag_upsert_def db_apply_tag_delete_def
      db_apply_assoc_def upsert_assoc_def db_apply_resource_create_def db_apply_resource_delete_def Let_def split: option.splits)

interpretation sql_bodies: body_store "db_backend dc rm" db_notes notes_keyed for dc rm
proof (unfold_locales, goal_cases)
  case (1 s n)
  let ?n = "n\<lparr>n_vv := next_local_vv (note_meta s (n_id n)) (db_device_id s), n_last_writer := db_device_id s\<rparr>"
  have "n_id n |\<notin>| fmdom (db_notes s)" using 1(2) by (simp add: fmdom_notI)
  then obtain s' where u: "db_create_note n s = (Inr ?n, s')" and s': "db_notes s' = fmupd (n_id n) ?n (db_notes s)"
    by (simp add: db_create_note_def transaction_def Let_def)
  have "notes_keyed s'" using 1(1) by (auto simp: notes_keyed_def s' fmpred_iff split: if_splits)
  with u s' show ?case
    by (intro exI [of _ ?n] exI [of _ s']) (auto simp: db_backend_def same_but_version_def)
next
  case (2 s n old)
  have "n_id n |\<in>| fmdom (db_notes s)" using 2(2) by (rule fmdomI)
  then have "db_create_note n s = (Inl Database, s\<lparr>db_ticks := db_ticks s\<rparr>)"
    by (simp add: db_create_note_def transaction_def Let_def)
  with 2(1) show ?case by (simp add: db_backend_def)
next
  case (3 s n)
  then have "db_update_note n s = (Inl NotFound, s\<lparr>db_ticks := db_ticks s\<rparr>)"
    by (simp add: db_update_note_def transaction_def Let_def)
  with 3(1) show ?case by (simp add: db_backend_def)
next
  case (4 s i)
  show ?case
  proof (cases "fmlookup (db_notes s) i")
    case None
    with 4 show ?thesis by (simp add: db_backend_def db_delete_note_def transaction_def db_now_def notes_keyed_def)
  next
    case (Some row)
    then obtain s' t v w where d: "db_delete_note i s = (Inr (), s')" and s': "db_notes s' = fmupd i (note_tombstone row t v w) (db_notes s)"
      by (simp add: db_delete_note_def transaction_def db_now_def Let_def)
    have "notes_keyed s'" using 4 Some by (auto simp: notes_keyed_def s' fmpred_iff note_tombstone_def split: if_splits)
    with d s' Some show ?thesis by (intro exI [of _ "Inr ()"] exI [of _ s']) (auto simp: db_backend_def note_tombstone_def)
  qed
next
  case (5 s c)
  obtain r s' where d: "db_apply_change c s = (r, s')" by (cases "db_apply_change c s")
  have "db_notes s' = db_notes s"
    using d db_apply_other [OF 5(2), of s] by (auto simp: db_apply_change_def transaction_def)
  with d 5(1) show ?case by (intro exI [of _ r] exI [of _ s']) (auto simp: db_backend_def notes_keyed_def)
qed

section \<open>Reachable states\<close>

definition new_client :: "Db \<Rightarrow> Db Co" where
  "new_client d = \<lparr>co_inner = d, co_notes = fmempty, co_suppress = {||}, co_presence = fmempty, co_out = [],
     co_pending = {||}, co_calls = [], co_ticks = 0\<rparr>"

inductive collab_reach :: "collab_env \<Rightarrow> Db Co backend \<Rightarrow> Db Co \<Rightarrow> bool" for e :: collab_env and C :: "Db Co backend" where
  started: "notes_keyed d \<Longrightarrow> collab_reach e C (new_client d)"
| created: "collab_reach e C s \<Longrightarrow> collab_reach e C (snd (create_note C n s))"
| updated: "collab_reach e C s \<Longrightarrow> fresh_ids (ce_ids e (co_ticks s)) (lines_of (n_id n) s) \<Longrightarrow> collab_reach e C (snd (update_note C n s))"
| deleted: "collab_reach e C s \<Longrightarrow> collab_reach e C (snd (delete_note C i s))"
| applied: "collab_reach e C s \<Longrightarrow> collab_reach e C (snd (apply_change C c s))"
| received: "collab_reach e C s \<Longrightarrow> msg_ok e msg s \<Longrightarrow> collab_reach e C (handle_server_msg e C msg s)"
| discovered: "collab_reach e C s \<Longrightarrow> collab_reach e C (ensure_local C sn s)"
| sent: "collab_reach e C s \<Longrightarrow> collab_reach e C (s\<lparr>co_out := rest\<rparr>)"

lemma reach_mirror:
  assumes "collab_reach e (collab_backend tc fuel e (db_backend tc rm)) s"
  shows "notes_keyed (co_inner s) \<and> mirrored (bodies db_notes s) s"
  using assms
proof induction
  case (started d)
  then show ?case by (simp add: new_client_def mirrored_def)
next
  case (created s n)
  from sql_bodies.create_mirror [OF this(2)] show ?case by (simp only: sql_bodies.stack_ops)
next
  case (updated s n)
  from sql_bodies.update_mirror [OF this(3,2)] show ?case by (simp only: sql_bodies.stack_ops)
next
  case (deleted s i)
  from sql_bodies.delete_mirror [OF this(2)] show ?case by (simp only: sql_bodies.stack_ops)
next
  case (applied s c)
  from sql_bodies.apply_mirror [OF this(2)] show ?case by (simp only: sql_bodies.stack_ops)
next
  case (received s msg)
  from sql_bodies.message_mirror [OF this(3,2)] show ?case .
next
  case (discovered s sn)
  from sql_bodies.ensure_mirror [OF this(2)] show ?case .
next
  case (sent s rest)
  then show ?case by (simp add: mirrored_def bodies_def)
qed


definition client_env :: collab_env where
  "client_env = \<lparr>ce_device_id = ''A'', ce_http = (\<lambda>_. HttpFailed), ce_now = (\<lambda>k. int k), ce_ids = (\<lambda>k j. of_nat (100 * k + j))\<rparr>"

abbreviation sample_stack :: "Db Co backend" where
  "sample_stack \<equiv> collab_backend unary_codec 1 client_env (db_backend unary_codec offline)"

definition one_line :: NoteLinesSnapshot where
  "one_line = \<lparr>sn_note_id = 7, sn_order = [- 1], sn_updated_at = 3, sn_vv = fmempty, sn_last_writer = ''B'',
     sn_lines = [\<lparr>ln_id = - 1, ln_content = ''one'', ln_created_at = 3, ln_updated_at = 3, ln_deleted_at = None,
       ln_vv = fmempty, ln_last_writer = ''B''\<rparr>]\<rparr>"

lemma client_ids: "fresh_ids (ce_ids client_env 0) (from_snapshot one_line)"
proof -
  have u: "unat (of_nat j :: uuid) = j" if "j < MAX_LINES_PER_NOTE" for j
    using that by (simp add: format_limits push_bit_eq_mult unat_of_nat)
  then have "inj_on (\<lambda>j. of_nat j :: uuid) {..<MAX_LINES_PER_NOTE}" by (metis inj_onI lessThan_iff)
  moreover have "(of_nat j :: uuid) \<noteq> - 1" if "j < MAX_LINES_PER_NOTE" for j
    using u [OF that] that by (auto simp: format_limits push_bit_eq_mult unsigned_minus_1_eq_mask mask_eq_exp_minus_1)
  ultimately show ?thesis by (simp add: fresh_ids_def client_env_def one_line_def from_snapshot_def)
qed

lemma one_line_text: "materialize (from_snapshot one_line) = ''one''"
  by (simp add: one_line_def from_snapshot_def materialize_def)

lemma new_client_facts [simp]:
  "notes_keyed (co_inner (new_client (empty_db d)))" "co_suppress (new_client b) = {||}" "co_notes (new_client b) = fmempty"
  "co_pending (new_client b) = {||}" "co_ticks (new_client b) = 0"
  by (simp_all add: new_client_def notes_keyed_def empty_db_def)

text \<open>
  C32. What the server sends is written once and not sent back: an operation on a note whose lines the
  client holds, or the first snapshot of a note it does not wait for, changes the lines and the
  stored body of that note, to the text of the new lines, and the clock; no message is queued, no
  request is made, no other body, no suppression and no pending note changes.
\<close>

theorem collab_server_writes_silent:
  assumes "notes_keyed (co_inner s)" "co_suppress s = {||}"
    and "msg = ServerOp q i u ops \<and> fmlookup (co_notes s) i = Some old \<and> nl = fold apply_line_op ops old \<or>
      msg = Welcome i sn \<and> i |\<notin>| co_pending s \<and> nl = from_snapshot sn"
  shows "\<exists>t k. handle_server_msg e (collab_backend tc fuel e (db_backend tc rm)) msg s =
      s\<lparr>co_inner := t, co_ticks := k, co_notes := fmupd i nl (co_notes s)\<rparr> \<and>
    bodies db_notes (s\<lparr>co_inner := t\<rparr>) = (bodies db_notes s)(i := Some (materialize nl))"
proof -
  have "handle_server_msg e (collab_backend tc fuel e (db_backend tc rm)) msg s = adopt e (collab_backend tc fuel e (db_backend tc rm)) i nl s"
    using assms(3) by (auto simp: Let_def)
  with sql_bodies.adopt_law [OF assms(1,2), where e = e and dc = tc and tc = tc and fuel = fuel and rm = rm and i = i and nl = nl] show ?thesis by auto
qed

theorem collab_server_writes_silent_witness:
  "\<exists>t k. handle_server_msg client_env sample_stack (Welcome 7 one_line) (new_client (empty_db ''A'')) =
      (new_client (empty_db ''A''))\<lparr>co_inner := t, co_ticks := k, co_notes := fmupd 7 (from_snapshot one_line) fmempty\<rparr> \<and>
    bodies db_notes ((new_client (empty_db ''A''))\<lparr>co_inner := t\<rparr>) = (bodies db_notes (new_client (empty_db ''A'')))(7 := Some ''one'')"
  using collab_server_writes_silent [of "new_client (empty_db ''A'')" "Welcome 7 one_line" _ 7 _ _ _ "from_snapshot one_line" one_line
      client_env unary_codec 1 offline] by (simp add: one_line_text)


section \<open>Connections\<close>

lemma reach_join_listed:
  "collab_reach e C (fst sc) \<Longrightarrow> collab_reach e C (fst (join_listed ws C server_note sc))"
  by (cases sc) (auto simp: join_listed_def Let_def intro: discovered)

lemma reach_listing: "collab_reach e C (fst sc) \<Longrightarrow> collab_reach e C (fst (fold (join_listed ws C) listing sc))"
  by (induction listing arbitrary: sc) (simp_all add: reach_join_listed)

lemma reach_discover: "collab_reach e C (fst sc) \<Longrightarrow> collab_reach e C (fst (discover_and_join ws C pages sc))"
  by (induction ws C pages sc rule: discover_and_join.induct) (simp_all add: reach_listing Let_def)

text \<open>A connection stays in the reachable states as long as the messages it takes are admissible.\<close>

fun admissible :: "collab_env \<Rightarrow> conn_event \<Rightarrow> Db Co \<Rightarrow> bool" where
  "admissible e (Frame (Some msg)) s = msg_ok e msg s"
| "admissible e _ s = True"

lemma reach_conn_turn:
  assumes "collab_reach e C s" "admissible e event s"
  shows "collab_reach e C (fst (conn_turn e ws C event (s, c)))"
proof (cases event)
  case Queued
  with assms(1) show ?thesis by (auto simp: Let_def split: list.splits CollabClientMsg.splits intro: sent)
next
  case (Frame frame)
  with assms show ?thesis by (auto split: option.splits intro: received)
qed (use assms(1) in \<open>simp_all add: reach_discover\<close>)

text \<open>A queued operation whose send fails is neither sent nor kept for the next connection.\<close>

lemma failed_send_loses_message:
  assumes "co_out s = ClientOp i ops # rest" "\<not> ws (length (cn_sent c))"
  shows "conn_turn e ws C Queued (s, c) = (s\<lparr>co_out := rest\<rparr>, c\<lparr>cn_open := False\<rparr>)"
  using assms by (simp add: conn_send_def)

section \<open>The echo of an insertion\<close>



end
