(* ===== verification/Daemon_Stack.thy ===== *)
theory Daemon_Stack
  imports Storage
begin

text \<open>
  The two decorators the daemon puts around its storage: \<open>keeplin-daemon/src/event_backend.rs\<close>, which
  publishes a change after every successful mutation, and \<open>metrics.rs\<close>, which counts operations.
  Each is a backend over an arbitrary inner one.
\<close>

section \<open>Publishing\<close>

text \<open>
  The state is the inner store, the changes published so far and how often the clock was read; what
  the subscribers of the broadcast channel see of the changes is in the theory of the search index.
\<close>

record 's Announced =
  an_inner :: 's
  an_sent :: "Change list"
  an_ticks :: nat

definition publish :: "Change \<Rightarrow> 's Announced \<Rightarrow> 's Announced" where
  "publish change s = s\<lparr>an_sent := an_sent s @ [change]\<rparr>"

definition delegate :: "('a, 's) act \<Rightarrow> ('a, 's Announced) act" where
  "delegate act s = (let (r, t) = act (an_inner s) in (r, s\<lparr>an_inner := t\<rparr>))"

text \<open>An inner call followed, when it succeeds, by one event: made from its result, or from the time.\<close>

definition announcing :: "('a \<Rightarrow> Change) \<Rightarrow> ('a, 's) act \<Rightarrow> ('a, 's Announced) act" where
  "announcing change act s = and_then (delegate act s) (\<lambda>stored s. (Inr stored, publish (change stored) s))"

definition announcing_at :: "(nat \<Rightarrow> ts) \<Rightarrow> (ts \<Rightarrow> Change) \<Rightarrow> (unit, 's) act \<Rightarrow> (unit, 's Announced) act" where
  "announcing_at clock change act s = and_then (delegate act s) (\<lambda>_ s.
     (Inr (), publish (change (clock (an_ticks s))) (s\<lparr>an_ticks := an_ticks s + 1\<rparr>)))"

definition ev_create_note :: "'s backend \<Rightarrow> Note \<Rightarrow> (Note, 's Announced) act" where
  "ev_create_note be n = announcing NoteCreate (create_note be n)"

definition ev_update_note :: "'s backend \<Rightarrow> Note \<Rightarrow> (Note, 's Announced) act" where
  "ev_update_note be n = announcing NoteUpdate (update_note be n)"

definition ev_delete_note :: "(nat \<Rightarrow> ts) \<Rightarrow> 's backend \<Rightarrow> uuid \<Rightarrow> (unit, 's Announced) act" where
  "ev_delete_note clock be i = announcing_at clock (\<lambda>t. NoteDelete i t fmempty []) (delete_note be i)"

definition ev_create_notebook :: "'s backend \<Rightarrow> Notebook \<Rightarrow> (Notebook, 's Announced) act" where
  "ev_create_notebook be nb = announcing NotebookCreate (create_notebook be nb)"

definition ev_update_notebook :: "'s backend \<Rightarrow> Notebook \<Rightarrow> (Notebook, 's Announced) act" where
  "ev_update_notebook be nb = announcing NotebookUpdate (update_notebook be nb)"

definition ev_delete_notebook :: "(nat \<Rightarrow> ts) \<Rightarrow> 's backend \<Rightarrow> uuid \<Rightarrow> (unit, 's Announced) act" where
  "ev_delete_notebook clock be i = announcing_at clock (\<lambda>t. NotebookDelete i t fmempty []) (delete_notebook be i)"

definition ev_create_tag :: "'s backend \<Rightarrow> Tag \<Rightarrow> (Tag, 's Announced) act" where
  "ev_create_tag be g = announcing TagCreate (create_tag be g)"

definition ev_update_tag :: "'s backend \<Rightarrow> Tag \<Rightarrow> (Tag, 's Announced) act" where
  "ev_update_tag be g = announcing TagUpdate (update_tag be g)"

definition ev_delete_tag :: "(nat \<Rightarrow> ts) \<Rightarrow> 's backend \<Rightarrow> uuid \<Rightarrow> (unit, 's Announced) act" where
  "ev_delete_tag clock be i = announcing_at clock (\<lambda>t. TagDelete i t fmempty []) (delete_tag be i)"

definition ev_add_note_tag :: "(nat \<Rightarrow> ts) \<Rightarrow> 's backend \<Rightarrow> NoteTag \<Rightarrow> (unit, 's Announced) act" where
  "ev_add_note_tag clock be nt =
     announcing_at clock (\<lambda>t. NoteTagAdd (nt_note_id nt) (nt_tag_id nt) t fmempty []) (add_note_tag be nt)"

definition ev_remove_note_tag :: "(nat \<Rightarrow> ts) \<Rightarrow> 's backend \<Rightarrow> uuid \<Rightarrow> uuid \<Rightarrow> (unit, 's Announced) act" where
  "ev_remove_note_tag clock be i j = announcing_at clock (\<lambda>t. NoteTagRemove i j t fmempty []) (remove_note_tag be i j)"

definition ev_create_resource :: "'s backend \<Rightarrow> Resource \<Rightarrow> u8 list \<Rightarrow> (Resource, 's Announced) act" where
  "ev_create_resource be r data = announcing (\<lambda>stored. ResourceCreate stored None) (create_resource be r data)"

definition ev_delete_resource :: "(nat \<Rightarrow> ts) \<Rightarrow> 's backend \<Rightarrow> uuid \<Rightarrow> (unit, 's Announced) act" where
  "ev_delete_resource clock be i = announcing_at clock (\<lambda>t. ResourceDelete i t fmempty []) (delete_resource be i)"

text \<open>The other operations are those of the inner backend: nothing is published.\<close>

definition event_base :: "(nat \<Rightarrow> ts) \<Rightarrow> 's backend \<Rightarrow> 's Announced backend" where
  "event_base clock be =
     \<lparr>create_note = ev_create_note be, read_note = (\<lambda>i. delegate (read_note be i)),
      update_note = ev_update_note be, delete_note = ev_delete_note clock be,
      list_notes = (\<lambda>z tok. delegate (list_notes be z tok)),
      list_notes_in_notebook = (\<lambda>i z tok. delegate (list_notes_in_notebook be i z tok)),
      list_starred_notes = (\<lambda>z tok. delegate (list_starred_notes be z tok)),
      notebook_sort_profile = (\<lambda>i. delegate (notebook_sort_profile be i)),
      note_backlinks = (\<lambda>i z tok. delegate (note_backlinks be i z tok)),
      create_notebook = ev_create_notebook be, read_notebook = (\<lambda>i. delegate (read_notebook be i)),
      update_notebook = ev_update_notebook be, delete_notebook = ev_delete_notebook clock be,
      list_notebooks = (\<lambda>z tok. delegate (list_notebooks be z tok)),
      create_tag = ev_create_tag be, read_tag = (\<lambda>i. delegate (read_tag be i)),
      update_tag = ev_update_tag be, delete_tag = ev_delete_tag clock be,
      list_tags = (\<lambda>z tok. delegate (list_tags be z tok)),
      add_note_tag = ev_add_note_tag clock be, remove_note_tag = ev_remove_note_tag clock be,
      list_note_tags = (\<lambda>i z tok. delegate (list_note_tags be i z tok)),
      create_resource = ev_create_resource be, read_resource = (\<lambda>i. delegate (read_resource be i)),
      delete_resource = ev_delete_resource clock be,
      list_resources = (\<lambda>z tok. delegate (list_resources be z tok)),
      list_resources_for_note = (\<lambda>_ _ _ s. (Inl Panic, s)),
      purge_deleted_resources = (\<lambda>t. delegate (purge_deleted_resources be t)),
      get_changes_since = (\<lambda>t. delegate (get_changes_since be t)), apply_change = (\<lambda>c. delegate (apply_change be c)),
      get_last_sync_time = delegate (get_last_sync_time be), update_sync_time = (\<lambda>t. delegate (update_sync_time be t)),
      send_changes = (\<lambda>cs. delegate (send_changes be cs)), receive_changes = delegate (receive_changes be),
      prune_change_journal = (\<lambda>t. delegate (prune_change_journal be t)), get_device_id = delegate (get_device_id be),
      note_history = (\<lambda>i l. delegate (note_history be i l)), notebook_history = (\<lambda>i l. delegate (notebook_history be i l))\<rparr>"

text \<open>\<open>list_resources_for_note\<close> is the provided method over the wrapper; \<open>Panic\<close> when its fuel ends.\<close>

definition event_backend :: "'c text_codec_scheme \<Rightarrow> nat \<Rightarrow> (nat \<Rightarrow> ts) \<Rightarrow> 's backend \<Rightarrow> 's Announced backend" where
  "event_backend tc fuel clock be = (event_base clock be)\<lparr>list_resources_for_note := (\<lambda>note_id page_size token s.
     case default_list_resources_for_note tc fuel (event_base clock be) note_id page_size token s of
       None \<Rightarrow> (Inl Panic, s) | Some r \<Rightarrow> r)\<rparr>"

section \<open>Counting\<close>

definition OPERATION_LABELS :: "(string \<times> string) list" where
  "OPERATION_LABELS =
    [(''note'', ''create''), (''note'', ''read''), (''note'', ''update''), (''note'', ''delete''), (''note'', ''list''),
     (''notebook'', ''create''), (''notebook'', ''read''), (''notebook'', ''update''), (''notebook'', ''delete''), (''notebook'', ''list''),
     (''tag'', ''create''), (''tag'', ''read''), (''tag'', ''update''), (''tag'', ''delete''), (''tag'', ''list''),
     (''resource'', ''create''), (''resource'', ''read''), (''resource'', ''delete''), (''resource'', ''list''),
     (''note_tag'', ''add''), (''note_tag'', ''remove''), (''note_tag'', ''list'')]"

definition HTTP_STATUS_CLASSES :: "string list" where
  "HTTP_STATUS_CLASSES = [''2xx'', ''4xx'', ''5xx'', ''other'']"

text \<open>The counters are \<open>AtomicU64\<close>: adding wraps.\<close>

record Metrics =
  operations :: "(string \<times> string, u64) fmap"
  errors :: u64
  sync_changes_applied :: u64
  http_requests :: "(string, u64) fmap"

definition new_metrics :: Metrics where
  "new_metrics = \<lparr>operations = fmap_of_list (map (\<lambda>labels. (labels, 0)) OPERATION_LABELS), errors = 0,
     sync_changes_applied = 0, http_requests = fmap_of_list (map (\<lambda>class. (class, 0)) HTTP_STATUS_CLASSES)\<rparr>"

definition fetch_add :: "'k \<Rightarrow> ('k, u64) fmap \<Rightarrow> ('k, u64) fmap" where
  "fetch_add k m = (case fmlookup m k of None \<Rightarrow> m | Some c \<Rightarrow> fmupd k (c + 1) m)"

definition incr_op :: "string \<Rightarrow> string \<Rightarrow> Metrics \<Rightarrow> Metrics" where
  "incr_op entity op m = m\<lparr>operations := fetch_add (entity, op) (operations m)\<rparr>"

definition incr_error :: "Metrics \<Rightarrow> Metrics" where
  "incr_error m = m\<lparr>errors := errors m + 1\<rparr>"

definition add_sync_applied :: "u64 \<Rightarrow> Metrics \<Rightarrow> Metrics" where
  "add_sync_applied n m = m\<lparr>sync_changes_applied := sync_changes_applied m + n\<rparr>"

definition record_http_status :: "nat \<Rightarrow> Metrics \<Rightarrow> Metrics" where
  "record_http_status status m =
    (let class = (if 200 \<le> status \<and> status \<le> 299 then ''2xx'' else if 400 \<le> status \<and> status \<le> 499 then ''4xx''
       else if 500 \<le> status \<and> status \<le> 599 then ''5xx'' else ''other'')
     in m\<lparr>http_requests := fetch_add class (http_requests m)\<rparr>)"

text \<open>The text of \<open>GET /metrics\<close>: the operations in the order of their labels.\<close>

definition operation_line :: "(string \<times> string) \<times> u64 \<Rightarrow> string" where
  "operation_line = (\<lambda>((entity, op), counter). ''keeplin_storage_operations_total{entity='' @ [CHR 0x22] @ entity @ [CHR 0x22] @
     '',op='' @ [CHR 0x22] @ op @ [CHR 0x22] @ ''} '' @ show_nat (unat counter))"

definition status_line :: "Metrics \<Rightarrow> string \<Rightarrow> string" where
  "status_line m class = ''keeplin_http_requests_total{status='' @ [CHR 0x22] @ class @ [CHR 0x22] @ ''} '' @
     show_nat (case fmlookup (http_requests m) class of None \<Rightarrow> 0 | Some c \<Rightarrow> unat c)"

definition render_prometheus :: "Metrics \<Rightarrow> string" where
  "render_prometheus m = concat (map (\<lambda>l. l @ [newline])
    ([''# HELP keeplin_storage_operations_total Successful storage operations.'',
      ''# TYPE keeplin_storage_operations_total counter''] @
     map operation_line (map (\<lambda>labels. (labels, the (fmlookup (operations m) labels))) (sorted_list_of_fset (fmdom (operations m)))) @
     [''# HELP keeplin_storage_errors_total Storage operations that errored.'',
      ''# TYPE keeplin_storage_errors_total counter'',
      ''keeplin_storage_errors_total '' @ show_nat (unat (errors m)),
      ''# HELP keeplin_sync_changes_applied_total Remote changes applied via sync.'',
      ''# TYPE keeplin_sync_changes_applied_total counter'',
      ''keeplin_sync_changes_applied_total '' @ show_nat (unat (sync_changes_applied m)),
      ''# HELP keeplin_http_requests_total HTTP responses by status class.'',
      ''# TYPE keeplin_http_requests_total counter''] @
     map (status_line m) HTTP_STATUS_CLASSES))"

record 's Counted =
  ct_inner :: 's
  ct_metrics :: Metrics

definition uncounted :: "('a, 's) act \<Rightarrow> ('a, 's Counted) act" where
  "uncounted act s = (let (r, t) = act (ct_inner s) in (r, s\<lparr>ct_inner := t\<rparr>))"

text \<open>\<open>record\<close>, with the inner call before it.\<close>

definition recorded :: "string \<Rightarrow> string \<Rightarrow> ('a, 's) act \<Rightarrow> ('a, 's Counted) act" where
  "recorded entity op act s =
    (let (r, s) = uncounted act s
     in (r, s\<lparr>ct_metrics := (case r of Inr _ \<Rightarrow> incr_op entity op (ct_metrics s) | Inl _ \<Rightarrow> incr_error (ct_metrics s))\<rparr>))"

definition mx_apply_change :: "'s backend \<Rightarrow> Change \<Rightarrow> (unit, 's Counted) act" where
  "mx_apply_change be change s =
    (let (r, s) = uncounted (apply_change be change) s
     in (r, case r of Inr _ \<Rightarrow> s\<lparr>ct_metrics := add_sync_applied 1 (ct_metrics s)\<rparr> | Inl _ \<Rightarrow> s))"

definition metrics_base :: "'s backend \<Rightarrow> 's Counted backend" where
  "metrics_base be =
     \<lparr>create_note = (\<lambda>n. recorded ''note'' ''create'' (create_note be n)),
      read_note = (\<lambda>i. recorded ''note'' ''read'' (read_note be i)),
      update_note = (\<lambda>n. recorded ''note'' ''update'' (update_note be n)),
      delete_note = (\<lambda>i. recorded ''note'' ''delete'' (delete_note be i)),
      list_notes = (\<lambda>z tok. recorded ''note'' ''list'' (list_notes be z tok)),
      list_notes_in_notebook = (\<lambda>i z tok. recorded ''note'' ''list'' (list_notes_in_notebook be i z tok)),
      list_starred_notes = (\<lambda>z tok. recorded ''note'' ''list'' (list_starred_notes be z tok)),
      notebook_sort_profile = (\<lambda>i. uncounted (notebook_sort_profile be i)),
      note_backlinks = (\<lambda>i z tok. recorded ''note'' ''read'' (note_backlinks be i z tok)),
      create_notebook = (\<lambda>nb. recorded ''notebook'' ''create'' (create_notebook be nb)),
      read_notebook = (\<lambda>i. recorded ''notebook'' ''read'' (read_notebook be i)),
      update_notebook = (\<lambda>nb. recorded ''notebook'' ''update'' (update_notebook be nb)),
      delete_notebook = (\<lambda>i. recorded ''notebook'' ''delete'' (delete_notebook be i)),
      list_notebooks = (\<lambda>z tok. recorded ''notebook'' ''list'' (list_notebooks be z tok)),
      create_tag = (\<lambda>g. recorded ''tag'' ''create'' (create_tag be g)),
      read_tag = (\<lambda>i. recorded ''tag'' ''read'' (read_tag be i)),
      update_tag = (\<lambda>g. recorded ''tag'' ''update'' (update_tag be g)),
      delete_tag = (\<lambda>i. recorded ''tag'' ''delete'' (delete_tag be i)),
      list_tags = (\<lambda>z tok. recorded ''tag'' ''list'' (list_tags be z tok)),
      add_note_tag = (\<lambda>nt. recorded ''note_tag'' ''add'' (add_note_tag be nt)),
      remove_note_tag = (\<lambda>i j. recorded ''note_tag'' ''remove'' (remove_note_tag be i j)),
      list_note_tags = (\<lambda>i z tok. recorded ''note_tag'' ''list'' (list_note_tags be i z tok)),
      create_resource = (\<lambda>r data. recorded ''resource'' ''create'' (create_resource be r data)),
      read_resource = (\<lambda>i. recorded ''resource'' ''read'' (read_resource be i)),
      delete_resource = (\<lambda>i. recorded ''resource'' ''delete'' (delete_resource be i)),
      list_resources = (\<lambda>z tok. recorded ''resource'' ''list'' (list_resources be z tok)),
      list_resources_for_note = (\<lambda>_ _ _ s. (Inl Panic, s)),
      purge_deleted_resources = (\<lambda>t. recorded ''resource'' ''purge'' (purge_deleted_resources be t)),
      get_changes_since = (\<lambda>t. uncounted (get_changes_since be t)), apply_change = mx_apply_change be,
      get_last_sync_time = uncounted (get_last_sync_time be), update_sync_time = (\<lambda>t. uncounted (update_sync_time be t)),
      send_changes = (\<lambda>cs. uncounted (send_changes be cs)), receive_changes = uncounted (receive_changes be),
      prune_change_journal = (\<lambda>t. uncounted (prune_change_journal be t)), get_device_id = uncounted (get_device_id be),
      note_history = (\<lambda>i l. uncounted (note_history be i l)), notebook_history = (\<lambda>i l. uncounted (notebook_history be i l))\<rparr>"

definition metrics_backend :: "'c text_codec_scheme \<Rightarrow> nat \<Rightarrow> 's backend \<Rightarrow> 's Counted backend" where
  "metrics_backend tc fuel be = (metrics_base be)\<lparr>list_resources_for_note := (\<lambda>note_id page_size token s.
     case default_list_resources_for_note tc fuel (metrics_base be) note_id page_size token s of
       None \<Rightarrow> (Inl Panic, s) | Some r \<Rightarrow> r)\<rparr>"

lemma purge_is_not_counted:
  assumes "purge_deleted_resources be t (ct_inner s) = (Inr k, u)" "fmdom (operations (ct_metrics s)) = fset_of_list OPERATION_LABELS"
  shows "purge_deleted_resources (metrics_backend tc fuel be) t s = (Inr k, s\<lparr>ct_inner := u\<rparr>)"
proof -
  have "fmlookup (operations (ct_metrics s)) (''resource'', ''purge'') = None"
    using assms(2) by (simp add: fmdom_notD OPERATION_LABELS_def)
  then show ?thesis
    by (simp add: metrics_backend_def metrics_base_def recorded_def uncounted_def assms(1) incr_op_def fetch_add_def Let_def)
qed

end
