(* ===== verification/Search.thy ===== *)
theory Search
  imports Daemon_Stack Links
begin

text \<open>
  The search index of the daemon, \<open>keeplin-daemon/src/search.rs\<close>: the rows of the in-memory table, the
  query, and the task that fills the index from a scan and keeps it up to date from the published
  changes. What SQLite's full-text engine decides is a parameter: which rows match an expression and
  how they rank. So are the texts of timestamps and the Unicode white space.
\<close>

section \<open>Queries\<close>

record search_env = unicode +
  sv_rfc :: "ts \<Rightarrow> string"

text \<open>The columns; the flags are stored as \<open>'0'\<close> or \<open>'1'\<close> (\<open>bit\<close>).\<close>

record FtsRow =
  fr_note_id :: uuid
  fr_title :: string
  fr_body :: string
  fr_tags :: string
  fr_notebook :: string
  fr_notebook_id :: uuid
  fr_is_todo :: string
  fr_is_completed :: string
  fr_todo_due :: string
  fr_is_starred :: string
  fr_is_pinned :: string
  fr_updated_at :: string

record fts =
  fts_match_row :: "string \<Rightarrow> FtsRow \<Rightarrow> bool"
  fts_rank :: "string \<Rightarrow> FtsRow list \<Rightarrow> FtsRow \<Rightarrow> int"

record SearchQuery =
  sq_text :: string
  sq_notebook_id :: "uuid option"
  sq_is_todo :: "bool option"
  sq_todo_open :: "bool option"
  sq_is_starred :: "bool option"
  sq_is_pinned :: "bool option"
  sq_due_after :: "ts option"
  sq_due_before :: "ts option"
  sq_updated_after :: "ts option"
  sq_updated_before :: "ts option"
  sq_limit :: nat

definition MAX_LIMIT :: nat where
  "MAX_LIMIT = 500"

definition bit_text :: "bool \<Rightarrow> string" where
  "bit_text b = (if b then ''1'' else ''0'')"

text \<open>\<open>str::split_whitespace\<close>; the second argument is the word being read.\<close>

function split_whitespace :: "'u unicode_scheme \<Rightarrow> string \<Rightarrow> string \<Rightarrow> string list" where
  "split_whitespace u word [] = (if word = [] then [] else [word])"
| "split_whitespace u word (c # s) =
    (if space_len u (c # s) = 0 then split_whitespace u (word @ [c]) s
     else (if word = [] then [] else [word]) @ split_whitespace u [] (drop (space_len u (c # s) - 1) s))"
  by pat_completeness auto
termination by (relation "measure (\<lambda>(u, word, s). length s)") auto

definition term_prefix :: "string \<Rightarrow> string" where
  "term_prefix t = quote # concat (map (\<lambda>c. if c = quote then [quote, quote] else [c]) t) @ [quote, CHR ''*'']"

definition fts_match :: "'u unicode_scheme \<Rightarrow> string \<Rightarrow> string option" where
  "fts_match u text =
    (let terms = map term_prefix (split_whitespace u [] text)
     in if terms = [] then None else Some (join_with CHR '' '' terms))"

text \<open>A condition of the query that is not set holds of every row.\<close>

definition opt_holds :: "('a \<Rightarrow> bool) \<Rightarrow> 'a option \<Rightarrow> bool" where
  "opt_holds P x = (case x of None \<Rightarrow> True | Some v \<Rightarrow> P v)"

definition row_meets :: "'u search_env_scheme \<Rightarrow> SearchQuery \<Rightarrow> FtsRow \<Rightarrow> bool" where
  "row_meets v q r =
    (opt_holds (\<lambda>i. fr_notebook_id r = i) (sq_notebook_id q) \<and>
     opt_holds (\<lambda>b. fr_is_todo r = bit_text b) (sq_is_todo q) \<and>
     opt_holds (\<lambda>b. fr_is_completed r = bit_text (\<not> b)) (sq_todo_open q) \<and>
     opt_holds (\<lambda>b. fr_is_starred r = bit_text b) (sq_is_starred q) \<and>
     opt_holds (\<lambda>b. fr_is_pinned r = bit_text b) (sq_is_pinned q) \<and>
     opt_holds (\<lambda>t. sv_rfc v t \<le> fr_todo_due r) (sq_due_after q) \<and>
     opt_holds (\<lambda>t. fr_todo_due r \<le> sv_rfc v t \<and> fr_todo_due r \<noteq> []) (sq_due_before q) \<and>
     opt_holds (\<lambda>t. sv_rfc v t \<le> fr_updated_at r) (sq_updated_after q) \<and>
     opt_holds (\<lambda>t. fr_updated_at r \<le> sv_rfc v t) (sq_updated_before q))"

type_synonym Index = "FtsRow list"

text \<open>\<open>ORDER BY\<close> the rank or the time of the last update, the latest first.\<close>

definition index_query :: "'u search_env_scheme \<Rightarrow> fts \<Rightarrow> SearchQuery \<Rightarrow> Index \<Rightarrow> uuid list" where
  "index_query v f q idx =
    (let limit = max 1 (min (sq_limit q) MAX_LIMIT);
         met = filter (row_meets v q) idx;
         ordered = (case fts_match v (sq_text q) of
           Some e \<Rightarrow> sort_key (fts_rank f e idx) (filter (fts_match_row f e) met)
         | None \<Rightarrow> rev (sort_key fr_updated_at (rev met)))
     in map fr_note_id (take limit ordered))"

section \<open>The table\<close>

definition index_row :: "'u search_env_scheme \<Rightarrow> string \<Rightarrow> string \<Rightarrow> Note \<Rightarrow> FtsRow" where
  "index_row v tags notebook n =
     \<lparr>fr_note_id = n_id n, fr_title = n_title n, fr_body = n_body n, fr_tags = tags, fr_notebook = notebook,
      fr_notebook_id = n_notebook_id n, fr_is_todo = bit_text (n_is_todo n),
      fr_is_completed = bit_text (n_todo_completed n \<noteq> None),
      fr_todo_due = (case n_todo_due n of None \<Rightarrow> [] | Some t \<Rightarrow> sv_rfc v t),
      fr_is_starred = bit_text (n_is_starred n), fr_is_pinned = bit_text (n_is_pinned n),
      fr_updated_at = sv_rfc v (n_updated_at n)\<rparr>"

definition index_remove :: "uuid \<Rightarrow> Index \<Rightarrow> Index" where
  "index_remove i idx = filter (\<lambda>r. fr_note_id r \<noteq> i) idx"

definition index_upsert :: "'u search_env_scheme \<Rightarrow> Note \<Rightarrow> string \<Rightarrow> string \<Rightarrow> Index \<Rightarrow> Index" where
  "index_upsert v n tags notebook idx = index_remove (n_id n) idx @ [index_row v tags notebook n]"

section \<open>The task\<close>

definition denormalize :: "'s backend \<Rightarrow> Note \<Rightarrow> 's \<Rightarrow> (string \<times> string) \<times> 's" where
  "denormalize be n s =
    (let (listed, s) = list_note_tags be (n_id n) 0 None s;
         (read, s) = read_notebook be (n_notebook_id n) s
     in ((case listed of Inl _ \<Rightarrow> [] | Inr (tags, _) \<Rightarrow> join_with CHR '' '' (map t_title tags),
          case read of Inl _ \<Rightarrow> [] | Inr nb \<Rightarrow> nb_title nb), s))"

definition index_live :: "'u search_env_scheme \<Rightarrow> 's backend \<Rightarrow> Note \<Rightarrow> Index \<times> 's \<Rightarrow> Index \<times> 's" where
  "index_live v be n = (\<lambda>(idx, s). let ((tags, notebook), s) = denormalize be n s in (index_upsert v n tags notebook idx, s))"

text \<open>
  \<open>rebuild\<close>: the loop over the pages of all notes, with fuel; \<open>None\<close> is a scan that has not ended. A page
  that cannot be read ends it.
\<close>

fun rebuild_loop :: "nat \<Rightarrow> 'u search_env_scheme \<Rightarrow> 's backend \<Rightarrow> string option \<Rightarrow> Index \<times> 's \<Rightarrow> (Index \<times> 's) option" where
  "rebuild_loop 0 v be token st = None"
| "rebuild_loop (Suc fuel) v be token (idx, s) = (case list_notes be 0 token s of
     (Inl e, s) \<Rightarrow> Some (idx, s)
   | (Inr (notes, next_token), s) \<Rightarrow>
       let st = fold (index_live v be) notes (idx, s) in
       (case next_token of Some t \<Rightarrow> rebuild_loop fuel v be (Some t) st | None \<Rightarrow> Some st))"

definition rebuild :: "nat \<Rightarrow> 'u search_env_scheme \<Rightarrow> 's backend \<Rightarrow> Index \<times> 's \<Rightarrow> (Index \<times> 's) option" where
  "rebuild fuel v be st = rebuild_loop fuel v be None ([], snd st)"

definition index_note :: "'u search_env_scheme \<Rightarrow> 's backend \<Rightarrow> Note \<Rightarrow> Index \<times> 's \<Rightarrow> Index \<times> 's" where
  "index_note v be n st =
     (if n_deleted_at n \<noteq> None then (index_remove (n_id n) (fst st), snd st) else index_live v be n st)"

definition reindex_id :: "'u search_env_scheme \<Rightarrow> 's backend \<Rightarrow> uuid \<Rightarrow> Index \<times> 's \<Rightarrow> Index \<times> 's" where
  "reindex_id v be i st = (case read_note be i (snd st) of
     (Inr n, s) \<Rightarrow> index_note v be n (fst st, s)
   | (Inl _, s) \<Rightarrow> (index_remove i (fst st), s))"

fun index_change :: "nat \<Rightarrow> 'u search_env_scheme \<Rightarrow> 's backend \<Rightarrow> Change \<Rightarrow> Index \<times> 's \<Rightarrow> (Index \<times> 's) option" where
  "index_change fuel v be (NoteCreate n) st = Some (index_note v be n st)"
| "index_change fuel v be (NoteUpdate n) st = Some (index_note v be n st)"
| "index_change fuel v be (NoteDelete i _ _ _) st = Some (index_remove i (fst st), snd st)"
| "index_change fuel v be (NoteTagAdd i _ _ _ _) st = Some (reindex_id v be i st)"
| "index_change fuel v be (NoteTagRemove i _ _ _ _) st = Some (reindex_id v be i st)"
| "index_change fuel v be (NotebookUpdate _) st = rebuild fuel v be st"
| "index_change fuel v be (NotebookDelete _ _ _ _) st = rebuild fuel v be st"
| "index_change fuel v be (TagUpdate _) st = rebuild fuel v be st"
| "index_change fuel v be (TagDelete _ _ _ _) st = rebuild fuel v be st"
| "index_change fuel v be _ st = Some st"

text \<open>
  The task's receiver of the broadcast channel: how many of the published changes it has passed. The
  channel keeps the last 1024; a receiver further behind is told that it lags, goes on with the oldest
  kept change and rebuilds. One turn of the task, which does nothing when there is nothing to receive.
\<close>

definition EVENT_CAPACITY :: nat where
  "EVENT_CAPACITY = 1024"

record 's searching =
  se_store :: "'s Announced"
  se_index :: Index
  se_passed :: nat

definition search_turn :: "nat \<Rightarrow> 'u search_env_scheme \<Rightarrow> 's Announced backend \<Rightarrow> 's searching \<Rightarrow> 's searching option" where
  "search_turn fuel v be w =
    (let sent = an_sent (se_store w); behind = length sent - se_passed w in
     if behind = 0 then Some w
     else if behind \<le> EVENT_CAPACITY
     then map_option (\<lambda>(idx, s). w\<lparr>se_store := s, se_index := idx, se_passed := se_passed w + 1\<rparr>)
       (index_change fuel v be (sent ! se_passed w) (se_index w, se_store w))
     else map_option (\<lambda>(idx, s). w\<lparr>se_store := s, se_index := idx, se_passed := length sent - EVENT_CAPACITY\<rparr>)
       (rebuild fuel v be (se_index w, se_store w)))"

text \<open>\<open>start\<close>: the receiver is subscribed, then the index is filled.\<close>

definition search_start :: "nat \<Rightarrow> 'u search_env_scheme \<Rightarrow> 's Announced backend \<Rightarrow> 's Announced \<Rightarrow> 's searching option" where
  "search_start fuel v be s =
    (let passed = length (an_sent s)
     in map_option (\<lambda>(idx, s). \<lparr>se_store = s, se_index = idx, se_passed = passed\<rparr>) (rebuild fuel v be ([], s)))"

end
