(* ===== verification/Db_Search.thy ===== *)
theory Db_Search
  imports Search Db_Linking
begin

text \<open>
  The search index over the SQL backend behind the publishing decorator: what the index holds follows
  from the published changes, in any interleaving of calls and turns of the task.
\<close>

section \<open>The index as a map\<close>

text \<open>A row without the denormalised names, the row of a live note, and the note columns of an index.\<close>

definition note_part :: "FtsRow \<Rightarrow> FtsRow" where
  "note_part r = r\<lparr>fr_tags := [], fr_notebook := []\<rparr>"

definition live_part :: "'u search_env_scheme \<Rightarrow> (uuid, Note) fmap \<Rightarrow> uuid \<Rightarrow> FtsRow option" where
  "live_part v m i = (case fmlookup m i of
     None \<Rightarrow> None | Some n \<Rightarrow> if n_deleted_at n = None then Some (index_row v [] [] n) else None)"

definition index_view :: "Index \<Rightarrow> uuid \<Rightarrow> FtsRow option" where
  "index_view idx = map_of (map (\<lambda>r. (fr_note_id r, note_part r)) idx)"

definition index_keyed :: "Index \<Rightarrow> bool" where
  "index_keyed idx \<longleftrightarrow> distinct (map fr_note_id idx)"

lemma view_remove: "index_view (index_remove i idx) = (index_view idx)(i := None)"
  by (induction idx) (auto simp: index_view_def index_remove_def)

lemma index_row_simps [simp]:
  "fr_note_id (index_row v tags nb n) = n_id n" "note_part (index_row v tags nb n) = index_row v [] [] n"
  "fr_note_id (note_part r) = fr_note_id r"
  by (simp_all add: index_row_def note_part_def)

lemma view_upsert: "index_view (index_upsert v n tags nb idx) = (index_view idx)(n_id n \<mapsto> index_row v [] [] n)"
proof -
  have "index_view (idx @ [r]) = [fr_note_id r \<mapsto> note_part r] ++ index_view idx" for idx r
    by (simp add: index_view_def)
  then have "index_view (index_upsert v n tags nb idx) = [n_id n \<mapsto> index_row v [] [] n] ++ (index_view idx)(n_id n := None)"
    by (simp add: index_upsert_def view_remove)
  then show ?thesis by (auto simp: fun_eq_iff map_add_def split: option.splits)
qed

lemma keyed_remove: "index_keyed idx \<Longrightarrow> index_keyed (index_remove i idx)"
  by (simp add: index_keyed_def index_remove_def distinct_map_filter)

lemma keyed_upsert: "index_keyed idx \<Longrightarrow> index_keyed (index_upsert v n tags nb idx)"
  using keyed_remove [of idx "n_id n"] by (auto simp: index_keyed_def index_upsert_def index_remove_def)

lemma keyed_member:
  assumes "index_keyed idx"
  shows "index_view idx i = Some p \<longleftrightarrow> (\<exists>r\<in>set idx. fr_note_id r = i \<and> note_part r = p)"
proof -
  have "distinct (map fst (map (\<lambda>r. (fr_note_id r, note_part r)) idx))" using assms by (simp add: index_keyed_def comp_def)
  from map_of_eq_Some_iff [OF this] show ?thesis by (auto simp: index_view_def)
qed

section \<open>What a change does to the index\<close>

text \<open>For one note: it puts a known row or none, or makes the task look the note up.\<close>

datatype touched = Put "FtsRow option" | Look

fun touches :: "'u search_env_scheme \<Rightarrow> Change \<Rightarrow> uuid \<Rightarrow> touched option" where
  "touches v (NoteCreate n) i = (if i = n_id n then Some (Put (live_part v (fmap_of_list [(i, n)]) i)) else None)"
| "touches v (NoteUpdate n) i = (if i = n_id n then Some (Put (live_part v (fmap_of_list [(i, n)]) i)) else None)"
| "touches v (NoteDelete j _ _ _) i = (if i = j then Some (Put None) else None)"
| "touches v (NoteTagAdd j _ _ _ _) i = (if i = j then Some Look else None)"
| "touches v (NoteTagRemove j _ _ _ _) i = (if i = j then Some Look else None)"
| "touches v (NotebookUpdate _) i = Some Look"
| "touches v (NotebookDelete _ _ _ _) i = Some Look"
| "touches v (TagUpdate _) i = Some Look"
| "touches v (TagDelete _ _ _ _) i = Some Look"
| "touches v _ i = None"

fun latest :: "'u search_env_scheme \<Rightarrow> Change list \<Rightarrow> uuid \<Rightarrow> touched option" where
  "latest v [] i = None"
| "latest v (c # cs) i = (case latest v cs i of Some t \<Rightarrow> Some t | None \<Rightarrow> touches v c i)"

lemma latest_append: "latest v (xs @ ys) i = (case latest v ys i of Some t \<Rightarrow> Some t | None \<Rightarrow> latest v xs i)"
  by (induction xs) (auto split: option.splits)

fun outcome_of :: "FtsRow option \<Rightarrow> FtsRow option \<Rightarrow> touched option \<Rightarrow> FtsRow option" where
  "outcome_of before live None = before"
| "outcome_of before live (Some (Put x)) = x"
| "outcome_of before live (Some Look) = live"

lemma outcome_some: "outcome_of a l (Some t) = outcome_of b l (Some t)"
  by (cases t) simp_all

text \<open>The index is settled up to the changes still to be received.\<close>

definition settled :: "'u search_env_scheme \<Rightarrow> Change list \<Rightarrow> (uuid, Note) fmap \<Rightarrow> Index \<Rightarrow> bool" where
  "settled v cs m idx \<longleftrightarrow> index_keyed idx \<and> (\<forall>i. outcome_of (index_view idx i) (live_part v m i) (latest v cs i) = live_part v m i)"

lemma settled_take:
  assumes "settled v (c # cs) m idx" "index_keyed idx'"
    and "\<And>i. index_view idx' i = outcome_of (index_view idx i) (live_part v m i) (touches v c i)"
  shows "settled v cs m idx'"
  unfolding settled_def
proof (intro conjI allI)
  fix i
  have "outcome_of (index_view idx i) (live_part v m i) (latest v (c # cs) i) = live_part v m i"
    using assms(1) by (simp add: settled_def)
  then show "outcome_of (index_view idx' i) (live_part v m i) (latest v cs i) = live_part v m i"
    by (cases "latest v cs i") (simp_all add: assms(3), metis outcome_some)
qed (rule assms(2))

lemma settled_skip:
  assumes "settled v (xs @ ys) m idx" "index_keyed idx'" "\<And>i. index_view idx' i = live_part v m i"
  shows "settled v ys m idx'"
  unfolding settled_def
proof (intro conjI allI)
  fix i
  have "outcome_of (index_view idx i) (live_part v m i) (latest v (xs @ ys) i) = live_part v m i"
    using assms(1) by (simp add: settled_def)
  then show "outcome_of (index_view idx' i) (live_part v m i) (latest v ys i) = live_part v m i"
    by (cases "latest v ys i") (simp_all add: assms(3) latest_append, metis outcome_some)
qed (rule assms(2))

text \<open>The changes a call publishes tell what it does to the notes.\<close>

definition tells :: "'u search_env_scheme \<Rightarrow> Change list \<Rightarrow> (uuid, Note) fmap \<Rightarrow> (uuid, Note) fmap \<Rightarrow> bool" where
  "tells v cs m m' \<longleftrightarrow> (\<forall>i. outcome_of (live_part v m i) (live_part v m' i) (latest v cs i) = live_part v m' i)"

lemma settled_call:
  assumes "settled v cs m idx" "tells v new m m'"
  shows "settled v (cs @ new) m' idx"
  unfolding settled_def
proof (intro conjI allI)
  fix i
  have before: "outcome_of (index_view idx i) (live_part v m i) (latest v cs i) = live_part v m i"
    and told: "outcome_of (live_part v m i) (live_part v m' i) (latest v new i) = live_part v m' i"
    using assms by (simp_all add: settled_def tells_def)
  show "outcome_of (index_view idx i) (live_part v m' i) (latest v (cs @ new) i) = live_part v m' i"
  proof (cases "latest v new i")
    case None
    with told have "live_part v m i = live_part v m' i" by simp
    with before None show ?thesis by (simp add: latest_append)
  next
    case (Some t)
    with told show ?thesis by (cases t) (simp_all add: latest_append)
  qed
qed (use assms(1) in \<open>simp add: settled_def\<close>)

lemma tells_nothing: "m' = m \<Longrightarrow> (\<And>c i. c \<in> set cs \<Longrightarrow> touches v c i \<in> {None, Some Look}) \<Longrightarrow> tells v cs m m'"
proof -
  assume "m' = m" and t: "\<And>c i. c \<in> set cs \<Longrightarrow> touches v c i \<in> {None, Some Look}"
  have "latest v cs i = None \<or> latest v cs i = Some Look" for i
    using t by (induction cs) (auto split: option.splits)
  with \<open>m' = m\<close> show ?thesis unfolding tells_def by (metis outcome_of.simps(1,3))
qed

lemma tells_put: "n_id n = i \<Longrightarrow> live_part v (fmap_of_list [(i, n)]) i = live_part v (fmap_of_list [(i, row)]) i \<Longrightarrow>
    m' = fmupd i row m \<Longrightarrow> c \<in> {NoteCreate n, NoteUpdate n} \<Longrightarrow> tells v [c] m m'"
  by (auto simp: tells_def live_part_def fmlookup_of_list)

section \<open>What the task relies on\<close>

text \<open>
  The reads of the backend the task calls: the note table, lookups that change nothing, and the pages
  of \<open>list_notes\<close>, which hold each live note once; \<open>pages\<close> bounds them.
\<close>

definition put_row :: "'u search_env_scheme \<Rightarrow> Note \<Rightarrow> (uuid \<Rightarrow> FtsRow option) \<Rightarrow> uuid \<Rightarrow> FtsRow option" where
  "put_row v n f = f(n_id n \<mapsto> index_row v [] [] n)"

locale note_reader =
  fixes be :: "'s backend"
    and tab :: "'s \<Rightarrow> (uuid, Note) fmap"
    and ok :: "'s \<Rightarrow> bool"
    and pages :: "nat \<Rightarrow> 's \<Rightarrow> bool"
  assumes keyed: "ok s \<Longrightarrow> fmlookup (tab s) i = Some n \<Longrightarrow> n_id n = i"
    and reading: "read_note be i s = (case fmlookup (tab s) i of None \<Rightarrow> (Inl NotFound, s) | Some n \<Rightarrow> (Inr n, s))"
    and tagging: "\<exists>r. list_note_tags be i z t s = (r, s)"
    and filing: "\<exists>r. read_notebook be i s = (r, s)"
    and scanning: "ok s \<Longrightarrow> pages k s \<Longrightarrow> \<exists>pg items. (\<forall>t. list_notes be 0 t s = (Inr (pg t), s)) \<and>
      walk_pages k pg None = Some items \<and> distinct (map n_id items) \<and>
      (\<forall>n. n \<in> set items \<longleftrightarrow> (\<exists>i. fmlookup (tab s) i = Some n \<and> n_deleted_at n = None))"
begin

lemma index_live_result: "\<exists>tags nb. index_live v be n (idx, s) = (index_upsert v n tags nb idx, s)"
proof -
  obtain r r' where "list_note_tags be (n_id n) 0 None s = (r, s)" "read_notebook be (n_notebook_id n) s = (r', s)"
    using tagging filing by blast
  then have "\<exists>tags nb. denormalize be n s = ((tags, nb), s)" by (simp add: denormalize_def)
  then obtain tags nb where "denormalize be n s = ((tags, nb), s)" by blast
  then show ?thesis by (intro exI [of _ tags] exI [of _ nb]) (simp add: index_live_def)
qed

lemma fold_live:
  "index_keyed idx \<Longrightarrow> \<exists>idx'. fold (index_live v be) ns (idx, s) = (idx', s) \<and> index_keyed idx' \<and>
     index_view idx' = fold (put_row v) ns (index_view idx)"
proof (induction ns arbitrary: idx)
  case (Cons n ns)
  obtain tags nb where "index_live v be n (idx, s) = (index_upsert v n tags nb idx, s)" using index_live_result by blast
  with Cons.IH [OF keyed_upsert [OF Cons.prems], of v n tags nb] show ?case by (simp add: view_upsert put_row_def)
qed simp

lemma rebuild_walk:
  assumes "\<forall>t. list_notes be 0 t s = (Inr (pg t), s)"
  shows "walk_pages k pg token = Some items \<Longrightarrow> index_keyed idx \<Longrightarrow>
    \<exists>idx'. rebuild_loop k v be token (idx, s) = Some (idx', s) \<and> index_keyed idx' \<and>
      index_view idx' = fold (put_row v) items (index_view idx)"
proof (induction k arbitrary: token idx items)
  case (Suc k)
  obtain ns after where pg: "pg token = (ns, after)" by (cases "pg token")
  obtain idx1 where one: "fold (index_live v be) ns (idx, s) = (idx1, s)" "index_keyed idx1"
    "index_view idx1 = fold (put_row v) ns (index_view idx)"
    using fold_live [OF Suc.prems(2)] by blast
  show ?case
  proof (cases after)
    case None
    with Suc.prems(1) pg have "items = ns" by simp
    with None pg one show ?thesis by (simp add: assms)
  next
    case (Some t)
    with Suc.prems(1) pg obtain rest where rest: "walk_pages k pg (Some t) = Some rest" "items = ns @ rest" by auto
    from Suc.IH [OF rest(1) one(2)] rest(2) Some pg one(1,3) show ?thesis by (simp add: assms)
  qed
qed simp

lemma fold_put_row:
  "distinct (map n_id ns) \<Longrightarrow>
     fold (put_row v) ns f i = (case find (\<lambda>n. n_id n = i) ns of None \<Rightarrow> f i | Some n \<Rightarrow> Some (index_row v [] [] n))"
proof (induction ns arbitrary: f)
  case (Cons n ns)
  have "find (\<lambda>m. n_id m = i) ns = None" if "n_id n = i"
    using Cons.prems that by (auto simp: find_None_iff) (metis image_eqI)
  with Cons show ?case by (auto simp: put_row_def split: option.splits)
qed simp

lemma find_distinct: "distinct (map ident xs) \<Longrightarrow> n \<in> set xs \<Longrightarrow> find (\<lambda>m. ident m = ident n) xs = Some n"
  by (induction xs) (auto simp: rev_image_eqI)

lemma rebuild_result:
  assumes "ok s" "pages k s"
  shows "\<exists>idx'. rebuild k v be (idx, s) = Some (idx', s) \<and> index_keyed idx' \<and> (\<forall>i. index_view idx' i = live_part v (tab s) i)"
proof -
  obtain pg items where pg: "\<forall>t. list_notes be 0 t s = (Inr (pg t), s)" "walk_pages k pg None = Some items"
    "distinct (map n_id items)" "\<And>n. n \<in> set items \<longleftrightarrow> (\<exists>i. fmlookup (tab s) i = Some n \<and> n_deleted_at n = None)"
    using scanning [OF assms] by blast
  obtain idx' where idx': "rebuild_loop k v be None ([], s) = Some (idx', s)" "index_keyed idx'"
    "index_view idx' = fold (put_row v) items (index_view [])"
    using rebuild_walk [OF pg(1,2), of "[]"] by (auto simp: index_keyed_def)
  have "index_view idx' i = live_part v (tab s) i" for i
  proof (cases "live_part v (tab s) i")
    case None
    then have "find (\<lambda>n. n_id n = i) items = None"
      using pg(4) keyed [OF assms(1)] by (fastforce simp: find_None_iff live_part_def split: option.splits if_splits)
    with None show ?thesis unfolding idx'(3) fold_put_row [OF pg(3)] by (simp add: index_view_def)
  next
    case (Some p)
    then obtain n where n: "fmlookup (tab s) i = Some n" "n_deleted_at n = None" "p = index_row v [] [] n"
      by (auto simp: live_part_def split: option.splits if_splits)
    then have "n \<in> set items" "n_id n = i" using pg(4) keyed [OF assms(1)] by blast+
    with find_distinct [OF pg(3) this(1)] have "find (\<lambda>n. n_id n = i) items = Some n" by simp
    with Some n(3) show ?thesis unfolding idx'(3) fold_put_row [OF pg(3)] by simp
  qed
  with idx'(1,2) show ?thesis by (auto simp: rebuild_def)
qed

lemma index_note_result:
  assumes "index_keyed idx"
  shows "\<exists>idx'. index_note v be n (idx, s) = (idx', s) \<and> index_keyed idx' \<and>
    index_view idx' = (index_view idx)(n_id n := live_part v (fmap_of_list [(n_id n, n)]) (n_id n))"
proof (cases "n_deleted_at n")
  case None
  obtain tags nb where "index_live v be n (idx, s) = (index_upsert v n tags nb idx, s)" using index_live_result by blast
  with None show ?thesis
    using keyed_upsert [OF assms, of v n tags nb] by (simp add: index_note_def view_upsert live_part_def fmlookup_of_list)
next
  case (Some t)
  then show ?thesis using keyed_remove [OF assms] by (simp add: index_note_def view_remove live_part_def fmlookup_of_list)
qed

lemma reindex_result:
  assumes "ok s" "index_keyed idx"
  shows "\<exists>idx'. reindex_id v be i (idx, s) = (idx', s) \<and> index_keyed idx' \<and>
    index_view idx' = (index_view idx)(i := live_part v (tab s) i)"
proof (cases "fmlookup (tab s) i")
  case None
  then show ?thesis using keyed_remove [OF assms(2)] by (simp add: reindex_id_def reading view_remove live_part_def)
next
  case (Some n)
  then have "n_id n = i" by (rule keyed [OF assms(1)])
  with index_note_result [OF assms(2), of v n s] Some show ?thesis
    by (auto simp: reindex_id_def reading live_part_def fmlookup_of_list)
qed

lemma index_change_result:
  assumes "ok s" "pages k s" "index_keyed idx"
  shows "\<exists>idx'. index_change k v be c (idx, s) = Some (idx', s) \<and> index_keyed idx' \<and>
    (\<forall>i. index_view idx' i = outcome_of (index_view idx i) (live_part v (tab s) i) (touches v c i))"
proof (cases c)
  case (NoteCreate n)
  with index_note_result [OF assms(3), of v n s] show ?thesis by auto
next
  case (NoteUpdate n)
  with index_note_result [OF assms(3), of v n s] show ?thesis by auto
next
  case (NoteTagAdd i)
  with reindex_result [OF assms(1,3), of v i] show ?thesis by auto
next
  case (NoteTagRemove i)
  with reindex_result [OF assms(1,3), of v i] show ?thesis by auto
qed (use assms(3) rebuild_result [OF assms(1,2), of v idx] in
  \<open>auto simp: view_remove keyed_remove\<close>)

end

section \<open>Calls on the SQL backend\<close>

definition listable :: "'c text_codec_scheme \<Rightarrow> nat \<Rightarrow> Db \<Rightarrow> bool" where
  "listable tc k d \<longleftrightarrow> ts_text_ok tc (n_created_at ` set (rows_of (db_notes d))) \<and> uuid_text_ok (uuid_text.truncate tc) \<and>
     0 < k \<and> length (rows_of (db_notes d)) \<le> k * unat (effective_page_size 0)"

abbreviation published :: "'c text_codec_scheme \<Rightarrow> nat \<Rightarrow> (nat \<Rightarrow> ts) \<Rightarrow> remote \<Rightarrow> Db Announced backend" where
  "published tc fuel clock rm \<equiv> event_backend tc fuel clock (db_backend tc rm)"

lemmas published_defs = event_backend_def event_base_def db_backend_def ev_create_note_def ev_update_note_def ev_delete_note_def
  ev_create_notebook_def ev_update_notebook_def ev_delete_notebook_def ev_create_tag_def ev_update_tag_def ev_delete_tag_def
  ev_add_note_tag_def ev_remove_note_tag_def ev_create_resource_def ev_delete_resource_def

interpretation sql_reader: note_reader "published tc fuel clock rm" "\<lambda>s. db_notes (an_inner s)"
  "\<lambda>s. notes_keyed (an_inner s)" "\<lambda>k s. listable tc k (an_inner s)" for tc fuel clock rm
proof (unfold_locales, goal_cases)
  case (1 s i n)
  then show ?case by (rule notes_keyedD)
next
  case (2 i s)
  show ?case by (simp add: published_defs delegate_def db_read_note_def split: option.splits)
next
  case (3 i z t s)
  show ?case by (simp add: published_defs delegate_def db_list_note_tags_def)
next
  case (4 i s)
  show ?case by (simp add: published_defs delegate_def db_read_notebook_def split: option.splits)
next
  case (5 s k)
  let ?key = "\<lambda>n. created_key tc (n_created_at n) (n_id n)"
  let ?rows = "filter (\<lambda>n. n_deleted_at n = None) (rows_of (db_notes (an_inner s)))"
  obtain j where k: "k = Suc j" using 5(2) by (auto simp: listable_def dest: gr0_implies_Suc)
  have dist: "distinct (map n_id ?rows)"
    using rows_of_distinct [of "db_notes (an_inner s)" n_id] notes_keyedD [OF 5(1)] by (blast intro: distinct_map_filter)
  have ok: "ts_text_ok tc (n_created_at ` set ?rows)" "uuid_text_ok (uuid_text.truncate tc)"
    using 5(2) by (auto simp: listable_def intro: ts_text_ok_subset)
  have "length ?rows \<le> k * unat (effective_page_size 0)"
    using 5(2) le_trans [OF length_filter_le] by (auto simp: listable_def)
  from created_walk(1) [OF ok dist, of j 0] this k
  have "walk_pages k (\<lambda>t. sql_page 0 t ?key ?rows) None = Some (sort_key ?key ?rows)" by (simp del: walk_pages.simps)
  moreover have "distinct (map n_id (sort_key ?key ?rows))" using dist by (simp add: distinct_map)
  ultimately show ?case
    by (intro exI [of _ "\<lambda>t. sql_page 0 t ?key ?rows"] exI [of _ "sort_key ?key ?rows"])
      (auto simp: published_defs delegate_def db_list_notes_def rows_of_mem)
qed

text \<open>A call keeps the rows keyed and publishes what it does to the notes.\<close>

definition feeds :: "'u search_env_scheme \<Rightarrow> Db Announced \<Rightarrow> Db Announced \<Rightarrow> bool" where
  "feeds v s s' \<longleftrightarrow> (notes_keyed (an_inner s) \<longrightarrow> notes_keyed (an_inner s')) \<and>
     (\<exists>new. an_sent s' = an_sent s @ new \<and> tells v new (db_notes (an_inner s)) (db_notes (an_inner s')))"

lemma announcing_result:
  "announcing change act s = (case act (an_inner s) of
     (Inl e, t) \<Rightarrow> (Inl e, s\<lparr>an_inner := t\<rparr>) | (Inr x, t) \<Rightarrow> (Inr x, s\<lparr>an_inner := t, an_sent := an_sent s @ [change x]\<rparr>))"
  "announcing_at clock change' act' s = (case act' (an_inner s) of
     (Inl e, t) \<Rightarrow> (Inl e, s\<lparr>an_inner := t\<rparr>)
   | (Inr x, t) \<Rightarrow> (Inr (), s\<lparr>an_inner := t, an_ticks := an_ticks s + 1, an_sent := an_sent s @ [change' (clock (an_ticks s))]\<rparr>))"
  by (simp_all add: announcing_def announcing_at_def delegate_def publish_def split: prod.splits sum.splits)

lemma feeds_frame:
  assumes "db_notes (an_inner s') = db_notes (an_inner s)" "an_sent s' = an_sent s @ new"
    and "\<And>c i. c \<in> set new \<Longrightarrow> touches v c i \<in> {None, Some Look}"
  shows "feeds v s s'"
  using assms tells_nothing [of "db_notes (an_inner s')" "db_notes (an_inner s)" new v] by (auto simp: feeds_def notes_keyed_def)

text \<open>Calls whose event does not carry a note.\<close>

lemma feeds_announcing:
  assumes "db_notes (snd (act (an_inner s))) = db_notes (an_inner s)" "\<And>x i. touches v (change x) i \<in> {None, Some Look}"
  shows "feeds v s (snd (announcing change act s))"
proof -
  obtain r t where "act (an_inner s) = (r, t)" by (cases "act (an_inner s)")
  with assms show ?thesis
    by (intro feeds_frame [where new = "case r of Inl _ \<Rightarrow> [] | Inr x \<Rightarrow> [change x]"])
      (auto simp: announcing_result split: sum.splits)
qed

lemma feeds_announcing_at:
  assumes "db_notes (snd (act (an_inner s))) = db_notes (an_inner s)" "\<And>t i. touches v (change t) i \<in> {None, Some Look}"
  shows "feeds v s (snd (announcing_at clock change act s))"
proof -
  obtain r t where "act (an_inner s) = (r, t)" by (cases "act (an_inner s)")
  with assms show ?thesis
    by (intro feeds_frame [where new = "case r of Inl _ \<Rightarrow> [] | Inr _ \<Rightarrow> [change (clock (an_ticks s))]"])
      (auto simp: announcing_result split: sum.splits)
qed

lemma feeds_delegate: "db_notes (snd (act (an_inner s))) = db_notes (an_inner s) \<Longrightarrow> feeds v s (snd (delegate act s))"
  by (rule feeds_frame [where new = "[]"]) (auto simp: delegate_def split: prod.splits)

lemma same_live_part:
  "same_but_version a b \<Longrightarrow> live_part v (fmap_of_list [(i, a)]) i = live_part v (fmap_of_list [(i, b)]) i"
  by (cases a; cases b) (simp add: same_but_version_def live_part_def index_row_def fmlookup_of_list)

lemmas stack_defs = event_backend_def event_base_def ev_create_note_def ev_update_note_def ev_delete_note_def
  ev_create_notebook_def ev_update_notebook_def ev_delete_notebook_def ev_create_tag_def ev_update_tag_def ev_delete_tag_def
  ev_add_note_tag_def ev_remove_note_tag_def ev_create_resource_def ev_delete_resource_def

lemma feeds_create_note: "feeds v s (snd (create_note (published tc fuel clock rm) n s))"
proof -
  obtain r t where c: "db_create_note n (an_inner s) = (r, t)" by (cases "db_create_note n (an_inner s)")
  show ?thesis
  proof (cases r)
    case (Inl e)
    with c transaction_failed [of _ "an_inner s" e t] show ?thesis
      by (intro feeds_frame [where new = "[]"]) (auto simp: published_defs announcing_result db_create_note_def)
  next
    case (Inr m)
    from create_note_tables [OF c [unfolded Inr]]
    have m: "same_but_version n m" "db_notes t = fmupd (n_id n) m (db_notes (an_inner s))" "n_id m = n_id n"
      by (auto dest: same_but_versionD)
    have "tells v [NoteCreate m] (db_notes (an_inner s)) (db_notes t)" by (rule tells_put [OF m(3) refl m(2)]) simp
    moreover have "notes_keyed (an_inner s) \<Longrightarrow> notes_keyed t"
      using m(2,3) by (auto simp: notes_keyed_def fmpred_iff split: if_splits)
    ultimately show ?thesis using c Inr by (auto simp: feeds_def published_defs announcing_result)
  qed
qed

lemma feeds_update_note: "feeds v s (snd (update_note (published tc fuel clock rm) n s))"
proof -
  obtain r t where c: "db_update_note n (an_inner s) = (r, t)" by (cases "db_update_note n (an_inner s)")
  show ?thesis
  proof (cases r)
    case (Inl e)
    with c transaction_failed [of _ "an_inner s" e t] show ?thesis
      by (intro feeds_frame [where new = "[]"]) (auto simp: published_defs announcing_result db_update_note_def)
  next
    case (Inr m)
    from update_note_tables [OF c [unfolded Inr]] obtain row where
      m: "same_but_version n m" "same_but_version n row" "db_notes t = fmupd (n_id n) row (db_notes (an_inner s))"
      "n_id m = n_id n" "n_id row = n_id n"
      by (auto dest: same_but_versionD)
    have "live_part v (fmap_of_list [(n_id n, m)]) (n_id n) = live_part v (fmap_of_list [(n_id n, row)]) (n_id n)"
      using same_live_part [OF m(1), of v "n_id n"] same_live_part [OF m(2), of v "n_id n"] by simp
    from tells_put [OF m(4) this m(3), of "NoteUpdate m"]
    have "tells v [NoteUpdate m] (db_notes (an_inner s)) (db_notes t)" by simp
    moreover have "notes_keyed (an_inner s) \<Longrightarrow> notes_keyed t"
      using m(3,5) by (auto simp: notes_keyed_def fmpred_iff split: if_splits)
    ultimately show ?thesis using c Inr by (auto simp: feeds_def published_defs announcing_result)
  qed
qed

lemma feeds_delete_note: "feeds v s (snd (delete_note (published tc fuel clock rm) i s))"
proof -
  obtain r t where c: "db_delete_note i (an_inner s) = (r, t)" by (cases "db_delete_note i (an_inner s)")
  show ?thesis
  proof (cases r)
    case (Inl e)
    with c transaction_failed [of _ "an_inner s" e t] show ?thesis
      by (intro feeds_frame [where new = "[]"]) (auto simp: published_defs announcing_result db_delete_note_def)
  next
    case (Inr m)
    obtain row where row: "db_notes t = fmupd i row (db_notes (an_inner s))" "n_deleted_at row \<noteq> None"
      using delete_note_tables [OF c [unfolded Inr]] by blast
    have "\<exists>old k u w. fmlookup (db_notes (an_inner s)) i = Some old \<and> db_notes t = fmupd i (note_tombstone old k u w) (db_notes (an_inner s))"
    proof (cases "fmlookup (db_notes (an_inner s)) i")
      case None
      with c Inr show ?thesis by (simp add: db_delete_note_def transaction_def db_now_def)
    next
      case (Some old)
      with c show ?thesis by (fastforce simp: db_delete_note_def transaction_def db_now_def Let_def)
    qed
    then have "notes_keyed (an_inner s) \<Longrightarrow> notes_keyed t"
      by (auto simp: notes_keyed_def fmpred_iff note_tombstone_def split: if_splits)
    moreover have "tells v [NoteDelete i k fmempty []] (db_notes (an_inner s)) (db_notes t)" for k
      using row by (auto simp: tells_def live_part_def)
    ultimately show ?thesis using c Inr by (auto simp: feeds_def published_defs announcing_result)
  qed
qed

lemma notebook_frame:
  "db_notes (snd (db_create_notebook nb d)) = db_notes d" "db_notes (snd (db_update_notebook nb d)) = db_notes d"
  "db_notes (snd (db_delete_notebook i d)) = db_notes d"
  by (auto simp: db_create_notebook_def db_update_notebook_def db_delete_notebook_def transaction_def db_now_def Let_def
      split: prod.splits sum.splits option.splits if_splits)

lemma feeds_notebook:
  "feeds v s (snd (create_notebook (published tc fuel clock rm) nb s))"
  "feeds v s (snd (update_notebook (published tc fuel clock rm) nb s))"
  "feeds v s (snd (delete_notebook (published tc fuel clock rm) i s))"
  by (auto simp: published_defs intro!: feeds_announcing feeds_announcing_at notebook_frame)

lemma feeds_pass:
  assumes "passes (published tc fuel clock rm) s s'"
  shows "feeds v s s'"
proof -
  have frame: "passes (db_backend tc rm) d d' \<Longrightarrow> db_notes d' = db_notes d" for d d' using passes_tables by blast
  note inner = frame [OF pass_create_tag] frame [OF pass_update_tag] frame [OF pass_delete_tag] frame [OF pass_add_note_tag]
    frame [OF pass_remove_note_tag] frame [OF pass_create_resource] frame [OF pass_delete_resource] frame [OF pass_purge]
    frame [OF pass_send] frame [OF pass_prune] frame [OF pass_sync_time]
  from assms show ?thesis
    by cases (simp_all add: stack_defs, (rule feeds_announcing feeds_announcing_at feeds_delegate, rule inner, simp?)+)
qed

lemma feeds_receive: "feeds v s (snd (receive_changes (published tc fuel clock rm) s))"
  by (simp add: published_defs feeds_delegate receive_tables)

section \<open>Interleavings of calls and turns\<close>

inductive feed_step :: "Db Announced backend \<Rightarrow> Db Announced \<Rightarrow> Db Announced \<Rightarrow> bool" for C where
  fed_create_note: "feed_step C s (snd (create_note C n s))"
| fed_update_note: "feed_step C s (snd (update_note C n s))"
| fed_delete_note: "feed_step C s (snd (delete_note C i s))"
| fed_create_notebook: "feed_step C s (snd (create_notebook C nb s))"
| fed_update_notebook: "feed_step C s (snd (update_notebook C nb s))"
| fed_delete_notebook: "feed_step C s (snd (delete_notebook C i s))"
| fed_other: "passes C s s' \<Longrightarrow> feed_step C s s'"
| fed_receive: "feed_step C s (snd (receive_changes C s))"

lemma feed_step_feeds: "feed_step (published tc fuel clock rm) s s' \<Longrightarrow> feeds v s s'"
  by (induction rule: feed_step.induct)
    (rule feeds_create_note feeds_update_note feeds_delete_note feeds_notebook feeds_receive | erule feeds_pass)+

inductive search_reach :: "nat \<Rightarrow> 'u search_env_scheme \<Rightarrow> 'c text_codec_scheme \<Rightarrow> Db Announced backend \<Rightarrow> Db searching \<Rightarrow> bool"
  for k v tc C where
  search_started: "notes_keyed (an_inner s) \<Longrightarrow> listable tc k (an_inner s) \<Longrightarrow> search_start k v C s = Some w \<Longrightarrow>
    search_reach k v tc C w"
| search_called: "search_reach k v tc C w \<Longrightarrow> feed_step C (se_store w) s' \<Longrightarrow> search_reach k v tc C (w\<lparr>se_store := s'\<rparr>)"
| search_turned: "search_reach k v tc C w \<Longrightarrow> listable tc k (an_inner (se_store w)) \<Longrightarrow> search_turn k v C w = Some w' \<Longrightarrow>
    search_reach k v tc C w'"

definition search_ok :: "'u search_env_scheme \<Rightarrow> Db searching \<Rightarrow> bool" where
  "search_ok v w \<longleftrightarrow> notes_keyed (an_inner (se_store w)) \<and> se_passed w \<le> length (an_sent (se_store w)) \<and>
     settled v (drop (se_passed w) (an_sent (se_store w))) (db_notes (an_inner (se_store w))) (se_index w)"

lemma search_ok_start:
  assumes "notes_keyed (an_inner s)" "listable tc k (an_inner s)" "search_start k v (published tc fuel clock rm) s = Some w"
  shows "search_ok v w"
proof -
  obtain idx where "rebuild k v (published tc fuel clock rm) ([], s) = Some (idx, s)" "index_keyed idx"
    "\<forall>i. index_view idx i = live_part v (db_notes (an_inner s)) i"
    using sql_reader.rebuild_result [OF assms(1,2)] by blast
  with assms(1,3) show ?thesis by (auto simp: search_start_def search_ok_def settled_def)
qed

lemma search_ok_turn:
  assumes "search_ok v w" "listable tc k (an_inner (se_store w))" "search_turn k v (published tc fuel clock rm) w = Some w'"
  shows "search_ok v w'"
proof -
  let ?s = "se_store w" and ?C = "published tc fuel clock rm" and ?p = "se_passed w"
  let ?sent = "an_sent ?s"
  have keyed: "notes_keyed (an_inner ?s)" and le: "?p \<le> length ?sent" and set: "settled v (drop ?p ?sent) (db_notes (an_inner ?s)) (se_index w)"
    using assms(1) by (simp_all add: search_ok_def)
  then have idx: "index_keyed (se_index w)" by (simp add: settled_def)
  consider "?p = length ?sent" | "?p < length ?sent" "length ?sent - ?p \<le> EVENT_CAPACITY"
    | "EVENT_CAPACITY < length ?sent - ?p" using le by linarith
  then show ?thesis
  proof cases
    case 1
    with assms(1,3) show ?thesis by (simp add: search_turn_def Let_def)
  next
    case 2
    obtain idx' where c: "index_change k v ?C (?sent ! ?p) (se_index w, ?s) = Some (idx', ?s)" "index_keyed idx'"
      "\<And>i. index_view idx' i = outcome_of (index_view (se_index w) i) (live_part v (db_notes (an_inner ?s)) i) (touches v (?sent ! ?p) i)"
      using sql_reader.index_change_result [OF keyed assms(2) idx] by blast
    have "drop ?p ?sent = ?sent ! ?p # drop (Suc ?p) ?sent" using 2(1) by (simp add: Cons_nth_drop_Suc)
    with settled_take [OF _ c(2,3)] set have "settled v (drop (Suc ?p) ?sent) (db_notes (an_inner ?s)) idx'" by simp
    with c(1) 2 keyed assms(3) show ?thesis by (auto simp: search_turn_def search_ok_def Let_def)
  next
    case 3
    obtain idx' where r: "rebuild k v ?C (se_index w, ?s) = Some (idx', ?s)" "index_keyed idx'"
      "\<And>i. index_view idx' i = live_part v (db_notes (an_inner ?s)) i"
      using sql_reader.rebuild_result [OF keyed assms(2)] by blast
    let ?n = "length ?sent - EVENT_CAPACITY"
    have "drop ?p ?sent = take (?n - ?p) (drop ?p ?sent) @ drop ?n ?sent"
      using 3 append_take_drop_id [of "?n - ?p" "drop ?p ?sent"] by (simp add: EVENT_CAPACITY_def)
    with settled_skip [OF _ r(2,3)] set have "settled v (drop ?n ?sent) (db_notes (an_inner ?s)) idx'" by metis
    moreover have "w' = w\<lparr>se_store := ?s, se_index := idx', se_passed := ?n\<rparr>"
      using assms(3) r(1) 3 by (simp add: search_turn_def Let_def split: if_splits)
    ultimately show ?thesis using keyed by (simp add: search_ok_def)
  qed
qed

lemma search_reach_ok: "search_reach k v tc (published tc fuel clock rm) w \<Longrightarrow> search_ok v w"
proof (induction rule: search_reach.induct)
  case (search_started s w)
  then show ?case by (rule search_ok_start)
next
  case (search_called w s')
  obtain new where new: "an_sent s' = an_sent (se_store w) @ new"
    "tells v new (db_notes (an_inner (se_store w))) (db_notes (an_inner s'))"
    "notes_keyed (an_inner (se_store w)) \<Longrightarrow> notes_keyed (an_inner s')"
    using feed_step_feeds [OF search_called(2), of v] by (auto simp: feeds_def)
  from search_called(3) settled_call [OF _ new(2)] new(1,3) show ?case by (simp add: search_ok_def)
next
  case (search_turned w w')
  then show ?case by (auto intro: search_ok_turn)
qed

section \<open>The answers\<close>

definition note_meets :: "SearchQuery \<Rightarrow> Note \<Rightarrow> bool" where
  "note_meets q n =
    (opt_holds (\<lambda>i. n_notebook_id n = i) (sq_notebook_id q) \<and> opt_holds (\<lambda>b. n_is_todo n = b) (sq_is_todo q) \<and>
     opt_holds (\<lambda>b. (n_todo_completed n = None) = b) (sq_todo_open q) \<and> opt_holds (\<lambda>b. n_is_starred n = b) (sq_is_starred q) \<and>
     opt_holds (\<lambda>b. n_is_pinned n = b) (sq_is_pinned q) \<and>
     opt_holds (\<lambda>t. \<exists>d. n_todo_due n = Some d \<and> t \<le> d) (sq_due_after q) \<and>
     opt_holds (\<lambda>t. \<exists>d. n_todo_due n = Some d \<and> d \<le> t) (sq_due_before q) \<and>
     opt_holds (\<lambda>t. t \<le> n_updated_at n) (sq_updated_after q) \<and> opt_holds (\<lambda>t. n_updated_at n \<le> t) (sq_updated_before q))"

text \<open>On these times the texts are ordered as the times are, and not empty.\<close>

definition rfc_ok :: "'u search_env_scheme \<Rightarrow> ts set \<Rightarrow> bool" where
  "rfc_ok v T \<longleftrightarrow> (\<forall>t\<in>T. sv_rfc v t \<noteq> [] \<and> (\<forall>u\<in>T. sv_rfc v t \<le> sv_rfc v u \<longleftrightarrow> t \<le> u))"

definition query_times :: "SearchQuery \<Rightarrow> ts set" where
  "query_times q = \<Union> (set_option ` {sq_due_after q, sq_due_before q, sq_updated_after q, sq_updated_before q})"

definition note_times :: "Note \<Rightarrow> ts set" where
  "note_times n = insert (n_updated_at n) (set_option (n_todo_due n))"

lemma bit_text_eq [simp]: "bit_text a = bit_text b \<longleftrightarrow> a = b"
  by (simp add: bit_text_def)

lemma opt_holds_cong: "(\<And>x. y = Some x \<Longrightarrow> P x = Q x) \<Longrightarrow> opt_holds P y = opt_holds Q y"
  by (simp add: opt_holds_def split: option.splits)

lemma row_meets_note:
  assumes "rfc_ok v T" "query_times q \<subseteq> T" "note_times n \<subseteq> T"
  shows "row_meets v q (index_row v tags nb n) \<longleftrightarrow> note_meets q n"
proof -
  let ?r = "index_row v tags nb n"
  have le: "sv_rfc v t \<le> sv_rfc v u \<longleftrightarrow> t \<le> u" "sv_rfc v t \<noteq> []" if "t \<in> T" "u \<in> T" for t u
    using assms(1) that by (auto simp: rfc_ok_def)
  have r: "fr_updated_at ?r = sv_rfc v (n_updated_at n)" "fr_todo_due ?r = (case n_todo_due n of None \<Rightarrow> [] | Some t \<Rightarrow> sv_rfc v t)"
    by (simp_all add: index_row_def)
  have u: "n_updated_at n \<in> T" and d: "\<And>t. n_todo_due n = Some t \<Longrightarrow> t \<in> T" using assms(3) by (auto simp: note_times_def)
  have "opt_holds (\<lambda>t. sv_rfc v t \<le> fr_todo_due ?r) (sq_due_after q) = opt_holds (\<lambda>t. \<exists>d. n_todo_due n = Some d \<and> t \<le> d) (sq_due_after q)"
  proof (rule opt_holds_cong)
    fix t
    assume "sq_due_after q = Some t"
    then have "t \<in> T" using assms(2) by (auto simp: query_times_def)
    with le d show "(sv_rfc v t \<le> fr_todo_due ?r) = (\<exists>d. n_todo_due n = Some d \<and> t \<le> d)"
      by (cases "n_todo_due n") (simp_all add: r)
  qed
  moreover have "opt_holds (\<lambda>t. fr_todo_due ?r \<le> sv_rfc v t \<and> fr_todo_due ?r \<noteq> []) (sq_due_before q) =
      opt_holds (\<lambda>t. \<exists>d. n_todo_due n = Some d \<and> d \<le> t) (sq_due_before q)"
  proof (rule opt_holds_cong)
    fix t
    assume "sq_due_before q = Some t"
    then have "t \<in> T" using assms(2) by (auto simp: query_times_def)
    with le d show "(fr_todo_due ?r \<le> sv_rfc v t \<and> fr_todo_due ?r \<noteq> []) = (\<exists>d. n_todo_due n = Some d \<and> d \<le> t)"
      by (cases "n_todo_due n") (auto simp add: r)
  qed
  moreover have "opt_holds (\<lambda>t. sv_rfc v t \<le> fr_updated_at ?r) (sq_updated_after q) = opt_holds (\<lambda>t. t \<le> n_updated_at n) (sq_updated_after q)"
    using le u assms(2) by (intro opt_holds_cong) (auto simp: r query_times_def)
  moreover have "opt_holds (\<lambda>t. fr_updated_at ?r \<le> sv_rfc v t) (sq_updated_before q) = opt_holds (\<lambda>t. n_updated_at n \<le> t) (sq_updated_before q)"
    using le u assms(2) by (intro opt_holds_cong) (auto simp: r query_times_def)
  moreover have "opt_holds (\<lambda>b. fr_is_completed ?r = bit_text (\<not> b)) (sq_todo_open q) = opt_holds (\<lambda>b. (n_todo_completed n = None) = b) (sq_todo_open q)"
    by (rule opt_holds_cong) (auto simp: index_row_def)
  ultimately show ?thesis unfolding row_meets_def note_meets_def by (simp only:) (simp add: index_row_def)
qed

lemma row_meets_part: "row_meets v q (note_part r) = row_meets v q r"
  by (simp add: row_meets_def note_part_def)

text \<open>The notes an index without pending changes stands for, row by row.\<close>

lemma settled_rows:
  assumes "settled v [] m idx" "\<And>i n. fmlookup m i = Some n \<Longrightarrow> n_id n = i"
  defines "N \<equiv> \<lambda>r. the (fmlookup m (fr_note_id r))"
  shows "r \<in> set idx \<Longrightarrow> fmlookup m (n_id (N r)) = Some (N r) \<and> n_deleted_at (N r) = None \<and> n_id (N r) = fr_note_id r \<and>
      note_part r = index_row v [] [] (N r)"
    and "fmlookup m i = Some n \<Longrightarrow> n_deleted_at n = None \<Longrightarrow> \<exists>r\<in>set idx. N r = n"
proof -
  have keyed: "index_keyed idx" and view: "\<And>i. index_view idx i = live_part v m i" using assms(1) by (simp_all add: settled_def)
  note member = keyed_member [OF keyed]
  {
    assume "r \<in> set idx"
    then have "live_part v m (fr_note_id r) = Some (note_part r)"
      using member [of "fr_note_id r" "note_part r"] view [of "fr_note_id r"] by auto
    then obtain n where n: "fmlookup m (fr_note_id r) = Some n" "n_deleted_at n = None" "note_part r = index_row v [] [] n"
      by (auto simp: live_part_def split: option.splits if_splits)
    with assms(2) [OF n(1)] show "fmlookup m (n_id (N r)) = Some (N r) \<and> n_deleted_at (N r) = None \<and> n_id (N r) = fr_note_id r \<and>
      note_part r = index_row v [] [] (N r)" by (simp add: N_def)
  }
  assume n: "fmlookup m i = Some n" "n_deleted_at n = None"
  then have "index_view idx i = Some (index_row v [] [] n)" by (simp add: view live_part_def)
  then obtain r where "r \<in> set idx" "fr_note_id r = i" using member by blast
  with n show "\<exists>r\<in>set idx. N r = n" by (auto simp: N_def intro!: bexI [of _ r])
qed

lemma newest_first:
  defines "newest k xs \<equiv> rev (sort_key k (rev xs))"
  shows "set (newest k xs) = set xs" "length (newest k xs) = length xs" "distinct (map f (newest k xs)) = distinct (map f xs)"
    and "sorted_wrt (\<lambda>a b. k b \<le> k a) (newest k xs)"
proof -
  show "set (newest k xs) = set xs" "length (newest k xs) = length xs" "distinct (map f (newest k xs)) = distinct (map f xs)"
    by (simp_all add: newest_def distinct_map)
  have "sorted (map k (sort_key k (rev xs)))" by simp
  then show "sorted_wrt (\<lambda>a b. k b \<le> k a) (newest k xs)" by (simp only: newest_def sorted_wrt_rev sorted_map)
qed

lemma taken_before_dropped: "sorted_wrt P xs \<Longrightarrow> a \<in> set (take l xs) \<Longrightarrow> b \<in> set (drop l xs) \<Longrightarrow> P a b"
  using sorted_wrt_append [of P "take l xs" "drop l xs"] by simp

lemma settled_answer:
  assumes "settled v [] m idx" "\<And>i n. fmlookup m i = Some n \<Longrightarrow> n_id n = i" "split_whitespace v [] (sq_text q) = []"
    and "rfc_ok v T" "query_times q \<subseteq> T" "\<Union> (note_times ` fmran' m) \<subseteq> T"
  defines "found \<equiv> {n. fmlookup m (n_id n) = Some n \<and> n_deleted_at n = None \<and> note_meets q n}"
  shows "\<exists>ns. index_query v f q idx = map n_id ns \<and> distinct (map n_id ns) \<and> set ns \<subseteq> found \<and>
    sorted_wrt (\<lambda>a b. n_updated_at b \<le> n_updated_at a) ns \<and>
    (\<forall>n\<in>found - set ns. \<forall>a\<in>set ns. n_updated_at n \<le> n_updated_at a) \<and>
    length ns = min (max 1 (min (sq_limit q) MAX_LIMIT)) (card found)"
proof -
  define N where "N r = the (fmlookup m (fr_note_id r))" for r :: FtsRow
  define met where "met = filter (row_meets v q) idx"
  define S where "S = rev (sort_key fr_updated_at (rev met))"
  let ?l = "max 1 (min (sq_limit q) MAX_LIMIT)"
  note S = newest_first [where k = fr_updated_at and xs = met, folded S_def]
  have row: "fmlookup m (n_id (N r)) = Some (N r)" "n_deleted_at (N r) = None" "n_id (N r) = fr_note_id r"
    "note_part r = index_row v [] [] (N r)" if "r \<in> set idx" for r
    using settled_rows(1) [OF assms(1,2) that] unfolding N_def by blast+
  have times: "note_times (N r) \<subseteq> T" if "r \<in> set idx" for r using row(1) [OF that] assms(6) by (auto simp: fmran'_def)
  have meets: "row_meets v q r = note_meets q (N r)" if "r \<in> set idx" for r
    using row_meets_note [OF assms(4,5) times [OF that]] row(4) [OF that] by (metis row_meets_part)
  have key: "fr_updated_at r = sv_rfc v (n_updated_at (N r))" if "r \<in> set idx" for r
    using arg_cong [OF row(4) [OF that], of fr_updated_at] by (simp add: note_part_def index_row_def)
  have le: "fr_updated_at b \<le> fr_updated_at a \<Longrightarrow> n_updated_at (N b) \<le> n_updated_at (N a)" if "a \<in> set idx" "b \<in> set idx" for a b
    using assms(4) times [OF that(1)] times [OF that(2)] by (auto simp: key that rfc_ok_def note_times_def)
  have sub: "set S \<subseteq> set idx" by (auto simp: S(1) met_def)
  have found: "found = N ` set S"
  proof (intro set_eqI iffI)
    fix n assume "n \<in> found"
    moreover from this obtain r where "r \<in> set idx" "N r = n"
      using settled_rows(2) [OF assms(1,2), of "n_id n" n] by (auto simp: found_def N_def)
    ultimately show "n \<in> N ` set S" using meets by (auto simp: S(1) met_def found_def)
  qed (use row meets in \<open>auto simp: S(1) met_def found_def\<close>)
  have ids: "map n_id (map N S) = map fr_note_id S" using sub row(3) by auto
  have dist: "distinct (map fr_note_id S)"
    using assms(1) by (auto simp: S(3) met_def settled_def index_keyed_def intro: distinct_map_filter)
  then have "distinct (map N S)" using ids by (metis distinct_map)
  then have card: "card found = length S" using distinct_card [of "map N S"] by (simp add: found)
  have query: "index_query v f q idx = map fr_note_id (take ?l S)"
    using assms(3) by (simp add: index_query_def fts_match_def S_def met_def Let_def)
  have sorted: "sorted_wrt (\<lambda>a b. n_updated_at b \<le> n_updated_at a) (map N S)"
    unfolding sorted_wrt_map by (rule sorted_wrt_mono_rel [OF _ S(4)]) (use sub le in blast)
  let ?ns = "take ?l (map N S)"
  have "n_updated_at n \<le> n_updated_at a" if "n \<in> found - set ?ns" "a \<in> set ?ns" for n a
  proof -
    have "set (map N S) = set ?ns \<union> set (drop ?l (map N S))" by (metis append_take_drop_id set_append)
    then have "n \<in> set (drop ?l (map N S))" using that(1) by (auto simp: found)
    then show ?thesis by (rule taken_before_dropped [OF sorted that(2)])
  qed
  moreover have "map n_id ?ns = map fr_note_id (take ?l S)" using arg_cong [OF ids, of "take ?l"] by (simp only: take_map)
  with query have "index_query v f q idx = map n_id ?ns" by simp
  moreover have "distinct (map n_id ?ns)" using dist ids by (simp add: take_map [symmetric] del: map_map)
  moreover have "set ?ns \<subseteq> found" using set_take_subset [of ?l "map N S"] by (simp add: found)
  ultimately show ?thesis using sorted card by (intro exI [of _ ?ns]) (simp add: sorted_wrt_take min.commute)
qed

text \<open>
  C34. Once the search task has received every published change, a search without words finds the live
  notes: over the SQL backend, after any interleaving of calls with turns of the task, and also when
  the task has lagged behind and rebuilt its index, it returns live notes that meet the filters, each
  once, the most recently updated first and before all that are left out, and as many as there are up
  to the limit.
\<close>

theorem search_finds_live_notes:
  assumes "search_reach k v tc (event_backend tc fuel clock (db_backend tc rm)) w"
    and "se_passed w = length (an_sent (se_store w))" "m = db_notes (an_inner (se_store w))"
    and "split_whitespace v [] (sq_text q) = []"
    and "rfc_ok v T" "query_times q \<subseteq> T" "\<Union> (note_times ` fmran' m) \<subseteq> T"
    and "found = {n. fmlookup m (n_id n) = Some n \<and> n_deleted_at n = None \<and> note_meets q n}"
  shows "\<exists>ns. index_query v f q (se_index w) = map n_id ns \<and> distinct (map n_id ns) \<and> set ns \<subseteq> found \<and>
    sorted_wrt (\<lambda>a b. n_updated_at b \<le> n_updated_at a) ns \<and>
    (\<forall>n\<in>found - set ns. \<forall>a\<in>set ns. n_updated_at n \<le> n_updated_at a) \<and>
    length ns = min (max 1 (min (sq_limit q) MAX_LIMIT)) (card found)"
proof -
  have "search_ok v w" by (rule search_reach_ok [OF assms(1)])
  then have set: "settled v [] m (se_index w)" and ids: "\<And>i n. fmlookup m i = Some n \<Longrightarrow> n_id n = i"
    using assms(2,3) by (auto simp: search_ok_def dest: notes_keyedD)
  show ?thesis unfolding assms(8) by (rule settled_answer [OF set ids assms(4-7)])
qed

text \<open>A change of another device that synchronisation applies is not published, so the index keeps its old rows.\<close>

lemma remote_change_not_indexed:
  assumes "se_passed w = length (an_sent (se_store w))" "s' = snd (apply_change (published tc fuel clock rm) c (se_store w))"
  shows "search_turn k v (published tc fuel clock rm) (w\<lparr>se_store := s'\<rparr>) = Some (w\<lparr>se_store := s'\<rparr>)"
  by (simp add: assms search_turn_def event_backend_def event_base_def delegate_def split: prod.splits)

definition sample_env :: search_env where
  "sample_env = \<lparr>space_len = (\<lambda>_. 0), sv_rfc = (\<lambda>t. replicate (nat t) CHR ''a'')\<rparr>"

definition all_notes :: SearchQuery where
  "all_notes = \<lparr>sq_text = [], sq_notebook_id = None, sq_is_todo = None, sq_todo_open = None, sq_is_starred = None,
     sq_is_pinned = None, sq_due_after = None, sq_due_before = None, sq_updated_after = None, sq_updated_before = None, sq_limit = 10\<rparr>"

definition no_fts :: fts where
  "no_fts = \<lparr>fts_match_row = (\<lambda>_ _. False), fts_rank = (\<lambda>_ _ _. 0)\<rparr>"

lemma sample_query: "sq_text all_notes = []" "query_times all_notes = {}" "sq_limit all_notes = 10" "rfc_ok sample_env {100}"
  by (simp_all add: all_notes_def query_times_def rfc_ok_def sample_env_def)

theorem search_finds_live_notes_witness:
  "\<exists>w. search_reach 1 sample_env unary_codec (event_backend unary_codec 1 int (db_backend unary_codec offline)) w \<and>
     index_query sample_env no_fts all_notes (se_index w) = [7]"
proof -
  let ?C = "published unary_codec 1 int offline"
  let ?s = "\<lparr>an_inner = linked_db, an_sent = [], an_ticks = 0\<rparr> :: Db Announced"
  have keyed: "notes_keyed (an_inner ?s)" using reachable_wf [OF linked_db_reachable] by (simp add: db_wf_def)
  have "unat (effective_page_size 0) = 100" by (simp add: effective_page_size_def DEFAULT_PAGE_SIZE_def)
  then have pages: "listable unary_codec 1 (an_inner ?s)"
    using linked_db_times by (simp add: listable_def unary_codec_ok linked_db_rows)
  obtain idx where "rebuild 1 sample_env ?C ([], ?s) = Some (idx, ?s)" using sql_reader.rebuild_result [OF keyed pages] by blast
  then have w: "search_start 1 sample_env ?C ?s = Some \<lparr>se_store = ?s, se_index = idx, se_passed = 0\<rparr>" by (simp add: search_start_def)
  let ?w = "\<lparr>se_store = ?s, se_index = idx, se_passed = 0\<rparr> :: Db searching"
  have reach: "search_reach 1 sample_env unary_codec ?C ?w" by (rule search_started [OF keyed pages w])
  obtain n where n: "db_notes linked_db = fmupd 7 n fmempty" "n_id n = 7" "n_deleted_at n = None" "n_updated_at n = 100" "n_todo_due n = None"
    by (simp add: linked_db_def db_create_note_def transaction_def Let_def empty_db_def record_change_def db_now_def
      refresh_note_links_def linked_note_def sample_note_def new_note_def)
  have found: "{x. fmlookup (db_notes linked_db) (n_id x) = Some x \<and> n_deleted_at x = None \<and> note_meets all_notes x} = {n}"
    using n by (auto simp: note_meets_def all_notes_def opt_holds_def split: if_splits)
  have times: "\<Union> (note_times ` fmran' (db_notes linked_db)) \<subseteq> {100}"
    using n by (auto simp: note_times_def fmran'_def split: if_splits)
  from search_finds_live_notes [OF reach, of "db_notes linked_db" all_notes "{100}" "{n}" no_fts]
  have "\<exists>ns. index_query sample_env no_fts all_notes idx = map n_id ns \<and> set ns \<subseteq> {n} \<and> length ns = 1"
    using found times by (simp add: sample_query MAX_LIMIT_def) blast
  then obtain ns where ns: "index_query sample_env no_fts all_notes idx = map n_id ns" "set ns \<subseteq> {n}" "length ns = 1" by blast
  then have "ns = [n]" by (cases ns) auto
  with reach ns(1) n(2) show ?thesis by auto
qed

end
