(* ===== verification/Rpc.thy ===== *)
theory Rpc
  imports Linking Sync_Engine Utf8
begin

text \<open>
  The gRPC service of the daemon, \<open>keeplin-daemon/src/server.rs\<close>: the messages, their conversions and every
  handler, over an arbitrary backend. Requests without structure are passed as the arguments of a
  handler, a response is what it carries. The texts of timestamps (RFC 3339) are a parameter, as are
  the clock and fresh identifiers, which a handler takes as arguments. Handlers that scan take fuel;
  \<open>None\<close> is one that has not ended. Texts of errors are dropped.
\<close>

section \<open>Statuses\<close>

datatype Code = CodeNotFound | CodeDataLoss | CodeAlreadyExists | CodeInvalidArgument | CodeOutOfRange | CodeResourceExhausted | CodeInternal

type_synonym ('a, 's) reply = "(Code, 'a, 's) outcome"
type_synonym ('a, 's) rpc = "'s \<Rightarrow> ('a, 's) reply"

fun storage_err :: "StorageError \<Rightarrow> Code" where
  "storage_err NotFound = CodeNotFound"
| "storage_err CorruptedData = CodeDataLoss"
| "storage_err Conflict = CodeAlreadyExists"
| "storage_err InvalidInput = CodeInvalidArgument"
| "storage_err TooLarge = CodeOutOfRange"
| "storage_err _ = CodeInternal"

text \<open>\<open>.map_err(storage_err)?\<close> after a call of the backend, and \<open>?\<close> on a check that does not touch it.\<close>

definition served :: "('a, 's) op \<Rightarrow> ('a, 's) reply" where
  "served m = (case m of (Inl e, s) \<Rightarrow> (Inl (storage_err e), s) | (Inr x, s) \<Rightarrow> (Inr x, s))"

definition answering :: "('a \<Rightarrow> 'b) \<Rightarrow> ('a, 's) op \<Rightarrow> ('b, 's) reply" where
  "answering f m = and_then (served m) (\<lambda>x s. (Inr (f x), s))"

definition checked :: "Code + 'a \<Rightarrow> ('a \<Rightarrow> ('b, 's) rpc) \<Rightarrow> ('b, 's) rpc" where
  "checked r k s = (case r of Inl c \<Rightarrow> (Inl c, s) | Inr x \<Rightarrow> k x s)"

definition checked_fuel :: "Code + 'a \<Rightarrow> ('a \<Rightarrow> 's \<Rightarrow> ('b, 's) reply option) \<Rightarrow> 's \<Rightarrow> ('b, 's) reply option" where
  "checked_fuel r k s = (case r of Inl c \<Rightarrow> Some (Inl c, s) | Inr x \<Rightarrow> k x s)"

section \<open>Messages\<close>

record rpc_text = text_codec +
  rfc3339 :: "ts \<Rightarrow> string"
  parse_rfc3339 :: "string \<Rightarrow> ts option"

record ProtoBookmark =
  pb_number :: u32
  pb_text :: string
  pb_alias :: string

record ProtoNoteLink =
  pl_source :: string
  pl_raw :: string
  pl_target_note_id :: "string option"

record ProtoNote =
  pn_id :: string
  pn_title :: string
  pn_body :: string
  pn_notebook_id :: "string option"
  pn_is_todo :: bool
  pn_todo_due :: "string option"
  pn_todo_completed :: "string option"
  pn_created_at :: string
  pn_updated_at :: string
  pn_deleted_at :: "string option"
  pn_alias :: "string option"
  pn_bookmarks :: "ProtoBookmark list"
  pn_links :: "ProtoNoteLink list"
  pn_is_pinned :: bool
  pn_is_starred :: bool
  pn_sort_key :: u32

record ProtoNotebook =
  pnb_id :: string
  pnb_title :: string
  pnb_created_at :: string
  pnb_updated_at :: string
  pnb_deleted_at :: "string option"
  pnb_alias :: "string option"

record ProtoTag =
  pt_id :: string
  pt_title :: string
  pt_created_at :: string
  pt_updated_at :: string
  pt_deleted_at :: "string option"
  pt_system :: bool

text \<open>The size is an \<open>i64\<close>.\<close>

record ProtoResource =
  pr_id :: string
  pr_note_id :: string
  pr_title :: string
  pr_mime_type :: string
  pr_file_name :: string
  pr_size :: int
  pr_created_at :: string
  pr_duration_ms :: "u64 option"
  pr_width :: "u32 option"
  pr_height :: "u32 option"

definition bookmark_to_proto :: "Bookmark \<Rightarrow> ProtoBookmark" where
  "bookmark_to_proto b = \<lparr>pb_number = bm_number b, pb_text = bm_text b, pb_alias = bm_alias b\<rparr>"

fun link_source_str :: "LinkSource \<Rightarrow> string" where
  "link_source_str Content = ''content''"
| "link_source_str Manual = ''manual''"

definition notelink_to_proto :: "'c rpc_text_scheme \<Rightarrow> NoteLink \<Rightarrow> ProtoNoteLink" where
  "notelink_to_proto rt l = \<lparr>pl_source = link_source_str (l_source l), pl_raw = l_raw l,
     pl_target_note_id = map_option (show_uuid rt) (l_target_note_id l)\<rparr>"

definition note_to_proto :: "'c rpc_text_scheme \<Rightarrow> Note \<Rightarrow> ProtoNote" where
  "note_to_proto rt n =
     \<lparr>pn_id = show_uuid rt (n_id n), pn_title = n_title n, pn_body = n_body n,
      pn_notebook_id = (if n_notebook_id n = uuid_nil then None else Some (show_uuid rt (n_notebook_id n))),
      pn_is_todo = n_is_todo n, pn_todo_due = map_option (rfc3339 rt) (n_todo_due n),
      pn_todo_completed = map_option (rfc3339 rt) (n_todo_completed n), pn_created_at = rfc3339 rt (n_created_at n),
      pn_updated_at = rfc3339 rt (n_updated_at n), pn_deleted_at = map_option (rfc3339 rt) (n_deleted_at n),
      pn_alias = n_alias n, pn_bookmarks = map bookmark_to_proto (n_bookmarks n),
      pn_links = map (notelink_to_proto rt) (n_links n), pn_is_pinned = n_is_pinned n, pn_is_starred = n_is_starred n,
      pn_sort_key = n_sort_key n\<rparr>"

definition notebook_to_proto :: "'c rpc_text_scheme \<Rightarrow> Notebook \<Rightarrow> ProtoNotebook" where
  "notebook_to_proto rt nb = \<lparr>pnb_id = show_uuid rt (nb_id nb), pnb_title = nb_title nb,
     pnb_created_at = rfc3339 rt (nb_created_at nb), pnb_updated_at = rfc3339 rt (nb_updated_at nb),
     pnb_deleted_at = map_option (rfc3339 rt) (nb_deleted_at nb), pnb_alias = nb_alias nb\<rparr>"

definition resource_to_proto :: "'c rpc_text_scheme \<Rightarrow> Resource \<Rightarrow> ProtoResource" where
  "resource_to_proto rt r = \<lparr>pr_id = show_uuid rt (r_id r), pr_note_id = show_uuid rt (r_note_id r), pr_title = r_title r,
     pr_mime_type = r_mime_type r, pr_file_name = r_file_name r, pr_size = sint (r_size r),
     pr_created_at = rfc3339 rt (r_created_at r), pr_duration_ms = r_duration_ms r,
     pr_width = map_option fst (r_dimensions r), pr_height = map_option snd (r_dimensions r)\<rparr>"

definition tag_to_proto :: "'c rpc_text_scheme \<Rightarrow> Tag \<Rightarrow> ProtoTag" where
  "tag_to_proto rt t = \<lparr>pt_id = show_uuid rt (t_id t), pt_title = t_title t, pt_created_at = rfc3339 rt (t_created_at t),
     pt_updated_at = rfc3339 rt (t_updated_at t), pt_deleted_at = map_option (rfc3339 rt) (t_deleted_at t),
     pt_system = t_system t\<rparr>"

definition parse_id :: "'c rpc_text_scheme \<Rightarrow> string \<Rightarrow> Code + uuid" where
  "parse_id rt t = (case parse_uuid rt t of None \<Rightarrow> Inl CodeInvalidArgument | Some i \<Rightarrow> Inr i)"

definition parse_dt_field :: "'c rpc_text_scheme \<Rightarrow> string \<Rightarrow> Code + ts" where
  "parse_dt_field rt t = (case parse_rfc3339 rt t of None \<Rightarrow> Inl CodeInvalidArgument | Some x \<Rightarrow> Inr x)"

definition parse_optional_dt :: "'c rpc_text_scheme \<Rightarrow> string option \<Rightarrow> Code + ts option" where
  "parse_optional_dt rt t = (case t of None \<Rightarrow> Inr None | Some v \<Rightarrow> map_sum id Some (parse_dt_field rt v))"

definition proto_to_bookmark :: "ProtoBookmark \<Rightarrow> Bookmark" where
  "proto_to_bookmark b = \<lparr>bm_number = pb_number b, bm_text = pb_text b, bm_alias = pb_alias b\<rparr>"

definition proto_to_notelink :: "'c rpc_text_scheme \<Rightarrow> ProtoNoteLink \<Rightarrow> NoteLink" where
  "proto_to_notelink rt l = \<lparr>l_source = (if pl_source l = ''manual'' then Manual else Content), l_raw = pl_raw l,
     l_target_note_id = Option.bind (pl_target_note_id l) (parse_uuid rt)\<rparr>"

definition proto_notebook_id :: "'c rpc_text_scheme \<Rightarrow> string option \<Rightarrow> Code + uuid" where
  "proto_notebook_id rt t = (case t of None \<Rightarrow> Inr uuid_nil | Some v \<Rightarrow> if v = [] then Inr uuid_nil else parse_id rt v)"

definition proto_to_note :: "'c rpc_text_scheme \<Rightarrow> ProtoNote \<Rightarrow> Code + Note" where
  "proto_to_note rt n =
     try_then (parse_id rt (pn_id n)) (\<lambda>i.
     try_then (proto_notebook_id rt (pn_notebook_id n)) (\<lambda>nb.
     try_then (parse_optional_dt rt (pn_todo_due n)) (\<lambda>due.
     try_then (parse_optional_dt rt (pn_todo_completed n)) (\<lambda>completed.
     try_then (parse_dt_field rt (pn_created_at n)) (\<lambda>created.
     try_then (parse_dt_field rt (pn_updated_at n)) (\<lambda>updated.
     try_then (parse_optional_dt rt (pn_deleted_at n)) (\<lambda>deleted.
       Inr \<lparr>n_id = i, n_title = pn_title n, n_body = pn_body n, n_notebook_id = nb, n_is_todo = pn_is_todo n,
            n_todo_due = due, n_todo_completed = completed, n_created_at = created, n_updated_at = updated,
            n_deleted_at = deleted, n_alias = pn_alias n, n_bookmarks = map proto_to_bookmark (pn_bookmarks n),
            n_links = map (proto_to_notelink rt) (pn_links n), n_vv = fmempty, n_last_writer = [],
            n_is_pinned = pn_is_pinned n, n_is_starred = pn_is_starred n, n_sort_key = pn_sort_key n\<rparr>)))))))"

section \<open>Listings\<close>

text \<open>An empty page token is none, and a page without a successor has the empty token.\<close>

definition token_of :: "string \<Rightarrow> string option" where
  "token_of t = (if t = [] then None else Some t)"

definition page_reply :: "('a \<Rightarrow> 'b) \<Rightarrow> ('a list \<times> string option, 's) op \<Rightarrow> ('b list \<times> string, 's) reply" where
  "page_reply f m = answering (\<lambda>(items, next_token). (map f items, case next_token of None \<Rightarrow> [] | Some t \<Rightarrow> t)) m"

definition rpc_list_notes :: "'c rpc_text_scheme \<Rightarrow> 's backend \<Rightarrow> u32 \<Rightarrow> string \<Rightarrow> (ProtoNote list \<times> string, 's) rpc" where
  "rpc_list_notes rt be page_size page_token s = page_reply (note_to_proto rt) (list_notes be page_size (token_of page_token) s)"

definition rpc_list_notes_in_notebook :: "'c rpc_text_scheme \<Rightarrow> 's backend \<Rightarrow> string \<Rightarrow> u32 \<Rightarrow> string \<Rightarrow> (ProtoNote list \<times> string, 's) rpc" where
  "rpc_list_notes_in_notebook rt be notebook_id page_size page_token = checked (parse_id rt notebook_id) (\<lambda>i s.
     page_reply (note_to_proto rt) (list_notes_in_notebook be i page_size (token_of page_token) s))"

definition rpc_list_starred_notes :: "'c rpc_text_scheme \<Rightarrow> 's backend \<Rightarrow> u32 \<Rightarrow> string \<Rightarrow> (ProtoNote list \<times> string, 's) rpc" where
  "rpc_list_starred_notes rt be page_size page_token s =
     page_reply (note_to_proto rt) (list_starred_notes be page_size (token_of page_token) s)"

definition rpc_list_notebooks :: "'c rpc_text_scheme \<Rightarrow> 's backend \<Rightarrow> u32 \<Rightarrow> string \<Rightarrow> (ProtoNotebook list \<times> string, 's) rpc" where
  "rpc_list_notebooks rt be page_size page_token s = page_reply (notebook_to_proto rt) (list_notebooks be page_size (token_of page_token) s)"

definition rpc_list_tags :: "'c rpc_text_scheme \<Rightarrow> 's backend \<Rightarrow> u32 \<Rightarrow> string \<Rightarrow> (ProtoTag list \<times> string, 's) rpc" where
  "rpc_list_tags rt be page_size page_token s = page_reply (tag_to_proto rt) (list_tags be page_size (token_of page_token) s)"

definition rpc_list_note_tags :: "'c rpc_text_scheme \<Rightarrow> 's backend \<Rightarrow> string \<Rightarrow> u32 \<Rightarrow> string \<Rightarrow> (ProtoTag list \<times> string, 's) rpc" where
  "rpc_list_note_tags rt be note_id page_size page_token = checked (parse_id rt note_id) (\<lambda>i s.
     page_reply (tag_to_proto rt) (list_note_tags be i page_size (token_of page_token) s))"

definition rpc_list_resources :: "'c rpc_text_scheme \<Rightarrow> 's backend \<Rightarrow> string \<Rightarrow> u32 \<Rightarrow> string \<Rightarrow> (ProtoResource list \<times> string, 's) rpc" where
  "rpc_list_resources rt be note_id page_size page_token =
    (if note_id = [] then (\<lambda>s. page_reply (resource_to_proto rt) (list_resources be page_size (token_of page_token) s))
     else checked (parse_id rt note_id) (\<lambda>i s.
       page_reply (resource_to_proto rt) (list_resources_for_note be i page_size (token_of page_token) s)))"

definition rpc_list_backlinks :: "'c rpc_text_scheme \<Rightarrow> 's backend \<Rightarrow> string \<Rightarrow> u32 \<Rightarrow> string \<Rightarrow> (ProtoNote list \<times> string, 's) rpc" where
  "rpc_list_backlinks rt be note_id page_size page_token = checked (parse_id rt note_id) (\<lambda>i s.
     page_reply (note_to_proto rt) (note_backlinks be i page_size (token_of page_token) s))"

section \<open>Notes\<close>

definition body_check :: "string \<Rightarrow> Code + unit" where
  "body_check body = (case check_body body of Inl v \<Rightarrow> Inl (storage_err (storage_error_of v)) | Inr _ \<Rightarrow> Inr ())"

definition rpc_create_note :: "nat \<Rightarrow> 'c rpc_text_scheme \<Rightarrow> 's backend \<Rightarrow> uuid \<Rightarrow> ts \<Rightarrow>
    string \<Rightarrow> string \<Rightarrow> string \<Rightarrow> bool \<Rightarrow> string \<Rightarrow> 's \<Rightarrow> (ProtoNote, 's) reply option" where
  "rpc_create_note fuel rt be fresh now title body notebook_id is_todo todo_due =
    (let note = (new_note fresh now title body)\<lparr>n_is_todo := is_todo\<rparr> in
     checked_fuel (parse_optional_dt rt (token_of todo_due)) (\<lambda>due.
     checked_fuel (if notebook_id = [] then Inr (n_notebook_id note) else parse_id rt notebook_id) (\<lambda>nb.
     let note = note\<lparr>n_todo_due := due, n_notebook_id := nb\<rparr> in
     checked_fuel (body_check (n_body note)) (\<lambda>_ s.
       map_option (\<lambda>m. and_then (served m) (\<lambda>note s. answering (note_to_proto rt) (create_note be note s)))
         (place_new_note fuel be note s)))))"

definition rpc_get_note :: "'c rpc_text_scheme \<Rightarrow> 's backend \<Rightarrow> string \<Rightarrow> (ProtoNote, 's) rpc" where
  "rpc_get_note rt be note_id = checked (parse_id rt note_id) (\<lambda>i s. answering (note_to_proto rt) (read_note be i s))"

definition rpc_update_note :: "nat \<Rightarrow> 'c rpc_text_scheme \<Rightarrow> 's backend \<Rightarrow> ts \<Rightarrow> ProtoNote option \<Rightarrow> 's \<Rightarrow> (ProtoNote, 's) reply option" where
  "rpc_update_note fuel rt be now msg =
    checked_fuel (case msg of None \<Rightarrow> Inl CodeInvalidArgument | Some p \<Rightarrow> proto_to_note rt p) (\<lambda>note s.
      case served (read_note be (n_id note) s) of
        (Inl c, s) \<Rightarrow> Some (Inl c, s)
      | (Inr stored, s) \<Rightarrow>
          if n_deleted_at stored \<noteq> None then Some (Inl CodeNotFound, s)
          else checked_fuel (body_check (n_body note)) (\<lambda>_ s.
            map_option (\<lambda>m. and_then (served m) (\<lambda>note s.
                answering (note_to_proto rt) (update_note be (note\<lparr>n_updated_at := now\<rparr>) s)))
              (reconcile_notebook_move fuel be (n_notebook_id stored) note s)) s)"

definition rpc_delete_note :: "'c rpc_text_scheme \<Rightarrow> 's backend \<Rightarrow> string \<Rightarrow> (unit, 's) rpc" where
  "rpc_delete_note rt be note_id = checked (parse_id rt note_id) (\<lambda>i s. served (delete_note be i s))"

text \<open>\<open>pin_note\<close>, \<open>unpin_note\<close>, \<open>star_note\<close> and \<open>unstar_note\<close>.\<close>

definition note_action :: "(uuid \<Rightarrow> (Note, 's) act) \<Rightarrow> 'c rpc_text_scheme \<Rightarrow> string \<Rightarrow> (ProtoNote, 's) rpc" where
  "note_action act rt note_id = checked (parse_id rt note_id) (\<lambda>i s. answering (note_to_proto rt) (act i s))"

definition rpc_pin_note :: "'c rpc_text_scheme \<Rightarrow> 's backend \<Rightarrow> string \<Rightarrow> (ProtoNote, 's) rpc" where
  "rpc_pin_note rt be = note_action (pin_note be) rt"

definition rpc_unpin_note :: "'c rpc_text_scheme \<Rightarrow> 's backend \<Rightarrow> string \<Rightarrow> (ProtoNote, 's) rpc" where
  "rpc_unpin_note rt be = note_action (unpin_note be) rt"

definition rpc_star_note :: "'c rpc_text_scheme \<Rightarrow> 's backend \<Rightarrow> string \<Rightarrow> (ProtoNote, 's) rpc" where
  "rpc_star_note rt be = note_action (star_note be) rt"

definition rpc_unstar_note :: "'c rpc_text_scheme \<Rightarrow> 's backend \<Rightarrow> string \<Rightarrow> (ProtoNote, 's) rpc" where
  "rpc_unstar_note rt be = note_action (unstar_note be) rt"

fun reorder_each :: "'c rpc_text_scheme \<Rightarrow> 's backend \<Rightarrow> (string \<times> u32) list \<Rightarrow> ProtoNote list \<Rightarrow> (ProtoNote list, 's) rpc" where
  "reorder_each rt be [] out s = (Inr out, s)"
| "reorder_each rt be ((note_id, key) # orders) out s =
     checked (parse_id rt note_id) (\<lambda>i s.
       and_then (answering (note_to_proto rt) (reorder_note be i key s)) (\<lambda>p s. reorder_each rt be orders  (out @ [p]) s)) s"

definition rpc_reorder_notes :: "'c rpc_text_scheme \<Rightarrow> 's backend \<Rightarrow> (string \<times> u32) list \<Rightarrow> (ProtoNote list, 's) rpc" where
  "rpc_reorder_notes rt be orders = reorder_each rt be orders []"

section \<open>Notebooks and tags\<close>

definition ensure_not_deleted :: "('a \<Rightarrow> ts option) \<Rightarrow> ('a, 's) op \<Rightarrow> (unit, 's) reply" where
  "ensure_not_deleted deleted_at read_result = and_then (served read_result) (\<lambda>entity s.
     if deleted_at entity \<noteq> None then (Inl CodeNotFound, s) else (Inr (), s))"

definition rpc_create_notebook :: "'c rpc_text_scheme \<Rightarrow> 's backend \<Rightarrow> uuid \<Rightarrow> ts \<Rightarrow> string \<Rightarrow> (ProtoNotebook, 's) rpc" where
  "rpc_create_notebook rt be fresh now title s = answering (notebook_to_proto rt) (create_notebook be (new_notebook fresh now title) s)"

definition rpc_get_notebook :: "'c rpc_text_scheme \<Rightarrow> 's backend \<Rightarrow> string \<Rightarrow> (ProtoNotebook, 's) rpc" where
  "rpc_get_notebook rt be notebook_id = checked (parse_id rt notebook_id) (\<lambda>i s. answering (notebook_to_proto rt) (read_notebook be i s))"

definition proto_to_notebook :: "'c rpc_text_scheme \<Rightarrow> ts \<Rightarrow> ProtoNotebook \<Rightarrow> Code + Notebook" where
  "proto_to_notebook rt now nb =
     try_then (parse_id rt (pnb_id nb)) (\<lambda>i.
     try_then (parse_dt_field rt (pnb_created_at nb)) (\<lambda>created.
     try_then (parse_optional_dt rt (pnb_deleted_at nb)) (\<lambda>deleted.
       Inr \<lparr>nb_id = i, nb_title = pnb_title nb, nb_created_at = created, nb_updated_at = now, nb_deleted_at = deleted,
            nb_alias = pnb_alias nb, nb_vv = fmempty, nb_last_writer = []\<rparr>)))"

definition rpc_update_notebook :: "'c rpc_text_scheme \<Rightarrow> 's backend \<Rightarrow> ts \<Rightarrow> ProtoNotebook option \<Rightarrow> (ProtoNotebook, 's) rpc" where
  "rpc_update_notebook rt be now msg =
     checked (case msg of None \<Rightarrow> Inl CodeInvalidArgument | Some p \<Rightarrow> proto_to_notebook rt now p) (\<lambda>nb s.
       and_then (ensure_not_deleted nb_deleted_at (read_notebook be (nb_id nb) s)) (\<lambda>_ s.
         answering (notebook_to_proto rt) (update_notebook be nb s)))"

definition rpc_delete_notebook :: "'c rpc_text_scheme \<Rightarrow> 's backend \<Rightarrow> string \<Rightarrow> (unit, 's) rpc" where
  "rpc_delete_notebook rt be notebook_id = checked (parse_id rt notebook_id) (\<lambda>i s.
     if is_inbox i then (Inl CodeInvalidArgument, s) else served (delete_notebook be i s))"

definition rpc_create_tag :: "'c rpc_text_scheme \<Rightarrow> 's backend \<Rightarrow> uuid \<Rightarrow> ts \<Rightarrow> string \<Rightarrow> (ProtoTag, 's) rpc" where
  "rpc_create_tag rt be fresh now title s = answering (tag_to_proto rt) (create_tag be (new_tag fresh now title) s)"

definition rpc_add_note_tag :: "'c rpc_text_scheme \<Rightarrow> 's backend \<Rightarrow> string \<Rightarrow> string \<Rightarrow> (unit, 's) rpc" where
  "rpc_add_note_tag rt be note_id tag_id = checked (parse_id rt note_id) (\<lambda>i. checked (parse_id rt tag_id) (\<lambda>j s.
     served (add_note_tag be \<lparr>nt_note_id = i, nt_tag_id = j\<rparr> s)))"

definition rpc_remove_note_tag :: "'c rpc_text_scheme \<Rightarrow> 's backend \<Rightarrow> string \<Rightarrow> string \<Rightarrow> (unit, 's) rpc" where
  "rpc_remove_note_tag rt be note_id tag_id = checked (parse_id rt note_id) (\<lambda>i. checked (parse_id rt tag_id) (\<lambda>j s.
     served (remove_note_tag be i j s)))"

definition rpc_get_tag :: "'c rpc_text_scheme \<Rightarrow> 's backend \<Rightarrow> string \<Rightarrow> (ProtoTag, 's) rpc" where
  "rpc_get_tag rt be tag_id = checked (parse_id rt tag_id) (\<lambda>i s. answering (tag_to_proto rt) (read_tag be i s))"

definition proto_to_tag :: "'c rpc_text_scheme \<Rightarrow> ts \<Rightarrow> ProtoTag \<Rightarrow> Code + Tag" where
  "proto_to_tag rt now t =
     try_then (parse_id rt (pt_id t)) (\<lambda>i.
     try_then (parse_dt_field rt (pt_created_at t)) (\<lambda>created.
     try_then (parse_optional_dt rt (pt_deleted_at t)) (\<lambda>deleted.
       Inr \<lparr>t_id = i, t_title = pt_title t, t_created_at = created, t_updated_at = now, t_deleted_at = deleted,
            t_vv = fmempty, t_last_writer = [], t_system = pt_system t\<rparr>)))"

definition rpc_update_tag :: "'c rpc_text_scheme \<Rightarrow> 's backend \<Rightarrow> ts \<Rightarrow> ProtoTag option \<Rightarrow> (ProtoTag, 's) rpc" where
  "rpc_update_tag rt be now msg =
     checked (case msg of None \<Rightarrow> Inl CodeInvalidArgument | Some p \<Rightarrow> proto_to_tag rt now p) (\<lambda>tag s.
       and_then (ensure_not_deleted t_deleted_at (read_tag be (t_id tag) s)) (\<lambda>_ s.
         answering (tag_to_proto rt) (update_tag be tag s)))"

definition rpc_delete_tag :: "'c rpc_text_scheme \<Rightarrow> 's backend \<Rightarrow> string \<Rightarrow> (unit, 's) rpc" where
  "rpc_delete_tag rt be tag_id = checked (parse_id rt tag_id) (\<lambda>i s. served (delete_tag be i s))"

section \<open>Resources\<close>

record upload_meta =
  rm_note_id :: string
  rm_title :: string
  rm_mime_type :: string
  rm_file_name :: string
  rm_duration_ms :: "u64 option"
  rm_width :: "u32 option"
  rm_height :: "u32 option"

definition dimensions_of :: "u32 option \<Rightarrow> u32 option \<Rightarrow> (u32 \<times> u32) option" where
  "dimensions_of width height = (case (width, height) of (Some w, Some h) \<Rightarrow> Some (w, h) | _ \<Rightarrow> None)"

definition store_resource :: "'c rpc_text_scheme \<Rightarrow> 's backend \<Rightarrow> uuid \<Rightarrow> ts \<Rightarrow> upload_meta \<Rightarrow> u8 list \<Rightarrow> (ProtoResource, 's) rpc" where
  "store_resource rt be fresh now meta data = checked (parse_id rt (rm_note_id meta)) (\<lambda>note_id s.
     let resource = (new_resource fresh now note_id (rm_title meta) (rm_mime_type meta) (rm_file_name meta) (of_nat (length data)))
           \<lparr>r_duration_ms := rm_duration_ms meta, r_dimensions := dimensions_of (rm_width meta) (rm_height meta)\<rparr>
     in answering (resource_to_proto rt) (create_resource be resource data s))"

definition rpc_create_resource :: "'c rpc_text_scheme \<Rightarrow> 's backend \<Rightarrow> uuid \<Rightarrow> ts \<Rightarrow> upload_meta \<Rightarrow> u8 list \<Rightarrow> (ProtoResource, 's) rpc" where
  "rpc_create_resource rt be fresh now meta data = store_resource rt be fresh now meta data"

text \<open>
  A frame of an upload: one that failed, with its status, or a payload, which may be absent. Adding the
  lengths does not saturate: they are lengths of lists in memory.
\<close>

datatype payload = Meta upload_meta | Chunk "u8 list"

type_synonym upload_frame = "Code + payload option"

fun upload_chunks :: "nat \<Rightarrow> upload_frame list \<Rightarrow> u8 list \<Rightarrow> Code + u8 list" where
  "upload_chunks cap [] data = Inr data"
| "upload_chunks cap (Inl c # frames) data = Inl c"
| "upload_chunks cap (Inr (Some (Chunk bytes)) # frames) data =
    (if cap \<noteq> 0 \<and> cap < length data + length bytes then Inl CodeResourceExhausted
     else upload_chunks cap frames (data @ bytes))"
| "upload_chunks cap (Inr (Some (Meta _)) # frames) data = Inl CodeInvalidArgument"
| "upload_chunks cap (Inr None # frames) data = upload_chunks cap frames data"

definition assemble_upload :: "nat \<Rightarrow> 'c rpc_text_scheme \<Rightarrow> 's backend \<Rightarrow> uuid \<Rightarrow> ts \<Rightarrow> upload_frame list \<Rightarrow> (ProtoResource, 's) rpc" where
  "assemble_upload cap rt be fresh now frames = (case frames of
     [] \<Rightarrow> (\<lambda>s. (Inl CodeInvalidArgument, s))
   | Inl c # _ \<Rightarrow> (\<lambda>s. (Inl c, s))
   | Inr (Some (Meta meta)) # rest \<Rightarrow> checked (upload_chunks cap rest []) (\<lambda>data. store_resource rt be fresh now meta data)
   | _ \<Rightarrow> (\<lambda>s. (Inl CodeInvalidArgument, s)))"

definition rpc_get_resource :: "'c rpc_text_scheme \<Rightarrow> 's backend \<Rightarrow> string \<Rightarrow> (ProtoResource \<times> u8 list, 's) rpc" where
  "rpc_get_resource rt be resource_id = checked (parse_id rt resource_id) (\<lambda>i s.
     answering (\<lambda>(meta, data). (resource_to_proto rt meta, data)) (read_resource be i s))"

definition rpc_delete_resource :: "'c rpc_text_scheme \<Rightarrow> 's backend \<Rightarrow> string \<Rightarrow> (unit, 's) rpc" where
  "rpc_delete_resource rt be resource_id = checked (parse_id rt resource_id) (\<lambda>i s. served (delete_resource be i s))"

section \<open>Aliases and links\<close>

definition rpc_set_note_alias :: "'c rpc_text_scheme \<Rightarrow> 's backend \<Rightarrow> string \<Rightarrow> string option \<Rightarrow> (ProtoNote, 's) rpc" where
  "rpc_set_note_alias rt be note_id alias = checked (parse_id rt note_id) (\<lambda>i s. answering (note_to_proto rt) (set_note_alias be i alias s))"

definition rpc_set_notebook_alias :: "'c rpc_text_scheme \<Rightarrow> 's backend \<Rightarrow> string \<Rightarrow> string option \<Rightarrow> (ProtoNotebook, 's) rpc" where
  "rpc_set_notebook_alias rt be notebook_id alias = checked (parse_id rt notebook_id) (\<lambda>i s.
     answering (notebook_to_proto rt) (set_notebook_alias be i alias s))"

definition rpc_add_note_link :: "'c rpc_text_scheme \<Rightarrow> 's backend \<Rightarrow> string \<Rightarrow> string \<Rightarrow> (ProtoNote, 's) rpc" where
  "rpc_add_note_link rt be note_id raw = checked (parse_id rt note_id) (\<lambda>i s. answering (note_to_proto rt) (add_manual_link rt be i raw s))"

definition rpc_remove_note_link :: "'c rpc_text_scheme \<Rightarrow> 's backend \<Rightarrow> string \<Rightarrow> u32 \<Rightarrow> (ProtoNote, 's) rpc" where
  "rpc_remove_note_link rt be note_id index = checked (parse_id rt note_id) (\<lambda>i s.
     answering (note_to_proto rt) (remove_link be i (unat index) s))"

definition rpc_resolve_reference :: "nat \<Rightarrow> 'c rpc_text_scheme \<Rightarrow> 's backend \<Rightarrow> string \<Rightarrow> 's \<Rightarrow> (string option \<times> u32 option, 's) reply option" where
  "rpc_resolve_reference fuel rt be raw s = map_option
     (answering (\<lambda>resolved. case resolved of Some r \<Rightarrow> (Some (show_uuid rt (rf_note_id r)), rf_bookmark_number r) | None \<Rightarrow> (None, None)))
     (resolve_raw fuel rt be raw s)"

definition rpc_list_alias_conflicts :: "nat \<Rightarrow> 'c rpc_text_scheme \<Rightarrow> 's backend \<Rightarrow> 's \<Rightarrow>
    ((string \<times> ProtoNote list) list \<times> (string \<times> ProtoNotebook list) list, 's) reply option" where
  "rpc_list_alias_conflicts fuel rt be s = map_option
     (answering (\<lambda>c. (map (\<lambda>a. (ac_alias a, map (note_to_proto rt) (ac_entities a))) (acs_notes c),
                      map (\<lambda>a. (ac_alias a, map (notebook_to_proto rt) (ac_entities a))) (acs_notebooks c))))
     (alias_conflicts fuel be s)"

section \<open>Synchronisation\<close>

definition DAY :: int where
  "DAY = 86400 * 10 ^ 9"

text \<open>The outcomes of the two calls after a round are logged.\<close>

definition prune_journal_after_sync :: "'s backend \<Rightarrow> ts \<Rightarrow> u64 \<Rightarrow> 's \<Rightarrow> 's" where
  "prune_journal_after_sync be now retention_days s =
    (if retention_days = 0 then s
     else snd (prune_change_journal be (now - int (unat (min retention_days 36500)) * DAY) s))"

definition purge_resources_after_sync :: "'s backend \<Rightarrow> ts \<Rightarrow> u64 \<Rightarrow> 's \<Rightarrow> 's" where
  "purge_resources_after_sync be now purge_days s =
    (if purge_days = 0 then s
     else snd (purge_deleted_resources be (now - int (unat (min purge_days 36500)) * DAY) s))"

fun stage_to_proto :: "SyncStage \<Rightarrow> string" where
  "stage_to_proto Collecting = ''Collecting local changes''"
| "stage_to_proto Sending = ''Sending local changes''"
| "stage_to_proto Receiving = ''Receiving remote changes''"
| "stage_to_proto Applying = ''Applying remote changes''"
| "stage_to_proto Done = ''Sync complete''"

text \<open>A message of the stream: the stage, the count as an \<open>i32\<close> and the text, or the final status.\<close>

type_synonym sync_item = "Code + (SyncStage \<times> int \<times> string)"

definition progress_item :: "SyncStage \<times> nat \<Rightarrow> sync_item" where
  "progress_item = (\<lambda>(stage, n). Inr (stage, sint (of_nat n :: 32 word), stage_to_proto stage))"

definition rpc_sync :: "'s backend \<Rightarrow> u64 \<Rightarrow> u64 \<Rightarrow> ts \<Rightarrow> ts \<Rightarrow> ts \<Rightarrow> 's \<Rightarrow> sync_item list \<times> 's" where
  "rpc_sync be retention_days purge_days sync_ts now1 now2 s =
    (let (result, (s, stages)) = run_sync be sync_ts s;
         items = map progress_item stages
     in case result of
          Inr _ \<Rightarrow> (items, purge_resources_after_sync be now2 purge_days (prune_journal_after_sync be now1 retention_days s))
        | Inl e \<Rightarrow> (items @ [Inl (storage_err e)], s))"

end
