(* ===== verification/Interop_Store.thy ===== *)
theory Interop_Store
  imports Interop Utf8
begin

text \<open>
  The second half of \<open>interop.rs\<close>: contacts and events kept as resources of the system note, found
  by the name of their file or else by the identifier inside it, and the import of to-dos as notes.
  The listing loop has fuel, one unit per page.
\<close>

section \<open>Finding resources\<close>

definition resource_metas_with_mime :: "nat \<Rightarrow> 's backend \<Rightarrow> string \<Rightarrow> 's \<Rightarrow> (Resource list, 's) op option" where
  "resource_metas_with_mime fuel be mime s =
     collect_pages fuel (list_resources be) (\<lambda>meta. r_mime_type meta = mime) None [] s"

text \<open>Reading each of the resources; those that cannot be read are passed over.\<close>

fun read_each :: "'s backend \<Rightarrow> Resource list \<Rightarrow> 's \<Rightarrow> (Resource \<times> (Resource \<times> u8 list)) list \<times> 's" where
  "read_each be [] s = ([], s)"
| "read_each be (meta # rest) s = (case read_resource be (r_id meta) s of
     (Inl err, s) \<Rightarrow> read_each be rest s
   | (Inr pair, s) \<Rightarrow> (let (pairs, s) = read_each be rest s in ((meta, pair) # pairs, s)))"

definition resources_with_mime :: "nat \<Rightarrow> 's backend \<Rightarrow> string \<Rightarrow> 's \<Rightarrow> ((Resource \<times> u8 list) list, 's) op option" where
  "resources_with_mime fuel be mime s =
     fuel_then (resource_metas_with_mime fuel be mime s) (\<lambda>metas s.
       let (pairs, s) = read_each be metas s in Some (Inr (map snd pairs), s))"

definition uid_file_name :: "string \<Rightarrow> string \<Rightarrow> string" where
  "uid_file_name uid ext = uid @ ''.'' @ ext"

definition resources_with_uid :: "nat \<Rightarrow> 's backend \<Rightarrow> string \<Rightarrow> string \<Rightarrow> string \<Rightarrow> (u8 list \<Rightarrow> string option) \<Rightarrow> 's \<Rightarrow> (Resource list, 's) op option" where
  "resources_with_uid fuel be mime ext uid uid_of s =
     fuel_then (resource_metas_with_mime fuel be mime s) (\<lambda>metas s.
       let named = filter (\<lambda>m. r_file_name m = uid_file_name uid ext) metas
       in if named \<noteq> [] then Some (Inr named, s)
          else let (pairs, s) = read_each be metas s
               in Some (Inr (map fst (filter (\<lambda>(meta, r, data). uid_of data = Some uid) pairs)), s))"

fun delete_each :: "'s backend \<Rightarrow> Resource list \<Rightarrow> (unit, 's) act" where
  "delete_each be [] s = (Inr (), s)"
| "delete_each be (meta # rest) s = and_then (delete_resource be (r_id meta) s) (\<lambda>_ s. delete_each be rest s)"

text \<open>The first of the resources that parses to a value with the identifier.\<close>

fun find_parsed :: "'s backend \<Rightarrow> (u8 list \<Rightarrow> 'x option) \<Rightarrow> ('x \<Rightarrow> string) \<Rightarrow> string \<Rightarrow> Resource list \<Rightarrow> 's \<Rightarrow> 'x option \<times> 's" where
  "find_parsed be parse uid_of uid [] s = (None, s)"
| "find_parsed be parse uid_of uid (meta # rest) s = (case read_resource be (r_id meta) s of
     (Inl err, s) \<Rightarrow> find_parsed be parse uid_of uid rest s
   | (Inr (r, data), s) \<Rightarrow> (case parse data of
         None \<Rightarrow> find_parsed be parse uid_of uid rest s
       | Some x \<Rightarrow> if uid_of x = uid then (Some x, s) else find_parsed be parse uid_of uid rest s))"

section \<open>Contacts\<close>

text \<open>The identifiers and times an operation draws, in the order it draws them.\<close>

record fresh =
  fr_uid :: string
  fr_text :: string
  fr_stamp :: ts
  fr_id :: uuid
  fr_now :: ts

definition card_of_bytes :: "u8 list \<Rightarrow> Contact option" where
  "card_of_bytes data = from_vcard (from_utf8_lossy data)"

definition contact_resources :: "nat \<Rightarrow> 's backend \<Rightarrow> string \<Rightarrow> 's \<Rightarrow> (Resource list, 's) op option" where
  "contact_resources fuel be uid =
     resources_with_uid fuel be MIME_VCARD ''vcf'' uid (\<lambda>data. map_option ct_uid (card_of_bytes data))"

definition delete_contact :: "nat \<Rightarrow> 's backend \<Rightarrow> string \<Rightarrow> 's \<Rightarrow> (unit, 's) op option" where
  "delete_contact fuel be uid s = fuel_then (contact_resources fuel be uid s) (\<lambda>metas s. Some (delete_each be metas s))"

definition save_contact :: "nat \<Rightarrow> 's backend \<Rightarrow> fresh \<Rightarrow> Contact \<Rightarrow> 's \<Rightarrow> (Contact, 's) op option" where
  "save_contact fuel be fr contact s =
    (let contact = (if ct_uid contact = [] then contact\<lparr>ct_uid := fr_uid fr\<rparr> else contact) in
     fuel_then (delete_contact fuel be (ct_uid contact) s) (\<lambda>_ s.
       let vcard = to_vcard (fr_text fr) contact;
           res = new_resource (fr_id fr) (fr_now fr) SYSTEM_RESOURCE_NOTE_ID (ct_formatted_name contact) MIME_VCARD
             (uid_file_name (ct_uid contact) ''vcf'') (of_nat (length vcard))
       in Some (and_then (create_resource be res (bytes_of vcard) s) (\<lambda>_ s. (Inr contact, s)))))"

definition list_contacts :: "nat \<Rightarrow> 's backend \<Rightarrow> 's \<Rightarrow> (Contact list, 's) op option" where
  "list_contacts fuel be s = fuel_then (resources_with_mime fuel be MIME_VCARD s) (\<lambda>pairs s.
     Some (Inr (List.map_filter (\<lambda>(r, data). card_of_bytes data) pairs), s))"

definition get_contact :: "nat \<Rightarrow> 's backend \<Rightarrow> string \<Rightarrow> 's \<Rightarrow> (Contact option, 's) op option" where
  "get_contact fuel be uid s = fuel_then (contact_resources fuel be uid s) (\<lambda>metas s.
     let (found, s) = find_parsed be card_of_bytes ct_uid uid metas s in Some (Inr found, s))"

section \<open>Events\<close>

definition event_of_bytes :: "'d date_text_scheme \<Rightarrow> u8 list \<Rightarrow> CalendarEvent option" where
  "event_of_bytes dt data = event_from_ics dt (from_utf8_lossy data)"

definition event_resources :: "nat \<Rightarrow> 'd date_text_scheme \<Rightarrow> 's backend \<Rightarrow> string \<Rightarrow> 's \<Rightarrow> (Resource list, 's) op option" where
  "event_resources fuel dt be uid =
     resources_with_uid fuel be MIME_ICALENDAR ''ics'' uid (\<lambda>data. map_option ev_uid (event_of_bytes dt data))"

definition delete_event :: "nat \<Rightarrow> 'd date_text_scheme \<Rightarrow> 's backend \<Rightarrow> string \<Rightarrow> 's \<Rightarrow> (unit, 's) op option" where
  "delete_event fuel dt be uid s = fuel_then (event_resources fuel dt be uid s) (\<lambda>metas s. Some (delete_each be metas s))"

definition save_event :: "nat \<Rightarrow> 'd date_text_scheme \<Rightarrow> 's backend \<Rightarrow> fresh \<Rightarrow> CalendarEvent \<Rightarrow> 's \<Rightarrow> (CalendarEvent, 's) op option" where
  "save_event fuel dt be fr event s =
    (let event = (if ev_uid event = [] then event\<lparr>ev_uid := fr_uid fr\<rparr> else event) in
     fuel_then (delete_event fuel dt be (ev_uid event) s) (\<lambda>_ s.
       let ics = event_to_ics dt (fr_text fr) (fr_stamp fr) event;
           res = new_resource (fr_id fr) (fr_now fr) SYSTEM_RESOURCE_NOTE_ID (ev_summary event) MIME_ICALENDAR
             (uid_file_name (ev_uid event) ''ics'') (of_nat (length ics))
       in Some (and_then (create_resource be res (bytes_of ics) s) (\<lambda>_ s. (Inr event, s)))))"

definition list_events :: "nat \<Rightarrow> 'd date_text_scheme \<Rightarrow> 's backend \<Rightarrow> 's \<Rightarrow> (CalendarEvent list, 's) op option" where
  "list_events fuel dt be s = fuel_then (resources_with_mime fuel be MIME_ICALENDAR s) (\<lambda>pairs s.
     Some (Inr (List.map_filter (\<lambda>(r, data). event_of_bytes dt data) pairs), s))"

definition get_event :: "nat \<Rightarrow> 'd date_text_scheme \<Rightarrow> 's backend \<Rightarrow> string \<Rightarrow> 's \<Rightarrow> (CalendarEvent option, 's) op option" where
  "get_event fuel dt be uid s = fuel_then (event_resources fuel dt be uid s) (\<lambda>metas s.
     let (found, s) = find_parsed be (event_of_bytes dt) ev_uid uid metas s in Some (Inr found, s))"

section \<open>To-dos\<close>

text \<open>A note is new with a fresh identifier and the time it is made.\<close>

definition import_todo :: "'d date_text_scheme \<Rightarrow> 's backend \<Rightarrow> uuid \<times> ts \<Rightarrow> string \<Rightarrow> (Note, 's) act" where
  "import_todo dt be fr ics s = (case todo_from_ics dt ics of
     None \<Rightarrow> (Inl InvalidInput, s)
   | Some todo \<Rightarrow> create_note be (apply_to_note todo (new_note (fst fr) (snd fr) [] [])) s)"

fun import_each :: "'s backend \<Rightarrow> (nat \<Rightarrow> uuid \<times> ts) \<Rightarrow> CalendarTodo list \<Rightarrow> Note list \<Rightarrow> (Note list, 's) act" where
  "import_each be fr [] notes s = (Inr notes, s)"
| "import_each be fr (todo # rest) notes s =
    (let (i, now) = fr (length notes) in
     and_then (create_note be (apply_to_note todo (new_note i now [] [])) s)
       (\<lambda>n s. import_each be fr rest (notes @ [n]) s))"

definition import_todos :: "'d date_text_scheme \<Rightarrow> 's backend \<Rightarrow> (nat \<Rightarrow> uuid \<times> ts) \<Rightarrow> string \<Rightarrow> (Note list, 's) act" where
  "import_todos dt be fr ics s =
    (let todos = todos_from_ics dt ics in
     if todos = [] then (Inl InvalidInput, s) else import_each be fr todos [] s)"

end
