(* ===== verification/Access.thy ===== *)
theory Access
  imports Search Utf8
begin

text \<open>
  Who may talk to the daemon: the check of HTTP Basic credentials (\<open>keeplin-daemon/src/auth.rs\<close>), the
  configuration and its security checks (\<open>config.rs\<close>), and the parts of \<open>main.rs\<close> that decide whether
  the daemon starts, how it is put together and which requests pass. Base64 and the parsing of socket
  addresses are parameters.
\<close>

section \<open>Credentials\<close>

definition ascii_lower :: "char \<Rightarrow> char" where
  "ascii_lower c = (if 65 \<le> (of_char c :: nat) \<and> (of_char c :: nat) \<le> 90 then char_of ((of_char c :: nat) + 32) else c)"

definition eq_ignore_case :: "string \<Rightarrow> string \<Rightarrow> bool" where
  "eq_ignore_case a b = (map ascii_lower a = map ascii_lower b)"

definition colon :: char where
  "colon = CHR '':''"

definition verify_basic :: "'u unicode_scheme \<Rightarrow> (string \<Rightarrow> u8 list option) \<Rightarrow> string option \<Rightarrow> string \<Rightarrow> string \<Rightarrow> bool" where
  "verify_basic u decode header expected_user expected_pass =
    (if expected_user = [] \<or> expected_pass = [] then False
     else case header of None \<Rightarrow> False
     | Some header \<Rightarrow> (case split_whitespace u [] header of
         [scheme, encoded] \<Rightarrow>
           if \<not> eq_ignore_case scheme ''basic'' then False
           else (case decode encoded of None \<Rightarrow> False
             | Some decoded \<Rightarrow> (case from_utf8 decoded of None \<Rightarrow> False
                 | Some creds \<Rightarrow> (case split_once colon creds of None \<Rightarrow> False
                     | Some (user, pass) \<Rightarrow> bytes_of user = bytes_of expected_user \<and> bytes_of pass = bytes_of expected_pass)))
       | _ \<Rightarrow> False))"

section \<open>Configuration\<close>

datatype Mode = Offline | Server

record Config =
  mode :: Mode
  data_dir :: string
  server_url :: string
  auth_token :: string
  collab_api_url :: "string option"
  grpc_addr :: string
  http_addr :: "string option"
  tls_cert_path :: "string option"
  tls_key_path :: "string option"
  max_message_size :: nat
  max_upload_bytes :: nat
  journal_retention_days :: u64
  resource_purge_days :: u64
  sync_interval_secs :: u64
  encryption_password :: "string option"
  key_salt :: "string option"
  auth_username :: "string option"
  auth_password :: "string option"
  insecure :: bool

definition default_config :: Config where
  "default_config = \<lparr>mode = Offline, data_dir = ''./keeplin-data'', server_url = [], auth_token = [], collab_api_url = None,
     grpc_addr = ''127.0.0.1:50051'', http_addr = None, tls_cert_path = None, tls_key_path = None,
     max_message_size = 32 * 1024 * 1024, max_upload_bytes = 1024 * 1024 * 1024, journal_retention_days = 30,
     resource_purge_days = 0, sync_interval_secs = 0, encryption_password = None, key_salt = None,
     auth_username = None, auth_password = None, insecure = False\<rparr>"

text \<open>\<open>load_config\<close>: a variable of the environment, when set, replaces a field.\<close>

definition override :: "string option \<Rightarrow> string option \<Rightarrow> string option" where
  "override var field = (case var of None \<Rightarrow> field | Some x \<Rightarrow> Some x)"

definition load_config :: "Config option \<Rightarrow> (string \<Rightarrow> string option) \<Rightarrow> Config" where
  "load_config parsed env =
    (let cfg = (case parsed of None \<Rightarrow> default_config | Some c \<Rightarrow> c)
     in cfg\<lparr>encryption_password := override (env ''KEEPLIN_ENCRYPTION_PASSWORD'') (encryption_password cfg),
            key_salt := override (env ''KEEPLIN_KEY_SALT'') (key_salt cfg),
            auth_password := override (env ''KEEPLIN_AUTH_PASSWORD'') (auth_password cfg),
            auth_username := override (env ''KEEPLIN_AUTH_USERNAME'') (auth_username cfg)\<rparr>)"

definition auth_enabled :: "Config \<Rightarrow> bool" where
  "auth_enabled cfg = (case (auth_username cfg, auth_password cfg) of
     (Some u, Some p) \<Rightarrow> u \<noteq> [] \<and> p \<noteq> [] | _ \<Rightarrow> False)"

datatype auth_fault = PasswordMissing | UsernameMissing | EmptyCredential

definition validate_auth :: "Config \<Rightarrow> auth_fault + unit" where
  "validate_auth cfg = (case (auth_username cfg, auth_password cfg) of
     (None, None) \<Rightarrow> Inr ()
   | (Some _, None) \<Rightarrow> Inl PasswordMissing
   | (None, Some _) \<Rightarrow> Inl UsernameMissing
   | (Some u, Some p) \<Rightarrow> if u = [] \<or> p = [] then Inl EmptyCredential else Inr ())"

text \<open>\<open>rsplit_once(':').map_or(authority, |(h, _)| h)\<close>: without the last colon and what follows it.\<close>

definition before_last :: "char \<Rightarrow> string \<Rightarrow> string" where
  "before_last c s = (if c \<in> set s then rev (tl (dropWhile (\<lambda>x. x \<noteq> c) (rev s))) else s)"

definition loopback_host :: "string \<Rightarrow> bool" where
  "loopback_host host = (host \<in> {''localhost'', ''127.0.0.1'', ''::1''} \<or> strip_prefix ''127.'' host \<noteq> None \<or>
     eq_ignore_case host ''ip6-localhost'')"

definition plaintext_ws_remote_host :: "string \<Rightarrow> string option" where
  "plaintext_ws_remote_host url = (case strip_prefix ''ws://'' url of None \<Rightarrow> None
   | Some rest \<Rightarrow>
       let authority = takeWhile (\<lambda>c. c \<notin> {CHR ''/'', CHR ''?'', CHR ''#''}) rest;
           host = (case strip_prefix ''['' authority of
             Some after \<Rightarrow> takeWhile (\<lambda>c. c \<noteq> CHR '']'') after
           | None \<Rightarrow> before_last colon authority)
       in if loopback_host host then None else Some host)"

text \<open>The issues without their texts. \<open>addr\<close> parses a socket address and says whether it is a loopback one.\<close>

datatype security_issue = GrpcExposed | HttpExposed | PlaintextUrl string

definition security_issues :: "(string \<Rightarrow> bool option) \<Rightarrow> Config \<Rightarrow> security_issue list" where
  "security_issues addr cfg =
    (if auth_enabled cfg then []
     else (if addr (grpc_addr cfg) = Some False then [GrpcExposed] else []) @
       (case http_addr cfg of None \<Rightarrow> [] | Some http \<Rightarrow> if addr http = Some False then [HttpExposed] else [])) @
    (if mode cfg = Server
     then (case plaintext_ws_remote_host (server_url cfg) of None \<Rightarrow> [] | Some host \<Rightarrow> [PlaintextUrl host]) else [])"

section \<open>Starting\<close>

text \<open>The checks of \<open>serve\<close> before it opens the store.\<close>

datatype refusal = BadGrpcAddr | BadAuth auth_fault | Insecure "security_issue list"

definition serve_checks :: "(string \<Rightarrow> bool option) \<Rightarrow> Config \<Rightarrow> refusal + unit" where
  "serve_checks addr cfg =
    (if addr (grpc_addr cfg) = None then Inl BadGrpcAddr
     else case validate_auth cfg of Inl fault \<Rightarrow> Inl (BadAuth fault)
     | Inr _ \<Rightarrow>
         let issues = security_issues addr cfg
         in if issues \<noteq> [] \<and> \<not> insecure cfg then Inl (Insecure issues) else Inr ())"

text \<open>\<open>str::replacen(from, to, 1)\<close>.\<close>

fun replace_first :: "string \<Rightarrow> string \<Rightarrow> string \<Rightarrow> string" where
  "replace_first from_text to_text [] = (if from_text = [] then to_text else [])"
| "replace_first from_text to_text (c # s) = (case strip_prefix from_text (c # s) of
     Some rest \<Rightarrow> to_text @ rest | None \<Rightarrow> c # replace_first from_text to_text s)"

record CollabConfig =
  cc_api_url :: string
  cc_ws_url :: string
  cc_token :: string

definition collab_config :: "Config \<Rightarrow> CollabConfig option" where
  "collab_config cfg = (case collab_api_url cfg of None \<Rightarrow> None
   | Some api_url \<Rightarrow> Some \<lparr>cc_api_url = api_url,
       cc_ws_url = replace_first ''http://'' ''ws://'' (replace_first ''https://'' ''wss://'' api_url) @ ''/api/ws'',
       cc_token = auth_token cfg\<rparr>)"

text \<open>Which decorators \<open>serve\<close> puts around which store; the collaborative channel is of the server mode only.\<close>

datatype base_store = FsStore | DbStore

definition served_stack :: "Config \<Rightarrow> base_store \<times> bool \<times> CollabConfig option" where
  "served_stack cfg = (case mode cfg of
     Offline \<Rightarrow> (FsStore, encryption_password cfg \<noteq> None, None)
   | Server \<Rightarrow> (DbStore, encryption_password cfg \<noteq> None, collab_config cfg))"

text \<open>
  \<open>resolve_key_salt\<close>: the configured salt, or the one in the store's file, or the device's identifier,
  which is written to the file. \<open>trim\<close> strips white space.
\<close>

definition resolve_key_salt :: "(string \<Rightarrow> string) \<Rightarrow> Config \<Rightarrow> string \<Rightarrow> string option \<Rightarrow> u8 list \<times> string option" where
  "resolve_key_salt trim cfg device_id file_text = (case key_salt cfg of
     Some salt \<Rightarrow> (bytes_of salt, file_text)
   | None \<Rightarrow> (case file_text of
       Some persisted \<Rightarrow>
         if trim persisted \<noteq> [] then (bytes_of (trim persisted), file_text) else (bytes_of device_id, Some device_id)
     | None \<Rightarrow> (bytes_of device_id, Some device_id)))"

section \<open>Requests\<close>

text \<open>\<open>validate_basic_auth\<close> of the gRPC service and \<open>auth_mw\<close> of the REST routes: whether a request passes.\<close>

definition request_passes :: "'u unicode_scheme \<Rightarrow> (string \<Rightarrow> u8 list option) \<Rightarrow> Config \<Rightarrow> string option \<Rightarrow> bool" where
  "request_passes u decode cfg header = (case (auth_username cfg, auth_password cfg) of
     (Some user, Some pass) \<Rightarrow> verify_basic u decode header user pass | _ \<Rightarrow> True)"

section \<open>Properties\<close>

lemma unat_of_char: "unat (of_char c :: u8) = of_char c"
proof -
  have "unat (of_nat (of_char c) :: u8) = of_char c" by (simp add: unat_of_nat take_bit_eq_mod del: of_nat_of_char)
  then show ?thesis unfolding of_nat_of_char .
qed

lemma bytes_text [simp]: "text_of (bytes_of s) = s"
  by (simp add: text_of_def bytes_of_def comp_def unat_of_char)

lemma bytes_of_inj [simp]: "bytes_of a = bytes_of b \<longleftrightarrow> a = b"
  by (metis bytes_text)

lemma ascii_rust_string: "\<forall>c\<in>set s. of_char c < (128 :: nat) \<Longrightarrow> rust_string s"
proof (induction s)
  case (Cons c s)
  have "(of_char c :: u8) < 0x80" using Cons.prems by (simp add: word_less_nat_alt unat_of_char)
  moreover have "utf8_tail b 0 rest = 0" for b rest by (cases rest) (simp_all add: utf8_tail_def)
  moreover have "text_of [of_char c] = [c]" using bytes_text [of "[c]"] by (simp add: bytes_of_def)
  ultimately show ?case using Cons by (simp add: rust_string_def bytes_of_def utf8_need_def)
qed (simp add: rust_string_def bytes_of_def)

text \<open>
  A request is authenticated exactly when it carries the expected credentials: the header has two
  words, the first \<open>basic\<close> in any case and the second an encoding of the expected user, a colon and the
  expected password; empty expected credentials admit nobody, and neither does a user name with a
  colon.
\<close>

lemma verify_basic_iff:
  assumes "rust_string (user @ colon # pass)"
  shows "verify_basic u decode header user pass \<longleftrightarrow> user \<noteq> [] \<and> pass \<noteq> [] \<and> colon \<notin> set user \<and>
    (\<exists>h scheme encoded. header = Some h \<and> split_whitespace u [] h = [scheme, encoded] \<and>
       eq_ignore_case scheme ''basic'' \<and> decode encoded = Some (bytes_of (user @ colon # pass)))"
    (is "?L \<longleftrightarrow> ?R")
proof
  assume ?L
  then obtain h scheme encoded decoded creds where
    h: "header = Some h" "split_whitespace u [] h = [scheme, encoded]" "eq_ignore_case scheme ''basic''" and
    d: "decode encoded = Some decoded" "from_utf8 decoded = Some creds" "split_once colon creds = Some (user, pass)" and
    ne: "user \<noteq> []" "pass \<noteq> []"
    by (auto simp: verify_basic_def split: if_splits option.splits list.splits)
  from split_once_Some [OF d(3)] from_utf8_text [OF d(2)] have "decoded = bytes_of (user @ colon # pass)" "colon \<notin> set user"
    by (metis text_of_bytes, simp)
  with h d(1) ne show ?R by auto
next
  assume ?R
  with assms show ?L by (auto simp: verify_basic_def rust_string_def split_once_append)
qed


definition sample_daemon :: Config where
  "sample_daemon = default_config\<lparr>grpc_addr := ''0.0.0.0:50051'', auth_username := Some ''abc'', auth_password := Some ''d''\<rparr>"

definition ascii_spaces :: unicode where
  "ascii_spaces = \<lparr>space_len = (\<lambda>s. if s \<noteq> [] \<and> hd s = CHR '' '' then 1 else 0)\<rparr>"


text \<open>Two plaintext addresses of other machines that the check takes for local ones, and one it does not look at.\<close>

lemma plaintext_check_evaded:
  "plaintext_ws_remote_host ''ws://127.example.org/ws'' = None"
  "plaintext_ws_remote_host ''ws://localhost:x@example.org/ws'' = None"
  by code_simp+

lemma collab_plaintext_unchecked:
  assumes "mode cfg = Server" "auth_enabled cfg" "server_url cfg = ''wss://example.org/ws''" "collab_api_url cfg = Some ''http://example.org''"
  shows "security_issues addr cfg = []"
    and "map_option cc_ws_url (collab_config cfg) = Some ''ws://example.org/api/ws''"
  using assms by (simp_all add: security_issues_def plaintext_ws_remote_host_def collab_config_def)

text \<open>The key salt stays the same once it is in the file, whatever becomes of the device's identifier.\<close>

lemma key_salt_stable:
  assumes "trim d = d" "d \<noteq> []" "resolve_key_salt trim cfg d f = (salt, f')"
  shows "resolve_key_salt trim cfg d' f' = (salt, f')"
  using assms by (auto simp: resolve_key_salt_def split: option.splits if_splits)

end
