(* ===== verification/Rest.thy ===== *)
theory Rest
  imports Rpc History Interop_Store Search Access
begin

text \<open>
  The REST service of the daemon, \<open>keeplin-daemon/src/rest.rs\<close>: the status of an error and every handler,
  over an arbitrary backend. The router, the JSON forms and the headers are not modelled: a handler takes
  the values extracted from the request and returns the value that is written as JSON. Clocks and fresh
  identifiers are arguments; handlers that scan take fuel. A handler that returns \<open>Result<_, ApiError>\<close> is an
  operation, \<open>respond\<close> gives its status.
\<close>

section \<open>Statuses\<close>

type_synonym ('a, 's) http = "(nat, 'a, 's) outcome"

fun into_response :: "StorageError \<Rightarrow> nat" where
  "into_response NotFound = 404"
| "into_response CorruptedData = 422"
| "into_response Conflict = 409"
| "into_response InvalidInput = 400"
| "into_response TooLarge = 413"
| "into_response _ = 500"

definition respond :: "('a, 's) op \<Rightarrow> ('a, 's) http" where
  "respond m = (case m of (Inl e, s) \<Rightarrow> (Inl (into_response e), s) | (Inr x, s) \<Rightarrow> (Inr x, s))"

text \<open>The two layers of the API: the credentials, and the count of the status (200 for an answer).\<close>

definition auth_mw :: "'u unicode_scheme \<Rightarrow> (string \<Rightarrow> u8 list option) \<Rightarrow> string option \<Rightarrow> string option \<Rightarrow> string option \<Rightarrow>
    ('s \<Rightarrow> ('a, 's) http) \<Rightarrow> 's \<Rightarrow> ('a, 's) http" where
  "auth_mw u decode username password header handler s = (case (username, password) of
     (Some user, Some pass) \<Rightarrow> if verify_basic u decode header user pass then handler s else (Inl 401, s)
   | _ \<Rightarrow> handler s)"

definition status_mw :: "('a \<Rightarrow> nat) \<Rightarrow> ('s \<Rightarrow> ('a, 's) http) \<Rightarrow> 's \<times> Metrics \<Rightarrow> ('a, 's \<times> Metrics) http" where
  "status_mw success handler w = (let (r, s) = handler (fst w) in
     (r, s, record_http_status (case r of Inl status \<Rightarrow> status | Inr x \<Rightarrow> success x) (snd w)))"

section \<open>Notes\<close>

record CreateNote =
  cn_title :: string
  cn_body :: string
  cn_notebook_id :: "uuid option"
  cn_is_todo :: bool
  cn_todo_due :: "ts option"

definition ready :: "'s backend \<Rightarrow> 's \<Rightarrow> (unit, 's) http" where
  "ready be s = (case list_notes be 1 None s of (Inr _, s) \<Rightarrow> (Inr (), s) | (Inl _, s) \<Rightarrow> (Inl 503, s))"

text \<open>A page is the items with the token of the next page.\<close>

definition rest_list_notes :: "'s backend \<Rightarrow> (Note, 's) pages" where
  "rest_list_notes be page_size page_token = list_notes be page_size page_token"

definition rest_create_note :: "nat \<Rightarrow> 's backend \<Rightarrow> uuid \<Rightarrow> ts \<Rightarrow> CreateNote \<Rightarrow> 's \<Rightarrow> (Note, 's) op option" where
  "rest_create_note fuel be fresh now req s =
    (let note = (new_note fresh now (cn_title req) (cn_body req))
           \<lparr>n_notebook_id := (case cn_notebook_id req of Some i \<Rightarrow> i | None \<Rightarrow> uuid_nil),
            n_is_todo := cn_is_todo req, n_todo_due := cn_todo_due req\<rparr>
     in case check_body (n_body note) of
          Inl v \<Rightarrow> Some (Inl (storage_error_of v), s)
        | Inr _ \<Rightarrow> map_option (\<lambda>m. and_then m (create_note be)) (place_new_note fuel be note s))"

definition rest_read_live_note :: "'s backend \<Rightarrow> uuid \<Rightarrow> (Note, 's) act" where
  "rest_read_live_note be i s = and_then (read_note be i s) (\<lambda>note s.
     if n_deleted_at note \<noteq> None then (Inl NotFound, s) else (Inr note, s))"

definition rest_get_note :: "'s backend \<Rightarrow> uuid \<Rightarrow> (Note, 's) act" where
  "rest_get_note be i s = and_then (read_note be i s) (\<lambda>note s.
     if n_deleted_at note \<noteq> None then (Inl NotFound, s) else (Inr note, s))"

definition rest_update_note :: "nat \<Rightarrow> 's backend \<Rightarrow> ts \<Rightarrow> uuid \<Rightarrow> Note \<Rightarrow> 's \<Rightarrow> (Note, 's) op option" where
  "rest_update_note fuel be now i note s = (case rest_read_live_note be i s of
     (Inl e, s) \<Rightarrow> Some (Inl e, s)
   | (Inr stored, s) \<Rightarrow>
       let note = note\<lparr>n_id := i\<rparr> in
       case check_body (n_body note) of
         Inl v \<Rightarrow> Some (Inl (storage_error_of v), s)
       | Inr _ \<Rightarrow> map_option (\<lambda>m. and_then m (\<lambda>note. update_note be (note\<lparr>n_updated_at := now\<rparr>)))
           (reconcile_notebook_move fuel be (n_notebook_id stored) note s))"

definition rest_delete_note :: "'s backend \<Rightarrow> uuid \<Rightarrow> (unit, 's) act" where
  "rest_delete_note be i = delete_note be i"

definition rest_list_notes_in_notebook :: "'s backend \<Rightarrow> uuid \<Rightarrow> (Note, 's) pages" where
  "rest_list_notes_in_notebook be i page_size page_token = list_notes_in_notebook be i page_size page_token"

definition rest_list_starred_notes :: "'s backend \<Rightarrow> (Note, 's) pages" where
  "rest_list_starred_notes be page_size page_token = list_starred_notes be page_size page_token"

definition rest_pin_note :: "'s backend \<Rightarrow> uuid \<Rightarrow> (Note, 's) act" where
  "rest_pin_note be i = pin_note be i"

definition rest_unpin_note :: "'s backend \<Rightarrow> uuid \<Rightarrow> (Note, 's) act" where
  "rest_unpin_note be i = unpin_note be i"

definition rest_star_note :: "'s backend \<Rightarrow> uuid \<Rightarrow> (Note, 's) act" where
  "rest_star_note be i = star_note be i"

definition rest_unstar_note :: "'s backend \<Rightarrow> uuid \<Rightarrow> (Note, 's) act" where
  "rest_unstar_note be i = unstar_note be i"

definition rest_reorder_note :: "'s backend \<Rightarrow> uuid \<Rightarrow> u32 \<Rightarrow> (Note, 's) act" where
  "rest_reorder_note be i key = reorder_note be i key"

section \<open>Tags of a note, aliases and links\<close>

definition rest_list_note_tags :: "'s backend \<Rightarrow> uuid \<Rightarrow> (Tag, 's) pages" where
  "rest_list_note_tags be i page_size page_token = list_note_tags be i page_size page_token"

definition rest_add_note_tag :: "'s backend \<Rightarrow> uuid \<Rightarrow> uuid \<Rightarrow> (unit, 's) act" where
  "rest_add_note_tag be note_id tag_id = add_note_tag be \<lparr>nt_note_id = note_id, nt_tag_id = tag_id\<rparr>"

definition rest_remove_note_tag :: "'s backend \<Rightarrow> uuid \<Rightarrow> uuid \<Rightarrow> (unit, 's) act" where
  "rest_remove_note_tag be note_id tag_id = remove_note_tag be note_id tag_id"

definition rest_set_note_alias :: "'s backend \<Rightarrow> uuid \<Rightarrow> string option \<Rightarrow> (Note, 's) act" where
  "rest_set_note_alias be i alias = set_note_alias be i alias"

definition rest_list_links :: "'s backend \<Rightarrow> uuid \<Rightarrow> (NoteLink list, 's) act" where
  "rest_list_links be i s = and_then (rest_read_live_note be i s) (\<lambda>note s. (Inr (n_links note), s))"

definition rest_add_link :: "'c uuid_text_scheme \<Rightarrow> 's backend \<Rightarrow> uuid \<Rightarrow> string \<Rightarrow> (Note, 's) act" where
  "rest_add_link ut be i raw s =
    (if parse_link_ref ut raw = None then (Inl CorruptedData, s) else add_manual_link ut be i raw s)"

definition rest_remove_link :: "'s backend \<Rightarrow> uuid \<Rightarrow> nat \<Rightarrow> (Note, 's) act" where
  "rest_remove_link be i index = remove_link be i index"

definition rest_list_backlinks :: "'s backend \<Rightarrow> uuid \<Rightarrow> (Note, 's) pages" where
  "rest_list_backlinks be i page_size page_token = note_backlinks be i page_size page_token"

definition rest_resolve_reference :: "nat \<Rightarrow> 'c uuid_text_scheme \<Rightarrow> 's backend \<Rightarrow> string \<Rightarrow> 's \<Rightarrow> (uuid option \<times> u32 option, 's) op option" where
  "rest_resolve_reference fuel ut be reference s = fuel_then (resolve_raw fuel ut be reference s) (\<lambda>resolved s.
     Some (Inr (case resolved of Some r \<Rightarrow> (Some (rf_note_id r), rf_bookmark_number r) | None \<Rightarrow> (None, None)), s))"

definition rest_list_alias_conflicts :: "nat \<Rightarrow> 's backend \<Rightarrow> 's \<Rightarrow> (AliasConflicts, 's) op option" where
  "rest_list_alias_conflicts fuel be = alias_conflicts fuel be"

section \<open>History\<close>

text \<open>\<open>note_version_dto\<close> and \<open>notebook_version_dto\<close> copy the three fields of a version.\<close>

definition version_dto :: "'e EntityVersion \<Rightarrow> ts \<times> string \<times> 'e option" where
  "version_dto v = (ev_timestamp v, ev_device_id v, ev_entity v)"

definition rest_note_history :: "'s backend \<Rightarrow> uuid \<Rightarrow> u32 \<Rightarrow> ((ts \<times> string \<times> Note option) list, 's) act" where
  "rest_note_history be i limit s = and_then (note_history be i limit s) (\<lambda>versions s. (Inr (map version_dto versions), s))"

definition rest_notebook_history :: "'s backend \<Rightarrow> uuid \<Rightarrow> u32 \<Rightarrow> ((ts \<times> string \<times> Notebook option) list, 's) act" where
  "rest_notebook_history be i limit s = and_then (notebook_history be i limit s) (\<lambda>versions s. (Inr (map version_dto versions), s))"

definition revert_note_ep :: "'s backend \<Rightarrow> ts \<Rightarrow> uuid \<Rightarrow> ts \<Rightarrow> (Note, 's) act" where
  "revert_note_ep be now i at = revert_note be now i at"

definition revert_notebook_ep :: "'s backend \<Rightarrow> ts \<Rightarrow> uuid \<Rightarrow> ts \<Rightarrow> (Notebook, 's) act" where
  "revert_notebook_ep be now i at = revert_notebook be now i at"

definition revert_notebook_notes_ep :: "nat \<Rightarrow> 's backend \<Rightarrow> (nat \<Rightarrow> ts) \<Rightarrow> uuid \<Rightarrow> ts \<Rightarrow> 's \<Rightarrow> (Note list, 's) op option" where
  "revert_notebook_notes_ep fuel be clock i at = revert_notebook_notes_to fuel be clock i at"

definition batch_revert_notes_ep :: "'s backend \<Rightarrow> (nat \<Rightarrow> ts) \<Rightarrow> uuid list \<Rightarrow> ts \<Rightarrow> (Note list, 's) act" where
  "batch_revert_notes_ep be clock note_ids at = revert_notes_to be clock note_ids at"

section \<open>Search\<close>

record SearchParams =
  qp_q :: "string option"
  qp_notebook :: "uuid option"
  qp_todo :: "bool option"
  qp_open :: "bool option"
  qp_starred :: "bool option"
  qp_pinned :: "bool option"
  qp_due_after :: "ts option"
  qp_due_before :: "ts option"
  qp_updated_after :: "ts option"
  qp_updated_before :: "ts option"
  qp_limit :: "nat option"

fun read_found :: "'s backend \<Rightarrow> uuid list \<Rightarrow> 's \<Rightarrow> Note list \<times> 's" where
  "read_found be [] s = ([], s)"
| "read_found be (i # ids) s =
    (let (r, s) = read_note be i s; (notes, s) = read_found be ids s
     in (case r of Inl _ \<Rightarrow> notes | Inr note \<Rightarrow> note # notes, s))"

definition search_notes :: "'u search_env_scheme \<Rightarrow> fts \<Rightarrow> 's backend \<Rightarrow> Index option \<Rightarrow> SearchParams \<Rightarrow> 's \<Rightarrow> (Note list, 's) http" where
  "search_notes v f be search p s = (case search of
     None \<Rightarrow> (Inl 503, s)
   | Some idx \<Rightarrow>
       let query = \<lparr>sq_text = (case qp_q p of Some q \<Rightarrow> q | None \<Rightarrow> []), sq_notebook_id = qp_notebook p, sq_is_todo = qp_todo p,
             sq_todo_open = qp_open p, sq_is_starred = qp_starred p, sq_is_pinned = qp_pinned p,
             sq_due_after = qp_due_after p, sq_due_before = qp_due_before p, sq_updated_after = qp_updated_after p,
             sq_updated_before = qp_updated_before p, sq_limit = (case qp_limit p of Some n \<Rightarrow> n | None \<Rightarrow> 50)\<rparr>;
           (notes, s) = read_found be (index_query v f query idx) s
       in (Inr notes, s))"

section \<open>Permissions\<close>

text \<open>
  \<open>proxy_perm\<close> passes the method, the path and the body on to the synchronisation server, when there is one,
  and its answer back; the call is the parameter \<open>send\<close>. A status is valid from 100 to 999.
\<close>

definition proxy_perm :: "(string \<Rightarrow> string \<Rightarrow> 'j option \<Rightarrow> (nat \<times> 'j) option) option \<Rightarrow> string \<Rightarrow> string \<Rightarrow> 'j option \<Rightarrow> nat \<times> 'j option" where
  "proxy_perm collab http_method path body = (case collab of
     None \<Rightarrow> (503, None)
   | Some send \<Rightarrow>
       (case send http_method path body of
          Some (status, answer) \<Rightarrow> (if 100 \<le> status \<and> status \<le> 999 then status else 502, Some answer)
        | None \<Rightarrow> (502, None)))"

type_synonym 'j sender = "(string \<Rightarrow> string \<Rightarrow> 'j option \<Rightarrow> (nat \<times> 'j) option) option"

definition proxy_note_share :: "'c uuid_text_scheme \<Rightarrow> 'j sender \<Rightarrow> uuid \<Rightarrow> 'j \<Rightarrow> nat \<times> 'j option" where
  "proxy_note_share ut collab i body = proxy_perm collab ''POST'' (''/api/notes/'' @ show_uuid ut i @ ''/share'') (Some body)"

definition proxy_note_shares :: "'c uuid_text_scheme \<Rightarrow> 'j sender \<Rightarrow> uuid \<Rightarrow> nat \<times> 'j option" where
  "proxy_note_shares ut collab i = proxy_perm collab ''GET'' (''/api/notes/'' @ show_uuid ut i @ ''/share'') None"

definition proxy_note_unshare :: "'c uuid_text_scheme \<Rightarrow> 'j sender \<Rightarrow> uuid \<Rightarrow> uuid \<Rightarrow> nat \<times> 'j option" where
  "proxy_note_unshare ut collab i user =
     proxy_perm collab ''DELETE'' (''/api/notes/'' @ show_uuid ut i @ ''/share/'' @ show_uuid ut user) None"

definition proxy_note_transfer :: "'c uuid_text_scheme \<Rightarrow> 'j sender \<Rightarrow> uuid \<Rightarrow> 'j \<Rightarrow> nat \<times> 'j option" where
  "proxy_note_transfer ut collab i body = proxy_perm collab ''POST'' (''/api/notes/'' @ show_uuid ut i @ ''/transfer'') (Some body)"

definition proxy_notebook_share :: "'c uuid_text_scheme \<Rightarrow> 'j sender \<Rightarrow> uuid \<Rightarrow> 'j \<Rightarrow> nat \<times> 'j option" where
  "proxy_notebook_share ut collab i body = proxy_perm collab ''POST'' (''/api/notebooks/'' @ show_uuid ut i @ ''/share'') (Some body)"

definition proxy_notebook_shares :: "'c uuid_text_scheme \<Rightarrow> 'j sender \<Rightarrow> uuid \<Rightarrow> nat \<times> 'j option" where
  "proxy_notebook_shares ut collab i = proxy_perm collab ''GET'' (''/api/notebooks/'' @ show_uuid ut i @ ''/share'') None"

definition proxy_notebook_unshare :: "'c uuid_text_scheme \<Rightarrow> 'j sender \<Rightarrow> uuid \<Rightarrow> uuid \<Rightarrow> nat \<times> 'j option" where
  "proxy_notebook_unshare ut collab i user =
     proxy_perm collab ''DELETE'' (''/api/notebooks/'' @ show_uuid ut i @ ''/share/'' @ show_uuid ut user) None"

definition proxy_notebook_transfer :: "'c uuid_text_scheme \<Rightarrow> 'j sender \<Rightarrow> uuid \<Rightarrow> 'j \<Rightarrow> nat \<times> 'j option" where
  "proxy_notebook_transfer ut collab i body = proxy_perm collab ''POST'' (''/api/notebooks/'' @ show_uuid ut i @ ''/transfer'') (Some body)"

section \<open>Contacts, events and to-dos\<close>

record ContactDto =
  dto_uid :: string
  dto_formatted_name :: string
  dto_family_name :: "string option"
  dto_given_name :: "string option"
  dto_emails :: "string list"
  dto_phones :: "string list"
  dto_org :: "string option"
  dto_note :: "string option"

definition contact_dto :: "Contact \<Rightarrow> ContactDto" where
  "contact_dto c = \<lparr>dto_uid = ct_uid c, dto_formatted_name = ct_formatted_name c, dto_family_name = ct_family_name c,
     dto_given_name = ct_given_name c, dto_emails = ct_emails c, dto_phones = ct_phones c, dto_org = ct_org c,
     dto_note = ct_note c\<rparr>"

record EventDto =
  edto_uid :: string
  edto_summary :: string
  edto_start :: "ts option"
  edto_end :: "ts option"
  edto_location :: "string option"
  edto_description :: "string option"

definition event_dto :: "CalendarEvent \<Rightarrow> EventDto" where
  "event_dto e = \<lparr>edto_uid = ev_uid e, edto_summary = ev_summary e, edto_start = ev_start e, edto_end = ev_end e,
     edto_location = ev_location e, edto_description = ev_description e\<rparr>"

definition list_contacts_ep :: "nat \<Rightarrow> 's backend \<Rightarrow> 's \<Rightarrow> (ContactDto list, 's) op option" where
  "list_contacts_ep fuel be s = fuel_then (list_contacts fuel be s) (\<lambda>cs s. Some (Inr (map contact_dto cs), s))"

definition import_contact_ep :: "nat \<Rightarrow> 's backend \<Rightarrow> fresh \<Rightarrow> string \<Rightarrow> 's \<Rightarrow> (ContactDto, 's) op option" where
  "import_contact_ep fuel be fr body s = (case from_vcard body of
     None \<Rightarrow> Some (Inl InvalidInput, s)
   | Some contact \<Rightarrow> fuel_then (save_contact fuel be fr contact s) (\<lambda>saved s. Some (Inr (contact_dto saved), s)))"

definition export_contact_ep :: "nat \<Rightarrow> 's backend \<Rightarrow> string \<Rightarrow> string \<Rightarrow> 's \<Rightarrow> (string \<times> string, 's) op option" where
  "export_contact_ep fuel be fresh_text uid s = fuel_then (get_contact fuel be uid s) (\<lambda>found s. Some (case found of
     None \<Rightarrow> (Inl NotFound, s) | Some contact \<Rightarrow> (Inr (MIME_VCARD, to_vcard fresh_text contact), s)))"

definition delete_contact_ep :: "nat \<Rightarrow> 's backend \<Rightarrow> string \<Rightarrow> 's \<Rightarrow> (unit, 's) op option" where
  "delete_contact_ep fuel be uid = delete_contact fuel be uid"

definition list_events_ep :: "nat \<Rightarrow> 'd date_text_scheme \<Rightarrow> 's backend \<Rightarrow> 's \<Rightarrow> (EventDto list, 's) op option" where
  "list_events_ep fuel dt be s = fuel_then (list_events fuel dt be s) (\<lambda>es s. Some (Inr (map event_dto es), s))"

fun save_each_event :: "nat \<Rightarrow> 'd date_text_scheme \<Rightarrow> 's backend \<Rightarrow> (nat \<Rightarrow> fresh) \<Rightarrow> CalendarEvent list \<Rightarrow> EventDto list \<Rightarrow> 's \<Rightarrow> (EventDto list, 's) op option" where
  "save_each_event fuel dt be fr [] saved s = Some (Inr saved, s)"
| "save_each_event fuel dt be fr (event # events) saved s =
     fuel_then (save_event fuel dt be (fr (length saved)) event s) (\<lambda>e s.
       save_each_event fuel dt be fr events (saved @ [event_dto e]) s)"

definition import_event_ep :: "nat \<Rightarrow> 'd date_text_scheme \<Rightarrow> 's backend \<Rightarrow> (nat \<Rightarrow> fresh) \<Rightarrow> string \<Rightarrow> 's \<Rightarrow> (EventDto list, 's) op option" where
  "import_event_ep fuel dt be fr body s =
    (let events = events_from_ics dt body in
     if events = [] then Some (Inl InvalidInput, s) else save_each_event fuel dt be fr events [] s)"

definition export_event_ep :: "nat \<Rightarrow> 'd date_text_scheme \<Rightarrow> 's backend \<Rightarrow> string \<Rightarrow> ts \<Rightarrow> string \<Rightarrow> 's \<Rightarrow> (string \<times> string, 's) op option" where
  "export_event_ep fuel dt be fresh_text now uid s = fuel_then (get_event fuel dt be uid s) (\<lambda>found s. Some (case found of
     None \<Rightarrow> (Inl NotFound, s) | Some event \<Rightarrow> (Inr (MIME_ICALENDAR, event_to_ics dt fresh_text now event), s)))"

definition delete_event_ep :: "nat \<Rightarrow> 'd date_text_scheme \<Rightarrow> 's backend \<Rightarrow> string \<Rightarrow> 's \<Rightarrow> (unit, 's) op option" where
  "delete_event_ep fuel dt be uid = delete_event fuel dt be uid"

definition import_todo_ep :: "'d date_text_scheme \<Rightarrow> 's backend \<Rightarrow> (nat \<Rightarrow> uuid \<times> ts) \<Rightarrow> string \<Rightarrow> (Note list, 's) act" where
  "import_todo_ep dt be fr body = import_todos dt be fr body"

definition profile_vcard_ep :: "'d date_text_scheme \<Rightarrow> string \<Rightarrow> string option \<Rightarrow> string \<Rightarrow> string \<times> string" where
  "profile_vcard_ep dt fresh_text name email =
    (let name = (case name of
           Some n \<Rightarrow> if trim_text dt n \<noteq> [] then n else takeWhile (\<lambda>c. c \<noteq> CHR ''@'') email
         | None \<Rightarrow> takeWhile (\<lambda>c. c \<noteq> CHR ''@'') email)
     in (MIME_VCARD, user_vcard fresh_text name email))"

section \<open>Notebooks and tags\<close>

definition rest_list_notebooks :: "'s backend \<Rightarrow> (Notebook, 's) pages" where
  "rest_list_notebooks be page_size page_token = list_notebooks be page_size page_token"

definition rest_create_notebook :: "'s backend \<Rightarrow> uuid \<Rightarrow> ts \<Rightarrow> string \<Rightarrow> (Notebook, 's) act" where
  "rest_create_notebook be fresh now title = create_notebook be (new_notebook fresh now title)"

definition rest_read_live_notebook :: "'s backend \<Rightarrow> uuid \<Rightarrow> (Notebook, 's) act" where
  "rest_read_live_notebook be i s = and_then (read_notebook be i s) (\<lambda>nb s.
     if nb_deleted_at nb \<noteq> None then (Inl NotFound, s) else (Inr nb, s))"

definition rest_get_notebook :: "'s backend \<Rightarrow> uuid \<Rightarrow> (Notebook, 's) act" where
  "rest_get_notebook be i = rest_read_live_notebook be i"

definition rest_update_notebook :: "'s backend \<Rightarrow> ts \<Rightarrow> uuid \<Rightarrow> Notebook \<Rightarrow> (Notebook, 's) act" where
  "rest_update_notebook be now i nb s = and_then (rest_read_live_notebook be i s) (\<lambda>_.
     update_notebook be (nb\<lparr>nb_id := i, nb_updated_at := now\<rparr>))"

definition rest_delete_notebook :: "'s backend \<Rightarrow> uuid \<Rightarrow> (unit, 's) act" where
  "rest_delete_notebook be i s = (if is_inbox i then (Inl InvalidInput, s) else delete_notebook be i s)"

definition rest_set_notebook_alias :: "'s backend \<Rightarrow> uuid \<Rightarrow> string option \<Rightarrow> (Notebook, 's) act" where
  "rest_set_notebook_alias be i alias = set_notebook_alias be i alias"

definition rest_list_tags :: "'s backend \<Rightarrow> (Tag, 's) pages" where
  "rest_list_tags be page_size page_token = list_tags be page_size page_token"

definition rest_create_tag :: "'s backend \<Rightarrow> uuid \<Rightarrow> ts \<Rightarrow> string \<Rightarrow> (Tag, 's) act" where
  "rest_create_tag be fresh now title = create_tag be (new_tag fresh now title)"

definition rest_read_live_tag :: "'s backend \<Rightarrow> uuid \<Rightarrow> (Tag, 's) act" where
  "rest_read_live_tag be i s = and_then (read_tag be i s) (\<lambda>tag s.
     if t_deleted_at tag \<noteq> None then (Inl NotFound, s) else (Inr tag, s))"

definition rest_get_tag :: "'s backend \<Rightarrow> uuid \<Rightarrow> (Tag, 's) act" where
  "rest_get_tag be i = rest_read_live_tag be i"

definition rest_update_tag :: "'s backend \<Rightarrow> ts \<Rightarrow> uuid \<Rightarrow> Tag \<Rightarrow> (Tag, 's) act" where
  "rest_update_tag be now i tag s = and_then (rest_read_live_tag be i s) (\<lambda>_.
     update_tag be (tag\<lparr>t_id := i, t_updated_at := now\<rparr>))"

definition rest_delete_tag :: "'s backend \<Rightarrow> uuid \<Rightarrow> (unit, 's) act" where
  "rest_delete_tag be i = delete_tag be i"

section \<open>Resources\<close>

record ResourceMeta =
  me_title :: string
  me_file_name :: string
  me_duration_ms :: "u64 option"
  me_width :: "u32 option"
  me_height :: "u32 option"
  me_note_id :: "uuid option"

definition rest_list_resources :: "'s backend \<Rightarrow> uuid option \<Rightarrow> (Resource, 's) pages" where
  "rest_list_resources be note_id page_size page_token = (case note_id of
     Some i \<Rightarrow> list_resources_for_note be i page_size page_token
   | None \<Rightarrow> list_resources be page_size page_token)"

text \<open>The content type of the request, when it has one that is text.\<close>

definition mime_of :: "string option \<Rightarrow> string" where
  "mime_of content_type = (case content_type of Some m \<Rightarrow> m | None \<Rightarrow> ''application/octet-stream'')"

definition rest_create_resource :: "'s backend \<Rightarrow> uuid \<Rightarrow> ts \<Rightarrow> ResourceMeta \<Rightarrow> string option \<Rightarrow> u8 list \<Rightarrow> (Resource, 's) act" where
  "rest_create_resource be fresh now meta content_type data s = (case me_note_id meta of
     None \<Rightarrow> (Inl InvalidInput, s)
   | Some note_id \<Rightarrow>
       let resource = (new_resource fresh now note_id (me_title meta) (mime_of content_type) (me_file_name meta) (of_nat (length data)))
             \<lparr>r_duration_ms := me_duration_ms meta, r_dimensions := dimensions_of (me_width meta) (me_height meta)\<rparr>
       in create_resource be resource data s)"

text \<open>
  \<open>to_bytes\<close> of axum collects a body of at most \<open>limit\<close> bytes; it fails on a longer one or when a frame
  (\<open>None\<close> here) fails.
\<close>

fun to_bytes :: "nat \<Rightarrow> u8 list option list \<Rightarrow> u8 list \<Rightarrow> u8 list option" where
  "to_bytes limit [] data = Some data"
| "to_bytes limit (None # frames) data = None"
| "to_bytes limit (Some bytes # frames) data =
    (if limit < length data + length bytes then None else to_bytes limit frames (data @ bytes))"

definition upload_resource :: "nat \<Rightarrow> 's backend \<Rightarrow> uuid \<Rightarrow> ts \<Rightarrow> ResourceMeta \<Rightarrow> string option \<Rightarrow> u8 list option list \<Rightarrow> 's \<Rightarrow> (Resource, 's) http" where
  "upload_resource cap be fresh now meta content_type body s =
    (let limit = (if cap = 0 then 2 ^ 64 - 1 else cap) in
     case to_bytes limit body [] of
       None \<Rightarrow> (Inl 413, s)
     | Some data \<Rightarrow>
         (case me_note_id meta of
            None \<Rightarrow> (Inl (into_response InvalidInput), s)
          | Some note_id \<Rightarrow>
              let resource = (new_resource fresh now note_id (me_title meta) (mime_of content_type) (me_file_name meta) (of_nat (length data)))
                    \<lparr>r_duration_ms := me_duration_ms meta, r_dimensions := dimensions_of (me_width meta) (me_height meta)\<rparr>
              in case create_resource be resource data s of
                   (Inr r, s) \<Rightarrow> (Inr r, s)
                 | (Inl e, s) \<Rightarrow> (Inl (into_response e), s)))"

definition rest_get_resource :: "'s backend \<Rightarrow> uuid \<Rightarrow> (Resource, 's) act" where
  "rest_get_resource be i s = and_then (read_resource be i s) (\<lambda>(meta, data) s. (Inr meta, s))"

definition rest_get_resource_data :: "'s backend \<Rightarrow> uuid \<Rightarrow> (string \<times> u8 list, 's) act" where
  "rest_get_resource_data be i s = and_then (read_resource be i s) (\<lambda>(meta, data) s. (Inr (r_mime_type meta, data), s))"

definition rest_delete_resource :: "'s backend \<Rightarrow> uuid \<Rightarrow> (unit, 's) act" where
  "rest_delete_resource be i = delete_resource be i"

section \<open>Synchronisation and the feed of changes\<close>

definition rest_sync :: "'s backend \<Rightarrow> u64 \<Rightarrow> u64 \<Rightarrow> ts \<Rightarrow> ts \<Rightarrow> ts \<Rightarrow> (nat, 's) act" where
  "rest_sync be retention_days purge_days sync_ts now1 now2 s =
    (let (result, (s, stages)) = run_sync be sync_ts s in
     case result of
       Inl e \<Rightarrow> (Inl e, s)
     | Inr applied \<Rightarrow>
         (Inr (length applied), purge_resources_after_sync be now2 purge_days (prune_journal_after_sync be now1 retention_days s)))"

text \<open>
  \<open>stream_changes\<close>: what the two sources of the loop deliver, each with whether a message sent in answer
  goes through, and what the client has been sent when the loop ends.
\<close>

datatype feed_event = FeedChange Change | FeedLagged | FeedClosed | SocketClosed | SocketFailed | SocketMessage

datatype ws_message = WsChange Change | WsResync

fun stream_changes :: "(feed_event \<times> bool) list \<Rightarrow> ws_message list" where
  "stream_changes [] = []"
| "stream_changes ((FeedChange c, sends) # events) = (if sends then WsChange c # stream_changes events else [])"
| "stream_changes ((FeedLagged, sends) # events) = (if sends then WsResync # stream_changes events else [])"
| "stream_changes ((FeedClosed, _) # events) = []"
| "stream_changes ((SocketClosed, _) # events) = []"
| "stream_changes ((SocketFailed, _) # events) = []"
| "stream_changes ((SocketMessage, _) # events) = stream_changes events"

end
