(* ===== verification/Services.thy ===== *)
theory Services
  imports Rest
begin

text \<open>
  The two services of the daemon side by side: a note survives the message it is sent in, a request made to
  either service leaves the store in the same state and has the corresponding answer, and an upload in pieces
  is the creation of the resource with the joined payload, up to the limit.
\<close>

section \<open>The texts of a message\<close>

text \<open>
  Identifiers and the timestamps of \<open>T\<close> are read back from their texts, which are not empty.
\<close>

definition wire_ok :: "'c rpc_text_scheme \<Rightarrow> ts set \<Rightarrow> bool" where
  "wire_ok rt T \<longleftrightarrow> (\<forall>i. parse_uuid rt (show_uuid rt i) = Some i \<and> show_uuid rt i \<noteq> []) \<and>
     (\<forall>t\<in>T. parse_rfc3339 rt (rfc3339 rt t) = Some t \<and> rfc3339 rt t \<noteq> [])"

definition wire_times :: "Note \<Rightarrow> ts set" where
  "wire_times n = {n_created_at n, n_updated_at n} \<union> set_option (n_todo_due n) \<union> set_option (n_todo_completed n) \<union>
     set_option (n_deleted_at n)"

lemma wire_id:
  assumes "wire_ok rt T"
  shows "parse_uuid rt (show_uuid rt i) = Some i" and "show_uuid rt i \<noteq> []" and "parse_id rt (show_uuid rt i) = Inr i"
  using assms by (simp_all add: wire_ok_def parse_id_def)

lemma wire_time:
  assumes "wire_ok rt T" "t \<in> T"
  shows "parse_dt_field rt (rfc3339 rt t) = Inr t" and "rfc3339 rt t \<noteq> []"
  using assms by (simp_all add: wire_ok_def parse_dt_field_def)

lemma wire_optional_time:
  assumes "wire_ok rt T" "set_option x \<subseteq> T"
  shows "parse_optional_dt rt (map_option (rfc3339 rt) x) = Inr x"
  using assms by (cases x) (simp_all add: parse_optional_dt_def wire_time)

lemma proto_bookmark [simp]: "proto_to_bookmark (bookmark_to_proto b) = b"
  by (simp add: proto_to_bookmark_def bookmark_to_proto_def)

lemma proto_notelink:
  assumes "wire_ok rt T"
  shows "proto_to_notelink rt (notelink_to_proto rt l) = l"
proof (cases l)
  case (fields src raw target)
  then show ?thesis
    by (cases src; cases target) (simp_all add: proto_to_notelink_def notelink_to_proto_def wire_id [OF assms])
qed

lemma proto_notebook_field:
  assumes "wire_ok rt T"
  shows "proto_notebook_id rt (if i = uuid_nil then None else Some (show_uuid rt i)) = Inr i"
  using wire_id [OF assms] by (simp add: proto_notebook_id_def)

lemma wire_note:
  assumes ok: "wire_ok rt T" and times: "wire_times n \<subseteq> T"
  shows "proto_to_note rt (note_to_proto rt n) = Inr (n\<lparr>n_vv := fmempty, n_last_writer := []\<rparr>)"
proof -
  have t: "n_created_at n \<in> T" "n_updated_at n \<in> T" "set_option (n_todo_due n) \<subseteq> T"
    "set_option (n_todo_completed n) \<subseteq> T" "set_option (n_deleted_at n) \<subseteq> T"
    using times by (simp_all add: wire_times_def)
  show ?thesis
    unfolding proto_to_note_def note_to_proto_def
    by (simp add: wire_id [OF ok] proto_notebook_field [OF ok] wire_time [OF ok] wire_optional_time [OF ok] t
        proto_notelink [OF ok] comp_def)
qed

text \<open>
  C38. A note sent in a message and read back is the note, except for its version: the two services exchange
  every field but the version vector and the last writer, which the store maintains. The identifier, the
  notebook (the Inbox is an absent field), the optional timestamps, the bookmarks and the links with their
  resolved targets all return.
\<close>

theorem note_survives_the_wire:
  assumes "wire_ok rt T" and "wire_times n \<subseteq> T"
  shows "proto_to_note rt (note_to_proto rt n) = Inr (n\<lparr>n_vv := fmempty, n_last_writer := []\<rparr>)"
  using assms by (rule wire_note)

text \<open>
  An instance of the texts: identifiers and the timestamps from 0 on in unary. It stands for the crates'
  renderings in the witnesses only.
\<close>

definition sample_wire :: rpc_text where
  "sample_wire = \<lparr>show_uuid = (\<lambda>i. replicate (Suc (unat i)) CHR ''u''),
     parse_uuid = (\<lambda>s. Some (of_nat (length s - 1))), show_ts = (\<lambda>t. replicate (nat t) CHR ''a''),
     rfc3339 = (\<lambda>t. replicate (Suc (nat t)) CHR ''t''), parse_rfc3339 = (\<lambda>s. Some (int (length s - 1)))\<rparr>"

lemma sample_wire_ok: "wire_ok sample_wire {0..}"
  by (simp add: wire_ok_def sample_wire_def)

theorem note_survives_the_wire_witness:
  "proto_to_note sample_wire (note_to_proto sample_wire (nb_note\<lparr>n_todo_due := Some 9, n_last_writer := ''A''\<rparr>)) =
    Inr (nb_note\<lparr>n_todo_due := Some 9\<rparr>)"
  using note_survives_the_wire [OF sample_wire_ok, of "nb_note\<lparr>n_todo_due := Some 9, n_last_writer := ''A''\<rparr>"]
  by (simp add: wire_times_def nb_note_def sample_note_def new_note_def)

section \<open>The services agree\<close>

lemma served_simps [simp]:
  "served (Inl e, s) = (Inl (storage_err e), s)"
  "served (Inr x, s) = (Inr x, s)"
  by (simp_all add: served_def)

lemma answering_simps [simp]:
  "answering f (Inl e, s) = (Inl (storage_err e), s)"
  "answering f (Inr x, s) = (Inr (f x), s)"
  by (simp_all add: answering_def)

lemma answering_eq: "answering f m = (map_sum storage_err f (fst m), snd m)"
  by (cases m; cases "fst m") (simp_all add: answering_def served_def)

lemma answering_and_then:
  "answering f (and_then m k) = and_then (served m) (\<lambda>x s. answering f (k x s))"
  by (cases "(m, k)" rule: and_then.cases) (simp_all add: answering_def served_def)

lemma answering_unit: "answering (\<lambda>x. x) m = served m"
  by (cases m; cases "fst m") (simp_all add: answering_def served_def)

lemma served_and_then: "served (and_then m k) = and_then (served m) (\<lambda>x s. served (k x s))"
  by (cases "(m, k)" rule: and_then.cases) (simp_all add: served_def)

text \<open>The fields of a request to create a note, as the message has them: absent is empty.\<close>

definition id_field :: "'c rpc_text_scheme \<Rightarrow> uuid option \<Rightarrow> string" where
  "id_field rt x = (case x of None \<Rightarrow> [] | Some i \<Rightarrow> show_uuid rt i)"

definition time_field :: "'c rpc_text_scheme \<Rightarrow> ts option \<Rightarrow> string" where
  "time_field rt x = (case x of None \<Rightarrow> [] | Some t \<Rightarrow> rfc3339 rt t)"

lemma time_field_read:
  assumes "wire_ok rt T" "set_option x \<subseteq> T"
  shows "parse_optional_dt rt (token_of (time_field rt x)) = Inr x"
  using assms by (cases x) (simp_all add: parse_optional_dt_def time_field_def token_of_def wire_time)

lemma id_field_read:
  assumes "wire_ok rt T"
  shows "(if id_field rt x = [] then Inr uuid_nil else parse_id rt (id_field rt x)) =
    Inr (case x of Some i \<Rightarrow> i | None \<Rightarrow> uuid_nil)"
  using wire_id [OF assms] by (cases x) (simp_all add: id_field_def)

lemma create_note_agrees:
  assumes ok: "wire_ok rt T" and due: "set_option (cn_todo_due req) \<subseteq> T"
  shows "rpc_create_note fuel rt be fresh now (cn_title req) (cn_body req) (id_field rt (cn_notebook_id req))
      (cn_is_todo req) (time_field rt (cn_todo_due req)) s =
    map_option (answering (note_to_proto rt)) (rest_create_note fuel be fresh now req s)"
proof -
  have nb: "(if id_field rt (cn_notebook_id req) = [] then Inr uuid_nil else parse_id rt (id_field rt (cn_notebook_id req))) =
      Inr (case cn_notebook_id req of Some i \<Rightarrow> i | None \<Rightarrow> uuid_nil)" by (rule id_field_read [OF ok])
  show ?thesis
    unfolding rpc_create_note_def rest_create_note_def checked_fuel_def time_field_read [OF ok due] body_check_def
    using nb
    by (simp add: new_note_def Let_def split: sum.split)
      (auto simp: option.map_comp comp_def answering_and_then)
qed

lemma update_note_agrees:
  assumes ok: "wire_ok rt T" and times: "wire_times n \<subseteq> T" and "n_vv n = fmempty" and "n_last_writer n = []"
  shows "rpc_update_note fuel rt be now (Some (note_to_proto rt n)) s =
    map_option (answering (note_to_proto rt)) (rest_update_note fuel be now (n_id n) n s)"
proof -
  have n: "proto_to_note rt (note_to_proto rt n) = Inr n"
    using assms(3,4) by (simp add: wire_note [OF ok times])
  show ?thesis
  proof (cases "read_note be (n_id n) s")
    case (Pair r s')
    then show ?thesis
      unfolding rpc_update_note_def rest_update_note_def checked_fuel_def body_check_def n
      by (cases r; cases "check_body (n_body n)")
        (simp_all add: n rest_read_live_note_def Let_def option.map_comp comp_def answering_and_then)
  qed
qed

lemma wire_notebook:
  assumes "wire_ok rt T" "nb_created_at nb \<in> T" "set_option (nb_deleted_at nb) \<subseteq> T"
  shows "proto_to_notebook rt now (notebook_to_proto rt nb) = Inr (nb\<lparr>nb_updated_at := now, nb_vv := fmempty, nb_last_writer := []\<rparr>)"
  unfolding proto_to_notebook_def notebook_to_proto_def
  by (simp add: wire_id [OF assms(1)] wire_time [OF assms(1)] wire_optional_time [OF assms(1)] assms(2,3))

lemma wire_tag:
  assumes "wire_ok rt T" "t_created_at t \<in> T" "set_option (t_deleted_at t) \<subseteq> T"
  shows "proto_to_tag rt now (tag_to_proto rt t) = Inr (t\<lparr>t_updated_at := now, t_vv := fmempty, t_last_writer := []\<rparr>)"
  unfolding proto_to_tag_def tag_to_proto_def
  by (simp add: wire_id [OF assms(1)] wire_time [OF assms(1)] wire_optional_time [OF assms(1)] assms(2,3))

lemma update_notebook_agrees:
  assumes "wire_ok rt T" "nb_created_at nb \<in> T" "set_option (nb_deleted_at nb) \<subseteq> T" "nb_vv nb = fmempty" "nb_last_writer nb = []"
  shows "rpc_update_notebook rt be now (Some (notebook_to_proto rt nb)) s =
    answering (notebook_to_proto rt) (rest_update_notebook be now (nb_id nb) nb s)"
proof (cases "read_notebook be (nb_id nb) s")
  case (Pair r s')
  have same: "nb\<lparr>nb_updated_at := now, nb_vv := fmempty, nb_last_writer := []\<rparr> = nb\<lparr>nb_updated_at := now\<rparr>"
    using assms(4,5) by (cases nb) simp
  show ?thesis using Pair
    by (cases r) (simp_all add: same rpc_update_notebook_def rest_update_notebook_def checked_def wire_notebook [OF assms(1-3)]
        ensure_not_deleted_def rest_read_live_notebook_def answering_and_then)
qed

lemma update_tag_agrees:
  assumes "wire_ok rt T" "t_created_at t \<in> T" "set_option (t_deleted_at t) \<subseteq> T" "t_vv t = fmempty" "t_last_writer t = []"
  shows "rpc_update_tag rt be now (Some (tag_to_proto rt t)) s =
    answering (tag_to_proto rt) (rest_update_tag be now (t_id t) t s)"
proof (cases "read_tag be (t_id t) s")
  case (Pair r s')
  have same: "t\<lparr>t_updated_at := now, t_vv := fmempty, t_last_writer := []\<rparr> = t\<lparr>t_updated_at := now\<rparr>"
    using assms(4,5) by (cases t) simp
  show ?thesis using Pair
    by (cases r) (simp_all add: same rpc_update_tag_def rest_update_tag_def checked_def wire_tag [OF assms(1-3)]
        ensure_not_deleted_def rest_read_live_tag_def answering_and_then)
qed

lemma note_actions_agree:
  assumes "wire_ok rt T"
  shows "rpc_pin_note rt be (show_uuid rt i) s = answering (note_to_proto rt) (rest_pin_note be i s)"
    and "rpc_unpin_note rt be (show_uuid rt i) s = answering (note_to_proto rt) (rest_unpin_note be i s)"
    and "rpc_star_note rt be (show_uuid rt i) s = answering (note_to_proto rt) (rest_star_note be i s)"
    and "rpc_unstar_note rt be (show_uuid rt i) s = answering (note_to_proto rt) (rest_unstar_note be i s)"
    and "rpc_set_note_alias rt be (show_uuid rt i) alias s = answering (note_to_proto rt) (rest_set_note_alias be i alias s)"
    and "rpc_remove_note_link rt be (show_uuid rt i) index s = answering (note_to_proto rt) (rest_remove_link be i (unat index) s)"
  by (simp_all add: rpc_pin_note_def rpc_unpin_note_def rpc_star_note_def rpc_unstar_note_def note_action_def checked_def
      wire_id [OF assms] rest_pin_note_def rest_unpin_note_def rest_star_note_def rest_unstar_note_def
      rpc_set_note_alias_def rest_set_note_alias_def rpc_remove_note_link_def rest_remove_link_def)

lemma reorder_agrees:
  assumes "wire_ok rt T"
  shows "rpc_reorder_notes rt be [(show_uuid rt i, key)] s = answering (\<lambda>n. [note_to_proto rt n]) (rest_reorder_note be i key s)"
  by (cases "reorder_note be i key s"; cases "fst (reorder_note be i key s)")
    (simp_all add: rpc_reorder_notes_def rest_reorder_note_def checked_def wire_id [OF assms])

lemma deletions_agree:
  assumes "wire_ok rt T"
  shows "rpc_delete_note rt be (show_uuid rt i) s = served (rest_delete_note be i s)"
    and "rpc_delete_notebook rt be (show_uuid rt i) s = served (rest_delete_notebook be i s)"
    and "rpc_delete_tag rt be (show_uuid rt i) s = served (rest_delete_tag be i s)"
    and "rpc_delete_resource rt be (show_uuid rt i) s = served (rest_delete_resource be i s)"
    and "rpc_add_note_tag rt be (show_uuid rt i) (show_uuid rt j) s = served (rest_add_note_tag be i j s)"
    and "rpc_remove_note_tag rt be (show_uuid rt i) (show_uuid rt j) s = served (rest_remove_note_tag be i j s)"
  by (simp_all add: rpc_delete_note_def rest_delete_note_def rpc_delete_notebook_def rest_delete_notebook_def
      rpc_delete_tag_def rest_delete_tag_def rpc_delete_resource_def rest_delete_resource_def rpc_add_note_tag_def
      rest_add_note_tag_def rpc_remove_note_tag_def rest_remove_note_tag_def checked_def wire_id [OF assms])

lemma add_link_agrees:
  assumes "wire_ok rt T" "parse_link_ref rt raw \<noteq> None"
  shows "rpc_add_note_link rt be (show_uuid rt i) raw s = answering (note_to_proto rt) (rest_add_link rt be i raw s)"
  using assms(2) by (auto simp: rpc_add_note_link_def rest_add_link_def checked_def wire_id [OF assms(1)])

lemma invalid_link_answers:
  assumes "wire_ok rt T" "parse_link_ref rt raw = None"
  shows "rpc_add_note_link rt be (show_uuid rt i) raw s = (Inl CodeInternal, s)"
    and "respond (rest_add_link rt be i raw s) = (Inl 422, s)"
  using assms(2) by (simp_all add: rpc_add_note_link_def rest_add_link_def checked_def wire_id [OF assms(1)] respond_def
      add_manual_link_def from_raw_def)

lemma sync_agrees:
  "snd (rpc_sync be retention_days purge_days sync_ts now1 now2 s) = snd (rest_sync be retention_days purge_days sync_ts now1 now2 s)"
  by (cases "run_sync be sync_ts s"; cases "fst (run_sync be sync_ts s)")
    (auto simp: rpc_sync_def rest_sync_def Let_def split: prod.splits)

lemma auth_mw_passes:
  "auth_mw u decode (auth_username cfg) (auth_password cfg) header handler s =
    (if request_passes u decode cfg header then handler s else (Inl 401, s))"
  by (simp add: auth_mw_def request_passes_def split: option.split)


definition sample_request :: CreateNote where
  "sample_request = \<lparr>cn_title = ''a'', cn_body = ''b'', cn_notebook_id = Some 5, cn_is_todo = True, cn_todo_due = Some 9\<rparr>"


text \<open>
  Both services accept a deletion time in an update: the note is deleted, its resources are not.
\<close>

lemma update_deletes_without_cascade:
  assumes "update_note (db_backend tc rm) note s = (Inr n, s')" and "prior_deleted s (n_id note) = None"
  shows "n_deleted_at n = n_deleted_at note" and "db_resources s' = db_resources s"
  using assms by (auto simp: db_backend_def db_update_note_def transaction_def restore_after_undelete_def
      refresh_note_links_def record_change_def db_now_def Let_def split: option.splits if_splits)

section \<open>Uploads\<close>

definition meta_message :: "'c rpc_text_scheme \<Rightarrow> ResourceMeta \<Rightarrow> string option \<Rightarrow> uuid \<Rightarrow> upload_meta" where
  "meta_message rt m content_type i = \<lparr>rm_note_id = show_uuid rt i, rm_title = me_title m, rm_mime_type = mime_of content_type,
     rm_file_name = me_file_name m, rm_duration_ms = me_duration_ms m, rm_width = me_width m, rm_height = me_height m\<rparr>"


lemma upload_chunks_concat:
  assumes "cap = 0 \<or> length data \<le> cap"
  shows "upload_chunks cap (map (\<lambda>c. Inr (Some (Chunk c))) pieces) data =
    (if cap \<noteq> 0 \<and> cap < length (data @ concat pieces) then Inl CodeResourceExhausted else Inr (data @ concat pieces))"
  using assms by (induction pieces arbitrary: data) auto

lemma to_bytes_concat:
  assumes "length data \<le> limit"
  shows "to_bytes limit (map Some pieces) data =
    (if limit < length (data @ concat pieces) then None else Some (data @ concat pieces))"
  using assms by (induction pieces arbitrary: data) auto

lemma create_resource_agrees:
  assumes "wire_ok rt T"
  shows "rpc_create_resource rt be fresh now (meta_message rt (m\<lparr>me_note_id := Some i\<rparr>) content_type i) data s =
    answering (resource_to_proto rt) (rest_create_resource be fresh now (m\<lparr>me_note_id := Some i\<rparr>) content_type data s)"
  by (simp add: rpc_create_resource_def store_resource_def rest_create_resource_def meta_message_def checked_def wire_id [OF assms])

lemma upload_resource_concat:
  assumes "length (concat pieces) < 2 ^ 64"
  shows "upload_resource cap be fresh now meta content_type (map Some pieces) s =
    (if cap \<noteq> 0 \<and> cap < length (concat pieces) then (Inl 413, s)
     else respond (rest_create_resource be fresh now meta content_type (concat pieces) s))"
proof -
  have "to_bytes (if cap = 0 then 2 ^ 64 - 1 else cap) (map Some pieces) [] =
      (if cap \<noteq> 0 \<and> cap < length (concat pieces) then None else Some (concat pieces))"
    using assms by (subst to_bytes_concat) simp_all
  then show ?thesis
    by (simp add: upload_resource_def rest_create_resource_def respond_def Let_def split: option.split)
qed

text \<open>
  C37. However a payload is cut into pieces, uploading it to either service is creating the resource with the
  whole payload when it is within the limit (none when the limit is 0), and otherwise it is refused and
  nothing is stored.
\<close>

theorem upload_is_creation:
  assumes "wire_ok rt T" and "length (concat pieces) < 2 ^ 64" and "me_note_id m = Some i"
  shows "assemble_upload cap rt be fresh now (Inr (Some (Meta (meta_message rt m content_type i))) # map (\<lambda>c. Inr (Some (Chunk c))) pieces) s =
      (if cap \<noteq> 0 \<and> cap < length (concat pieces) then (Inl CodeResourceExhausted, s)
       else answering (resource_to_proto rt) (rest_create_resource be fresh now m content_type (concat pieces) s)) \<and>
    upload_resource cap be fresh now m content_type (map Some pieces) s =
      (if cap \<noteq> 0 \<and> cap < length (concat pieces) then (Inl 413, s)
       else respond (rest_create_resource be fresh now m content_type (concat pieces) s))"
proof -
  have m: "m = m\<lparr>me_note_id := Some i\<rparr>" using assms(3) by (cases m) simp
  have "upload_chunks cap (map (\<lambda>c. Inr (Some (Chunk c))) pieces) [] =
      (if cap \<noteq> 0 \<and> cap < length (concat pieces) then Inl CodeResourceExhausted else Inr (concat pieces))"
    by (subst upload_chunks_concat) simp_all
  moreover note create_resource_agrees [OF assms(1), of be fresh now i m content_type "concat pieces" s, folded m]
  ultimately show ?thesis
    by (simp add: assemble_upload_def checked_def rpc_create_resource_def upload_resource_concat [OF assms(2)])
qed

definition sample_meta :: ResourceMeta where
  "sample_meta = \<lparr>me_title = ''a'', me_file_name = ''f'', me_duration_ms = None, me_width = Some 2, me_height = None, me_note_id = Some 7\<rparr>"

theorem upload_is_creation_witness:
  "assemble_upload 3 sample_wire (db_backend unary_codec offline) 3 4
      (Inr (Some (Meta (meta_message sample_wire sample_meta None 7))) # map (\<lambda>c. Inr (Some (Chunk c))) [[1, 2], [3, 4]]) db_nb =
    (Inl CodeResourceExhausted, db_nb) \<and>
   upload_resource 3 (db_backend unary_codec offline) 3 4 sample_meta None (map Some [[1, 2], [3, 4]]) db_nb = (Inl 413, db_nb)"
  using upload_is_creation [OF sample_wire_ok, of "[[1, 2], [3, 4]]" sample_meta 7 3 "db_backend unary_codec offline" 3 4 None db_nb]
  by (simp add: sample_meta_def)

end
