(* ===== verification/Fs_Open.thy ===== *)
theory Fs_Open
  imports Text_Util Models "HOL-Library.Sublist"
begin

text \<open>
  Opening a directory store, \<open>keeplin-core/src/storage/fs/lifecycle.rs\<close>: the format stamp, the check that an
  unstamped directory is empty, the directories, the temporary files of interrupted writes, the conflict
  copies of Syncthing and the device's identity, over a tree of directories and text files. The order of
  listings and the white space that \<open>trim\<close> strips are parameters; the file system is taken not to fail
  otherwise, and symbolic links are not modelled. Log messages are dropped.
\<close>

section \<open>Directory trees\<close>

type_synonym path = "string list"

datatype node = Dir | File string

type_synonym tree = "(path, node) fmap"

record open_env =
  oe_ls :: "string fset \<Rightarrow> string list"
  oe_trim :: "string \<Rightarrow> string"

text \<open>The names in a directory (\<open>read_dir\<close>).\<close>

definition names :: "'e open_env_scheme \<Rightarrow> tree \<Rightarrow> path \<Rightarrow> string list" where
  "names e t p = (if fmlookup t p = Some Dir
     then oe_ls e (last |`| ffilter (\<lambda>q. q \<noteq> [] \<and> butlast q = p) (fmdom t)) else [])"

fun first_some :: "('a \<Rightarrow> 'b option) \<Rightarrow> 'a list \<Rightarrow> 'b option" where
  "first_some f [] = None"
| "first_some f (x # xs) = (case f x of Some y \<Rightarrow> Some y | None \<Rightarrow> first_some f xs)"

definition is_file :: "tree \<Rightarrow> path \<Rightarrow> bool" where
  "is_file t p = (case fmlookup t p of Some (File _) \<Rightarrow> True | _ \<Rightarrow> False)"

definition starts_with :: "string \<Rightarrow> string \<Rightarrow> bool" where
  "starts_with p s = (strip_prefix p s \<noteq> None)"

definition ends_with :: "string \<Rightarrow> string \<Rightarrow> bool" where
  "ends_with p s = starts_with (rev p) (rev s)"

definition contains_text :: "string \<Rightarrow> string \<Rightarrow> bool" where
  "contains_text p s = list_ex (starts_with p) (suffixes s)"

section \<open>The format stamp\<close>

definition FORMAT_VERSION :: nat where
  "FORMAT_VERSION = 8"

definition keeplin :: string where
  "keeplin = ''.keeplin''"

definition stamp_path :: path where
  "stamp_path = [keeplin, ''format_version'']"

definition device_path :: path where
  "device_path = [keeplin, ''device_id'']"

definition ALLOWED_ROOT :: "string list" where
  "ALLOWED_ROOT = [''notes'', keeplin, ''logs'', ''notebooks'', ''tags'', ''note_tags'']"

definition unexpected_metadata :: "'e open_env_scheme \<Rightarrow> tree \<Rightarrow> string \<Rightarrow> path option" where
  "unexpected_metadata e t name =
    (if name = ''device_id'' \<and> is_file t [keeplin, name] then None
     else if name \<noteq> ''offsets'' \<or> fmlookup t [keeplin, name] \<noteq> Some Dir then Some [keeplin, name]
     else case names e t [keeplin, name] of [] \<Rightarrow> None | x # _ \<Rightarrow> Some [keeplin, name, x])"

definition unexpected_at_root :: "'e open_env_scheme \<Rightarrow> tree \<Rightarrow> string \<Rightarrow> path option" where
  "unexpected_at_root e t name =
    (if fmlookup t [name] \<noteq> Some Dir \<or> name \<notin> set ALLOWED_ROOT then Some [name]
     else if name = keeplin then first_some (unexpected_metadata e t) (names e t [keeplin])
     else case names e t [name] of [] \<Rightarrow> None | x # _ \<Rightarrow> Some [name, x])"

definition unexpected_fresh_store_entry :: "'e open_env_scheme \<Rightarrow> tree \<Rightarrow> path option res" where
  "unexpected_fresh_store_entry e t = (case fmlookup t [] of
     None \<Rightarrow> Inr None
   | Some (File _) \<Rightarrow> Inl Io
   | Some Dir \<Rightarrow> Inr (first_some (unexpected_at_root e t) (names e t [])))"

definition read_to_string :: "tree \<Rightarrow> path \<Rightarrow> string res" where
  "read_to_string t p = (case fmlookup t p of Some (File x) \<Rightarrow> Inr x | _ \<Rightarrow> Inl Io)"

definition ensure_format_version :: "'e open_env_scheme \<Rightarrow> bool \<Rightarrow> tree \<Rightarrow> unit res" where
  "ensure_format_version e fresh t =
    (if fresh then Inr ()
     else if fmlookup t stamp_path = None then Inl InvalidState
     else try_then (read_to_string t stamp_path) (\<lambda>stamp.
       case parse_unsigned (2 ^ 32) (oe_trim e stamp) of
         None \<Rightarrow> Inl InvalidState
       | Some current \<Rightarrow>
           if FORMAT_VERSION < current then Inl InvalidState
           else if current < FORMAT_VERSION then Inl InvalidState
           else Inr ()))"

section \<open>Directories, temporary files, conflict copies\<close>

definition ensure_dir :: "path \<Rightarrow> tree \<Rightarrow> (unit, tree) op" where
  "ensure_dir p t = (case fmlookup t p of
     None \<Rightarrow> (Inr (), fmupd p Dir t) | Some Dir \<Rightarrow> (Inr (), t) | Some (File _) \<Rightarrow> (Inl Io, t))"

fun ensure_dirs :: "path list \<Rightarrow> tree \<Rightarrow> (unit, tree) op" where
  "ensure_dirs [] t = (Inr (), t)"
| "ensure_dirs (p # ps) t = and_then (ensure_dir p t) (\<lambda>_. ensure_dirs ps)"

definition STORE_DIRS :: "path list" where
  "STORE_DIRS = [[''notes''], [keeplin], [keeplin, ''offsets''], [''logs''], [''notebooks''], [''tags''], [''note_tags'']]"

text \<open>\<open>create_dir_all\<close> makes every missing directory on the way.\<close>

definition create_store_dirs :: "tree \<Rightarrow> (unit, tree) op" where
  "create_store_dirs = ensure_dirs (concat (map prefixes STORE_DIRS))"

definition is_orphan :: "string \<Rightarrow> bool" where
  "is_orphan name = (ends_with ''.tmp'' name \<and> \<not> starts_with ''.syncthing.'' name)"

definition sweep_tmp_in_dir :: "'e open_env_scheme \<Rightarrow> path \<Rightarrow> nat \<times> tree \<Rightarrow> nat \<times> tree" where
  "sweep_tmp_in_dir e p st = fold (\<lambda>name (removed, t).
     if is_orphan name \<and> is_file t (p @ [name]) then (removed + 1, fmdrop (p @ [name]) t) else (removed, t))
     (names e (snd st) p) st"

definition subdirs :: "'e open_env_scheme \<Rightarrow> tree \<Rightarrow> path \<Rightarrow> path list" where
  "subdirs e t p = filter (\<lambda>q. fmlookup t q = Some Dir) (map (\<lambda>name. p @ [name]) (names e t p))"

definition note_dirs :: "'e open_env_scheme \<Rightarrow> tree \<Rightarrow> path list" where
  "note_dirs e t = concat (map (\<lambda>q. [q, q @ [''resources'']]) (subdirs e t [''notes'']))"

definition sweep_orphan_tmp_files :: "'e open_env_scheme \<Rightarrow> tree \<Rightarrow> nat \<times> tree" where
  "sweep_orphan_tmp_files e t =
    (let st = fold (sweep_tmp_in_dir e) [[''notebooks''], [''tags''], [''logs''], [keeplin], [keeplin, ''offsets'']] (0, t);
         st = fold (sweep_tmp_in_dir e) (note_dirs e (snd st)) st
     in fold (sweep_tmp_in_dir e) (subdirs e (snd st) [''note_tags'']) st)"

definition scan_sync_conflicts :: "'e open_env_scheme \<Rightarrow> tree \<Rightarrow> path list" where
  "scan_sync_conflicts e t =
    (let dirs = [[], [''notebooks''], [''tags''], [''logs''], [keeplin], [keeplin, ''offsets'']] @
           note_dirs e t @ subdirs e t [''note_tags'']
     in concat (map (\<lambda>p. map (\<lambda>name. p @ [name])
          (filter (\<lambda>name. contains_text ''.sync-conflict-'' name \<and> is_file t (p @ [name])) (names e t p))) dirs))"

section \<open>Opening\<close>

definition read_or_create_device_id :: "'e open_env_scheme \<Rightarrow> string \<Rightarrow> tree \<Rightarrow> (string, tree) op" where
  "read_or_create_device_id e fresh_id t =
    (if fmlookup t device_path \<noteq> None
     then (case read_to_string t device_path of Inl err \<Rightarrow> (Inl err, t) | Inr x \<Rightarrow> (Inr (oe_trim e x), t))
     else (Inr fresh_id, fmupd device_path (File fresh_id) t))"

record open_result =
  op_device_id :: string
  op_removed :: nat
  op_conflicts :: "path list"

definition open_store :: "'e open_env_scheme \<Rightarrow> string \<Rightarrow> tree \<Rightarrow> (open_result, tree) op" where
  "open_store e fresh_id t =
    (let has_format_version = (fmlookup t stamp_path \<noteq> None) in
     case (if has_format_version then Inr None else unexpected_fresh_store_entry e t) of
       Inl err \<Rightarrow> (Inl err, t)
     | Inr (Some _) \<Rightarrow> (Inl InvalidState, t)
     | Inr None \<Rightarrow>
         let fresh = (\<not> has_format_version) in
         case ensure_format_version e fresh t of
           Inl err \<Rightarrow> (Inl err, t)
         | Inr _ \<Rightarrow>
             and_then (create_store_dirs t) (\<lambda>_ t.
               let (removed, t) = sweep_orphan_tmp_files e t;
                   conflicts = scan_sync_conflicts e t
               in and_then (read_or_create_device_id e fresh_id t) (\<lambda>device_id t.
                    (Inr \<lparr>op_device_id = device_id, op_removed = removed, op_conflicts = conflicts\<rparr>,
                     if fresh then fmupd stamp_path (File (show_nat FORMAT_VERSION)) t else t))))"

section \<open>What the sweep removes\<close>

definition ls_ok :: "'e open_env_scheme \<Rightarrow> bool" where
  "ls_ok e \<longleftrightarrow> (\<forall>X. set (oe_ls e X) = fset X \<and> distinct (oe_ls e X))"

lemma names_iff:
  assumes "ls_ok e"
  shows "x \<in> set (names e t p) \<longleftrightarrow> fmlookup t p = Some Dir \<and> fmlookup t (p @ [x]) \<noteq> None"
proof -
  have "(\<exists>q. fmlookup t q \<noteq> None \<and> q \<noteq> [] \<and> butlast q = p \<and> x = last q) \<longleftrightarrow> fmlookup t (p @ [x]) \<noteq> None"
    by (metis append_butlast_last_id butlast_snoc last_snoc snoc_eq_iff_butlast)
  then show ?thesis using assms by (auto simp: names_def ls_ok_def fmlookup_dom_iff)
qed

lemma names_distinct: "ls_ok e \<Longrightarrow> distinct (names e t p)"
  by (simp add: names_def ls_ok_def)

definition orphan_in :: "path set \<Rightarrow> tree \<Rightarrow> path \<Rightarrow> bool" where
  "orphan_in P t q \<longleftrightarrow> q \<noteq> [] \<and> butlast q \<in> P \<and> fmlookup t (butlast q) = Some Dir \<and> is_orphan (last q) \<and> is_file t q"

lemma is_file_iff: "is_file t p \<longleftrightarrow> (\<exists>x. fmlookup t p = Some (File x))"
  by (auto simp: is_file_def split: option.splits node.splits)

lemma sweep_names:
  assumes "distinct xs"
  shows "\<exists>n. fold (\<lambda>name (removed, t). if is_orphan name \<and> is_file t (p @ [name]) then (removed + 1, fmdrop (p @ [name]) t)
      else (removed, t)) xs (k, t) = (n, fmfilter (\<lambda>q. \<not> (\<exists>x\<in>set xs. q = p @ [x] \<and> is_orphan x \<and> is_file t q)) t) \<and>
      ((\<forall>x\<in>set xs. \<not> (is_orphan x \<and> is_file t (p @ [x]))) \<longrightarrow> n = k)"
  using assms
proof (induction xs arbitrary: k t)
  case Nil
  then show ?case by simp
next
  case (Cons x xs)
  show ?case
  proof (cases "is_orphan x \<and> is_file t (p @ [x])")
    case True
    let ?t = "fmdrop (p @ [x]) t"
    obtain n where n: "fold (\<lambda>name (removed, t). if is_orphan name \<and> is_file t (p @ [name]) then (removed + 1, fmdrop (p @ [name]) t)
        else (removed, t)) xs (k + 1, ?t) = (n, fmfilter (\<lambda>q. \<not> (\<exists>x\<in>set xs. q = p @ [x] \<and> is_orphan x \<and> is_file ?t q)) ?t)"
      using Cons.IH [of "k + 1" ?t] Cons.prems by auto
    have "fmfilter (\<lambda>q. \<not> (\<exists>x\<in>set xs. q = p @ [x] \<and> is_orphan x \<and> is_file ?t q)) ?t =
        fmfilter (\<lambda>q. \<not> (\<exists>y\<in>set (x # xs). q = p @ [y] \<and> is_orphan y \<and> is_file t q)) t"
      using True Cons.prems by (intro fmap_ext) (auto simp: is_file_def)
    with True n show ?thesis by auto
  next
    case False
    obtain n where n: "fold (\<lambda>name (removed, t). if is_orphan name \<and> is_file t (p @ [name]) then (removed + 1, fmdrop (p @ [name]) t)
        else (removed, t)) xs (k, t) = (n, fmfilter (\<lambda>q. \<not> (\<exists>x\<in>set xs. q = p @ [x] \<and> is_orphan x \<and> is_file t q)) t)"
      and k: "(\<forall>x\<in>set xs. \<not> (is_orphan x \<and> is_file t (p @ [x]))) \<longrightarrow> n = k"
      using Cons.IH [of k t] Cons.prems by auto
    have "fmfilter (\<lambda>q. \<not> (\<exists>x\<in>set xs. q = p @ [x] \<and> is_orphan x \<and> is_file t q)) t =
        fmfilter (\<lambda>q. \<not> (\<exists>y\<in>set (x # xs). q = p @ [y] \<and> is_orphan y \<and> is_file t q)) t"
      using False by (intro fmap_ext) auto
    with False n k show ?thesis by auto
  qed
qed

lemma sweep_dir:
  assumes "ls_ok e"
  shows "\<exists>n. sweep_tmp_in_dir e p (k, t) = (n, fmfilter (\<lambda>q. \<not> orphan_in {p} t q) t) \<and> ((\<forall>q. \<not> orphan_in {p} t q) \<longrightarrow> n = k)"
proof -
  have same: "(\<exists>x\<in>set (names e t p). q = p @ [x] \<and> is_orphan x \<and> is_file t q) \<longleftrightarrow> orphan_in {p} t q" for q
  proof
    assume "\<exists>x\<in>set (names e t p). q = p @ [x] \<and> is_orphan x \<and> is_file t q"
    then show "orphan_in {p} t q" by (auto simp: orphan_in_def names_iff [OF assms])
  next
    assume o: "orphan_in {p} t q"
    then have "q = p @ [last q]" by (auto simp: orphan_in_def)
    moreover have "last q \<in> set (names e t p)"
      using o calculation unfolding names_iff [OF assms] by (auto simp: orphan_in_def is_file_iff)
    ultimately show "\<exists>x\<in>set (names e t p). q = p @ [x] \<and> is_orphan x \<and> is_file t q"
      using o by (auto simp: orphan_in_def)
  qed
  obtain n where n: "sweep_tmp_in_dir e p (k, t) = (n, fmfilter (\<lambda>q. \<not> orphan_in {p} t q) t)"
    "(\<forall>x\<in>set (names e t p). \<not> (is_orphan x \<and> is_file t (p @ [x]))) \<longrightarrow> n = k"
    using sweep_names [where xs = "names e t p" and p = p and t = t and k = k, OF names_distinct [OF assms]] unfolding same sweep_tmp_in_dir_def by auto
  then show ?thesis using same by metis
qed

lemma orphan_in_filter:
  "orphan_in P (fmfilter (\<lambda>q. \<not> orphan_in Q t q) t) q \<longleftrightarrow> orphan_in P t q \<and> \<not> orphan_in Q t q"
  by (auto simp: orphan_in_def is_file_def split: option.splits if_splits)

lemma sweep_dirs:
  assumes "ls_ok e"
  shows "\<exists>n. fold (sweep_tmp_in_dir e) ps (k, t) = (n, fmfilter (\<lambda>q. \<not> orphan_in (set ps) t q) t) \<and>
    ((\<forall>q. \<not> orphan_in (set ps) t q) \<longrightarrow> n = k)"
proof (induction ps arbitrary: k t)
  case Nil
  then show ?case by (simp add: orphan_in_def)
next
  case (Cons p ps)
  obtain n where n: "sweep_tmp_in_dir e p (k, t) = (n, fmfilter (\<lambda>q. \<not> orphan_in {p} t q) t)"
    "(\<forall>q. \<not> orphan_in {p} t q) \<longrightarrow> n = k" using sweep_dir [OF assms] by blast
  let ?t = "fmfilter (\<lambda>q. \<not> orphan_in {p} t q) t"
  obtain m where m: "fold (sweep_tmp_in_dir e) ps (n, ?t) = (m, fmfilter (\<lambda>q. \<not> orphan_in (set ps) ?t q) ?t)"
    "(\<forall>q. \<not> orphan_in (set ps) ?t q) \<longrightarrow> m = n" using Cons.IH by blast
  have iff: "orphan_in (insert p (set ps)) t q \<longleftrightarrow> orphan_in {p} t q \<or> orphan_in (set ps) t q" for q
    by (auto simp: orphan_in_def)
  have "fmfilter (\<lambda>q. \<not> orphan_in (set ps) ?t q) ?t = fmfilter (\<lambda>q. \<not> orphan_in (set (p # ps)) t q) t"
    by (intro fmap_ext) (auto simp: orphan_in_filter iff)
  with n m show ?case by (auto simp: orphan_in_filter iff)
qed

text \<open>The directories that are swept, and the sweep as a whole.\<close>

definition swept_dirs :: "tree \<Rightarrow> path set" where
  "swept_dirs t = {[''notebooks''], [''tags''], [''logs''], [keeplin], [keeplin, ''offsets'']} \<union>
     {q. \<exists>n. (q = [''notes'', n] \<or> q = [''notes'', n, ''resources'']) \<and> fmlookup t [''notes''] = Some Dir \<and> fmlookup t [''notes'', n] = Some Dir} \<union>
     {q. \<exists>n. q = [''note_tags'', n] \<and> fmlookup t [''note_tags''] = Some Dir \<and> fmlookup t [''note_tags'', n] = Some Dir}"

lemma subdirs_iff: "ls_ok e \<Longrightarrow> set (subdirs e t [d]) = {q. \<exists>n. q = [d, n] \<and> fmlookup t [d] = Some Dir \<and> fmlookup t [d, n] = Some Dir}"
  by (auto simp: subdirs_def names_iff)

lemma note_dirs_iff: "ls_ok e \<Longrightarrow> set (note_dirs e t) =
    {q. \<exists>n. (q = [''notes'', n] \<or> q = [''notes'', n, ''resources'']) \<and> fmlookup t [''notes''] = Some Dir \<and> fmlookup t [''notes'', n] = Some Dir}"
  by (auto simp: note_dirs_def subdirs_iff)

lemma dir_after_sweep: "fmlookup (fmfilter (\<lambda>q. \<not> orphan_in P t q) t) p = Some Dir \<longleftrightarrow> fmlookup t p = Some Dir"
  by (auto simp: orphan_in_def is_file_def)

lemma orphan_in_sweep:
  "orphan_in P (fmfilter (\<lambda>q. \<not> orphan_in Q t q) t) q \<longleftrightarrow> orphan_in P t q \<and> \<not> orphan_in Q t q"
  by (rule orphan_in_filter)

lemma filter_sweep:
  "fmfilter (\<lambda>q. \<not> orphan_in P (fmfilter (\<lambda>q. \<not> orphan_in Q t q) t) q) (fmfilter (\<lambda>q. \<not> orphan_in Q t q) t) =
    fmfilter (\<lambda>q. \<not> orphan_in (Q \<union> P) t q) t"
proof -
  have "orphan_in (Q \<union> P) t q \<longleftrightarrow> orphan_in Q t q \<or> orphan_in P t q" for q by (auto simp: orphan_in_def)
  then show ?thesis by (intro fmap_ext) (auto simp: orphan_in_filter)
qed

lemma sweep_all:
  assumes ok: "ls_ok e"
  shows "\<exists>n. sweep_orphan_tmp_files e t = (n, fmfilter (\<lambda>q. \<not> orphan_in (swept_dirs t) t q) t) \<and>
    ((\<forall>q. \<not> orphan_in (swept_dirs t) t q) \<longrightarrow> n = 0)"
proof -
  let ?A = "[[''notebooks''], [''tags''], [''logs''], [keeplin], [keeplin, ''offsets'']]"
  obtain a where a: "fold (sweep_tmp_in_dir e) ?A (0, t) = (a, fmfilter (\<lambda>q. \<not> orphan_in (set ?A) t q) t)"
    "(\<forall>q. \<not> orphan_in (set ?A) t q) \<longrightarrow> a = 0" using sweep_dirs [OF ok] by blast
  define t1 where "t1 = fmfilter (\<lambda>q. \<not> orphan_in (set ?A) t q) t"
  obtain b where b: "fold (sweep_tmp_in_dir e) (note_dirs e t1) (a, t1) = (b, fmfilter (\<lambda>q. \<not> orphan_in (set (note_dirs e t1)) t1 q) t1)"
    "(\<forall>q. \<not> orphan_in (set (note_dirs e t1)) t1 q) \<longrightarrow> b = a" using sweep_dirs [OF ok] by blast
  have N: "set (note_dirs e t1) = set (note_dirs e t)" unfolding note_dirs_iff [OF ok] t1_def dir_after_sweep ..
  define t2 where "t2 = fmfilter (\<lambda>q. \<not> orphan_in (set (note_dirs e t)) t1 q) t1"
  have t2: "t2 = fmfilter (\<lambda>q. \<not> orphan_in (set ?A \<union> set (note_dirs e t)) t q) t" unfolding t2_def t1_def by (rule filter_sweep)
  obtain c where c: "fold (sweep_tmp_in_dir e) (subdirs e t2 [''note_tags'']) (b, t2) =
      (c, fmfilter (\<lambda>q. \<not> orphan_in (set (subdirs e t2 [''note_tags''])) t2 q) t2)"
    "(\<forall>q. \<not> orphan_in (set (subdirs e t2 [''note_tags''])) t2 q) \<longrightarrow> c = b" using sweep_dirs [OF ok] by blast
  have T: "set (subdirs e t2 [''note_tags'']) = set (subdirs e t [''note_tags''])"
    unfolding subdirs_iff [OF ok] t2 dir_after_sweep ..
  have P: "set ?A \<union> set (note_dirs e t) \<union> set (subdirs e t [''note_tags'']) = swept_dirs t"
    unfolding swept_dirs_def note_dirs_iff [OF ok] subdirs_iff [OF ok] by simp
  have result: "fmfilter (\<lambda>q. \<not> orphan_in (set (subdirs e t [''note_tags''])) t2 q) t2 = fmfilter (\<lambda>q. \<not> orphan_in (swept_dirs t) t q) t"
    unfolding t2 filter_sweep P ..
  have "sweep_orphan_tmp_files e t = (c, fmfilter (\<lambda>q. \<not> orphan_in (swept_dirs t) t q) t)"
    unfolding sweep_orphan_tmp_files_def Let_def a(1) [folded t1_def] snd_conv b(1) [unfolded N, folded t2_def] c(1)
    unfolding T result ..
  moreover have "c = 0" if none: "\<forall>q. \<not> orphan_in (swept_dirs t) t q"
  proof -
    have sub: "\<not> orphan_in Q t q" if "Q \<subseteq> swept_dirs t" for Q q using none that by (auto simp: orphan_in_def)
    have "\<not> orphan_in (set ?A) t q" "\<not> orphan_in (set (note_dirs e t)) t q" "\<not> orphan_in (set (subdirs e t [''note_tags''])) t q" for q
      by (rule sub, use P in blast)+
    then show ?thesis using a(2) b(2) c(2) unfolding N T by (simp add: t1_def t2 orphan_in_sweep)
  qed
  ultimately show ?thesis by blast
qed

section \<open>Opening keeps what is there\<close>

definition SKELETON :: "path set" where
  "SKELETON = {[], [''notes''], [keeplin], [keeplin, ''offsets''], [''logs''], [''notebooks''], [''tags''], [''note_tags'']}"

lemma skeleton_prefixes: "set (concat (map prefixes STORE_DIRS)) = SKELETON"
  by (auto simp: STORE_DIRS_def SKELETON_def)

definition grown :: "path set \<Rightarrow> tree \<Rightarrow> tree \<Rightarrow> bool" where
  "grown P t t' \<longleftrightarrow> (\<forall>p. fmlookup t' p = fmlookup t p \<or> fmlookup t p = None \<and> p \<in> P \<and> fmlookup t' p = Some Dir)"

lemma grown_refl [simp]: "grown P t t"
  by (simp add: grown_def)

lemma grown_trans: "grown P t u \<Longrightarrow> grown Q u w \<Longrightarrow> grown (P \<union> Q) t w"
  unfolding grown_def by (metis UnCI)

lemma grown_keeps: "grown P t t' \<Longrightarrow> fmlookup t p = Some v \<Longrightarrow> fmlookup t' p = Some v"
  unfolding grown_def by (metis option.distinct(1))

lemma ensure_dir_result:
  assumes "ensure_dir p t = (r, t')"
  shows "grown {p} t t'" and "r = Inr () \<and> fmlookup t' p = Some Dir \<or> r = Inl Io \<and> is_file t p"
  using assms by (auto simp: ensure_dir_def grown_def is_file_def split: option.splits node.splits if_splits)

lemma ensure_dirs_result:
  assumes "ensure_dirs ps t = (r, t')"
  shows "grown (set ps) t t' \<and> (r = Inr () \<and> (\<forall>p\<in>set ps. fmlookup t' p = Some Dir) \<or> r = Inl Io \<and> (\<exists>p\<in>set ps. is_file t p))"
  using assms
proof (induction ps arbitrary: t)
  case (Cons p ps)
  obtain r1 u where u: "ensure_dir p t = (r1, u)" by fastforce
  note p = ensure_dir_result [OF u]
  show ?case
  proof (cases r1)
    case (Inl err)
    with Cons.prems u p show ?thesis by (auto simp: grown_def)
  next
    case (Inr x)
    then have rest: "ensure_dirs ps u = (r, t')" using Cons.prems u by simp
    note ih = Cons.IH [OF rest]
    have "grown (set (p # ps)) t t'" using grown_trans [OF p(1)] ih by simp
    moreover have "fmlookup t' p = Some Dir" using p(2) Inr ih grown_keeps by blast
    moreover have "is_file t q" if "is_file u q" for q
      using that p(1) unfolding is_file_iff grown_def by (metis node.distinct(1) option.inject)
    ultimately show ?thesis using ih by auto
  qed
qed simp

lemma ensure_dirs_there: "\<forall>p\<in>set ps. fmlookup t p = Some Dir \<Longrightarrow> ensure_dirs ps t = (Inr (), t)"
  by (induction ps) (simp_all add: ensure_dir_def)

lemma not_orphan [simp]: "\<not> is_orphan ''device_id''" "\<not> is_orphan ''format_version''"
  by (simp_all add: is_orphan_def ends_with_def starts_with_def)

lemma special_paths: "device_path \<notin> SKELETON" "stamp_path \<notin> SKELETON" "device_path \<noteq> stamp_path"
  by (auto simp: device_path_def stamp_path_def SKELETON_def)

text \<open>The trees of a successful opening: with the directories, swept, with the identity, stamped.\<close>

lemma open_store_steps:
  assumes ok: "ls_ok e" and opened: "open_store e f t = (Inr o', t')"
  obtains t1 t2 t3 where "grown SKELETON t t1" "\<forall>p\<in>SKELETON. fmlookup t1 p = Some Dir"
    "t2 = fmfilter (\<lambda>q. \<not> orphan_in (swept_dirs t1) t1 q) t1"
    "(\<exists>x. fmlookup t2 device_path = Some (File x) \<and> op_device_id o' = oe_trim e x) \<and> t3 = t2 \<or>
      fmlookup t2 device_path = None \<and> op_device_id o' = f \<and> t3 = fmupd device_path (File f) t2"
    "(\<exists>x. fmlookup t stamp_path = Some (File x) \<and> parse_unsigned (2 ^ 32) (oe_trim e x) = Some FORMAT_VERSION) \<and> t' = t3 \<or>
      fmlookup t stamp_path = None \<and> t' = fmupd stamp_path (File (show_nat FORMAT_VERSION)) t3"
proof -
  obtain r1 t1 where t1: "create_store_dirs t = (r1, t1)" by fastforce
  obtain n where sweep: "sweep_orphan_tmp_files e t1 = (n, fmfilter (\<lambda>q. \<not> orphan_in (swept_dirs t1) t1 q) t1)"
    using sweep_all [OF ok] by blast
  let ?t2 = "fmfilter (\<lambda>q. \<not> orphan_in (swept_dirs t1) t1 q) t1"
  obtain r3 t3 where t3: "read_or_create_device_id e f ?t2 = (r3, t3)" by fastforce
  have dirs: "grown SKELETON t t1" "r1 = Inr () \<Longrightarrow> \<forall>p\<in>SKELETON. fmlookup t1 p = Some Dir"
    using ensure_dirs_result [OF t1 [unfolded create_store_dirs_def]] unfolding skeleton_prefixes by auto
  have success: "r1 = Inr ()" "\<exists>d. r3 = Inr d"
    "fmlookup t stamp_path \<noteq> None \<Longrightarrow> ensure_format_version e False t = Inr ()"
    "\<And>d. r3 = Inr d \<Longrightarrow> op_device_id o' = d"
    "t' = (if fmlookup t stamp_path = None then fmupd stamp_path (File (show_nat FORMAT_VERSION)) t3 else t3)"
    using opened t1 sweep t3
    by (cases r1; cases r3; cases "fmlookup t stamp_path";
        auto simp: open_store_def Let_def ensure_format_version_def split: option.splits sum.splits if_splits)+
  have stamp: "\<exists>x. fmlookup t stamp_path = Some (File x) \<and> parse_unsigned (2 ^ 32) (oe_trim e x) = Some FORMAT_VERSION"
    if "fmlookup t stamp_path \<noteq> None"
    using success(3) [OF that] that unfolding ensure_format_version_def read_to_string_def
    by (auto split: option.splits node.splits if_splits)
  have device: "(\<exists>x. fmlookup ?t2 device_path = Some (File x) \<and> op_device_id o' = oe_trim e x) \<and> t3 = ?t2 \<or>
      fmlookup ?t2 device_path = None \<and> op_device_id o' = f \<and> t3 = fmupd device_path (File f) ?t2"
    using success(2,4) t3 unfolding read_or_create_device_id_def read_to_string_def
    by (auto split: option.splits node.splits if_splits)
  show ?thesis
    by (rule that [OF dirs(1) dirs(2) [OF success(1)] refl device]) (use stamp success(5) in auto)
qed

text \<open>A temporary file that an interrupted write leaves, by its path.\<close>

definition orphan_path :: "path \<Rightarrow> bool" where
  "orphan_path p \<longleftrightarrow> p \<noteq> [] \<and> (\<exists>x. last p = x @ ''.tmp'') \<and> (\<nexists>x. last p = ''.syncthing.'' @ x) \<and>
     (butlast p \<in> {[''notebooks''], [''tags''], [''logs''], [keeplin], [keeplin, ''offsets'']} \<or>
      (\<exists>n. butlast p \<in> {[''notes'', n], [''notes'', n, ''resources''], [''note_tags'', n]}))"

text \<open>What opening may do to an entry.\<close>

definition created_entry :: "string \<Rightarrow> path \<Rightarrow> node option \<Rightarrow> bool" where
  "created_entry f p v \<longleftrightarrow> p \<in> SKELETON \<and> v = Some Dir \<or> p = device_path \<and> v = Some (File f) \<or>
     p = stamp_path \<and> v = Some (File (show_nat FORMAT_VERSION))"

definition gently :: "string \<Rightarrow> tree \<Rightarrow> tree \<Rightarrow> bool" where
  "gently f t t' \<longleftrightarrow> (\<forall>p. fmlookup t' p = fmlookup t p \<or> fmlookup t' p = None \<and> orphan_path p \<and> is_file t p \<or>
     fmlookup t p = None \<and> created_entry f p (fmlookup t' p))"

lemma starts_with_iff: "starts_with p s \<longleftrightarrow> (\<exists>x. s = p @ x)"
  unfolding starts_with_def using strip_prefix_iff by (metis not_None_eq)

lemma is_orphan_iff: "is_orphan name \<longleftrightarrow> (\<exists>x. name = x @ ''.tmp'') \<and> (\<nexists>x. name = ''.syncthing.'' @ x)"
proof -
  have "ends_with p s \<longleftrightarrow> (\<exists>x. s = x @ p)" for p s
    unfolding ends_with_def starts_with_iff by (metis rev_append rev_rev_ident)
  then show ?thesis by (simp add: is_orphan_def starts_with_iff)
qed

lemma gently_grown: "grown SKELETON t t' \<Longrightarrow> gently f t t'"
  unfolding grown_def gently_def created_entry_def by metis

lemma orphan_in_path: "orphan_in (swept_dirs t) t p \<Longrightarrow> orphan_path p"
  by (auto simp: orphan_in_def orphan_path_def swept_dirs_def is_orphan_iff)

lemma gently_sweep:
  assumes "grown SKELETON t t1"
  shows "gently f t (fmfilter (\<lambda>q. \<not> orphan_in (swept_dirs t1) t1 q) t1)"
proof -
  have "is_file t p" if "orphan_in (swept_dirs t1) t1 p" for p
    using that assms unfolding orphan_in_def is_file_iff grown_def by (metis node.distinct(1) option.inject)
  then show ?thesis
    using gently_grown [OF assms] orphan_in_path [of t1] unfolding gently_def by simp
qed

lemma gently_new:
  assumes "gently f t u" "fmlookup u p = None" "\<not> is_orphan (last p)" "created_entry f p (Some v)"
  shows "gently f t (fmupd p v u)"
  unfolding gently_def
proof
  fix q
  have "fmlookup t p = None" using assms(1-3) unfolding gently_def orphan_path_def is_orphan_iff by metis
  then show "fmlookup (fmupd p v u) q = fmlookup t q \<or> fmlookup (fmupd p v u) q = None \<and> orphan_path q \<and> is_file t q \<or>
      fmlookup t q = None \<and> created_entry f q (fmlookup (fmupd p v u) q)"
    using assms(1,4) unfolding gently_def by (cases "q = p") auto
qed

lemma open_store_gently:
  assumes ok: "ls_ok e" and opened: "open_store e f t = (r, t')"
  shows "gently f t t' \<and> (r = Inl InvalidState \<longrightarrow> t' = t)"
proof (cases r)
  case (Inr o')
  obtain t1 t2 t3 where t: "grown SKELETON t t1" "t2 = fmfilter (\<lambda>q. \<not> orphan_in (swept_dirs t1) t1 q) t1"
    "(\<exists>x. fmlookup t2 device_path = Some (File x) \<and> op_device_id o' = oe_trim e x) \<and> t3 = t2 \<or>
      fmlookup t2 device_path = None \<and> op_device_id o' = f \<and> t3 = fmupd device_path (File f) t2"
    "(\<exists>x. fmlookup t stamp_path = Some (File x) \<and> parse_unsigned (2 ^ 32) (oe_trim e x) = Some FORMAT_VERSION) \<and> t' = t3 \<or>
      fmlookup t stamp_path = None \<and> t' = fmupd stamp_path (File (show_nat FORMAT_VERSION)) t3"
    using open_store_steps [OF ok opened [unfolded Inr]] by metis
  have t2: "gently f t t2" unfolding t(2) by (rule gently_sweep [OF t(1)])
  have "created_entry f device_path (Some (File f))" "\<not> is_orphan (last device_path)" by (simp_all add: created_entry_def device_path_def)
  then have t3: "gently f t t3" using t(3) gently_new [OF t2, of device_path] t2 by metis
  have "fmlookup t3 stamp_path = None" if "fmlookup t stamp_path = None"
    using t(1) that t(3) special_paths unfolding t(2) grown_def by (auto split: if_splits) (metis option.distinct(1))+
  moreover have "created_entry f stamp_path (Some (File (show_nat FORMAT_VERSION)))" "\<not> is_orphan (last stamp_path)"
    by (simp_all add: created_entry_def stamp_path_def)
  ultimately have "gently f t t'" using t(4) t3 gently_new [OF t3, of stamp_path] by metis
  then show ?thesis using Inr by simp
next
  case (Inl err)
  obtain r1 t1 where t1: "create_store_dirs t = (r1, t1)" by fastforce
  obtain n where sweep: "sweep_orphan_tmp_files e t1 = (n, fmfilter (\<lambda>q. \<not> orphan_in (swept_dirs t1) t1 q) t1)"
    using sweep_all [OF ok] by blast
  have dirs: "grown SKELETON t t1" "r1 = Inr () \<or> r1 = Inl Io"
    using ensure_dirs_result [OF t1 [unfolded create_store_dirs_def]] unfolding skeleton_prefixes by auto
  let ?t2 = "fmfilter (\<lambda>q. \<not> orphan_in (swept_dirs t1) t1 q) t1"
  obtain r3 t3 where t3: "read_or_create_device_id e f ?t2 = (r3, t3)" by fastforce
  have dev: "r3 = Inl err' \<Longrightarrow> err' = Io \<and> t3 = ?t2" for err'
    using t3 by (auto simp: read_or_create_device_id_def read_to_string_def split: option.splits node.splits if_splits)
  have "t' = t \<or> t' = t1 \<and> err = Io \<or> t' = ?t2 \<and> err = Io"
    using opened Inl t1 sweep t3 dirs(2) dev
    by (cases r1; cases r3) (auto simp: open_store_def Let_def split: option.splits sum.splits if_splits)
  moreover have "gently f t t" by (simp add: gently_def)
  ultimately show ?thesis using Inl gently_grown [OF dirs(1)] gently_sweep [OF dirs(1)] by auto
qed

section \<open>Opening again\<close>

text \<open>\<open>trim\<close> leaves the identity the store was given and the stamp alone.\<close>

definition trim_ok :: "'e open_env_scheme \<Rightarrow> string \<Rightarrow> bool" where
  "trim_ok e f \<longleftrightarrow> oe_trim e f = f \<and> oe_trim e (show_nat FORMAT_VERSION) = show_nat FORMAT_VERSION"

lemma swept_dirs_cong: "(\<And>p. fmlookup t p = Some Dir \<longleftrightarrow> fmlookup t' p = Some Dir) \<Longrightarrow> swept_dirs t = swept_dirs t'"
  unfolding swept_dirs_def by simp

lemma no_orphans_after:
  assumes "\<And>p. fmlookup t' p = Some Dir \<longleftrightarrow> fmlookup t1 p = Some Dir"
    and "\<And>p. is_orphan (last p) \<Longrightarrow> fmlookup t' p = fmlookup (fmfilter (\<lambda>q. \<not> orphan_in (swept_dirs t1) t1 q) t1) p"
  shows "\<not> orphan_in (swept_dirs t') t' q"
proof
  assume o: "orphan_in (swept_dirs t') t' q"
  have "swept_dirs t' = swept_dirs t1" by (rule swept_dirs_cong) (rule assms(1))
  with o assms have "orphan_in (swept_dirs t1) t1 q" "fmlookup t' q \<noteq> None"
    by (auto simp: orphan_in_def is_file_def split: option.splits if_splits)
  then show False using assms(2) [of q] by (auto simp: orphan_in_def)
qed

lemma parse_stamp: "parse_unsigned (2 ^ 32) (show_nat FORMAT_VERSION) = Some FORMAT_VERSION"
  by (rule parse_show_unsigned) (simp add: FORMAT_VERSION_def)

lemma opened_state:
  assumes ok: "ls_ok e" and opened: "open_store e f t = (Inr o', t')" and trim: "trim_ok e f"
  shows "\<exists>x. fmlookup t' stamp_path = Some (File x) \<and> parse_unsigned (2 ^ 32) (oe_trim e x) = Some FORMAT_VERSION"
    and "\<forall>p\<in>SKELETON. fmlookup t' p = Some Dir"
    and "\<exists>x. fmlookup t' device_path = Some (File x) \<and> oe_trim e x = op_device_id o'"
    and "\<not> orphan_in (swept_dirs t') t' q"
proof -
  obtain t1 t2 t3 where t: "grown SKELETON t t1" "\<forall>p\<in>SKELETON. fmlookup t1 p = Some Dir"
    "t2 = fmfilter (\<lambda>q. \<not> orphan_in (swept_dirs t1) t1 q) t1"
    "(\<exists>x. fmlookup t2 device_path = Some (File x) \<and> op_device_id o' = oe_trim e x) \<and> t3 = t2 \<or>
      fmlookup t2 device_path = None \<and> op_device_id o' = f \<and> t3 = fmupd device_path (File f) t2"
    "(\<exists>x. fmlookup t stamp_path = Some (File x) \<and> parse_unsigned (2 ^ 32) (oe_trim e x) = Some FORMAT_VERSION) \<and> t' = t3 \<or>
      fmlookup t stamp_path = None \<and> t' = fmupd stamp_path (File (show_nat FORMAT_VERSION)) t3"
    using open_store_steps [OF ok opened] by metis
  have special: "\<not> orphan_in P u stamp_path" "\<not> orphan_in P u device_path" for P u
    by (simp_all add: orphan_in_def stamp_path_def device_path_def)
  have stamp1: "fmlookup t3 stamp_path = fmlookup t stamp_path"
    using t(1,4) special(1) special_paths unfolding t(3) grown_def by (auto split: if_splits)
  then show "\<exists>x. fmlookup t' stamp_path = Some (File x) \<and> parse_unsigned (2 ^ 32) (oe_trim e x) = Some FORMAT_VERSION"
    using t(5) trim parse_stamp by (auto simp: trim_ok_def)
  show "\<exists>x. fmlookup t' device_path = Some (File x) \<and> oe_trim e x = op_device_id o'"
    using t(4,5) trim special_paths(3) by (auto simp: trim_ok_def)
  have dir2: "fmlookup t2 p = Some Dir \<longleftrightarrow> fmlookup t1 p = Some Dir" for p unfolding t(3) by (rule dir_after_sweep)
  have dir3: "fmlookup t3 p = Some Dir \<longleftrightarrow> fmlookup t1 p = Some Dir" for p
    using t(4) by (elim disjE conjE) (auto simp: dir2 [symmetric])
  then have dir: "fmlookup t' p = Some Dir \<longleftrightarrow> fmlookup t1 p = Some Dir" for p
    using t(5) stamp1 by (elim disjE conjE) (auto simp: dir3 [symmetric])
  then show "\<forall>p\<in>SKELETON. fmlookup t' p = Some Dir" using t(2) by simp
  have "\<not> is_orphan (last device_path)" "\<not> is_orphan (last stamp_path)" by (simp_all add: device_path_def stamp_path_def)
  then have "fmlookup t' p = fmlookup t2 p" if "is_orphan (last p)" for p using that t(4,5) by (auto split: if_splits)
  then show "\<not> orphan_in (swept_dirs t') t' q" by (intro no_orphans_after [of t' t1] dir) (simp add: t(3))
qed

lemma reopen:
  assumes ok: "ls_ok e" and opened: "open_store e f t = (Inr o', t')" and trim: "trim_ok e f"
  shows "\<exists>again. open_store e g t' = (Inr again, t') \<and> op_device_id again = op_device_id o' \<and> op_removed again = 0"
proof -
  note st = opened_state [OF assms]
  obtain x where x: "fmlookup t' stamp_path = Some (File x)" "parse_unsigned (2 ^ 32) (oe_trim e x) = Some FORMAT_VERSION" using st(1) by blast
  obtain d where d: "fmlookup t' device_path = Some (File d)" "oe_trim e d = op_device_id o'" using st(3) by blast
  have "create_store_dirs t' = (Inr (), t')"
    unfolding create_store_dirs_def by (rule ensure_dirs_there) (use st(2) in \<open>simp only: skeleton_prefixes\<close>)
  moreover have all: "fmfilter (\<lambda>q. True) t' = t'" by (rule fmap_ext) simp
  moreover have "sweep_orphan_tmp_files e t' = (0, t')"
    using sweep_all [OF ok, of t'] by (simp add: st(4) all)
  ultimately show ?thesis using x d
    by (simp add: open_store_def Let_def ensure_format_version_def read_to_string_def read_or_create_device_id_def)
qed

section \<open>Which directories open\<close>

definition tree_wf :: "tree \<Rightarrow> bool" where
  "tree_wf t \<longleftrightarrow> (\<forall>p. p \<noteq> [] \<longrightarrow> fmlookup t p \<noteq> None \<longrightarrow> fmlookup t (butlast p) = Some Dir)"

text \<open>Nothing but the empty directories of a store and the identity.\<close>

definition skeletal :: "tree \<Rightarrow> bool" where
  "skeletal t \<longleftrightarrow> (\<forall>p v. fmlookup t p = Some v \<longrightarrow> p \<in> SKELETON \<and> v = Dir \<or> p = device_path \<and> v \<noteq> Dir)"

lemma tree_wf_prefix:
  assumes "tree_wf t" "fmlookup t (p @ q) \<noteq> None" "q \<noteq> []"
  shows "fmlookup t p = Some Dir"
  using assms(2,3)
proof (induction q rule: rev_induct)
  case (snoc x q)
  then have "fmlookup t (p @ q) = Some Dir" using assms(1) unfolding tree_wf_def
    by (metis append_assoc append_is_Nil_conv butlast_snoc not_Cons_self2)
  then show ?case using snoc.IH by (cases q) auto
qed simp

lemma first_some_None: "first_some f xs = None \<longleftrightarrow> (\<forall>x\<in>set xs. f x = None)"
  by (induction xs) (auto split: option.splits)

lemma names_Nil:
  assumes "ls_ok e"
  shows "names e t p = [] \<longleftrightarrow> (\<forall>x. fmlookup t p = Some Dir \<longrightarrow> fmlookup t (p @ [x]) = None)"
proof -
  have "names e t p = [] \<longleftrightarrow> (\<forall>x. x \<notin> set (names e t p))" by (cases "names e t p") auto
  then show ?thesis by (auto simp: names_iff [OF assms])
qed

lemma unexpected_list: "(case xs of [] \<Rightarrow> None | x # _ \<Rightarrow> Some (h x)) = None \<longleftrightarrow> xs = []"
  by (cases xs) simp_all

lemma skeletal_expected:
  assumes ok: "ls_ok e" and sk: "skeletal t"
  shows "unexpected_fresh_store_entry e t = Inr None"
proof (cases "fmlookup t [] = Some Dir")
  case True
  have none: "fmlookup t (p @ [x]) = None" if "p @ [x] \<notin> SKELETON" "p @ [x] \<noteq> device_path" for p x
    using sk that unfolding skeletal_def by (cases "fmlookup t (p @ [x])") auto
  have meta: "unexpected_metadata e t m = None" if m: "m \<in> set (names e t [keeplin])" for m
  proof -
    have "fmlookup t [keeplin, m] \<noteq> None" using m by (simp add: names_iff [OF ok])
    then consider "[keeplin, m] \<in> SKELETON" "fmlookup t [keeplin, m] = Some Dir" | "[keeplin, m] = device_path" "is_file t [keeplin, m]"
      using sk unfolding skeletal_def is_file_iff by (metis node.exhaust option.exhaust)
    then show ?thesis
    proof cases
      case 1
      then have m: "m = ''offsets''" by (auto simp: SKELETON_def keeplin_def)
      have "names e t [keeplin, m] = []"
        unfolding names_Nil [OF ok] using none [of "[keeplin, m]"] by (auto simp: SKELETON_def device_path_def m)
      with 1 m show ?thesis by (simp add: unexpected_metadata_def)
    next
      case 2
      then show ?thesis by (simp add: unexpected_metadata_def device_path_def)
    qed
  qed
  have "unexpected_at_root e t a = None" if a: "a \<in> set (names e t [])" for a
  proof -
    obtain v where v: "fmlookup t [a] = Some v" using a by (auto simp: names_iff [OF ok])
    then have "[a] \<in> SKELETON \<and> v = Dir \<or> [a] = device_path \<and> v \<noteq> Dir" using sk unfolding skeletal_def by blast
    then have d: "[a] \<in> SKELETON" "fmlookup t [a] = Some Dir" using v by (auto simp: device_path_def)
    then have "a \<in> set ALLOWED_ROOT" by (auto simp: SKELETON_def ALLOWED_ROOT_def)
    moreover have "names e t [a] = []" if "a \<noteq> keeplin"
      unfolding names_Nil [OF ok] using none [of "[a]"] that by (auto simp: SKELETON_def device_path_def)
    ultimately show ?thesis using d meta by (simp add: unexpected_at_root_def first_some_None)
  qed
  with True show ?thesis by (simp add: unexpected_fresh_store_entry_def first_some_None)
next
  case False
  then have "fmlookup t [] = None" using sk unfolding skeletal_def device_path_def by (metis list.distinct(1) not_None_eq)
  then show ?thesis by (simp add: unexpected_fresh_store_entry_def)
qed

lemma expected_skeletal:
  assumes ok: "ls_ok e" and wf: "tree_wf t" and none: "unexpected_fresh_store_entry e t = Inr None"
  shows "skeletal t"
  unfolding skeletal_def
proof (intro allI impI)
  fix p v assume v: "fmlookup t p = Some v"
  have up: "fmlookup t q = Some Dir" if "p = q @ r" "r \<noteq> []" for q r using tree_wf_prefix [OF wf] v that by fastforce
  have root: "unexpected_at_root e t a = None" if "p = a # r" for a r
  proof -
    have "fmlookup t [] = Some Dir" using up [of "[]" p] that by simp
    moreover have "fmlookup t [a] \<noteq> None" using v up [of "[a]" r] that by (cases r) auto
    ultimately show ?thesis using none by (auto simp: unexpected_fresh_store_entry_def first_some_None names_iff [OF ok])
  qed
  show "p \<in> SKELETON \<and> v = Dir \<or> p = device_path \<and> v \<noteq> Dir"
  proof (cases p)
    case Nil
    then show ?thesis using v none by (cases v) (auto simp: unexpected_fresh_store_entry_def SKELETON_def)
  next
    case (Cons a r)
    have a: "fmlookup t [a] = Some Dir" "a \<in> set ALLOWED_ROOT" using root [OF Cons] by (auto simp: unexpected_at_root_def split: if_splits)
    show ?thesis
    proof (cases r)
      case Nil
      then show ?thesis using v Cons a by (auto simp: ALLOWED_ROOT_def SKELETON_def)
    next
      case (Cons b c)
      then have b: "fmlookup t [a, b] \<noteq> None" using v up [of "[a, b]" c] \<open>p = a # r\<close> by (cases c) auto
      then have "names e t [a] \<noteq> []" unfolding names_Nil [OF ok] using a by auto
      then have a': "a = keeplin" and "unexpected_metadata e t b = None"
        using root [OF \<open>p = a # r\<close>] b a(1)
        by (auto simp: unexpected_at_root_def unexpected_list first_some_None names_iff [OF ok] split: if_splits)
      then consider "b = ''device_id''" "is_file t [keeplin, b]" | "b = ''offsets''" "fmlookup t [keeplin, b] = Some Dir" "names e t [keeplin, b] = []"
        by (auto simp: unexpected_metadata_def unexpected_list split: if_splits)
      then show ?thesis
      proof cases
        case 1
        have "c = []"
        proof (rule ccontr)
          assume "c \<noteq> []"
          then show False using 1 up [of "[a, b]" c] \<open>p = a # r\<close> \<open>r = b # c\<close> a' by (simp add: is_file_iff)
        qed
        with 1 v show ?thesis using \<open>p = a # r\<close> \<open>r = b # c\<close> a' by (auto simp: device_path_def is_file_iff)
      next
        case 2
        have "c = []"
        proof (cases c)
          case (Cons x d)
          then have "fmlookup t ([keeplin, b] @ [x]) \<noteq> None"
            using v up [of "[a, b, x]" d] \<open>p = a # r\<close> \<open>r = b # c\<close> a' by (cases d) auto
          with 2 have False unfolding names_Nil [OF ok] by simp
          then show ?thesis ..
        qed simp
        with 2 v show ?thesis using \<open>p = a # r\<close> \<open>r = b # c\<close> a' by (auto simp: SKELETON_def)
      qed
    qed
  qed
qed

lemma skeletal_opens:
  assumes ok: "ls_ok e" and none: "fmlookup t stamp_path = None" and sk: "skeletal t"
  shows "\<exists>o' t'. open_store e f t = (Inr o', t')"
proof -
  obtain r1 t1 where t1: "create_store_dirs t = (r1, t1)" by fastforce
  have no_file: "\<not> is_file t p" if "p \<in> SKELETON" for p
    using sk that special_paths unfolding skeletal_def is_file_iff by (metis node.distinct(1))
  have dirs: "grown SKELETON t t1" "r1 = Inr ()"
    using ensure_dirs_result [OF t1 [unfolded create_store_dirs_def]] no_file unfolding skeleton_prefixes by auto
  obtain n where sweep: "sweep_orphan_tmp_files e t1 = (n, fmfilter (\<lambda>q. \<not> orphan_in (swept_dirs t1) t1 q) t1)"
    using sweep_all [OF ok] by blast
  let ?t2 = "fmfilter (\<lambda>q. \<not> orphan_in (swept_dirs t1) t1 q) t1"
  have "fmlookup t device_path \<noteq> Some Dir" using sk special_paths unfolding skeletal_def by metis
  then have "fmlookup t1 device_path \<noteq> Some Dir" using dirs(1) special_paths unfolding grown_def by metis
  then have "\<exists>d t3. read_or_create_device_id e f ?t2 = (Inr d, t3)"
    by (cases "fmlookup t1 device_path") (auto simp: read_or_create_device_id_def read_to_string_def split: option.splits node.splits)
  then show ?thesis using t1 dirs(2) sweep none skeletal_expected [OF ok sk]
    by (auto simp: open_store_def Let_def ensure_format_version_def)
qed

lemma opens_skeletal:
  assumes ok: "ls_ok e" and wf: "tree_wf t" and none: "fmlookup t stamp_path = None"
    and opened: "open_store e f t = (Inr o', t')"
  shows "skeletal t"
proof (rule expected_skeletal [OF ok wf])
  show "unexpected_fresh_store_entry e t = Inr None"
    using opened none by (auto simp: open_store_def Let_def split: sum.splits option.splits)
qed

text \<open>What an opening that is interrupted before it stamps the store leaves is accepted again.\<close>

lemma skeletal_grown: "skeletal t \<Longrightarrow> grown SKELETON t t' \<Longrightarrow> skeletal t'"
  unfolding skeletal_def grown_def by (metis option.inject)

lemma skeletal_identity: "skeletal t \<Longrightarrow> skeletal (fmupd device_path (File f) t)"
  unfolding skeletal_def by auto

text \<open>
  C39. Opening a directory is gentle: every entry stays as it is, except for the temporary files that
  interrupted writes left in the store's own directories; what is added is the store's directories, the identity
  and the stamp; and a directory that is refused for its format or its contents is not touched.
\<close>

theorem opening_keeps_the_store:
  assumes "ls_ok e" and "open_store e f t = (r, t')"
  shows "(\<forall>p v. fmlookup t p = Some v \<longrightarrow> fmlookup t' p = Some v \<or> fmlookup t' p = None \<and> orphan_path p \<and> is_file t p) \<and>
    (\<forall>p. fmlookup t p = None \<longrightarrow> fmlookup t' p = None \<or> created_entry f p (fmlookup t' p)) \<and>
    (r = Inl InvalidState \<longrightarrow> t' = t)"
proof -
  have g: "gently f t t'" "r = Inl InvalidState \<longrightarrow> t' = t" using open_store_gently [OF assms] by auto
  have "fmlookup t' p = Some v \<or> fmlookup t' p = None \<and> orphan_path p \<and> is_file t p" if "fmlookup t p = Some v" for p v
    using g(1) that unfolding gently_def by (metis option.distinct(1))
  moreover have "fmlookup t' p = None \<or> created_entry f p (fmlookup t' p)" if "fmlookup t p = None" for p
    using g(1) that unfolding gently_def by metis
  ultimately show ?thesis using g(2) by blast
qed

text \<open>
  C40. A directory without a stamp opens exactly when it holds nothing but (some of) the empty directories of a
  store and an identity, so that an opening that was interrupted can be repeated and nothing else is taken for
  a store; and after any opening the next one succeeds with the same identity, removes nothing and changes nothing.
\<close>

theorem opening_is_repeatable:
  assumes "ls_ok e" and "tree_wf t" and "trim_ok e f"
  shows "(fmlookup t stamp_path = None \<longrightarrow> ((\<exists>o' t'. open_store e f t = (Inr o', t')) \<longleftrightarrow> skeletal t)) \<and>
    (\<forall>o' t'. open_store e f t = (Inr o', t') \<longrightarrow>
      (\<exists>again. open_store e g t' = (Inr again, t') \<and> op_device_id again = op_device_id o' \<and> op_removed again = 0))"
  using skeletal_opens [OF assms(1)] opens_skeletal [OF assms(1,2)] reopen [OF assms(1) _ assms(3)] by blast

section \<open>Witnesses\<close>

text \<open>A listing in alphabetical order, and no white space.\<close>

definition sorted_env :: open_env where
  "sorted_env = \<lparr>oe_ls = sorted_list_of_fset, oe_trim = (\<lambda>s. s)\<rparr>"

lemma sorted_env_ok: "ls_ok sorted_env" "trim_ok sorted_env f"
  by (simp_all add: ls_ok_def trim_ok_def sorted_env_def sorted_list_of_fset.rep_eq)

definition stamped_tree :: tree where
  "stamped_tree = fmap_of_list [([], Dir), ([keeplin], Dir), (stamp_path, File ''8''), ([''logs''], Dir), ([''logs'', ''a.tmp''], File ''b'')]"

theorem opening_keeps_the_store_witness:
  "\<exists>r t'. open_store sorted_env ''A'' stamped_tree = (r, t') \<and> fmlookup t' stamp_path = Some (File ''8'')"
proof -
  obtain r t' where o: "open_store sorted_env ''A'' stamped_tree = (r, t')" by fastforce
  have "fmlookup stamped_tree stamp_path = Some (File ''8'')" by (simp add: stamped_tree_def stamp_path_def)
  moreover have "\<not> orphan_path stamp_path" by (simp add: orphan_path_def stamp_path_def)
  ultimately show ?thesis using opening_keeps_the_store [OF sorted_env_ok(1) o] o by blast
qed

theorem opening_is_repeatable_witness:
  "\<exists>o' t' again. open_store sorted_env ''A'' fmempty = (Inr o', t') \<and> open_store sorted_env ''B'' t' = (Inr again, t') \<and>
     op_device_id again = op_device_id o'"
proof -
  have "tree_wf fmempty" "skeletal fmempty" by (simp_all add: tree_wf_def skeletal_def)
  then show ?thesis using opening_is_repeatable [OF sorted_env_ok(1) _ sorted_env_ok(2), of fmempty "''A''" "''B''"] by fastforce
qed

end
