(* ===== verification/Spec2Isabelle.thy ===== *)
theory Spec2Isabelle
  imports Register Collab_State Format Pagination Db_Resequence Sync_Engine History Migrate Db_Linking
    Fs_Delivery Fs_Compact Interop_Laws Db_Encryption Db_Collab Db_Search Services Fs_Open
begin

text \<open>
  A verification library for Keeplin, a note store that synchronises between devices: the crate
  \<open>keeplin-core\<close> (paths without a crate below are under \<open>src/keeplin-core/src\<close>) and the daemon
  \<open>keeplin-daemon\<close> (\<open>daemon/\<close> below stands for \<open>src/keeplin-daemon/src\<close>).

  \<^bold>\<open>The program.\<close> A device keeps notes, notebooks, tags, tag associations and attached resources either in
  a SQL database (\<open>storage/db\<close>) or in a directory tree (\<open>storage/fs\<close>), behind one storage interface
  (\<open>storage/backend.rs\<close>). Each record carries a version vector, a timestamp and the device that wrote it last.
  Local operations append \<open>Change\<close> values to a journal; changes travel between devices, over a server
  (\<open>sync/engine.rs\<close>, \<open>storage/db/sync.rs\<close>) or by replicating the directory, and are applied with
  last-writer-wins resolution (\<open>note_log::resolve\<close>), or, for notes in the directory, by merging per-device
  operation logs (\<open>note_log::merge\<close>). Decorators of the interface add encryption (\<open>encryption.rs\<close>), aliases and
  links (\<open>linking.rs\<close>), collaborative editing over a server (\<open>collab\<close>), published changes and counters
  (\<open>daemon/event_backend.rs\<close>, \<open>daemon/metrics.rs\<close>). The daemon indexes the notes (\<open>daemon/search.rs\<close>), checks its
  configuration and its callers (\<open>daemon/config.rs\<close>, \<open>daemon/auth.rs\<close>), and serves the stack over gRPC and REST
  (\<open>daemon/server.rs\<close>, \<open>daemon/rest.rs\<close>).

  \<^bold>\<open>Foundations.\<close>
  \<^item> \<open>Prelude\<close>, \<open>Text_Util\<close>, \<open>Utf8\<close>: machine types (\<open>u32\<close> as 32-bit words), results as sums, operations as
    functions from a state to a result and a state, and what the sources use of the standard library.
  \<^item> \<open>Models\<close>: \<open>models.rs\<close>, \<open>error.rs\<close>, the records of \<open>links.rs\<close>. An identifier is a number, a timestamp an
    integer (nanoseconds), error messages are dropped. \<open>Format\<close>: \<open>format.rs\<close>, the limits.
  \<^item> \<open>Storage\<close>: the traits as the record \<open>backend\<close> of operations over a state, with the default methods;
    \<open>Pagination\<close>: \<open>storage/fs/pagination.rs\<close>, with the locale \<open>pager\<close> for complete walks over pages.
  \<^item> \<open>Version_Vectors\<close>, \<open>Note_Log\<close>, \<open>Register\<close>: \<open>storage/note_log.rs\<close>. A vector is an association map with
    explicit zeros, since the code distinguishes them; a panic is a value. The locales \<open>stamp_store\<close> and
    \<open>lww_store\<close> state the contract of a store resolved by \<open>resolve\<close>.

  \<^bold>\<open>The SQL store.\<close>
  \<^item> \<open>Db_Store\<close>, \<open>Db_Sync\<close>, \<open>Db_Remote\<close>, \<open>Db_Backend\<close>: \<open>storage/db\<close>. The record \<open>Db\<close> holds the tables as finite
    maps by primary key, the link index, the journal, the sync state, the connection and a clock: the
    \<open>n\<close>-th reading of the time is \<open>db_clock n\<close>. A transaction is a function whose error result restores the state
    before it. \<open>Db_Remote\<close> has the sending and receiving of changes and the histories.
  \<^item> \<open>Db_Invariant\<close>: the states reachable by any operations, and their invariant. \<open>Db_Contents\<close>: the store
    does not look at the texts and payloads it keeps.
  \<^item> \<open>Ordering\<close>, \<open>Db_Resequence\<close>: \<open>ordering.rs\<close> over any backend (locale \<open>note_repo\<close>) and its renumbering on the SQL
    backend. \<open>Sync_Engine\<close>: \<open>sync/engine.rs\<close>. \<open>History\<close>: \<open>history.rs\<close>. \<open>Migrate\<close>: \<open>migrate.rs\<close>.

  \<^bold>\<open>The directory store.\<close>
  \<^item> \<open>Fs_Open\<close>: \<open>storage/fs/lifecycle.rs\<close>, over a tree of directories and files.
  \<^item> \<open>Fs_Store\<close>, \<open>Fs_Journal\<close>, \<open>Fs_Entities\<close>, \<open>Fs_Notes\<close>, \<open>Fs_Sync\<close>: the files as values (readable, or corrupt),
    the journals with the byte lengths of their lines, the entities, the notes with their logs and metadata
    index, and the application of changes.
  \<^item> \<open>Fs_Delivery\<close>, \<open>Fs_Compact\<close>, \<open>Fs_Note_Laws\<close>, \<open>Fs_Agree\<close>: delivery of journal entries, compaction, the laws of
    writing notes, and the agreement with the SQL store.

  \<^bold>\<open>Links, contacts, decorators.\<close>
  \<^item> \<open>Links\<close>, \<open>Alias_Index\<close>, \<open>Linking\<close>, \<open>Linking_Laws\<close>, \<open>Db_Linking\<close>: \<open>links.rs\<close> and \<open>linking.rs\<close>; the regular
    expressions are written as scanners, the decorator's state is the store with its optional index.
  \<^item> \<open>Interop\<close>, \<open>Interop_Store\<close>, \<open>Interop_Laws\<close>: \<open>interop.rs\<close>, the text forms and the stored resources.
  \<^item> \<open>Encryption\<close>, \<open>Db_Encryption\<close>: \<open>encryption.rs\<close> over any cipher that opens what it seals.
  \<^item> \<open>Collab_State\<close>, \<open>Collab_Client\<close>, \<open>Collab_Laws\<close>, \<open>Db_Collab\<close>: \<open>collab/state.rs\<close>, \<open>collab/protocol.rs\<close>,
    \<open>collab/mod.rs\<close> and \<open>compat.rs\<close>; the state is the inner store with the lines of every open note, the
    suppressed notes and the messages queued.

  \<^bold>\<open>The daemon.\<close>
  \<^item> \<open>Daemon_Stack\<close>: the publishing and the counting decorator, over any backend. \<open>Search\<close>, \<open>Db_Search\<close>: the index
    and its task. \<open>Access\<close>: credentials, configuration, the checks before serving.
  \<^item> \<open>Rpc\<close>, \<open>Rest\<close>, \<open>Services\<close>: every handler of the two services over any backend, and their agreement.

  \<^bold>\<open>What the lemmas show.\<close> Merging logs yields the least upper bound of the vectors and the latest undominated
  version, for any order of the logs, and survives compaction. Resolution converges on replicas whose
  clocks respect causality, but is not associative without that. The SQL store applies changes
  idempotently and converges; the change a local operation records reproduces the operation on another
  replica; a deletion's resource cascade is undone by an undeletion; a round loses no change. Directory
  readers get every journal entry once, a compacted journal still carries everything, a written note
  supersedes what was read, and directory and database agree on what they apply. Aliases stay unique on a device and
  the alias index is always what a rebuild would give. Encryption refines the plain store. The stored body
  of a collaboratively edited note is the text of its lines, and what comes from the server is
  not sent back. Cards, to-dos, bookmarks and messages are read back as written. Opening a directory keeps what
  is in it and can be repeated. The search index settles to the live notes; the two services do the same;
  a daemon reachable from elsewhere asks for credentials. The deviations found are stated as
  theorems or lemmas, most of them on concrete instances.

  \<^bold>\<open>Interfaces.\<close> Where a component relies on another, the contract is a locale, interpreted on the model of the
  provider: \<open>pager\<close> (pages), \<open>note_repo\<close> (notes under ordering) and its extension \<open>body_store\<close> (collaboration),
  \<open>stamp_store\<close> and \<open>lww_store\<close> (resolution), \<open>alias_repo\<close> (links), \<open>content_map\<close> (encryption) and
  \<open>note_reader\<close> (search).

  \<^bold>\<open>Bounds and fuel.\<close> The loops over pages whose end depends on the backend take fuel (a number of pages) and
  return \<open>None\<close> when it is used up; the theorems on the SQL store give the fuel that is enough, a page more than
  the rows need (\<open>row_count\<close>, \<open>listable\<close>), while the renumbering walk of \<open>Db_Resequence\<close> is shown to exhaust
  any fuel up to 42949. Where a record field leaves no room for \<open>None\<close> (the default methods of the traits
  in the decorators) running out is the error \<open>Panic\<close>, which no branch of the code returns. All other recursions
  are total.

  \<^bold>\<open>Parameters.\<close> What is not under \<open>src/\<close> is an argument of the definitions that use it: the renderings of identifiers
  and timestamps (\<open>uuid\<close>, \<open>chrono\<close>; \<open>text_codec\<close>, \<open>date_text\<close>, \<open>rpc_text\<close>), with the hypotheses that they are read back
  and ordered like the values; fresh identifiers and readings of clocks; the Unicode white space (\<open>unicode\<close>); the order of
  directory listings, the lengths of encoded lines and the hash of payloads (\<open>fs_env\<close>, \<open>open_env\<close>); the
  cipher, its nonces and Base64; the outcome of each network call, the history a server returns, the results of HTTP
  requests and the arrival of messages (\<open>remote\<close>, \<open>collab_env\<close>); the full-text engine (\<open>fts\<close>); the parsing of socket
  addresses. The laws about a collaboration server hold for messages it may send (\<open>msg_ok\<close>). A rebuild of the search
  index is one step, and the laws of the index count the writes of this device: changes received from others
  are not published to it.

  \<^bold>\<open>Not modelled.\<close> Failures of the database engine and of the file system other than those the code tells apart, since
  no guarantee of the code depends on them except through the rollback that is modelled; the upgrades of older schemas;
  JSON, TOML and protocol-buffer encodings, which are libraries and are values here; the router, TLS, sockets, the
  directory lock and the run loop of the daemon, which are input and output; the requests for permissions that the
  collaborative client passes on. The refinement of the encrypting backend leaves out the listing of a note's
  resources and the histories.
\<close>

end
